(* ===== verification/Prelude.thy ===== *)
theory Prelude
  imports Main "HOL-Library.Word" "HOL-Library.Char_ord" "HOL-Library.List_Lexorder"
begin

text \<open>
  What every component of the development shares: the machine integers and byte buffers of
  the sources, the status value every operation returns, the outcome of code that may hit a
  failed assertion, the decimal formatting of error messages, and the ordered map
  (\<^verbatim>\<open>std::map\<close> with its comparator) that the components keep their tables in.

  The laws of the ordered map are proved once, in the locale \<open>comparator\<close>, for any strict
  total order on the keys; the components use them at the comparator of their own key type.
\<close>

unbundle bit_operations_syntax

section \<open>Machine integers and byte buffers\<close>

type_synonym u8 = "8 word"
type_synonym u32 = "32 word"
type_synonym u64 = "64 word"

text \<open>\<^verbatim>\<open>butil::IOBuf\<close> as the sequence of bytes it holds.\<close>

type_synonym iobuf = "u8 list"

named_theorems outcome_simps \<open>rewriting of computations that may abort\<close>
named_theorems errno_defs \<open>the numeric values of the error codes and open flags\<close>

section \<open>Status values and error codes\<close>

text \<open>
  \<^verbatim>\<open>pain::Status\<close> is \<^verbatim>\<open>butil::Status\<close> (\<^verbatim>\<open>include/pain/base/types.h\<close>): an error code and a
  message, with code 0 for success.
\<close>

datatype status = Status (error_code: int) (error_str: string)

definition status_OK :: status where
  "status_OK = Status 0 ''OK''"

definition st_ok :: "status \<Rightarrow> bool" where
  "st_ok st \<longleftrightarrow> error_code st = 0"

definition EPERM :: int where [errno_defs]: "EPERM = 1"
definition ENOENT :: int where [errno_defs]: "ENOENT = 2"
definition EIO :: int where [errno_defs]: "EIO = 5"
definition EAGAIN :: int where [errno_defs]: "EAGAIN = 11"
definition EEXIST :: int where [errno_defs]: "EEXIST = 17"
definition ENODEV :: int where [errno_defs]: "ENODEV = 19"
definition EINVAL :: int where [errno_defs]: "EINVAL = 22"

text \<open>The open flags of \<^verbatim>\<open>fcntl.h\<close> (Linux values).\<close>

definition O_RDONLY :: u32 where [errno_defs]: "O_RDONLY = 0"
definition O_WRONLY :: u32 where [errno_defs]: "O_WRONLY = 1"
definition O_RDWR :: u32 where [errno_defs]: "O_RDWR = 2"
definition O_CREAT :: u32 where [errno_defs]: "O_CREAT = 64"
definition O_EXCL :: u32 where [errno_defs]: "O_EXCL = 128"
definition O_TRUNC :: u32 where [errno_defs]: "O_TRUNC = 512"

section \<open>Computations that may abort\<close>

text \<open>
  A failed \<^verbatim>\<open>BOOST_ASSERT\<close> stops the process (\<^verbatim>\<open>src/base/boost_assert.cc\<close>), and so does
  dereferencing a null pointer: both are the outcome \<open>Abort\<close>.
\<close>

datatype 'a outcome = Done 'a | Abort string

fun obind :: "'a outcome \<Rightarrow> ('a \<Rightarrow> 'b outcome) \<Rightarrow> 'b outcome" where
  "obind (Done x) f = f x"
| "obind (Abort e) f = Abort e"

definition boost_assert :: "bool \<Rightarrow> string \<Rightarrow> unit outcome" where
  "boost_assert b msg = (if b then Done () else Abort msg)"

section \<open>Decimal formatting\<close>

text \<open>\<^verbatim>\<open>std::format\<close> of an unsigned integer.\<close>

fun dec_str :: "nat \<Rightarrow> string" where
  "dec_str n = (if n < 10 then [char_of (48 + n)] else dec_str (n div 10) @ [char_of (48 + n mod 10)])"

declare dec_str.simps [simp del]

text \<open>A byte that went through a character.\<close>

lemma word_of_nat_mod_256 [simp]: "word_of_nat (unat (b :: u8) mod 256) = b"
proof -
  have "unat b < 256" using unsigned_less [of b, where 'a = nat] by simp
  then show ?thesis by simp
qed

section \<open>C strings\<close>

text \<open>The C string at the beginning of a buffer: up to the first null character.\<close>

definition c_str :: "string \<Rightarrow> string" where
  "c_str s = takeWhile (\<lambda>c. c \<noteq> CHR 0x00) s"

section \<open>Ordered maps\<close>

text \<open>
  \<^verbatim>\<open>std::map<K, V, Compare>\<close>: the elements in the order of the comparator, which is an
  argument of every operation. \<^verbatim>\<open>find\<close> is \<open>om_find\<close>, assignment through \<^verbatim>\<open>operator[]\<close> is
  \<open>om_set\<close>, \<^verbatim>\<open>erase\<close> is \<open>om_erase\<close>, and \<open>om_lower_bound\<close> is the range from the
  iterator \<^verbatim>\<open>lower_bound\<close> returns to \<^verbatim>\<open>end()\<close>.
\<close>

type_synonym ('k, 'v) omap = "('k \<times> 'v) list"

fun om_find :: "('k \<Rightarrow> 'k \<Rightarrow> bool) \<Rightarrow> ('k, 'v) omap \<Rightarrow> 'k \<Rightarrow> 'v option" where
  "om_find lt [] k = None"
| "om_find lt ((a, v) # m) k =
     (if lt a k then om_find lt m k else if lt k a then None else Some v)"

fun om_set :: "('k \<Rightarrow> 'k \<Rightarrow> bool) \<Rightarrow> ('k, 'v) omap \<Rightarrow> 'k \<Rightarrow> 'v \<Rightarrow> ('k, 'v) omap" where
  "om_set lt [] k v = [(k, v)]"
| "om_set lt ((a, w) # m) k v =
     (if lt a k then (a, w) # om_set lt m k v
      else if lt k a then (k, v) # (a, w) # m else (a, v) # m)"

fun om_erase :: "('k \<Rightarrow> 'k \<Rightarrow> bool) \<Rightarrow> ('k, 'v) omap \<Rightarrow> 'k \<Rightarrow> ('k, 'v) omap" where
  "om_erase lt [] k = []"
| "om_erase lt ((a, w) # m) k =
     (if lt a k then (a, w) # om_erase lt m k else if lt k a then (a, w) # m else m)"

definition om_lower_bound :: "('k \<Rightarrow> 'k \<Rightarrow> bool) \<Rightarrow> ('k, 'v) omap \<Rightarrow> 'k \<Rightarrow> ('k, 'v) omap" where
  "om_lower_bound lt m k = dropWhile (\<lambda>e. lt (fst e) k) m"

text \<open>The well-formedness \<^verbatim>\<open>std::map\<close> keeps: the keys strictly increase.\<close>

definition om_sorted :: "('k \<Rightarrow> 'k \<Rightarrow> bool) \<Rightarrow> ('k, 'v) omap \<Rightarrow> bool" where
  "om_sorted lt m \<longleftrightarrow> sorted_wrt lt (map fst m)"

text \<open>
  A reference obtained through \<^verbatim>\<open>operator[]\<close>: the value stored under the key, after inserting the
  default value of its type when the key was absent.
\<close>

definition om_index :: "('k \<Rightarrow> 'k \<Rightarrow> bool) \<Rightarrow> ('k, 'v) omap \<Rightarrow> 'k \<Rightarrow> 'v \<Rightarrow> 'v \<times> ('k, 'v) omap" where
  "om_index lt m k d = (case om_find lt m k of Some v \<Rightarrow> (v, m) | None \<Rightarrow> (d, om_set lt m k d))"

section \<open>The external buffer class\<close>

text \<open>
  \<^verbatim>\<open>butil::IOBuf\<close> belongs to an external library. Its two operations with a documented range
  behaviour are arguments of the model: \<open>io_append_to x n pos\<close> is what
  \<^verbatim>\<open>x.append_to(buf, n, pos)\<close> appends to \<open>buf\<close>, and \<open>io_cutn x n\<close> is the pair of what
  \<^verbatim>\<open>x.cutn(out, n)\<close> moves to \<open>out\<close> and what it leaves in \<open>x\<close>.
\<close>

record iobuf_lib =
  io_append_to :: "iobuf \<Rightarrow> u64 \<Rightarrow> u64 \<Rightarrow> iobuf"
  io_cutn :: "iobuf \<Rightarrow> nat \<Rightarrow> iobuf \<times> iobuf"

locale iobuf_library =
  fixes I :: iobuf_lib
  assumes append_to: "io_append_to I x n pos = take (unat n) (drop (unat pos) x)"
    and cutn: "io_cutn I x k = (take k x, drop k x)"

definition byte_seq_lib :: iobuf_lib where
  "byte_seq_lib = \<lparr>io_append_to = (\<lambda>x n pos. take (unat n) (drop (unat pos) x)),
     io_cutn = (\<lambda>x k. (take k x, drop k x))\<rparr>"

interpretation byte_seq: iobuf_library byte_seq_lib
  by unfold_locales (simp_all add: byte_seq_lib_def)

section \<open>Lemmas on status values and outcomes\<close>

lemma st_ok_OK [simp]: "st_ok status_OK"
  by (simp add: st_ok_def status_OK_def)

lemma st_ok_Status [simp]: "st_ok (Status e msg) \<longleftrightarrow> e = 0"
  by (simp add: st_ok_def)

lemma errno_nonzero [simp]:
  "EPERM \<noteq> 0" "ENOENT \<noteq> 0" "EIO \<noteq> 0" "EAGAIN \<noteq> 0" "EEXIST \<noteq> 0" "ENODEV \<noteq> 0" "EINVAL \<noteq> 0"
  by (simp_all add: errno_defs)

lemma obind_eq_Done [outcome_simps]:
  "obind m f = Done y \<longleftrightarrow> (\<exists>x. m = Done x \<and> f x = Done y)"
  by (cases m) auto

lemma boost_assert_Done [outcome_simps]: "boost_assert b msg = Done u \<longleftrightarrow> b"
  by (simp add: boost_assert_def)

lemma boost_assert_True [simp]: "boost_assert True msg = Done ()"
  by (simp add: boost_assert_def)

section \<open>Lemmas on lists and words\<close>

text \<open>The bytes at an offset of a buffer, and how appending leaves them alone.\<close>

abbreviation bytes_at :: "nat \<Rightarrow> nat \<Rightarrow> 'a list \<Rightarrow> 'a list" where
  "bytes_at off n xs \<equiv> take n (drop off xs)"

lemma bytes_at_append_old:
  assumes "off + n \<le> length xs"
  shows "bytes_at off n (xs @ ys) = bytes_at off n xs"
  using assms by simp

lemma bytes_at_append_new [simp]: "bytes_at (length xs) (length ys) (xs @ ys @ zs) = ys"
  by simp

lemma bytes_at_then_drop: "bytes_at m n xs @ drop (m + n) xs = drop m xs"
  using append_take_drop_id [of n "drop m xs"] by (simp add: add.commute)

lemma take_eq_prefix: "length p = n \<Longrightarrow> take n xs = p \<longleftrightarrow> (\<exists>ys. xs = p @ ys)"
  by (metis append_eq_conv_conj append_take_drop_id)

lemma bytes_at_full_length: "length (bytes_at off n xs) = n \<Longrightarrow> n = 0 \<or> off + n \<le> length xs"
  by (auto simp: min_def split: if_splits)

lemma word_of_nat_append [simp]:
  "word_of_nat (length (xs @ ys)) = (word_of_nat (length xs) + word_of_nat (length ys) :: 'a::len word)"
  by simp

lemma unat_of_nat_u64: "n < 2 ^ 64 \<Longrightarrow> unat (word_of_nat n :: u64) = n"
  by (simp add: unat_of_nat take_bit_nat_eq_self)

lemma unat_u32_u64: "n < 2 ^ 32 \<Longrightarrow> unat (ucast (word_of_nat n :: u32) :: u64) = n"
  by (simp add: unsigned_ucast_eq unat_of_nat take_bit_nat_eq_self)

section \<open>The laws of ordered maps\<close>

locale comparator =
  fixes lt :: "'k \<Rightarrow> 'k \<Rightarrow> bool"
  assumes lt_irrefl: "\<not> lt a a"
    and lt_trans: "lt a b \<Longrightarrow> lt b c \<Longrightarrow> lt a c"
    and lt_total: "a \<noteq> b \<Longrightarrow> lt a b \<or> lt b a"
begin

lemma lt_asym: "lt a b \<Longrightarrow> \<not> lt b a"
  using lt_irrefl lt_trans by blast

lemma om_sorted_Cons:
  "om_sorted lt (e # m) \<longleftrightarrow> (\<forall>x\<in>set m. lt (fst e) (fst x)) \<and> om_sorted lt m"
  by (auto simp: om_sorted_def)

lemma om_find_above: "\<forall>x\<in>set m. lt k (fst x) \<Longrightarrow> om_find lt m k = None"
  by (cases m) (auto dest: lt_asym)

lemma om_find_eq_map_of: "om_sorted lt m \<Longrightarrow> om_find lt m = map_of m"
proof (induction m)
  case Nil
  then show ?case by auto
next
  case (Cons e m)
  obtain a v where e: "e = (a, v)" by (cases e)
  have IH: "om_find lt m = map_of m" and above: "\<forall>x\<in>set m. lt a (fst x)"
    using Cons by (auto simp: om_sorted_Cons e)
  show ?case
  proof
    fix k
    have "lt k a \<Longrightarrow> om_find lt m k = None"
      using above by (intro om_find_above) (auto intro: lt_trans)
    then show "om_find lt (e # m) k = map_of (e # m) k"
      using lt_total [of a k] lt_irrefl by (auto simp: e IH dest: lt_asym)
  qed
qed

lemma keys_om_set [simp]: "fst ` set (om_set lt m k v) = insert k (fst ` set m)"
proof (induction m)
  case (Cons e m)
  then show ?case using lt_total [of "fst e" k] by (cases e) auto
qed auto

lemma om_find_set: "om_find lt (om_set lt m k v) j = (if j = k then Some v else om_find lt m j)"
proof (induction m)
  case Nil
  then show ?case using lt_total [of j k] by (auto simp: lt_irrefl)
next
  case (Cons e m)
  obtain a w where e: "e = (a, w)" by (cases e)
  consider "lt a k" "\<not> lt k a" | "\<not> lt a k" "lt k a" | "a = k" "\<not> lt a k"
    using lt_total [of a k] lt_irrefl lt_asym by blast
  then show ?case
  proof cases
    case 1
    then show ?thesis using Cons by (auto simp: e)
  next
    case 2
    then show ?thesis
      using lt_total [of j k] by (auto simp: e lt_irrefl dest: lt_asym lt_trans)
  next
    case 3
    then show ?thesis using lt_total [of j k] by (auto simp: e)
  qed
qed

lemma om_sorted_set: "om_sorted lt m \<Longrightarrow> om_sorted lt (om_set lt m k v)"
proof (induction m)
  case Nil
  then show ?case by (simp add: om_sorted_def)
next
  case (Cons e m)
  obtain a w where e: "e = (a, w)" by (cases e)
  have keys: "\<And>x. x \<in> set (om_set lt m k v) \<Longrightarrow> fst x = k \<or> (\<exists>y\<in>set m. fst y = fst x)"
    using keys_om_set [of m k v] by (metis (no_types, lifting) imageE imageI insertE)
  show ?case
    using Cons keys lt_total [of a k]
    by (auto simp: e om_sorted_Cons intro: lt_trans) metis+
qed

lemma set_om_erase_subset: "set (om_erase lt m k) \<subseteq> set m"
  by (induction m) (auto split: if_splits)

lemma om_sorted_erase: "om_sorted lt m \<Longrightarrow> om_sorted lt (om_erase lt m k)"
proof (induction m)
  case (Cons e m)
  then show ?case
    using set_om_erase_subset [of m k] by (cases e) (auto simp: om_sorted_Cons)
qed (simp add: om_sorted_def)

lemma om_find_erase:
  "om_sorted lt m \<Longrightarrow> om_find lt (om_erase lt m k) j = (if j = k then None else om_find lt m j)"
proof (induction m)
  case Nil
  then show ?case by simp
next
  case (Cons e m)
  obtain a w where e: "e = (a, w)" by (cases e)
  have above: "\<forall>x\<in>set m. lt a (fst x)" and IH: "om_find lt (om_erase lt m k) j =
      (if j = k then None else om_find lt m j)"
    using Cons by (auto simp: om_sorted_Cons e)
  consider "lt a k" "\<not> lt k a" | "\<not> lt a k" "lt k a" | "a = k" "\<not> lt a k"
    using lt_total [of a k] lt_irrefl lt_asym by blast
  then show ?case
  proof cases
    case 1
    then show ?thesis using IH by (auto simp: e)
  next
    case 2
    then show ?thesis by (auto simp: e)
  next
    case 3
    have "\<not> lt k j \<Longrightarrow> om_find lt m j = None"
      using above 3 lt_total [of j k]
      by (intro om_find_above) (auto intro: lt_trans)
    then show ?thesis using 3 lt_total [of j k] by (auto simp: e lt_irrefl)
  qed
qed

lemma om_lower_bound_filter:
  "om_sorted lt m \<Longrightarrow> om_lower_bound lt m k = filter (\<lambda>e. \<not> lt (fst e) k) m"
proof (induction m)
  case (Cons e m)
  then have "\<not> lt (fst e) k \<Longrightarrow> \<forall>x\<in>set m. \<not> lt (fst x) k"
    by (auto simp: om_sorted_Cons dest: lt_trans)
  then have "\<not> lt (fst e) k \<Longrightarrow> filter (\<lambda>x. \<not> lt (fst x) k) m = m"
    by (simp add: filter_id_conv)
  with Cons show ?case by (auto simp: om_lower_bound_def om_sorted_Cons)
qed (simp add: om_lower_bound_def)

lemma om_sorted_Nil [simp]: "om_sorted lt []"
  by (simp add: om_sorted_def)

lemma om_index_eq: "om_index lt m k d = (v, m') \<Longrightarrow>
    v = (case om_find lt m k of Some w \<Rightarrow> w | None \<Rightarrow> d) \<and>
    om_find lt m' j = (if j = k then Some v else om_find lt m j) \<and> (om_sorted lt m \<longrightarrow> om_sorted lt m')"
  by (auto simp: om_index_def om_find_set om_sorted_set split: option.splits)

lemma sorted_wrt_distinct: "sorted_wrt lt xs \<Longrightarrow> distinct xs"
  by (induction xs) (auto simp: lt_irrefl)

lemma take_sorted_page:
  assumes "sorted_wrt lt ys"
  shows "sorted_wrt lt (take n ys) \<and> set (take n ys) \<subseteq> set ys \<and> length (take n ys) = min n (card (set ys)) \<and>
    (\<forall>u\<in>set (take n ys). \<forall>v\<in>set ys - set (take n ys). lt u v)"
proof -
  have "sorted_wrt lt (take n ys @ drop n ys)" using assms by simp
  moreover have "set ys = set (take n ys) \<union> set (drop n ys)" by (metis append_take_drop_id set_append)
  moreover have "card (set ys) = length ys" using assms sorted_wrt_distinct distinct_card by blast
  ultimately show ?thesis unfolding sorted_wrt_append by (auto simp: min.commute)
qed

lemma om_find_None_iff: "om_sorted lt m \<Longrightarrow> om_find lt m k = None \<longleftrightarrow> k \<notin> fst ` set m"
  by (simp add: om_find_eq_map_of map_of_eq_None_iff)

end

text \<open>
  \<^verbatim>\<open>std::string\<close> keys compare bytewise, which is the order of \<open>HOL-Library.List_Lexorder\<close> over
  \<open>HOL-Library.Char_ord\<close>.
\<close>

definition string_lt :: "string \<Rightarrow> string \<Rightarrow> bool" where
  "string_lt a b \<longleftrightarrow> a < b"

interpretation str: comparator string_lt
  by unfold_locales (auto simp: string_lt_def)

end
