(* ===== verification/Store.thy ===== *)
theory Store
  imports Prelude
begin

text \<open>
  The storage interface of a chunk server: \<^verbatim>\<open>src/manusya/store.h\<close> and
  \<^verbatim>\<open>src/manusya/file_handle.h\<close>. The abstract class is its table of virtual functions, a record
  over the state \<open>'s\<close> of a store and its file handles \<open>'h\<close>. A pointer argument is an
  \<open>option\<close> (\<open>None\<close> is the null pointer); a pointer to a result is the option of what it points
  at, and the call returns what it points at afterwards. Every call returns its status, the result
  and the new state of the store, or aborts. Every operation returns a ready future, on which the
  callers call \<^verbatim>\<open>get\<close> at once. \<open>vt_for_each\<close> is the list of paths that are handed to the callback.

  What a chunk relies on is the locale \<open>file_store\<close>: a store keeps, for every path, the bytes of
  a file; \<open>hpath\<close> is the path of a handle opened for appending and \<open>rpath\<close> that of one opened for
  reading (the two are kept apart because a read through a POSIX descriptor moves the position the
  next write goes to). Operations may fail, and then leave the files alone.
\<close>

section \<open>Definitions\<close>

type_synonym ('s, 'r) io = "(status \<times> 'r \<times> 's) outcome"

record ('s, 'h) store_vt =
  vt_open :: "'s \<Rightarrow> string option \<Rightarrow> u32 \<Rightarrow> 'h option option \<Rightarrow> ('s, 'h option option) io"
  vt_append :: "'s \<Rightarrow> 'h option \<Rightarrow> u64 \<Rightarrow> iobuf \<Rightarrow> ('s, unit) io"
  vt_read :: "'s \<Rightarrow> 'h option \<Rightarrow> u64 \<Rightarrow> u64 \<Rightarrow> iobuf option \<Rightarrow> ('s, iobuf option) io"
  vt_seal :: "'s \<Rightarrow> 'h option \<Rightarrow> ('s, unit) io"
  vt_size :: "'s \<Rightarrow> 'h option \<Rightarrow> u64 option \<Rightarrow> ('s, u64 option) io"
  vt_remove :: "'s \<Rightarrow> string option \<Rightarrow> ('s, unit) io"
  vt_set_attr :: "'s \<Rightarrow> 'h option \<Rightarrow> string option \<Rightarrow> string option \<Rightarrow> ('s, unit) io"
  vt_get_attr :: "'s \<Rightarrow> 'h option \<Rightarrow> string option \<Rightarrow> string option \<Rightarrow> ('s, string option) io"
  vt_list_attrs :: "'s \<Rightarrow> 'h option \<Rightarrow> (string, string) omap option \<Rightarrow> ('s, (string, string) omap option) io"
  vt_for_each :: "'s \<Rightarrow> string list"

text \<open>
  \<^verbatim>\<open>FileHandle\<close> forwards its member functions to the store that opened it; a member call through
  an empty \<^verbatim>\<open>FileHandlePtr\<close> is a null dereference.
\<close>

definition fh_append :: "('s, 'h) store_vt \<Rightarrow> 's \<Rightarrow> 'h option \<Rightarrow> u64 \<Rightarrow> iobuf \<Rightarrow> ('s, unit) io" where
  "fh_append V s fh off buf =
     (case fh of None \<Rightarrow> Abort ''null FileHandle'' | Some h \<Rightarrow> vt_append V s (Some h) off buf)"

definition fh_read ::
  "('s, 'h) store_vt \<Rightarrow> 's \<Rightarrow> 'h option \<Rightarrow> u64 \<Rightarrow> u64 \<Rightarrow> iobuf option \<Rightarrow> ('s, iobuf option) io" where
  "fh_read V s fh off n buf =
     (case fh of None \<Rightarrow> Abort ''null FileHandle'' | Some h \<Rightarrow> vt_read V s (Some h) off n buf)"

definition fh_seal :: "('s, 'h) store_vt \<Rightarrow> 's \<Rightarrow> 'h option \<Rightarrow> ('s, unit) io" where
  "fh_seal V s fh = (case fh of None \<Rightarrow> Abort ''null FileHandle'' | Some h \<Rightarrow> vt_seal V s (Some h))"

definition fh_size :: "('s, 'h) store_vt \<Rightarrow> 's \<Rightarrow> 'h option \<Rightarrow> u64 option \<Rightarrow> ('s, u64 option) io" where
  "fh_size V s fh out =
     (case fh of None \<Rightarrow> Abort ''null FileHandle'' | Some h \<Rightarrow> vt_size V s (Some h) out)"

definition fh_set_attr ::
  "('s, 'h) store_vt \<Rightarrow> 's \<Rightarrow> 'h option \<Rightarrow> string option \<Rightarrow> string option \<Rightarrow> ('s, unit) io" where
  "fh_set_attr V s fh key val =
     (case fh of None \<Rightarrow> Abort ''null FileHandle'' | Some h \<Rightarrow> vt_set_attr V s (Some h) key val)"

definition fh_get_attr ::
  "('s, 'h) store_vt \<Rightarrow> 's \<Rightarrow> 'h option \<Rightarrow> string option \<Rightarrow> string option \<Rightarrow> ('s, string option) io" where
  "fh_get_attr V s fh key out =
     (case fh of None \<Rightarrow> Abort ''null FileHandle'' | Some h \<Rightarrow> vt_get_attr V s (Some h) key out)"

definition fh_list_attrs ::
  "('s, 'h) store_vt \<Rightarrow> 's \<Rightarrow> 'h option \<Rightarrow> (string, string) omap option \<Rightarrow>
   ('s, (string, string) omap option) io" where
  "fh_list_attrs V s fh out =
     (case fh of None \<Rightarrow> Abort ''null FileHandle'' | Some h \<Rightarrow> vt_list_attrs V s (Some h) out)"

text \<open>
  \<^verbatim>\<open>Store::create\<close> chooses the implementation by the scheme of the URI; the data path of a local
  store is the rest of the URI.
\<close>

datatype store_kind = LocalStoreAt string | MemStoreKind

definition store_create :: "string \<Rightarrow> store_kind outcome" where
  "store_create uri =
     (if take 8 uri = ''local://'' then Done (LocalStoreAt (drop 8 uri))
      else if take 9 uri = ''memory://'' then Done MemStoreKind
      else Abort (''unknown uri: '' @ uri))"

text \<open>The flags a chunk opens its file with, for writing and for reading.\<close>

definition create_flags :: u32 where
  "create_flags = O_CREAT OR O_RDWR OR O_EXCL"

lemma create_flags_bits:
  "create_flags AND O_EXCL \<noteq> 0" "create_flags AND O_CREAT \<noteq> 0" "create_flags AND O_TRUNC = 0"
  by (simp_all add: create_flags_def errno_defs)

lemma rdonly_bits: "O_RDONLY AND O_EXCL = 0" "O_RDONLY AND O_CREAT = 0" "O_RDONLY AND O_TRUNC = 0"
  by (simp_all add: errno_defs)

section \<open>The contract of a store\<close>

locale file_store =
  fixes V :: "('s, 'h) store_vt"
    and sinv :: "'s \<Rightarrow> bool"
    and files :: "'s \<Rightarrow> string \<Rightarrow> iobuf option"
    and hpath :: "'s \<Rightarrow> 'h \<Rightarrow> string option"
    and rpath :: "'s \<Rightarrow> 'h \<Rightarrow> string option"
  assumes append_spec:
      "sinv s \<Longrightarrow> hpath s h = Some p \<Longrightarrow> files s p = Some bs \<Longrightarrow>
       \<exists>st s'. vt_append V s (Some h) off buf = Done (st, (), s') \<and> sinv s' \<and> hpath s' = hpath s \<and>
         files s' = (if st_ok st then (files s)(p \<mapsto> bs @ buf) else files s)"
    and create_new:
      "sinv s \<Longrightarrow> files s p = None \<Longrightarrow>
       \<exists>st fh' s'. vt_open V s (Some p) create_flags (Some fh) = Done (st, fh', s') \<and> sinv s' \<and>
         (if st_ok st then files s' = (files s)(p \<mapsto> []) \<and> (\<exists>h. fh' = Some (Some h) \<and> hpath s' h = Some p) \<and>
            (\<forall>h q. hpath s h = Some q \<longrightarrow> q \<noteq> p \<longrightarrow> hpath s' h = Some q)
          else files s' = files s \<and> hpath s' = hpath s)"
    and create_exists:
      "sinv s \<Longrightarrow> files s p = Some bs \<Longrightarrow>
       \<exists>st. vt_open V s (Some p) create_flags (Some fh) = Done (st, Some fh, s) \<and> error_code st = EEXIST"
    and open_spec:
      "sinv s \<Longrightarrow> files s p = Some bs \<Longrightarrow>
       \<exists>st fh' s'. vt_open V s (Some p) O_RDONLY (Some fh) = Done (st, fh', s') \<and> sinv s' \<and>
         files s' = files s \<and> (\<forall>h q. hpath s h = Some q \<longrightarrow> hpath s' h = Some q) \<and>
         (st_ok st \<longrightarrow> (\<exists>h. fh' = Some (Some h) \<and> rpath s' h = Some p))"
    and read_spec:
      "sinv s \<Longrightarrow> rpath s h = Some p \<Longrightarrow> files s p = Some bs \<Longrightarrow>
       \<exists>st b' s'. vt_read V s (Some h) off n (Some []) = Done (st, Some b', s') \<and> sinv s' \<and>
         files s' = files s \<and> hpath s' = hpath s \<and>
         (st_ok st \<longrightarrow> unat off + unat n \<le> length bs \<longrightarrow> b' = bytes_at (unat off) (unat n) bs)"
    and seal_spec:
      "sinv s \<Longrightarrow> \<exists>st s'. vt_seal V s (Some h) = Done (st, (), s') \<and> sinv s' \<and>
         files s' = files s \<and> hpath s' = hpath s"
    and size_spec:
      "sinv s \<Longrightarrow> hpath s h = Some p \<Longrightarrow> files s p = Some bs \<Longrightarrow>
       \<exists>st n s'. vt_size V s (Some h) (Some x) = Done (st, Some n, s') \<and> sinv s' \<and> files s' = files s \<and>
         hpath s' = hpath s \<and> (st_ok st \<longrightarrow> n = word_of_nat (length bs))"
    and remove_spec:
      "sinv s \<Longrightarrow> \<exists>st s'. vt_remove V s (Some p) = Done (st, (), s') \<and> sinv s' \<and>
         files s' = (if st_ok st then (files s)(p := None) else files s) \<and>
         (\<forall>h q. hpath s h = Some q \<longrightarrow> q \<noteq> p \<longrightarrow> hpath s' h = Some q)"
    and for_each_spec: "sinv s \<Longrightarrow> set (vt_for_each V s) \<subseteq> dom (files s)"
begin

text \<open>The same facts for calls through a handle, as elimination rules.\<close>

lemma fh_appendE:
  assumes "sinv s" "hpath s h = Some p" "files s p = Some bs"
  obtains st s' where "fh_append V s (Some h) off buf = Done (st, (), s')" "sinv s'" "hpath s' = hpath s"
    "files s' = (if st_ok st then (files s)(p \<mapsto> bs @ buf) else files s)"
  using append_spec [OF assms, of off buf] by (auto simp: fh_append_def)

lemma fh_sealE:
  assumes "sinv s"
  obtains st s' where "fh_seal V s (Some h) = Done (st, (), s')" "sinv s'"
    "files s' = files s" "hpath s' = hpath s"
  using seal_spec [OF assms, of h] by (auto simp: fh_seal_def)

lemma fh_sizeE:
  assumes "sinv s" "hpath s h = Some p" "files s p = Some bs"
  obtains st n s' where "fh_size V s (Some h) (Some x) = Done (st, Some n, s')" "sinv s'"
    "files s' = files s" "hpath s' = hpath s" "st_ok st \<Longrightarrow> n = word_of_nat (length bs)"
  using size_spec [OF assms, of x] by (auto simp: fh_size_def)

lemma fh_readE:
  assumes "sinv s" "rpath s h = Some p" "files s p = Some bs"
  obtains st b' s' where "fh_read V s (Some h) off n (Some []) = Done (st, Some b', s')" "sinv s'"
    "files s' = files s" "hpath s' = hpath s"
    "st_ok st \<Longrightarrow> unat off + unat n \<le> length bs \<Longrightarrow> b' = bytes_at (unat off) (unat n) bs"
  using read_spec [OF assms, of off n] by (auto simp: fh_read_def)

lemma open_rdE:
  assumes "sinv s" "files s p = Some bs"
  obtains st fh' s' where "vt_open V s (Some p) O_RDONLY (Some fh) = Done (st, fh', s')" "sinv s'"
    "files s' = files s" "\<forall>h q. hpath s h = Some q \<longrightarrow> hpath s' h = Some q"
    "st_ok st \<longrightarrow> (\<exists>h. fh' = Some (Some h) \<and> rpath s' h = Some p)"
  using open_spec [OF assms, of fh] by auto

end

section \<open>Properties\<close>

text \<open>
  \<^verbatim>\<open>Store::create\<close> returns a memory store exactly for the URIs that begin with
  \<^verbatim>\<open>memory://\<close> and a local store at \<open>dir\<close> exactly for the URI \<^verbatim>\<open>local://\<close> followed by
  \<open>dir\<close>; every other URI fails the assertion.
\<close>

theorem store_create_schemes:
  "(store_create uri = Done (LocalStoreAt dir) \<longleftrightarrow> uri = ''local://'' @ dir) \<and>
   (store_create uri = Done MemStoreKind \<longleftrightarrow> (\<exists>rest. uri = ''memory://'' @ rest)) \<and>
   (store_create uri = Abort (''unknown uri: '' @ uri) \<longleftrightarrow>
     (\<nexists>rest. uri = ''local://'' @ rest \<or> uri = ''memory://'' @ rest))"
  unfolding store_create_def by (auto simp: take_eq_prefix)

end
