(* ===== verification/Futures.thy ===== *)
theory Futures
  imports Prelude
begin

text \<open>
  Promises and futures: \<^verbatim>\<open>include/pain/base/future.h\<close>. A shared state is pending, holds a
  result or holds an exception; promises and futures are (possibly empty) references to shared
  states in a heap. A blocked \<^verbatim>\<open>get\<close> is the result \<open>Blocks\<close>, a rethrown exception is
  \<open>Throws\<close>. The lemmas show that a result is delivered unchanged, is set at most once, and
  that destroying a promise that was not fulfilled wakes the waiter with an exception.
\<close>

section \<open>The shared state\<close>

datatype 'a future_state = KFuture | KResult 'a | KException string

datatype 'a got = Blocks | Returns 'a | Throws string

fun fs_failed :: "'a future_state \<Rightarrow> bool" where
  "fs_failed (KException e) = True"
| "fs_failed _ = False"

fun fs_available :: "'a future_state \<Rightarrow> bool" where
  "fs_available KFuture = False"
| "fs_available _ = True"

definition fs_set_value :: "'a \<Rightarrow> 'a future_state \<Rightarrow> 'a future_state outcome" where
  "fs_set_value v st = obind (boost_assert (st = KFuture) ''state == State::kFuture'') (\<lambda>_. Done (KResult v))"

definition fs_set_exception :: "string \<Rightarrow> 'a future_state \<Rightarrow> 'a future_state" where
  "fs_set_exception ex st = KException ex"

text \<open>
  \<^verbatim>\<open>get\<close> moves the value out of the shared state, so the state keeps whatever the move
  constructor of the value's type leaves behind: the argument \<open>moved\<close>.
\<close>

fun fs_get :: "('a \<Rightarrow> 'a) \<Rightarrow> 'a future_state \<Rightarrow> 'a got \<times> 'a future_state" where
  "fs_get moved KFuture = (Blocks, KFuture)"
| "fs_get moved (KException ex) = (Throws ex, KException ex)"
| "fs_get moved (KResult v) = (Returns v, KResult (moved v))"

section \<open>Promises and futures\<close>

record 'a future_heap =
  fh_state :: "nat \<Rightarrow> 'a future_state option"
  fh_next :: nat

definition empty_fheap :: "'a future_heap" where
  "empty_fheap = \<lparr>fh_state = (\<lambda>_. None), fh_next = 0\<rparr>"

type_synonym promise = "nat option"
type_synonym future = "nat option"

definition null_deref :: "'a outcome" where
  "null_deref = Abort ''null pointer''"

text \<open>A shared state is used through a reference that may be empty.\<close>

definition with_state ::
  "'a future_heap \<Rightarrow> nat option \<Rightarrow> (nat \<Rightarrow> 'a future_state \<Rightarrow> 'b outcome) \<Rightarrow> 'b outcome" where
  "with_state H p f = (case p of None \<Rightarrow> null_deref
     | Some i \<Rightarrow> (case fh_state H i of None \<Rightarrow> null_deref | Some st \<Rightarrow> f i st))"

definition put_state :: "'a future_heap \<Rightarrow> nat \<Rightarrow> 'a future_state \<Rightarrow> 'a future_heap" where
  "put_state H i st = H\<lparr>fh_state := (fh_state H)(i \<mapsto> st)\<rparr>"

definition promise_new :: "'a future_heap \<Rightarrow> promise \<times> 'a future_heap" where
  "promise_new H = (Some (fh_next H),
     H\<lparr>fh_state := (fh_state H)(fh_next H \<mapsto> KFuture), fh_next := Suc (fh_next H)\<rparr>)"

definition promise_get_future :: "promise \<Rightarrow> future outcome" where
  "promise_get_future p = obind (boost_assert (p \<noteq> None) ''_state'') (\<lambda>_. Done p)"

definition promise_set_value :: "'a future_heap \<Rightarrow> promise \<Rightarrow> 'a \<Rightarrow> 'a future_heap outcome" where
  "promise_set_value H p v = with_state H p (\<lambda>i st. obind (fs_set_value v st) (\<lambda>st'. Done (put_state H i st')))"

definition promise_set_exception :: "'a future_heap \<Rightarrow> promise \<Rightarrow> string \<Rightarrow> 'a future_heap outcome" where
  "promise_set_exception H p ex = with_state H p (\<lambda>i st. Done (put_state H i (fs_set_exception ex st)))"

definition promise_is_ready :: "'a future_heap \<Rightarrow> promise \<Rightarrow> bool outcome" where
  "promise_is_ready H p = with_state H p (\<lambda>i st. Done (fs_available st))"

text \<open>The destructor: an unfulfilled promise is broken.\<close>

definition promise_destroy :: "'a future_heap \<Rightarrow> promise \<Rightarrow> 'a future_heap outcome" where
  "promise_destroy H p = (case p of None \<Rightarrow> Done H
     | Some i \<Rightarrow> with_state H p (\<lambda>i st.
         Done (if fs_available st then H else put_state H i (fs_set_exception ''Broken Promise'' st))))"

text \<open>Move construction: the pair of the new promise and what the moved-from promise holds.\<close>

definition promise_move :: "promise \<Rightarrow> (promise \<times> promise) outcome" where
  "promise_move other = (case other of None \<Rightarrow> null_deref | Some i \<Rightarrow> Done (Some i, None))"

text \<open>
  Move assignment \<^verbatim>\<open>*this = std::move(other)\<close>; \<open>same\<close> says that both sides are one object.
  The state the left side held is released, neither fulfilled nor broken.
\<close>

definition promise_assign :: "bool \<Rightarrow> promise \<Rightarrow> promise \<Rightarrow> (promise \<times> promise) outcome" where
  "promise_assign same this other =
     (if same then Done (this, other)
      else case other of None \<Rightarrow> null_deref | Some i \<Rightarrow> Done (Some i, None))"

definition future_get ::
  "('a \<Rightarrow> 'a) \<Rightarrow> 'a future_heap \<Rightarrow> future \<Rightarrow> ('a got \<times> 'a future_heap) outcome" where
  "future_get moved H f = with_state H f (\<lambda>i st. case fs_get moved st of (g, st') \<Rightarrow> Done (g, put_state H i st'))"

text \<open>
  The local promise of \<^verbatim>\<open>make_ready_future\<close> is destroyed on return, after the future has been
  taken from it.
\<close>

definition make_ready_future :: "'a future_heap \<Rightarrow> 'a \<Rightarrow> (future \<times> 'a future_heap) outcome" where
  "make_ready_future H v =
     (case promise_new H of (p, H1) \<Rightarrow>
        obind (promise_set_value H1 p v) (\<lambda>H2.
        obind (promise_get_future p) (\<lambda>f.
        obind (promise_destroy H2 p) (\<lambda>H3. Done (f, H3)))))"

section \<open>Lemmas\<close>

lemma fs_set_value_Done [outcome_simps]:
  "fs_set_value v st = Done st' \<longleftrightarrow> st = KFuture \<and> st' = KResult v"
  by (auto simp: fs_set_value_def boost_assert_def)

lemma fs_set_value_pending [simp]: "fs_set_value v KFuture = Done (KResult v)"
  by (simp add: fs_set_value_def)

lemma fs_available_iff: "fs_available st \<longleftrightarrow> st \<noteq> KFuture"
  by (cases st) auto

lemmas promise_defs = promise_new_def promise_get_future_def promise_set_value_def
  promise_set_exception_def promise_is_ready_def promise_destroy_def future_get_def
  with_state_def put_state_def fs_set_exception_def null_deref_def

section \<open>Properties\<close>

text \<open>
  \<^verbatim>\<open>make_ready_future(v).get()\<close> neither aborts nor blocks nor throws: it returns \<open>v\<close>,
  and no other shared state is touched.
\<close>

theorem make_ready_future_get:
  "\<exists>f H1 H2. make_ready_future H v = Done (f, H1) \<and> future_get moved H1 f = Done (Returns v, H2) \<and>
     (\<forall>i. i \<noteq> fh_next H \<longrightarrow> fh_state H2 i = fh_state H i)"
  by (simp add: make_ready_future_def promise_defs)

text \<open>Applied at a concrete heap, with another pending promise that stays pending.\<close>

theorem make_ready_future_get_witness:
  "\<exists>f H1 H2. make_ready_future (snd (promise_new empty_fheap)) (7::nat) = Done (f, H1)
     \<and> future_get id H1 f = Done (Returns 7, H2) \<and> fh_state H2 0 = Some KFuture"
  using make_ready_future_get [of "snd (promise_new empty_fheap)" "7::nat" id]
  by (fastforce simp: promise_new_def empty_fheap_def)

text \<open>
  Destroying a promise delivers to its future: a value that was set is still returned,
  an exception that was set is still thrown, and a promise that was never fulfilled makes
  \<^verbatim>\<open>get\<close> throw \<^verbatim>\<open>Broken Promise\<close>. After the destruction no \<^verbatim>\<open>get\<close> blocks.
\<close>

theorem promise_destroy_delivers:
  assumes "fh_state H i = Some st"
  shows "\<exists>H'. promise_destroy H (Some i) = Done H' \<and>
    (\<exists>H''. future_get moved H' (Some i) = Done
      (case st of KFuture \<Rightarrow> Throws ''Broken Promise'' | KResult v \<Rightarrow> Returns v | KException e \<Rightarrow> Throws e, H''))"
  using assms by (cases st) (auto simp: promise_defs)

theorem promise_destroy_delivers_witness:
  "fh_state (snd (promise_new empty_fheap)) 0 = Some (KFuture :: nat future_state) \<and>
   (\<exists>H'. promise_destroy (snd (promise_new empty_fheap)) (Some 0) = Done H' \<and>
     (\<exists>H''. future_get id H' (Some 0) = Done (Throws ''Broken Promise'' :: nat got, H'')))"
proof -
  have st: "fh_state (snd (promise_new empty_fheap)) 0 = Some (KFuture :: nat future_state)"
    by (simp add: promise_new_def empty_fheap_def)
  from st promise_destroy_delivers [OF st, of id] show ?thesis by simp
qed

text \<open>
  A promise is fulfilled at most once: \<^verbatim>\<open>set_value\<close> on a state that is already available
  fails the assertion, on a pending state it succeeds and makes the state available.
\<close>

theorem promise_set_value_once:
  assumes "fh_state H i = Some st"
  shows "promise_set_value H (Some i) v =
    (if fs_available st then Abort ''state == State::kFuture'' else Done (put_state H i (KResult v)))"
  using assms by (auto simp: promise_defs fs_set_value_def boost_assert_def fs_available_iff)

theorem promise_set_value_once_witness:
  "fh_state (snd (promise_new empty_fheap)) 0 = Some (KFuture :: nat future_state) \<and>
   promise_set_value (snd (promise_new empty_fheap)) (Some 0) 5
     = Done (put_state (snd (promise_new empty_fheap)) 0 (KResult (5::nat)))"
proof -
  have st: "fh_state (snd (promise_new empty_fheap)) 0 = Some (KFuture :: nat future_state)"
    by (simp add: promise_new_def empty_fheap_def)
  from st promise_set_value_once [OF st, of 5] show ?thesis by simp
qed

end
