(* ===== verification/Uuid.thy ===== *)
theory Uuid
  imports Prelude
begin

text \<open>
  Identifiers: \<^verbatim>\<open>include/pain/base/uuid.h\<close>. A UUID is 128 bits, read as a low and a high
  64-bit half. Printing, parsing and comparing are inherited from the external class
  \<^verbatim>\<open>UUIDv4::UUID\<close>, so they are the fields of the argument \<open>uuid_lib\<close>; what the code relies
  on is the locale \<open>uuid_library\<close>: printing is undone by parsing, a printed UUID passes
  \<^verbatim>\<open>UUID::valid\<close>, and the comparison is a strict total order (which \<^verbatim>\<open>std::map<UUID, _>\<close>
  needs). The canonical lower-case hexadecimal rendering is shown to satisfy these laws.
\<close>

section \<open>Definitions\<close>

datatype uuid = UUID (uuid_high: u64) (uuid_low: u64)

record uuid_lib =
  u_str :: "uuid \<Rightarrow> string"
  u_parse :: "string \<Rightarrow> uuid"
  u_lt :: "uuid \<Rightarrow> uuid \<Rightarrow> bool"

definition hexchars :: string where
  "hexchars = ''0123456789abcdef''"

text \<open>The loop of \<^verbatim>\<open>UUID::valid\<close> from index \<open>i\<close> on, over the characters not yet read.\<close>

fun valid_from :: "nat \<Rightarrow> string \<Rightarrow> bool" where
  "valid_from i [] = True"
| "valid_from i (current # cs) =
     (if i = 8 \<or> i = 13 \<or> i = 18 \<or> i = 23 then
        (if current \<noteq> CHR ''-'' then False else valid_from (Suc i) cs)
      else if current \<notin> set hexchars then False
      else valid_from (Suc i) cs)"

definition uuid_valid :: "string \<Rightarrow> bool" where
  "uuid_valid s = (if length s \<noteq> 36 then False else valid_from 0 s)"

definition from_str :: "uuid_lib \<Rightarrow> string \<Rightarrow> uuid option" where
  "from_str L s = (if \<not> uuid_valid s then None else Some (u_parse L s))"

definition from_str_or_die :: "uuid_lib \<Rightarrow> string \<Rightarrow> uuid" where
  "from_str_or_die L s = u_parse L s"

text \<open>\<^verbatim>\<open>std::hash<pain::UUID>\<close>, over the standard library's hash of a 64-bit integer.\<close>

definition uuid_hash :: "(u64 \<Rightarrow> u64) \<Rightarrow> uuid \<Rightarrow> u64" where
  "uuid_hash h u =
     (let h1 = h (uuid_low u); h2 = h (uuid_high u) in h1 XOR push_bit 1 h2)"

text \<open>The nil UUID, which \<^verbatim>\<open>Namespace::Namespace\<close> parses from its literal.\<close>

definition nil_uuid_str :: string where
  "nil_uuid_str = ''00000000-0000-0000-0000-000000000000''"

section \<open>The contract of the external UUID class\<close>

locale uuid_library = cmp: comparator "u_lt L" for L :: uuid_lib +
  assumes parse_str: "u_parse L (u_str L u) = u"
    and valid_str: "uuid_valid (u_str L u)"
begin

lemma u_str_inj: "u_str L a = u_str L b \<longleftrightarrow> a = b"
  using parse_str by metis

lemma from_str_u_str: "from_str L (u_str L u) = Some u"
  by (simp add: from_str_def valid_str parse_str)

end

section \<open>The canonical rendering\<close>

text \<open>
  Sixteen hexadecimal digits per half, least significant digit first within each half, and
  the dashes of the canonical form.
\<close>

fun nibbles :: "nat \<Rightarrow> nat \<Rightarrow> nat list" where
  "nibbles 0 n = []"
| "nibbles (Suc k) n = n mod 16 # nibbles k (n div 16)"

fun unnibbles :: "nat list \<Rightarrow> nat" where
  "unnibbles [] = 0"
| "unnibbles (d # ds) = d + 16 * unnibbles ds"

definition hex_digit :: "nat \<Rightarrow> char" where
  "hex_digit d = hexchars ! d"

fun unhex_from :: "nat \<Rightarrow> string \<Rightarrow> char \<Rightarrow> nat" where
  "unhex_from i [] c = 0"
| "unhex_from i (h # hs) c = (if c = h then i else unhex_from (Suc i) hs c)"

definition hex_digits :: "uuid \<Rightarrow> string" where
  "hex_digits u = map hex_digit (nibbles 16 (unat (uuid_low u)) @ nibbles 16 (unat (uuid_high u)))"

definition hex_str :: "uuid \<Rightarrow> string" where
  "hex_str u = (let d = hex_digits u in
     take 8 d @ ''-'' @ bytes_at 8 4 d @ ''-'' @ bytes_at 12 4 d @ ''-'' @ bytes_at 16 4 d @ ''-'' @ drop 20 d)"

definition hex_parse :: "string \<Rightarrow> uuid" where
  "hex_parse s = (let d = map (unhex_from 0 hexchars) (filter (\<lambda>c. c \<noteq> CHR ''-'') s) in
     UUID (word_of_nat (unnibbles (drop 16 d))) (word_of_nat (unnibbles (take 16 d))))"

definition hex_lib :: uuid_lib where
  "hex_lib = \<lparr>u_str = hex_str, u_parse = hex_parse,
     u_lt = (\<lambda>a b. uuid_low a < uuid_low b \<or> (uuid_low a = uuid_low b \<and> uuid_high a < uuid_high b))\<rparr>"

section \<open>Lemmas\<close>

lemma valid_from_all:
  "valid_from i s \<longleftrightarrow> (\<forall>j<length s.
     if i + j \<in> {8, 13, 18, 23} then s ! j = CHR ''-'' else s ! j \<in> set hexchars)"
  by (induction i s rule: valid_from.induct) (auto simp: All_less_Suc2 split: if_splits)

lemma valid_from_append:
  "valid_from i (s @ t) \<longleftrightarrow> valid_from i s \<and> valid_from (i + length s) t"
  by (induction i s rule: valid_from.induct) auto

lemma length_nibbles [simp]: "length (nibbles k n) = k"
  by (induction k arbitrary: n) auto

lemma nibbles_lt: "d \<in> set (nibbles k n) \<Longrightarrow> d < 16"
  by (induction k arbitrary: n) auto

lemma unnibbles_nibbles: "n < 16 ^ k \<Longrightarrow> unnibbles (nibbles k n) = n"
  by (induction k arbitrary: n) (auto simp: less_mult_imp_div_less mult.commute)

lemma unhex_hex_digit: "d < 16 \<Longrightarrow> unhex_from 0 hexchars (hex_digit d) = d"
  by (simp add: hexchars_def hex_digit_def nth_Cons' numeral_eq_Suc less_Suc_eq) fastforce

lemma hex_digit_in: "d < 16 \<Longrightarrow> hex_digit d \<in> set hexchars"
  unfolding hex_digit_def by (rule nth_mem) (simp add: hexchars_def)

lemma dash_not_hex: "CHR ''-'' \<notin> set hexchars"
  by (simp add: hexchars_def)

lemma length_hex_digits [simp]: "length (hex_digits u) = 32"
  by (simp add: hex_digits_def)

lemma hex_digits_in: "set (hex_digits u) \<subseteq> set hexchars"
  by (auto simp: hex_digits_def hex_digit_in dest: nibbles_lt)

lemma hex_digits_no_dash: "filter (\<lambda>c. c \<noteq> CHR ''-'') (hex_digits u) = hex_digits u"
  using hex_digits_in [of u] dash_not_hex by (auto simp: filter_id_conv)

lemma filter_hex_str: "filter (\<lambda>c. c \<noteq> CHR ''-'') (hex_str u) = hex_digits u"
proof -
  let ?f = "filter (\<lambda>c. c \<noteq> CHR ''-'')" and ?d = "hex_digits u"
  have split: "?d = take 8 ?d @ bytes_at 8 4 ?d @ bytes_at 12 4 ?d @ bytes_at 16 4 ?d @ drop 20 ?d"
    using bytes_at_then_drop [of 4 16 ?d] bytes_at_then_drop [of 4 12 ?d] bytes_at_then_drop [of 4 8 ?d]
    by simp
  have "?f (hex_str u) = ?f (take 8 ?d @ bytes_at 8 4 ?d @ bytes_at 12 4 ?d @ bytes_at 16 4 ?d @ drop 20 ?d)"
    by (simp add: hex_str_def Let_def)
  also have "\<dots> = ?d" by (simp only: split [symmetric] hex_digits_no_dash)
  finally show ?thesis .
qed

lemma hex_parse_str: "hex_parse (hex_str u) = u"
proof -
  have "map (unhex_from 0 hexchars) (hex_digits u)
      = nibbles 16 (unat (uuid_low u)) @ nibbles 16 (unat (uuid_high u))"
    by (auto simp: hex_digits_def unhex_hex_digit dest!: nibbles_lt intro!: map_idI)
  moreover have "unat w < 16 ^ 16" for w :: u64
    using unsigned_less [of w] by simp
  ultimately show ?thesis
    by (simp add: hex_parse_def filter_hex_str unnibbles_nibbles)
qed

lemma valid_from_hex:
  assumes "set s \<subseteq> set hexchars" and "\<forall>j<length s. i + j \<notin> {8, 13, 18, 23}"
  shows "valid_from i s"
  using assms by (auto simp: valid_from_all)

lemma hex_str_valid: "uuid_valid (hex_str u)"
proof -
  have sub: "set (take n (drop m (hex_digits u))) \<subseteq> set hexchars" for n m
    using hex_digits_in [of u] by (meson in_set_dropD in_set_takeD subset_code(1))
  have "set (take 8 (hex_digits u)) \<subseteq> set hexchars" "set (drop 20 (hex_digits u)) \<subseteq> set hexchars"
    using hex_digits_in [of u] by (auto dest: in_set_takeD in_set_dropD)
  then show ?thesis
    by (simp add: uuid_valid_def hex_str_def Let_def valid_from_append valid_from_hex sub)
qed

lemma hex_lt_order: "comparator (u_lt hex_lib)"
  by unfold_locales (auto simp: hex_lib_def neq_iff intro: uuid.expand)

interpretation hexlib: uuid_library hex_lib
  by (intro uuid_library.intro uuid_library_axioms.intro hex_lt_order)
    (simp_all add: hex_lib_def hex_parse_str hex_str_valid)

section \<open>Properties\<close>

text \<open>
  \<^verbatim>\<open>UUID::valid\<close> accepts exactly the strings of 36 characters with dashes at positions
  8, 13, 18 and 23 and lower-case hexadecimal digits everywhere else.
\<close>

theorem uuid_valid_correct:
  "uuid_valid s \<longleftrightarrow> length s = 36 \<and> (\<forall>i<36.
     if i = 8 \<or> i = 13 \<or> i = 18 \<or> i = 23 then s ! i = CHR ''-''
     else s ! i \<in> set ''0123456789abcdef'')"
  unfolding uuid_valid_def valid_from_all hexchars_def by (cases "length s = 36") simp_all

theorem uuid_valid_correct_witness:
  "uuid_valid nil_uuid_str \<and> length nil_uuid_str = 36 \<and> nil_uuid_str ! 8 = CHR ''-'' \<and>
   nil_uuid_str ! 9 \<in> set ''0123456789abcdef''"
proof -
  have valid: "uuid_valid nil_uuid_str" by code_simp
  then have all: "length nil_uuid_str = 36" "\<forall>i<36. if i = 8 \<or> i = 13 \<or> i = 18 \<or> i = 23
      then nil_uuid_str ! i = CHR ''-'' else nil_uuid_str ! i \<in> set ''0123456789abcdef''"
    using uuid_valid_correct [of nil_uuid_str] by blast+
  show ?thesis using valid all(1) all(2) [rule_format, of 8] all(2) [rule_format, of 9] by simp
qed

end
