(* ===== verification/Chunk.thy ===== *)
theory Chunk
  imports Store Futures Uuid "HOL-Library.Sublist"
begin

text \<open>
  A chunk: \<^verbatim>\<open>src/manusya/chunk.h\<close> and \<^verbatim>\<open>src/manusya/chunk.cc\<close>. A chunk is an append-only file with
  a queue of append requests that arrived ahead of their offset. Every operation runs under the
  mutex of the chunk, so it is one step: an append that has to wait ends its step by linking its
  request into the queue, and its result is delivered later, through the promise of the request, by
  the append that fills the gap or by the timer. A request is an object in the heap \<open>c_reqs\<close>; the
  intrusive set \<open>c_queue\<close> holds the addresses of the linked requests in the order of their offsets.
  Reference counts, spans and log lines are left out.
\<close>

section \<open>Data\<close>

datatype chunk_state = KInit | KOpen | KSealed

record append_request =
  rq_offset :: u64
  rq_buf :: iobuf
  rq_promise :: "status future_state"

record 'h chunk =
  c_uuid :: uuid
  c_size :: u64
  c_state :: chunk_state
  c_fh :: "'h option"
  c_queue :: "nat list"
  c_reqs :: "nat \<Rightarrow> append_request option"
  c_next :: nat

definition new_chunk :: "uuid \<Rightarrow> 'h chunk" where
  "new_chunk u = \<lparr>c_uuid = u, c_size = 0, c_state = KInit, c_fh = None, c_queue = [],
     c_reqs = (\<lambda>_. None), c_next = 0\<rparr>"

datatype append_result = Returned status | Waiting nat

section \<open>Operations\<close>

definition invalid_offset :: "u64 \<Rightarrow> iobuf \<Rightarrow> u64 \<Rightarrow> status" where
  "invalid_offset off buf sz = Status EINVAL (''invalid offset at '' @ dec_str (unat off) @ ''@'' @
     dec_str (length buf) @ '', current size:'' @ dec_str (unat sz))"

definition rq_off :: "'h chunk \<Rightarrow> nat \<Rightarrow> u64" where
  "rq_off c i = (case c_reqs c i of Some rq \<Rightarrow> rq_offset rq | None \<Rightarrow> 0)"

text \<open>
  Insertion into the intrusive set, ordered by offset; a request whose offset is already in the set
  is not linked.
\<close>

fun queue_insert :: "(nat \<Rightarrow> u64) \<Rightarrow> nat \<Rightarrow> nat list \<Rightarrow> nat list" where
  "queue_insert off i [] = [i]"
| "queue_insert off i (j # q) =
     (if off j < off i then j # queue_insert off i q
      else if off i < off j then i # j # q else j # q)"

text \<open>\<^verbatim>\<open>if (!rq->promise.is_ready()) rq->promise.set_value(status)\<close>.\<close>

definition settle :: "status \<Rightarrow> append_request \<Rightarrow> append_request outcome" where
  "settle st rq =
     (if \<not> fs_available (rq_promise rq) then
        obind (fs_set_value st (rq_promise rq)) (\<lambda>p. Done (rq\<lparr>rq_promise := p\<rparr>))
      else Done rq)"

definition put_rq :: "'h chunk \<Rightarrow> nat \<Rightarrow> append_request \<Rightarrow> 'h chunk" where
  "put_rq c i rq = c\<lparr>c_reqs := (c_reqs c)(i \<mapsto> rq)\<rparr>"

text \<open>
  The loop of \<^verbatim>\<open>Chunk::append\<close> over the queue: the argument list is what is still linked, and is
  stored back when the loop stops.
\<close>

fun drain :: "('s, 'h) store_vt \<Rightarrow> 's \<Rightarrow> 'h chunk \<Rightarrow> nat list \<Rightarrow> ('s \<times> 'h chunk) outcome" where
  "drain V s c [] = Done (s, c\<lparr>c_queue := []\<rparr>)"
| "drain V s c (i # q) =
     (case c_reqs c i of None \<Rightarrow> Abort ''dangling request''
      | Some rq \<Rightarrow>
        if rq_offset rq < c_size c then
          obind (settle (invalid_offset (rq_offset rq) (rq_buf rq) (c_size c)) rq) (\<lambda>rq'.
          drain V s (put_rq c i rq') q)
        else if rq_offset rq = c_size c then
          obind (fh_append V s (c_fh c) (rq_offset rq) (rq_buf rq)) (\<lambda>(st, _, s').
          let c1 = (if st_ok st then c\<lparr>c_size := c_size c + word_of_nat (length (rq_buf rq))\<rparr> else c) in
          obind (settle st rq) (\<lambda>rq'. drain V s' (put_rq c1 i rq') q))
        else Done (s, c\<lparr>c_queue := i # q\<rparr>))"

definition chunk_append ::
  "('s, 'h) store_vt \<Rightarrow> 's \<Rightarrow> 'h chunk \<Rightarrow> iobuf \<Rightarrow> u64 \<Rightarrow> (append_result \<times> 's \<times> 'h chunk) outcome" where
  "chunk_append V s c buf offset =
     (if c_state c = KSealed then Done (Returned (Status EPERM ''chunk is sealed''), s, c)
      else if offset < c_size c then Done (Returned (invalid_offset offset buf (c_size c)), s, c)
      else if offset \<noteq> c_size c then
        (let i = c_next c;
             rq = \<lparr>rq_offset = offset, rq_buf = buf, rq_promise = KFuture\<rparr>;
             c1 = (put_rq c i rq)\<lparr>c_next := Suc i\<rparr>
         in Done (Waiting i, s, c1\<lparr>c_queue := queue_insert (rq_off c1) i (c_queue c1)\<rparr>))
      else
        obind (fh_append V s (c_fh c) offset buf) (\<lambda>(st, _, s1).
        if \<not> st_ok st then Done (Returned st, s1, c)
        else obind (drain V s1 (c\<lparr>c_size := c_size c + word_of_nat (length buf)\<rparr>) (c_queue c)) (\<lambda>(s2, c2).
             Done (Returned status_OK, s2, c2))))"

text \<open>The timer callback of request \<open>i\<close>.\<close>

definition chunk_timeout :: "'h chunk \<Rightarrow> nat \<Rightarrow> 'h chunk outcome" where
  "chunk_timeout c i =
     (case c_reqs c i of None \<Rightarrow> Abort ''dangling timer''
      | Some rq \<Rightarrow>
        if fs_available (rq_promise rq) then Done c
        else
          let c1 = c\<lparr>c_queue := removeAll i (c_queue c)\<rparr> in
          obind (fs_set_value (invalid_offset (rq_offset rq) (rq_buf rq) (c_size c)) (rq_promise rq)) (\<lambda>p.
          Done (put_rq c1 i (rq\<lparr>rq_promise := p\<rparr>))))"

text \<open>What the thread that waits for request \<open>i\<close> gets: \<^verbatim>\<open>rq->promise.get_future().get()\<close>.\<close>

definition chunk_append_finish :: "'h chunk \<Rightarrow> nat \<Rightarrow> status got outcome" where
  "chunk_append_finish c i =
     (case c_reqs c i of None \<Rightarrow> Abort ''dangling request''
      | Some rq \<Rightarrow> Done (fst (fs_get (\<lambda>st. st) (rq_promise rq))))"

definition chunk_query_and_seal ::
  "('s, 'h) store_vt \<Rightarrow> 's \<Rightarrow> 'h chunk \<Rightarrow> u64 option \<Rightarrow> (status \<times> u64 option \<times> 's \<times> 'h chunk) outcome" where
  "chunk_query_and_seal V s c len =
     (case len of None \<Rightarrow> Done (Status EINVAL ''length is nullptr'', len, s, c)
      | Some _ \<Rightarrow>
        obind (fh_seal V s (c_fh c)) (\<lambda>(st, _, s1).
        if \<not> st_ok st then Done (st, len, s1, c)
        else obind (fh_size V s1 (c_fh c) len) (\<lambda>(st, len', s2).
          if \<not> st_ok st then Done (st, len', s2, c)
          else Done (st, len', s2, c\<lparr>c_state := KSealed\<rparr>))))"

definition read_range_error :: "u64 \<Rightarrow> u64 \<Rightarrow> u64 \<Rightarrow> status" where
  "read_range_error off n sz = Status EINVAL (''read out of range, offset:'' @ dec_str (unat off) @
     '', size:'' @ dec_str (unat n) @ '', current size:'' @ dec_str (unat sz))"

definition chunk_read ::
  "uuid_lib \<Rightarrow> ('s, 'h) store_vt \<Rightarrow> 's \<Rightarrow> 'h chunk \<Rightarrow> u64 \<Rightarrow> u64 \<Rightarrow> iobuf option \<Rightarrow> ('s, iobuf option) io" where
  "chunk_read L V s c off n buf =
     (case buf of None \<Rightarrow> Done (Status EINVAL ''buf is nullptr'', buf, s)
      | Some _ \<Rightarrow>
        if off + n > c_size c then Done (read_range_error off n (c_size c), buf, s)
        else
          obind (vt_open V s (Some (u_str L (c_uuid c))) O_RDONLY (Some None)) (\<lambda>(st, fh, s1).
          if \<not> st_ok st then Done (st, buf, s1)
          else case fh of None \<Rightarrow> Abort ''null out pointer''
               | Some fh' \<Rightarrow> fh_read V s1 fh' off n buf))"

text \<open>
  The two factory functions. \<open>out\<close> is the pointer argument \<^verbatim>\<open>ChunkPtr* chunk\<close>, and a null
  \<^verbatim>\<open>StorePtr\<close> is the absent store; the first one takes the UUID that \<^verbatim>\<open>UUID::generate()\<close> returned.
\<close>

definition chunk_create ::
  "uuid_lib \<Rightarrow> ('s, 'h) store_vt \<Rightarrow> 's option \<Rightarrow> uuid \<Rightarrow> 'h chunk option option \<Rightarrow>
   (status \<times> 'h chunk option option \<times> 's option) outcome" where
  "chunk_create L V so gen out =
     (case out of None \<Rightarrow> Done (Status EINVAL ''chunk is nullptr'', out, so)
      | Some _ \<Rightarrow>
        (case so of None \<Rightarrow> Done (Status EINVAL ''store is nullptr'', out, so)
         | Some s \<Rightarrow>
           let c = new_chunk gen in
           obind (vt_open V s (Some (u_str L (c_uuid c))) create_flags (Some None)) (\<lambda>(st, fh, s1).
           if \<not> st_ok st then Done (st, out, Some s1)
           else case fh of None \<Rightarrow> Abort ''null out pointer''
                | Some fh' \<Rightarrow> Done (status_OK, Some (Some (c\<lparr>c_fh := fh', c_state := KOpen\<rparr>)), Some s1))))"

definition chunk_create_uuid ::
  "uuid_lib \<Rightarrow> ('s, 'h) store_vt \<Rightarrow> 's option \<Rightarrow> uuid \<Rightarrow> 'h chunk option option \<Rightarrow>
   (status \<times> 'h chunk option option \<times> 's option) outcome" where
  "chunk_create_uuid L V so u out =
     (case out of None \<Rightarrow> Done (Status EINVAL ''chunk is nullptr'', out, so)
      | Some _ \<Rightarrow>
        (case so of None \<Rightarrow> Done (Status EINVAL ''store is nullptr'', out, so)
         | Some s \<Rightarrow>
           let c = new_chunk u in
           obind (vt_open V s (Some (u_str L (c_uuid c))) create_flags (Some None)) (\<lambda>(st, fh, s1).
           if \<not> st_ok st then Done (st, out, Some s1)
           else case fh of None \<Rightarrow> Abort ''null out pointer''
                | Some fh' \<Rightarrow>
                  let c1 = c\<lparr>c_fh := fh', c_state := KOpen\<rparr> in
                  obind (fh_size V s1 (c_fh c1) (Some (c_size c1))) (\<lambda>(st, len, s2).
                  case len of None \<Rightarrow> Abort ''null out pointer''
                  | Some n \<Rightarrow>
                    if \<not> st_ok st then Done (st, out, Some s2)
                    else Done (status_OK, Some (Some (c1\<lparr>c_size := n\<rparr>)), Some s2)))))"

section \<open>The steps of a chunk and its reachable states\<close>

text \<open>
  Any interleaving of the operations that change a chunk or its file; each holds the mutex for its
  whole step.
\<close>

inductive chunk_step :: "uuid_lib \<Rightarrow> ('s, 'h) store_vt \<Rightarrow> 's \<times> 'h chunk \<Rightarrow> 's \<times> 'h chunk \<Rightarrow> bool"
  for L V where
  step_append: "chunk_append V s c buf off = Done (r, s', c') \<Longrightarrow> chunk_step L V (s, c) (s', c')"
| step_timeout: "c_reqs c i \<noteq> None \<Longrightarrow> chunk_timeout c i = Done c' \<Longrightarrow> chunk_step L V (s, c) (s, c')"
| step_seal: "chunk_query_and_seal V s c len = Done (st, len', s', c') \<Longrightarrow> chunk_step L V (s, c) (s', c')"
| step_read: "chunk_read L V s c off n (Some []) = Done (st, buf', s') \<Longrightarrow> chunk_step L V (s, c) (s', c)"

inductive chunk_run :: "uuid_lib \<Rightarrow> ('s, 'h) store_vt \<Rightarrow> 's \<times> 'h chunk \<Rightarrow> 's \<times> 'h chunk \<Rightarrow> bool"
  for L V where
  run_refl: "chunk_run L V x x"
| run_step: "chunk_run L V x y \<Longrightarrow> chunk_step L V y z \<Longrightarrow> chunk_run L V x z"

section \<open>The invariant\<close>

text \<open>The order and the state of the linked requests; \<open>q\<close> is the queue.\<close>

definition queue_sorted :: "'h chunk \<Rightarrow> nat list \<Rightarrow> bool" where
  "queue_sorted c q \<longleftrightarrow> sorted_wrt (\<lambda>i j. rq_off c i < rq_off c j) q"

definition pending :: "'h chunk \<Rightarrow> nat list \<Rightarrow> bool" where
  "pending c q \<longleftrightarrow> (\<forall>i\<in>set q. \<exists>rq. c_reqs c i = Some rq \<and> rq_promise rq = KFuture)"

text \<open>Every request that was answered with success has its bytes at its offset.\<close>

definition acked :: "iobuf \<Rightarrow> 'h chunk \<Rightarrow> bool" where
  "acked bs c \<longleftrightarrow> (\<forall>i rq st. c_reqs c i = Some rq \<longrightarrow> rq_promise rq = KResult st \<longrightarrow> st_ok st \<longrightarrow>
     unat (rq_offset rq) + length (rq_buf rq) \<le> length bs \<and>
     bytes_at (unat (rq_offset rq)) (length (rq_buf rq)) bs = rq_buf rq)"

definition reqs_fresh :: "'h chunk \<Rightarrow> bool" where
  "reqs_fresh c \<longleftrightarrow> (\<forall>i. c_reqs c i \<noteq> None \<longrightarrow> i < c_next c) \<and>
     (\<forall>i rq e. c_reqs c i = Some rq \<longrightarrow> rq_promise rq \<noteq> KException e)"

text \<open>Requests stay in the heap, keep their data, and keep an answer once they have one.\<close>

definition reqs_le :: "'h chunk \<Rightarrow> 'h chunk \<Rightarrow> bool" where
  "reqs_le c c' \<longleftrightarrow> (\<forall>i rq. c_reqs c i = Some rq \<longrightarrow>
     (\<exists>p. c_reqs c' i = Some (rq\<lparr>rq_promise := p\<rparr>) \<and> (rq_promise rq \<noteq> KFuture \<longrightarrow> p = rq_promise rq)))"

text \<open>The chunk \<open>c\<close> over the file contents \<open>bs\<close>.\<close>

definition chunk_ok :: "iobuf \<Rightarrow> 'h chunk \<Rightarrow> bool" where
  "chunk_ok bs c \<longleftrightarrow> c_size c = word_of_nat (length bs) \<and> reqs_fresh c \<and>
     queue_sorted c (c_queue c) \<and> pending c (c_queue c) \<and>
     (\<forall>i\<in>set (c_queue c). c_size c < rq_off c i) \<and> (length bs < 2 ^ 64 \<longrightarrow> acked bs c)"

section \<open>Lemmas on requests and the queue\<close>

lemma settle_pending [simp]:
  "rq_promise rq = KFuture \<Longrightarrow> settle st rq = Done (rq\<lparr>rq_promise := KResult st\<rparr>)"
  by (simp add: settle_def)

lemma put_rq_simps [simp]:
  "c_uuid (put_rq c i rq) = c_uuid c" "c_size (put_rq c i rq) = c_size c"
  "c_state (put_rq c i rq) = c_state c" "c_fh (put_rq c i rq) = c_fh c"
  "c_queue (put_rq c i rq) = c_queue c" "c_next (put_rq c i rq) = c_next c"
  "c_reqs (put_rq c i rq) j = (if j = i then Some rq else c_reqs c j)"
  by (simp_all add: put_rq_def)

lemma rq_off_put [simp]: "rq_off (put_rq c i rq) j = (if j = i then rq_offset rq else rq_off c j)"
  by (simp add: rq_off_def)

lemma rq_off_Some: "c_reqs c i = Some rq \<Longrightarrow> rq_off c i = rq_offset rq"
  by (simp add: rq_off_def)

lemma rq_off_cong: "c_reqs c' = c_reqs c \<Longrightarrow> rq_off c' = rq_off c"
  by (simp add: rq_off_def fun_eq_iff)

lemma frame_simps [simp]:
  "rq_off (c\<lparr>c_size := n\<rparr>) = rq_off c" "rq_off (c\<lparr>c_queue := q\<rparr>) = rq_off c"
  "rq_off (c\<lparr>c_next := k\<rparr>) = rq_off c" "rq_off (c\<lparr>c_state := z\<rparr>) = rq_off c"
  "queue_sorted (c\<lparr>c_size := n\<rparr>) = queue_sorted c" "queue_sorted (c\<lparr>c_queue := q\<rparr>) = queue_sorted c"
  "queue_sorted (c\<lparr>c_next := k\<rparr>) = queue_sorted c" "queue_sorted (c\<lparr>c_state := z\<rparr>) = queue_sorted c"
  "pending (c\<lparr>c_size := n\<rparr>) = pending c" "pending (c\<lparr>c_queue := q\<rparr>) = pending c"
  "pending (c\<lparr>c_next := k\<rparr>) = pending c" "pending (c\<lparr>c_state := z\<rparr>) = pending c"
  "acked bs (c\<lparr>c_size := n\<rparr>) = acked bs c" "acked bs (c\<lparr>c_queue := q\<rparr>) = acked bs c"
  "acked bs (c\<lparr>c_next := k\<rparr>) = acked bs c" "acked bs (c\<lparr>c_state := z\<rparr>) = acked bs c"
  "reqs_fresh (c\<lparr>c_size := n\<rparr>) = reqs_fresh c" "reqs_fresh (c\<lparr>c_queue := q\<rparr>) = reqs_fresh c"
  "reqs_fresh (c\<lparr>c_state := z\<rparr>) = reqs_fresh c"
  by (simp_all add: fun_eq_iff rq_off_def queue_sorted_def pending_def acked_def reqs_fresh_def)

lemma queue_sorted_Cons:
  "queue_sorted c (i # q) \<longleftrightarrow> (\<forall>j\<in>set q. rq_off c i < rq_off c j) \<and> queue_sorted c q"
  by (simp add: queue_sorted_def)

lemma queue_sorted_put:
  "rq_offset rq = rq_off c i \<Longrightarrow> queue_sorted (put_rq c i rq) q = queue_sorted c q"
proof -
  assume "rq_offset rq = rq_off c i"
  then have "rq_off (put_rq c i rq) = rq_off c" by auto
  then show ?thesis by (simp add: queue_sorted_def)
qed

lemma queue_sorted_removeAll: "queue_sorted c q \<Longrightarrow> queue_sorted c (removeAll i q)"
  by (simp add: queue_sorted_def sorted_wrt_filter removeAll_filter_not_eq)

lemma pending_put: "i \<notin> set q \<Longrightarrow> pending (put_rq c i rq) q \<longleftrightarrow> pending c q"
  by (auto simp: pending_def)

lemma acked_grow: "acked bs c \<Longrightarrow> acked (bs @ ys) c"
  unfolding acked_def by (metis bytes_at_append_old length_append trans_le_add1)

lemma acked_put_failed:
  "acked bs c \<Longrightarrow> \<not> st_ok st \<Longrightarrow> acked bs (put_rq c i (rq\<lparr>rq_promise := KResult st\<rparr>))"
  by (simp add: acked_def)

lemma acked_put_done:
  assumes "acked bs c" "unat (rq_offset rq) = length bs"
  shows "acked (bs @ rq_buf rq) (put_rq c i (rq\<lparr>rq_promise := KResult st\<rparr>))"
  using acked_grow [OF assms(1), of "rq_buf rq"] assms(2) by (simp add: acked_def)

lemma reqs_fresh_put:
  "reqs_fresh c \<Longrightarrow> c_reqs c i \<noteq> None \<Longrightarrow> reqs_fresh (put_rq c i (rq\<lparr>rq_promise := KResult st\<rparr>))"
  by (simp add: reqs_fresh_def)

lemma reqs_le_same: "c_reqs c' = c_reqs c \<Longrightarrow> reqs_le c c'"
  by (auto simp: reqs_le_def intro!: exI)

lemma reqs_le_trans [trans]: "reqs_le a b \<Longrightarrow> reqs_le b c \<Longrightarrow> reqs_le a c"
  unfolding reqs_le_def by fastforce

lemma reqs_le_put:
  "c_reqs c i = Some rq \<Longrightarrow> rq_promise rq = KFuture \<Longrightarrow> c_reqs c1 = c_reqs c \<Longrightarrow>
   reqs_le c (put_rq c1 i (rq\<lparr>rq_promise := p\<rparr>))"
  by (auto simp: reqs_le_def intro!: exI)

lemma set_queue_insert: "set (queue_insert off i q) \<subseteq> insert i (set q)"
  by (induction q) auto

lemma set_queue_insert_super: "set q \<subseteq> set (queue_insert off i q)"
  by (induction q) auto

lemma queue_insert_sorted:
  "sorted_wrt (\<lambda>i j. off i < off j) q \<Longrightarrow> sorted_wrt (\<lambda>i j. off i < off j) (queue_insert off i q)"
proof (induction q)
  case (Cons j q)
  then show ?case using set_queue_insert [of off i q] by fastforce
qed auto

lemma queue_insert_linked: "off i \<notin> off ` set q \<Longrightarrow> i \<in> set (queue_insert off i q)"
  by (induction q) (auto simp: neq_iff)

lemma new_chunk_simps [simp]:
  "c_uuid (new_chunk u) = u" "c_size (new_chunk u) = 0" "c_queue (new_chunk u) = []"
  "c_reqs (new_chunk u) = (\<lambda>_. None)" "c_next (new_chunk u) = 0"
  by (simp_all add: new_chunk_def)

lemma chunk_ok_new: "chunk_ok [] ((new_chunk u)\<lparr>c_fh := f, c_state := z\<rparr>)"
  by (simp add: chunk_ok_def reqs_fresh_def queue_sorted_def pending_def acked_def)

section \<open>Lemmas that hold over every store\<close>

context file_store
begin

text \<open>The invariant of a chunk and its file.\<close>

definition chunk_on :: "uuid_lib \<Rightarrow> 's \<Rightarrow> 'h chunk \<Rightarrow> iobuf \<Rightarrow> bool" where
  "chunk_on L s c bs \<longleftrightarrow> sinv s \<and> (\<exists>h. c_fh c = Some h \<and> hpath s h = Some (u_str L (c_uuid c))) \<and>
     files s (u_str L (c_uuid c)) = Some bs \<and> chunk_ok bs c"

text \<open>What draining the queue \<open>q\<close> over the file \<open>p\<close> with contents \<open>bs\<close> leaves.\<close>

definition drain_post :: "'s \<Rightarrow> 'h chunk \<Rightarrow> nat list \<Rightarrow> string \<Rightarrow> iobuf \<Rightarrow> 's \<Rightarrow> 'h chunk \<Rightarrow> iobuf \<Rightarrow> bool" where
  "drain_post s c q p bs s' c' ys \<longleftrightarrow> drain V s c q = Done (s', c') \<and> sinv s' \<and> hpath s' = hpath s \<and>
     files s' = (files s)(p \<mapsto> bs @ ys) \<and> chunk_ok (bs @ ys) c' \<and> c_uuid c' = c_uuid c \<and>
     c_fh c' = c_fh c \<and> c_state c' = c_state c \<and> set (c_queue c') \<subseteq> set q \<and> reqs_le c c'"

lemma drain_stop:
  assumes "files s p = Some bs" "sinv s" "chunk_ok bs (c\<lparr>c_queue := q\<rparr>)"
    and "drain V s c q = Done (s, c\<lparr>c_queue := q\<rparr>)"
  shows "drain_post s c q p bs s (c\<lparr>c_queue := q\<rparr>) []"
  using assms by (auto simp: drain_post_def reqs_le_same)

lemma drain_step:
  assumes "drain_post s1 c1 q p (bs @ zs) s' c' ys" "drain V s c (i # q) = drain V s1 c1 q"
    and "files s1 = (files s)(p \<mapsto> bs @ zs)" "hpath s1 = hpath s"
    and "c_uuid c1 = c_uuid c" "c_fh c1 = c_fh c" "c_state c1 = c_state c"
    and "reqs_le c c1"
  shows "drain_post s c (i # q) p bs s' c' (zs @ ys)"
  using assms reqs_le_trans by (auto simp: drain_post_def)

text \<open>What the chunk and the rest \<open>q\<close> of its queue satisfy while the queue is drained.\<close>

definition drainable :: "'s \<Rightarrow> 'h chunk \<Rightarrow> nat list \<Rightarrow> string \<Rightarrow> iobuf \<Rightarrow> bool" where
  "drainable s c q p bs \<longleftrightarrow> sinv s \<and> (\<exists>h. c_fh c = Some h \<and> hpath s h = Some p) \<and> files s p = Some bs \<and>
     c_size c = word_of_nat (length bs) \<and> reqs_fresh c \<and> queue_sorted c q \<and> pending c q \<and>
     (length bs < 2 ^ 64 \<longrightarrow> acked bs c)"

lemma drainable_hd:
  assumes "drainable s c (i # q) p bs"
  shows "\<exists>rq. c_reqs c i = Some rq \<and> rq_promise rq = KFuture" "i \<notin> set q" "queue_sorted c q" "pending c q"
  using assms by (auto simp: drainable_def pending_def queue_sorted_Cons)

lemma drainable_fail:
  assumes "drainable s c (i # q) p bs" "c_reqs c i = Some rq"
  shows "drainable s (put_rq c i (rq\<lparr>rq_promise := KResult (invalid_offset off buf sz)\<rparr>)) q p bs"
  using assms drainable_hd(2-4) [OF assms(1)]
  by (auto simp: drainable_def pending_put reqs_fresh_put acked_put_failed invalid_offset_def queue_sorted_put rq_off_Some)

lemma drainable_write:
  assumes "drainable s c (i # q) p bs" "c_reqs c i = Some rq" "rq_offset rq = c_size c"
    and "sinv s1" "hpath s1 = hpath s" "files s1 = (files s)(p \<mapsto> bs @ zs)" "zs = (if st_ok st then rq_buf rq else [])"
    and "c1 = (if st_ok st then c\<lparr>c_size := c_size c + word_of_nat (length (rq_buf rq))\<rparr> else c)"
  shows "drainable s1 (put_rq c1 i (rq\<lparr>rq_promise := KResult st\<rparr>)) q p (bs @ zs)"
proof -
  note inv = assms(1) [unfolded drainable_def]
  have "length bs < 2 ^ 64 \<Longrightarrow> unat (rq_offset rq) = length bs" using assms(3) inv by (simp add: unat_of_nat_u64)
  then have "length (bs @ zs) < 2 ^ 64 \<longrightarrow> acked (bs @ zs) (put_rq c1 i (rq\<lparr>rq_promise := KResult st\<rparr>))"
    using inv acked_put_done [of bs c1 rq] by (auto simp: assms(7,8) acked_put_failed)
  then show ?thesis
    using inv drainable_hd(2-4) [OF assms(1)] assms(2,4-8)
    by (auto simp: drainable_def pending_put reqs_fresh_put queue_sorted_put rq_off_Some)
qed

lemma drain_drainable: "drainable s c q p bs \<Longrightarrow> \<exists>s' c' ys. drain_post s c q p bs s' c' ys"
proof (induction q arbitrary: s c bs)
  case Nil
  show ?case
    by (intro exI, rule drain_stop)
      (use Nil in \<open>auto simp: drainable_def chunk_ok_def queue_sorted_def pending_def\<close>)
next
  case (Cons i q)
  from Cons.prems obtain h where inv: "sinv s" "c_fh c = Some h" "hpath s h = Some p" "files s p = Some bs"
    by (auto simp: drainable_def)
  obtain rq where rq: "c_reqs c i = Some rq" "rq_promise rq = KFuture" using drainable_hd(1) [OF Cons.prems] by blast
  consider "rq_offset rq < c_size c" | "rq_offset rq = c_size c" | "c_size c < rq_offset rq" by fastforce
  then show ?case
  proof cases
    case 1
    let ?c = "put_rq c i (rq\<lparr>rq_promise := KResult (invalid_offset (rq_offset rq) (rq_buf rq) (c_size c))\<rparr>)"
    from Cons.IH [OF drainable_fail [OF Cons.prems rq(1)]] obtain s' c' ys where "drain_post s ?c q p (bs @ []) s' c' ys"
      unfolding append_Nil2 by blast
    then show ?thesis by (intro exI, rule drain_step) (use 1 rq inv in \<open>auto simp: reqs_le_put\<close>)
  next
    case 2
    obtain st s1 where ap: "fh_append V s (Some h) (rq_offset rq) (rq_buf rq) = Done (st, (), s1)"
      "sinv s1" "hpath s1 = hpath s" "files s1 = (if st_ok st then (files s)(p \<mapsto> bs @ rq_buf rq) else files s)"
      using fh_appendE [OF inv(1,3,4)] by metis
    let ?zs = "if st_ok st then rq_buf rq else []"
    have f: "files s1 = (files s)(p \<mapsto> bs @ ?zs)" using ap(4) inv(4) by auto
    from Cons.IH [OF drainable_write [OF Cons.prems rq(1) 2 ap(2,3) f refl refl]] obtain s' c' ys where
      "drain_post s1 (put_rq (if st_ok st then c\<lparr>c_size := c_size c + word_of_nat (length (rq_buf rq))\<rparr> else c) i
         (rq\<lparr>rq_promise := KResult st\<rparr>)) q p (bs @ ?zs) s' c' ys" by blast
    then show ?thesis by (intro exI, rule drain_step) (use 2 rq ap f inv in \<open>auto simp: reqs_le_put\<close>)
  next
    case 3
    show ?thesis
      by (intro exI, rule drain_stop)
        (use 3 rq Cons.prems in \<open>auto simp: drainable_def chunk_ok_def rq_off_Some queue_sorted_Cons\<close>)
  qed
qed

lemma drain_ok:
  assumes "sinv s" "c_fh c = Some h" "hpath s h = Some p" "files s p = Some bs"
    and "c_size c = word_of_nat (length bs)" "reqs_fresh c" "queue_sorted c q" "pending c q"
    and "length bs < 2 ^ 64 \<longrightarrow> acked bs c"
  shows "\<exists>s' c' ys. drain_post s c q p bs s' c' ys"
  using assms by (intro drain_drainable) (simp add: drainable_def)

text \<open>What one step of a chunk keeps: \<open>ys\<close> are the bytes it added to the file.\<close>

definition chunk_post :: "uuid_lib \<Rightarrow> 's \<Rightarrow> 'h chunk \<Rightarrow> iobuf \<Rightarrow> 's \<Rightarrow> 'h chunk \<Rightarrow> iobuf \<Rightarrow> bool" where
  "chunk_post L s c bs s' c' ys \<longleftrightarrow> chunk_on L s' c' (bs @ ys) \<and>
     files s' = (files s)(u_str L (c_uuid c) \<mapsto> bs @ ys) \<and> (\<forall>h q. hpath s h = Some q \<longrightarrow> hpath s' h = Some q) \<and>
     c_uuid c' = c_uuid c \<and> (c_state c = KSealed \<longrightarrow> c_state c' = KSealed \<and> ys = []) \<and>
     reqs_le c c'"

lemma chunk_post_refl: "chunk_on L s c bs \<Longrightarrow> chunk_post L s c bs s c []"
  by (auto simp: chunk_post_def chunk_on_def reqs_le_same)

lemma chunk_post_trans:
  "chunk_post L s c bs s1 c1 ys \<Longrightarrow> chunk_post L s1 c1 (bs @ ys) s2 c2 zs \<Longrightarrow> chunk_post L s c bs s2 c2 (ys @ zs)"
  using reqs_le_trans by (auto simp: chunk_post_def)

lemma chunk_onD:
  assumes "chunk_on L s c bs"
  shows "sinv s" "files s (u_str L (c_uuid c)) = Some bs" "c_size c = word_of_nat (length bs)"
    "reqs_fresh c" "queue_sorted c (c_queue c)" "pending c (c_queue c)"
    "\<And>i. i \<in> set (c_queue c) \<Longrightarrow> c_size c < rq_off c i" "length bs < 2 ^ 64 \<Longrightarrow> acked bs c"
  using assms by (auto simp: chunk_on_def chunk_ok_def)

lemma chunk_on_handle:
  assumes "chunk_on L s c bs"
  obtains h where "c_fh c = Some h" "hpath s h = Some (u_str L (c_uuid c))"
  using assms by (auto simp: chunk_on_def)

lemma enqueue_ok:
  assumes "chunk_on L s c bs" "c_size c < off" "c_state c \<noteq> KSealed"
  shows "\<exists>c'. chunk_append V s c buf off = Done (Waiting (c_next c), s, c') \<and> chunk_post L s c bs s c' []
    \<and> c_reqs c' (c_next c) = Some \<lparr>rq_offset = off, rq_buf = buf, rq_promise = KFuture\<rparr>"
proof -
  let ?i = "c_next c" and ?rq = "\<lparr>rq_offset = off, rq_buf = buf, rq_promise = KFuture\<rparr>"
  let ?c1 = "(put_rq c ?i ?rq)\<lparr>c_next := Suc ?i\<rparr>"
  let ?q = "queue_insert (rq_off ?c1) ?i (c_queue c)"
  note D = chunk_onD [OF assms(1)]
  have fresh: "c_reqs c ?i = None" using D(4) by (auto simp: reqs_fresh_def)
  then have notin: "?i \<notin> set (c_queue c)" using D(6) by (auto simp: pending_def)
  have off: "\<And>j. j \<in> set (c_queue c) \<Longrightarrow> rq_off ?c1 j = rq_off c j" using notin by auto
  have "sorted_wrt (\<lambda>i j. rq_off ?c1 i < rq_off ?c1 j) (c_queue c)"
    using D(5) unfolding queue_sorted_def by (rule sorted_wrt_mono_rel [rotated]) (simp only: off)
  then have "queue_sorted ?c1 ?q" using queue_insert_sorted unfolding queue_sorted_def by blast
  moreover have "pending ?c1 ?q" "\<forall>j\<in>set ?q. c_size c < rq_off ?c1 j"
    using set_queue_insert [of "rq_off ?c1" ?i "c_queue c"] D(6,7) notin assms(2)
    by (auto simp: pending_def split: if_splits)
  moreover have "reqs_fresh ?c1" "length bs < 2 ^ 64 \<longrightarrow> acked bs ?c1"
    using D(4,8) fresh by (auto simp: reqs_fresh_def acked_def less_Suc_eq)
  ultimately have "chunk_on L s (?c1\<lparr>c_queue := ?q\<rparr>) bs"
    using assms(1) D(3) by (auto simp: chunk_on_def chunk_ok_def)
  moreover have "reqs_le c (?c1\<lparr>c_queue := ?q\<rparr>)"
    using fresh by (auto simp: reqs_le_def intro!: exI)
  ultimately show ?thesis
    using assms D(2) by (auto simp: chunk_append_def Let_def chunk_post_def)
qed

lemma append_now_ok:
  assumes "chunk_on L s c bs" "off = c_size c" "c_state c \<noteq> KSealed"
  shows "\<exists>st s' c' ys. chunk_append V s c buf off = Done (Returned st, s', c') \<and> chunk_post L s c bs s' c' ys \<and>
    (st_ok st \<longrightarrow> (\<exists>zs. ys = buf @ zs)) \<and> (\<not> st_ok st \<longrightarrow> ys = [])"
proof -
  note D = chunk_onD [OF assms(1)]
  obtain h where h: "c_fh c = Some h" "hpath s h = Some (u_str L (c_uuid c))"
    using assms(1) by (rule chunk_on_handle)
  obtain st s1 where ap: "fh_append V s (Some h) off buf = Done (st, (), s1)" "sinv s1" "hpath s1 = hpath s"
    "files s1 = (if st_ok st then (files s)(u_str L (c_uuid c) \<mapsto> bs @ buf) else files s)"
    using fh_appendE [OF D(1) h(2) D(2)] by metis
  show ?thesis
  proof (cases "st_ok st")
    case False
    with ap h assms D(2) show ?thesis
      by (auto simp: chunk_append_def chunk_post_def chunk_on_def reqs_le_same)
  next
    case True
    let ?c = "c\<lparr>c_size := c_size c + word_of_nat (length buf)\<rparr>"
    have "\<exists>s' c' ys. drain_post s1 ?c (c_queue c) (u_str L (c_uuid c)) (bs @ buf) s' c' ys"
      by (rule drain_ok) (use True ap h D in \<open>auto simp: acked_grow\<close>)
    then obtain s' c' ys where dr: "drain_post s1 ?c (c_queue c) (u_str L (c_uuid c)) (bs @ buf) s' c' ys"
      by blast
    have "chunk_post L s c bs s' c' (buf @ ys)"
      using dr ap h True assms(3) reqs_le_trans [OF reqs_le_same, of ?c c c']
      by (auto simp: drain_post_def chunk_post_def chunk_on_def)
    with True dr ap(1) h(1) assms(2,3) show ?thesis
      by (auto simp: drain_post_def chunk_append_def)
  qed
qed

lemma append_ok:
  assumes "chunk_on L s c bs"
  shows "\<exists>r s' c' ys. chunk_append V s c buf off = Done (r, s', c') \<and> chunk_post L s c bs s' c' ys"
proof -
  have same: "chunk_post L s c bs s c []" using chunk_post_refl [OF assms] .
  consider "c_state c = KSealed" | "c_state c \<noteq> KSealed" "off < c_size c"
    | "c_state c \<noteq> KSealed" "off = c_size c" | "c_state c \<noteq> KSealed" "c_size c < off"
    by fastforce
  then show ?thesis
  proof cases
    case 1
    then show ?thesis using same by (auto simp: chunk_append_def)
  next
    case 2
    then show ?thesis using same by (auto simp: chunk_append_def)
  next
    case 3
    then show ?thesis using append_now_ok [OF assms] by metis
  next
    case 4
    then show ?thesis using enqueue_ok [OF assms] by metis
  qed
qed

lemma timeout_ok:
  assumes "chunk_on L s c bs" "c_reqs c i = Some rq"
  shows "\<exists>c'. chunk_timeout c i = Done c' \<and> chunk_post L s c bs s c' [] \<and>
    (\<exists>rq'. c_reqs c' i = Some rq' \<and> fs_available (rq_promise rq'))"
proof (cases "rq_promise rq")
  case KFuture
  note D = chunk_onD [OF assms(1)]
  let ?st = "invalid_offset (rq_offset rq) (rq_buf rq) (c_size c)"
  let ?c = "put_rq (c\<lparr>c_queue := removeAll i (c_queue c)\<rparr>) i (rq\<lparr>rq_promise := KResult ?st\<rparr>)"
  have "chunk_timeout c i = Done ?c"
    using assms(2) KFuture by (simp add: chunk_timeout_def Let_def)
  moreover have "queue_sorted ?c (removeAll i (c_queue c))"
    using queue_sorted_removeAll [OF D(5)] assms(2) by (simp add: queue_sorted_put rq_off_Some)
  moreover have "reqs_fresh ?c" "length bs < 2 ^ 64 \<longrightarrow> acked bs ?c"
    using D(4,8) assms(2) by (auto simp: reqs_fresh_put acked_put_failed invalid_offset_def)
  ultimately have "chunk_on L s ?c bs"
    using assms(1) D(6) by (auto simp: chunk_on_def chunk_ok_def pending_def)
  with \<open>chunk_timeout c i = Done ?c\<close> D(2) assms(2) KFuture show ?thesis
    by (auto simp: chunk_post_def reqs_le_put)
qed (use assms chunk_post_refl [OF assms(1)] in \<open>auto simp: chunk_timeout_def\<close>)

lemma seal_ok:
  assumes "chunk_on L s c bs"
  shows "\<exists>st len' s' c'. chunk_query_and_seal V s c len = Done (st, len', s', c') \<and> chunk_post L s c bs s' c' [] \<and>
    (st_ok st \<longrightarrow> len' = Some (c_size c) \<and> c_state c' = KSealed)"
proof (cases len)
  case None
  then show ?thesis using chunk_post_refl [OF assms] by (auto simp: chunk_query_and_seal_def)
next
  case (Some x)
  note D = chunk_onD [OF assms]
  obtain h where h: "c_fh c = Some h" "hpath s h = Some (u_str L (c_uuid c))"
    using assms by (rule chunk_on_handle)
  obtain st s1 where seal: "fh_seal V s (Some h) = Done (st, (), s1)" "sinv s1" "files s1 = files s" "hpath s1 = hpath s"
    using fh_sealE [OF D(1)] by metis
  obtain st2 n s2 where size: "fh_size V s1 (Some h) (Some x) = Done (st2, Some n, s2)" "sinv s2"
    "files s2 = files s1" "hpath s2 = hpath s1" "st_ok st2 \<Longrightarrow> n = word_of_nat (length bs)"
    using fh_sizeE [OF seal(2)] h D(2) seal(3,4) by metis
  show ?thesis
    using Some assms D(2,3) h(1) seal size
    by (auto simp: chunk_query_and_seal_def chunk_post_def chunk_on_def chunk_ok_def reqs_le_same)
qed

lemma read_ok:
  assumes "chunk_on L s c bs"
  shows "\<exists>st b' s'. chunk_read L V s c off n (Some []) = Done (st, Some b', s') \<and> chunk_post L s c bs s' c [] \<and>
    (st_ok st \<longrightarrow> off + n \<le> c_size c \<and>
      (unat off + unat n \<le> length bs \<longrightarrow> b' = bytes_at (unat off) (unat n) bs)) \<and> (\<not> off + n \<le> c_size c \<longrightarrow> st = read_range_error off n (c_size c))"
proof -
  note D = chunk_onD [OF assms]
  obtain st fh' s1 where opn: "vt_open V s (Some (u_str L (c_uuid c))) O_RDONLY (Some None) = Done (st, fh', s1)"
    "sinv s1" "files s1 = files s" "\<forall>h q. hpath s h = Some q \<longrightarrow> hpath s1 h = Some q"
    "st_ok st \<longrightarrow> (\<exists>h. fh' = Some (Some h) \<and> rpath s1 h = Some (u_str L (c_uuid c)))"
    by (rule open_rdE [OF D(1,2), of None])
  consider "\<not> off + n \<le> c_size c" | "off + n \<le> c_size c" "\<not> st_ok st" | "off + n \<le> c_size c" "st_ok st" by blast
  then show ?thesis
  proof cases
    case 1
    then show ?thesis using chunk_post_refl [OF assms]
      by (auto simp: chunk_read_def read_range_error_def not_le)
  next
    case 2
    then show ?thesis using opn D(2) assms by (auto simp: chunk_read_def not_less chunk_post_def chunk_on_def reqs_le_same)
  next
    case 3
    then obtain h where h: "fh' = Some (Some h)" "rpath s1 h = Some (u_str L (c_uuid c))" using opn(5) by blast
    obtain st2 b' s2 where rd: "fh_read V s1 (Some h) off n (Some []) = Done (st2, Some b', s2)" "sinv s2"
      "files s2 = files s1" "hpath s2 = hpath s1"
      "st_ok st2 \<Longrightarrow> unat off + unat n \<le> length bs \<Longrightarrow> b' = bytes_at (unat off) (unat n) bs"
      using fh_readE [OF opn(2) h(2)] D(2) opn(3) by metis
    show ?thesis using 3 opn h rd D(2) assms by (auto simp: chunk_read_def not_less chunk_post_def chunk_on_def reqs_le_same)
  qed
qed

lemma step_post:
  assumes "chunk_step L V (s, c) (s', c')" "chunk_on L s c bs"
  shows "\<exists>ys. chunk_post L s c bs s' c' ys"
  using assms(1)
proof cases
  case (step_append buf off r)
  then show ?thesis using append_ok [OF assms(2), of buf off] by auto
next
  case (step_timeout i)
  then show ?thesis using timeout_ok [OF assms(2), of i] by auto
next
  case (step_seal len st len')
  then show ?thesis using seal_ok [OF assms(2), of len] by auto
next
  case (step_read off n st buf')
  then show ?thesis using read_ok [OF assms(2), of off n] by auto
qed

lemma run_post:
  assumes "chunk_run L V (s, c) (s', c')" "chunk_on L s c bs"
  shows "\<exists>ys. chunk_post L s c bs s' c' ys"
  using assms
proof (induction "(s, c)" "(s', c')" arbitrary: s' c' rule: chunk_run.induct)
  case run_refl
  then show ?case using chunk_post_refl by blast
next
  case (run_step y)
  obtain s1 c1 where y: "y = (s1, c1)" by (cases y)
  obtain ys where ys: "chunk_post L s c bs s1 c1 ys" using run_step y by blast
  then have "chunk_on L s1 c1 (bs @ ys)" by (simp add: chunk_post_def)
  then obtain zs where "chunk_post L s1 c1 (bs @ ys) s' c' zs" using step_post run_step(3) y by blast
  with ys show ?case using chunk_post_trans by blast
qed

lemma create_ok:
  assumes "sinv s"
  shows "\<exists>st out s'. chunk_create L V (Some s) u (Some x) = Done (st, out, Some s') \<and> sinv s' \<and>
    (if st_ok st then files s (u_str L u) = None \<and> files s' = (files s)(u_str L u \<mapsto> []) \<and>
       (\<exists>c. out = Some (Some c) \<and> c_uuid c = u \<and> c_state c = KOpen \<and> chunk_on L s' c [])
     else out = Some x \<and> files s' = files s)"
proof (cases "files s (u_str L u)")
  case None
  from create_new [OF assms None, of None] obtain st fh' s' where opn:
    "vt_open V s (Some (u_str L u)) create_flags (Some None) = Done (st, fh', s')" "sinv s'"
    "if st_ok st then files s' = (files s)(u_str L u \<mapsto> []) \<and> (\<exists>h. fh' = Some (Some h) \<and> hpath s' h = Some (u_str L u))
     else files s' = files s" by (auto split: if_splits)
  show ?thesis
  proof (cases "st_ok st")
    case True
    with opn obtain h where h: "fh' = Some (Some h)" "hpath s' h = Some (u_str L u)" by auto
    let ?c = "(new_chunk u)\<lparr>c_fh := Some h, c_state := KOpen\<rparr>"
    have "chunk_on L s' ?c []" using True opn h by (simp add: chunk_on_def chunk_ok_new)
    with True opn h None show ?thesis
      by (intro exI [of _ status_OK] exI [of _ "Some (Some ?c)"] exI [of _ s'])
        (simp add: chunk_create_def Let_def)
  next
    case False
    with opn None show ?thesis by (auto simp: chunk_create_def Let_def)
  qed
next
  case (Some bs)
  from create_exists [OF assms Some, of None] obtain st where
    "vt_open V s (Some (u_str L u)) create_flags (Some None) = Done (st, Some None, s)" "\<not> st_ok st"
    by (auto simp: st_ok_def)
  with assms show ?thesis by (auto simp: chunk_create_def Let_def intro!: exI)
qed

lemma create_uuid_exists:
  assumes "sinv s" "files s (u_str L u) = Some bs"
  shows "\<exists>st. chunk_create_uuid L V (Some s) u (Some x) = Done (st, Some x, Some s) \<and> error_code st = EEXIST"
  using create_exists [OF assms, of None]
  by (auto simp: chunk_create_uuid_def Let_def st_ok_def)

end

end
