(* ===== verification/Mem_Store.thy ===== *)
theory Mem_Store
  imports Store
begin

text \<open>
  The in-memory store: \<^verbatim>\<open>src/manusya/mem_store.h\<close> and \<^verbatim>\<open>src/manusya/mem_store.cc\<close>. The state is
  the two \<^verbatim>\<open>std::map\<close>s of the class; a \<^verbatim>\<open>MemFileHandle\<close> is the path it was opened with. The
  model keeps what \<^verbatim>\<open>operator[]\<close> does: a handle whose file was removed brings an empty file back.
  The store satisfies the contract \<open>file_store\<close>. Every operation but \<^verbatim>\<open>open\<close> and \<^verbatim>\<open>seal\<close> holds the mutex of the store
  for its whole body and is one step; \<^verbatim>\<open>open\<close> looks a path up and inserts it without the mutex, so that the
  model of \<^verbatim>\<open>open\<close> as one step covers only the executions in which no other thread is inside the store meanwhile.
\<close>

section \<open>Definitions\<close>

record mem_store =
  m_files :: "(string, iobuf) omap"
  m_attrs :: "(string, (string, string) omap) omap"

text \<open>A \<^verbatim>\<open>MemFileHandle\<close>.\<close>

type_synonym mem_handle = string

definition mem_empty :: mem_store where
  "mem_empty = \<lparr>m_files = [], m_attrs = []\<rparr>"

text \<open>
  \<^verbatim>\<open>open\<close> takes no lock. Threads that open files of a chunk server hold the mutex of the bank or of a chunk, not that of
  the store, so in the code it can run at the same time as an operation on another file, which is a data race on the
  two maps; the steps of the model do not overlap.
\<close>

definition mem_open ::
  "mem_store \<Rightarrow> string option \<Rightarrow> u32 \<Rightarrow> mem_handle option option \<Rightarrow> (mem_store, mem_handle option option) io" where
  "mem_open s path flags fh =
     (case path of None \<Rightarrow> Done (Status EINVAL ''path is nullptr'', fh, s)
      | Some p \<Rightarrow>
        (case fh of None \<Rightarrow> Done (Status EINVAL ''fh is nullptr'', fh, s)
         | Some _ \<Rightarrow>
           (if om_find string_lt (m_files s) p \<noteq> None then
              if flags AND O_EXCL \<noteq> 0 then Done (Status EEXIST ''file already exists'', fh, s)
              else Done (status_OK, Some (Some p),
                     if flags AND O_TRUNC \<noteq> 0 then s\<lparr>m_files := om_set string_lt (m_files s) p []\<rparr> else s)
            else if flags AND O_CREAT \<noteq> 0 then
              Done (status_OK, Some (Some p), s\<lparr>m_files := om_set string_lt (m_files s) p []\<rparr>)
            else Done (Status ENOENT ''file not found'', fh, s))))"

definition mem_append :: "mem_store \<Rightarrow> mem_handle option \<Rightarrow> u64 \<Rightarrow> iobuf \<Rightarrow> (mem_store, unit) io" where
  "mem_append s fh off buf =
     (case fh of None \<Rightarrow> Done (Status EINVAL ''fh is nullptr'', (), s)
      | Some path \<Rightarrow>
        (case om_index string_lt (m_files s) path [] of
           (data, m) \<Rightarrow> Done (status_OK, (), s\<lparr>m_files := om_set string_lt m path (data @ buf)\<rparr>)))"

definition mem_read ::
  "iobuf_lib \<Rightarrow> mem_store \<Rightarrow> mem_handle option \<Rightarrow> u64 \<Rightarrow> u64 \<Rightarrow> iobuf option \<Rightarrow> (mem_store, iobuf option) io" where
  "mem_read I s fh off n buf =
     (case fh of None \<Rightarrow> Done (Status EINVAL ''fh is nullptr'', buf, s)
      | Some path \<Rightarrow>
        (case om_index string_lt (m_files s) path [] of
           (data, m) \<Rightarrow>
             (case buf of None \<Rightarrow> Abort ''null IOBuf''
              | Some b \<Rightarrow> Done (status_OK, Some (b @ io_append_to I data n off), s\<lparr>m_files := m\<rparr>))))"

definition mem_seal :: "mem_store \<Rightarrow> mem_handle option \<Rightarrow> (mem_store, unit) io" where
  "mem_seal s fh = Done (status_OK, (), s)"

definition mem_size :: "mem_store \<Rightarrow> mem_handle option \<Rightarrow> u64 option \<Rightarrow> (mem_store, u64 option) io" where
  "mem_size s fh out =
     (case fh of None \<Rightarrow> Done (Status EINVAL ''fh is nullptr'', out, s)
      | Some path \<Rightarrow>
        (case om_index string_lt (m_files s) path [] of
           (data, m) \<Rightarrow>
             (case out of None \<Rightarrow> Abort ''null size''
              | Some _ \<Rightarrow> Done (status_OK, Some (word_of_nat (length data)), s\<lparr>m_files := m\<rparr>))))"

definition mem_remove :: "mem_store \<Rightarrow> string option \<Rightarrow> (mem_store, unit) io" where
  "mem_remove s path =
     (case path of None \<Rightarrow> Done (Status EINVAL ''path is nullptr'', (), s)
      | Some p \<Rightarrow> Done (status_OK, (), s\<lparr>m_files := om_erase string_lt (m_files s) p\<rparr>))"

definition mem_set_attr ::
  "mem_store \<Rightarrow> mem_handle option \<Rightarrow> string option \<Rightarrow> string option \<Rightarrow> (mem_store, unit) io" where
  "mem_set_attr s fh key val =
     (case fh of None \<Rightarrow> Done (Status EINVAL ''fh is nullptr'', (), s)
      | Some path \<Rightarrow>
        (case key of None \<Rightarrow> Done (Status EINVAL ''key is nullptr'', (), s)
         | Some k \<Rightarrow>
           (case val of None \<Rightarrow> Done (Status EINVAL ''value is nullptr'', (), s)
            | Some v \<Rightarrow>
              (case om_index string_lt (m_attrs s) path [] of
                 (a, m) \<Rightarrow> Done (status_OK, (),
                   s\<lparr>m_attrs := om_set string_lt m path (om_set string_lt a k v)\<rparr>)))))"

definition mem_get_attr ::
  "mem_store \<Rightarrow> mem_handle option \<Rightarrow> string option \<Rightarrow> string option \<Rightarrow> (mem_store, string option) io" where
  "mem_get_attr s fh key out =
     (case fh of None \<Rightarrow> Done (Status EINVAL ''fh is nullptr'', out, s)
      | Some path \<Rightarrow>
        (case key of None \<Rightarrow> Done (Status EINVAL ''key is nullptr'', out, s)
         | Some k \<Rightarrow>
           (case out of None \<Rightarrow> Done (Status EINVAL ''value is nullptr'', out, s)
            | Some _ \<Rightarrow>
              (case om_index string_lt (m_attrs s) path [] of
                 (a, m) \<Rightarrow>
                   (case om_find string_lt a k of
                      None \<Rightarrow> Done (Status ENOENT ''attribute not found'', out, s\<lparr>m_attrs := m\<rparr>)
                    | Some v \<Rightarrow> Done (status_OK, Some v, s\<lparr>m_attrs := m\<rparr>))))))"

definition mem_list_attrs ::
  "mem_store \<Rightarrow> mem_handle option \<Rightarrow> (string, string) omap option \<Rightarrow>
   (mem_store, (string, string) omap option) io" where
  "mem_list_attrs s fh out =
     (case fh of None \<Rightarrow> Done (Status EINVAL ''fh is nullptr'', out, s)
      | Some path \<Rightarrow>
        (case out of None \<Rightarrow> Done (Status EINVAL ''attrs is nullptr'', out, s)
         | Some _ \<Rightarrow>
           (case om_index string_lt (m_attrs s) path [] of
              (a, m) \<Rightarrow> Done (status_OK, Some a, s\<lparr>m_attrs := m\<rparr>))))"

text \<open>The paths \<^verbatim>\<open>for_each\<close> hands to its callback, in order.\<close>

definition mem_for_each :: "mem_store \<Rightarrow> string list" where
  "mem_for_each s = map fst (m_files s)"

definition mem_vt :: "iobuf_lib \<Rightarrow> (mem_store, mem_handle) store_vt" where
  "mem_vt I = \<lparr>vt_open = mem_open, vt_append = mem_append, vt_read = mem_read I, vt_seal = mem_seal,
     vt_size = mem_size, vt_remove = mem_remove, vt_set_attr = mem_set_attr,
     vt_get_attr = mem_get_attr, vt_list_attrs = mem_list_attrs, vt_for_each = mem_for_each\<rparr>"

section \<open>Well-formedness and abstraction\<close>

definition mem_inv :: "mem_store \<Rightarrow> bool" where
  "mem_inv s \<longleftrightarrow> om_sorted string_lt (m_files s) \<and> om_sorted string_lt (m_attrs s) \<and>
     (\<forall>e\<in>set (m_attrs s). om_sorted string_lt (snd e))"

definition mem_files :: "mem_store \<Rightarrow> string \<Rightarrow> iobuf option" where
  "mem_files s = om_find string_lt (m_files s)"

definition mem_hpath :: "mem_store \<Rightarrow> mem_handle \<Rightarrow> string option" where
  "mem_hpath s h = Some h"

definition mem_attr :: "mem_store \<Rightarrow> string \<Rightarrow> string \<Rightarrow> string option" where
  "mem_attr s p k = (case om_find string_lt (m_attrs s) p of None \<Rightarrow> None | Some a \<Rightarrow> om_find string_lt a k)"

lemmas mem_ops = mem_open_def mem_append_def mem_read_def mem_seal_def mem_size_def mem_remove_def
  mem_set_attr_def mem_get_attr_def mem_list_attrs_def mem_for_each_def

lemma mem_vt_simps [simp]:
  "vt_open (mem_vt I) = mem_open" "vt_append (mem_vt I) = mem_append" "vt_read (mem_vt I) = mem_read I"
  "vt_seal (mem_vt I) = mem_seal" "vt_size (mem_vt I) = mem_size" "vt_remove (mem_vt I) = mem_remove"
  "vt_set_attr (mem_vt I) = mem_set_attr" "vt_get_attr (mem_vt I) = mem_get_attr"
  "vt_list_attrs (mem_vt I) = mem_list_attrs" "vt_for_each (mem_vt I) = mem_for_each"
  by (simp_all add: mem_vt_def)

lemma mem_inv_empty [simp]: "mem_inv mem_empty"
  by (simp add: mem_inv_def mem_empty_def)

lemma mem_inv_files [simp]:
  "mem_inv s \<Longrightarrow> mem_inv (s\<lparr>m_files := m\<rparr>) \<longleftrightarrow> om_sorted string_lt m"
  by (auto simp: mem_inv_def)

lemma mem_files_set [simp]:
  "mem_files (s\<lparr>m_files := om_set string_lt m p bs\<rparr>) = (\<lambda>q. if q = p then Some bs else om_find string_lt m q)"
  by (auto simp: mem_files_def str.om_find_set)

lemma mem_inv_sortedD: "mem_inv s \<Longrightarrow> om_sorted string_lt (m_files s)"
  by (simp add: mem_inv_def)

lemma om_index_hit: "om_find lt m k = Some v \<Longrightarrow> om_index lt m k d = (v, m)"
  by (simp add: om_index_def)

lemma mem_vt_contract:
  assumes "iobuf_library I"
  shows "file_store (mem_vt I) mem_inv mem_files mem_hpath mem_hpath"
proof -
  note sd = mem_inv_sortedD str.om_sorted_set str.om_sorted_erase
  note fs = mem_files_def str.om_find_set str.om_find_erase mem_hpath_def fun_eq_iff
  show ?thesis
  proof (unfold_locales, goal_cases)
    case (1 s h p bs off buf)
    then show ?case by (auto simp: mem_ops fs sd om_index_hit)
  next
    case (2 s p fh)
    then show ?case by (auto simp: mem_ops fs sd create_flags_bits)
  next
    case (3 s p bs fh)
    then show ?case by (auto simp: mem_ops fs create_flags_bits)
  next
    case (4 s p bs fh)
    then show ?case by (auto simp: mem_ops fs rdonly_bits)
  next
    case (5 s h p bs off n)
    then show ?case
      by (auto simp: mem_ops fs om_index_hit mem_inv_sortedD iobuf_library.append_to [OF assms])
  next
    case (6 s h)
    then show ?case by (auto simp: mem_ops)
  next
    case (7 s h p bs x)
    then show ?case by (auto simp: mem_ops fs om_index_hit mem_inv_sortedD)
  next
    case (8 s p)
    then show ?case by (auto simp: mem_ops fs sd)
  next
    case (9 s)
    then have "dom (mem_files s) = fst ` set (m_files s)"
      by (simp add: mem_files_def mem_inv_sortedD str.om_find_eq_map_of dom_map_of_conv_image_fst)
    then show ?case by (simp add: mem_for_each_def)
  qed
qed

interpretation memstore: file_store "mem_vt byte_seq_lib" mem_inv mem_files mem_hpath mem_hpath
  by (rule mem_vt_contract) (rule byte_seq.iobuf_library_axioms)

end
