(* ===== verification/Mem_Chunk.thy ===== *)
theory Mem_Chunk
  imports Chunk Mem_Store
begin

text \<open>
  Chunks over the in-memory store, the default store of a chunk server. The properties are about
  every state that any interleaving of appends, timer callbacks, seals and reads can bring a newly
  created chunk to. They rest on the lemmas of the locale \<open>file_store\<close>, through the proof that the
  memory store satisfies its contract. File lengths are bounded by \<open>2 ^ 64\<close> only where a statement
  compares an offset with a position in the file, since the size of a chunk is a 64-bit integer.
\<close>

section \<open>Reachable chunks\<close>

text \<open>\<open>chunk_reachable L V s0 u x\<close>: creating the chunk \<open>u\<close> on the store \<open>s0\<close> succeeds, and
  the chunk and its store can then reach \<open>x\<close>.\<close>

definition chunk_reachable :: "uuid_lib \<Rightarrow> ('s, 'h) store_vt \<Rightarrow> 's \<Rightarrow> uuid \<Rightarrow> 's \<times> 'h chunk \<Rightarrow> bool" where
  "chunk_reachable L V s0 u x \<longleftrightarrow> (\<exists>st c0 s1.
     chunk_create L V (Some s0) u (Some None) = Done (st, Some (Some c0), Some s1) \<and>
     chunk_run L V (s1, c0) x)"

section \<open>Lemmas\<close>

lemma chunk_run_trans:
  assumes "chunk_run L V x y" "chunk_run L V y z"
  shows "chunk_run L V x z"
  using assms(2,1) by (induction rule: chunk_run.induct) (auto intro: chunk_run.run_step)

lemma chunk_run_step: "chunk_step L V x y \<Longrightarrow> chunk_run L V x y"
  by (rule chunk_run.run_step [OF chunk_run.run_refl])

lemma chunk_reachable_run:
  "chunk_reachable L V s0 u x \<Longrightarrow> chunk_run L V x y \<Longrightarrow> chunk_reachable L V s0 u y"
  unfolding chunk_reachable_def using chunk_run_trans by blast

context file_store
begin

lemma reachable_on:
  assumes "chunk_reachable L V s0 u (s, c)" "sinv s0"
  shows "c_uuid c = u" "\<exists>bs. chunk_on L s c bs"
proof -
  from assms(1) obtain st c0 s1 where cr: "chunk_create L V (Some s0) u (Some None) = Done (st, Some (Some c0), Some s1)"
    and run: "chunk_run L V (s1, c0) (s, c)" by (auto simp: chunk_reachable_def)
  from create_ok [OF assms(2), of L u None] cr have "c_uuid c0 = u" "chunk_on L s1 c0 []"
    by (auto split: if_splits)
  with run_post [OF run] show "c_uuid c = u" "\<exists>bs. chunk_on L s c bs"
    by (fastforce simp: chunk_post_def)+
qed

text \<open>An acknowledged append, and what the file holds in every later state.\<close>

lemma append_returned:
  assumes "chunk_on L s c bs" "chunk_append V s c buf off = Done (Returned st, s1, c1)" "st_ok st"
  obtains zs where "off = c_size c" "chunk_on L s1 c1 (bs @ buf @ zs)" "c_uuid c1 = c_uuid c"
proof -
  have off: "off = c_size c" "c_state c \<noteq> KSealed"
    using assms(2,3) by (auto simp: chunk_append_def invalid_offset_def Let_def split: if_splits)
  from append_now_ok [OF assms(1) off, of buf] assms(2,3)
  obtain zs where "chunk_on L s1 c1 (bs @ buf @ zs)" "c_uuid c1 = c_uuid c" by (auto simp: chunk_post_def)
  with off(1) that show ?thesis by blast
qed

lemma append_durable:
  assumes "sinv s0" "chunk_reachable L V s0 u (s, c)"
    and "chunk_append V s c buf off = Done (Returned st, s1, c1)" "st_ok st"
    and "chunk_run L V (s1, c1) (s2, c2)" "files s2 (u_str L u) = Some bs2" "length bs2 < 2 ^ 64"
  shows "chunk_on L s2 c2 bs2" "unat off + length buf \<le> length bs2" "bytes_at (unat off) (length buf) bs2 = buf"
proof -
  obtain bs where on: "chunk_on L s c bs" "c_uuid c = u" using reachable_on [OF assms(2,1)] by blast
  obtain zs where off: "off = c_size c" and p1: "chunk_on L s1 c1 (bs @ buf @ zs)" "c_uuid c1 = u"
    using append_returned [OF on(1) assms(3,4)] on(2) by metis
  obtain ys where p2: "chunk_on L s2 c2 ((bs @ buf @ zs) @ ys)" "c_uuid c2 = u"
    using run_post [OF assms(5) p1(1)] p1(2) by (auto simp: chunk_post_def)
  then have bs2: "bs2 = bs @ buf @ zs @ ys" using chunk_onD(2) assms(6) by fastforce
  then have "unat off = length bs" using off chunk_onD(3) [OF on(1)] assms(7) by (simp add: unat_of_nat_u64)
  with p2(1) show "chunk_on L s2 c2 bs2" "unat off + length buf \<le> length bs2" "bytes_at (unat off) (length buf) bs2 = buf"
    by (simp_all add: bs2)
qed

end

text \<open>The contract at the memory store, and the abbreviations the properties use.\<close>

abbreviation mem_on :: "uuid_lib \<Rightarrow> mem_store \<Rightarrow> mem_handle chunk \<Rightarrow> iobuf \<Rightarrow> bool" where
  "mem_on \<equiv> file_store.chunk_on mem_inv mem_files mem_hpath"

lemma mem_reachable_on:
  assumes "iobuf_library I" "mem_inv s0" "chunk_reachable L (mem_vt I) s0 u (s, c)"
  obtains bs where "mem_on L s c bs" "c_uuid c = u"
  using file_store.reachable_on [OF mem_vt_contract [OF assms(1)] assms(3,2)] by blast

lemma mem_onD:
  assumes "mem_on L s c bs"
  shows "mem_inv s" "mem_files s (u_str L (c_uuid c)) = Some bs" "chunk_ok bs c"
    "c_fh c = Some (u_str L (c_uuid c))"
  using assms mem_vt_contract [OF byte_seq.iobuf_library_axioms]
  by (auto simp: file_store.chunk_on_def mem_hpath_def)

lemma mem_post:
  assumes "iobuf_library I" "chunk_run L (mem_vt I) (s, c) (s', c')" "mem_on L s c bs"
  obtains ys where "mem_on L s' c' (bs @ ys)" "c_uuid c' = c_uuid c" "reqs_le c c'"
    "c_state c = KSealed \<Longrightarrow> c_state c' = KSealed \<and> ys = []"
  using file_store.run_post [OF mem_vt_contract [OF assms(1)] assms(2,3)]
  by (auto simp: file_store.chunk_post_def [OF mem_vt_contract [OF assms(1)]])

lemma mem_read_path:
  assumes "iobuf_library I" "mem_files s p = Some bs"
  shows "mem_open s (Some p) O_RDONLY (Some None) = Done (status_OK, Some (Some p), s)"
    "fh_read (mem_vt I) s (Some p) off n (Some []) = Done (status_OK, Some (bytes_at (unat off) (unat n) bs), s)"
  using assms(2)
  by (simp_all add: fh_read_def mem_ops mem_files_def rdonly_bits om_index_hit
      iobuf_library.append_to [OF assms(1)])

lemma mem_append_ok:
  assumes "iobuf_library I" "mem_on L s c bs"
    and "chunk_append (mem_vt I) s c buf off = Done (Returned st, s1, c1)" "st_ok st"
  obtains zs where "off = c_size c" "mem_on L s1 c1 (bs @ buf @ zs)" "c_uuid c1 = c_uuid c"
  using file_store.append_returned [OF mem_vt_contract [OF assms(1)] assms(2-4)] .

lemma mem_read_ok:
  assumes "iobuf_library I" "mem_on L s c bs" "length bs < 2 ^ 64" "unat off + unat n < 2 ^ 64"
  shows "chunk_read L (mem_vt I) s c off n (Some []) =
    (if unat off + unat n \<le> length bs then Done (status_OK, Some (bytes_at (unat off) (unat n) bs), s)
     else Done (read_range_error off n (c_size c), Some [], s))"
proof -
  note D = mem_onD [OF assms(2)]
  have "off + n \<le> c_size c \<longleftrightarrow> unat off + unat n \<le> length bs"
    using assms(3,4) D(3) by (simp add: word_le_nat_alt chunk_ok_def unat_of_nat_u64 unat_word_ariths)
  then show ?thesis
    using mem_read_path [OF assms(1) D(2)] by (auto simp: chunk_read_def not_le [symmetric])
qed

text \<open>
  A concrete run: a chunk is created on the empty store, three bytes arrive out of order as an
  append at offset 2 that has to wait and an append at offset 0 that fills the gap.
\<close>

abbreviation ex_V :: "(mem_store, mem_handle) store_vt" where
  "ex_V \<equiv> mem_vt byte_seq_lib"

abbreviation ex_u :: uuid where
  "ex_u \<equiv> UUID 0 1"

definition ex_store :: "iobuf \<Rightarrow> mem_store" where
  "ex_store bs = \<lparr>m_files = [(u_str hex_lib ex_u, bs)], m_attrs = []\<rparr>"

definition ex_chunk :: "mem_handle chunk" where
  "ex_chunk = (new_chunk ex_u)\<lparr>c_fh := Some (u_str hex_lib ex_u), c_state := KOpen\<rparr>"

definition ex_rq :: "status future_state \<Rightarrow> append_request" where
  "ex_rq p = \<lparr>rq_offset = 2, rq_buf = [3], rq_promise = p\<rparr>"

definition ex_waiting :: "mem_handle chunk" where
  "ex_waiting = ex_chunk\<lparr>c_queue := [0], c_reqs := (\<lambda>_. None)(0 \<mapsto> ex_rq KFuture), c_next := 1\<rparr>"

definition ex_done :: "mem_handle chunk" where
  "ex_done = ex_chunk\<lparr>c_size := 3, c_reqs := (\<lambda>_. None)(0 \<mapsto> ex_rq (KResult status_OK)), c_next := 1\<rparr>"

lemmas ex_defs = ex_store_def ex_chunk_def ex_rq_def ex_waiting_def ex_done_def

lemma ex_reachable: "chunk_reachable hex_lib ex_V mem_empty ex_u (ex_store [], ex_chunk)"
  unfolding chunk_reachable_def
  by (intro exI [of _ status_OK] exI [of _ ex_chunk] exI [of _ "ex_store []"] conjI chunk_run.run_refl)
    (simp add: chunk_create_def mem_open_def mem_empty_def create_flags_bits ex_defs)

lemma ex_append_wait:
  "chunk_append ex_V (ex_store []) ex_chunk [3] 2 = Done (Waiting 0, ex_store [], ex_waiting)"
  by (simp add: chunk_append_def Let_def put_rq_def ex_defs)

lemma ex_append_fill:
  "chunk_append ex_V (ex_store []) ex_waiting [1, 2] 0 = Done (Returned status_OK, ex_store [1, 2, 3], ex_done)"
  by (simp add: chunk_append_def fh_append_def mem_append_def om_index_def str.lt_irrefl put_rq_def
      new_chunk_def ex_defs)

lemma ex_reachable_wait: "chunk_reachable hex_lib ex_V mem_empty ex_u (ex_store [], ex_waiting)"
  by (rule chunk_reachable_run [OF ex_reachable chunk_run_step], rule chunk_step.step_append)
    (rule ex_append_wait)

lemma ex_run_fill: "chunk_run hex_lib ex_V (ex_store [], ex_waiting) (ex_store [1, 2, 3], ex_done)"
  by (rule chunk_run_step, rule chunk_step.step_append) (rule ex_append_fill)

lemmas ex_reachable_done = chunk_reachable_run [OF ex_reachable_wait ex_run_fill]

lemma ex_files [simp]: "mem_files (ex_store bs) (u_str hex_lib ex_u) = Some bs"
  by (simp add: mem_files_def ex_defs str.lt_irrefl)

lemmas ex_env = byte_seq.iobuf_library_axioms mem_inv_empty

section \<open>Properties\<close>

text \<open>
  C5: in every reachable state of a chunk, its size is the length of its file, the queued
  requests are in strictly increasing order of offset, all of them beyond the end of the file, and
  none of them answered yet.
\<close>

theorem chunk_reachable_inv:
  assumes "iobuf_library I" "mem_inv s0" "chunk_reachable L (mem_vt I) s0 u (s, c)"
  shows "\<exists>bs. mem_files s (u_str L u) = Some bs \<and> c_size c = word_of_nat (length bs) \<and>
    sorted_wrt (\<lambda>i j. rq_off c i < rq_off c j) (c_queue c) \<and>
    (\<forall>i\<in>set (c_queue c). c_size c < rq_off c i \<and> chunk_append_finish c i = Done Blocks)"
proof -
  obtain bs where on: "mem_on L s c bs" "c_uuid c = u" using mem_reachable_on [OF assms] .
  have "\<exists>rq. c_reqs c i = Some rq \<and> rq_promise rq = KFuture" if "i \<in> set (c_queue c)" for i
    using mem_onD(3) [OF on(1)] that by (auto simp: chunk_ok_def pending_def)
  with mem_onD [OF on(1)] on(2) show ?thesis
    by (intro exI [of _ bs]) (fastforce simp: chunk_ok_def queue_sorted_def chunk_append_finish_def)
qed

theorem chunk_reachable_inv_witness:
  "chunk_reachable hex_lib ex_V mem_empty ex_u (ex_store [], ex_waiting) \<and>
   c_size ex_waiting < rq_off ex_waiting 0 \<and> chunk_append_finish ex_waiting 0 = Done Blocks"
proof -
  have "0 \<in> set (c_queue ex_waiting)" by (simp add: ex_waiting_def)
  then show ?thesis using chunk_reachable_inv [OF ex_env ex_reachable_wait] ex_reachable_wait by blast
qed

text \<open>
  C14: no operation on a reachable chunk aborts: not the assertion that a promise is fulfilled
  once, not a null handle, not a dangling request.
\<close>

theorem chunk_never_aborts:
  assumes "iobuf_library I" "mem_inv s0" "chunk_reachable L (mem_vt I) s0 u (s, c)"
  shows "(\<exists>x. chunk_append (mem_vt I) s c buf off = Done x) \<and>
    (c_reqs c i = None \<or> (\<exists>x. chunk_timeout c i = Done x)) \<and>
    (\<exists>x. chunk_query_and_seal (mem_vt I) s c len = Done x) \<and>
    (\<exists>x. chunk_read L (mem_vt I) s c off n (Some []) = Done x)"
proof -
  obtain bs where on: "mem_on L s c bs" using mem_reachable_on [OF assms] .
  note fs = mem_vt_contract [OF assms(1)]
  show ?thesis
    using file_store.append_ok [OF fs on] file_store.timeout_ok [OF fs on]
      file_store.seal_ok [OF fs on] file_store.read_ok [OF fs on]
    by (metis option.exhaust)
qed

theorem chunk_never_aborts_witness:
  "chunk_reachable hex_lib ex_V mem_empty ex_u (ex_store [], ex_waiting) \<and>
   (\<exists>x. chunk_append ex_V (ex_store []) ex_waiting [1, 2] 0 = Done x) \<and> (\<exists>x. chunk_timeout ex_waiting 0 = Done x)"
  using chunk_never_aborts [OF ex_env ex_reachable_wait, of "[1, 2]" 0 0 None 0] ex_reachable_wait
  by (simp add: ex_waiting_def)

text \<open>
  C11: a chunk is append-only: along every run the file keeps the bytes it has and only
  grows at its end, and once the chunk is sealed it stays sealed and its file never changes again.
\<close>

theorem chunk_append_only:
  assumes "iobuf_library I" "mem_inv s0" "chunk_reachable L (mem_vt I) s0 u (s, c)"
    and "chunk_run L (mem_vt I) (s, c) (s', c')"
  shows "\<exists>bs ys. mem_files s (u_str L u) = Some bs \<and> mem_files s' (u_str L u) = Some (bs @ ys) \<and>
    (c_state c = KSealed \<longrightarrow> c_state c' = KSealed \<and> ys = [])"
proof -
  obtain bs where on: "mem_on L s c bs" "c_uuid c = u" using mem_reachable_on [OF assms(1-3)] .
  obtain ys where "mem_on L s' c' (bs @ ys)" "c_uuid c' = c_uuid c"
    "c_state c = KSealed \<Longrightarrow> c_state c' = KSealed \<and> ys = []"
    using mem_post [OF assms(1,4) on(1)] by metis
  with on show ?thesis using mem_onD(2) [OF on(1)] mem_onD(2) by (metis append_Nil2)
qed

theorem chunk_append_only_witness:
  "chunk_run hex_lib ex_V (ex_store [], ex_waiting) (ex_store [1, 2, 3], ex_done) \<and>
   (\<exists>bs ys. mem_files (ex_store []) (u_str hex_lib ex_u) = Some bs \<and>
     mem_files (ex_store [1, 2, 3]) (u_str hex_lib ex_u) = Some (bs @ ys))"
  using chunk_append_only [OF ex_env ex_reachable_wait ex_run_fill] ex_run_fill by blast

text \<open>
  C2: an append that returned success is durable: in every later state, the file holds the
  appended bytes at the offset the client asked for.
\<close>

theorem chunk_append_durable:
  assumes "iobuf_library I" "mem_inv s0" "chunk_reachable L (mem_vt I) s0 u (s, c)"
    and "chunk_append (mem_vt I) s c buf off = Done (Returned st, s1, c1)" "st_ok st"
    and "chunk_run L (mem_vt I) (s1, c1) (s2, c2)"
    and "mem_files s2 (u_str L u) = Some bs2" "length bs2 < 2 ^ 64"
  shows "bytes_at (unat off) (length buf) bs2 = buf"
  by (rule file_store.append_durable(3) [OF mem_vt_contract [OF assms(1)] assms(2-8)])

theorem chunk_append_durable_witness:
  "chunk_append ex_V (ex_store []) ex_waiting [1, 2] 0 = Done (Returned status_OK, ex_store [1, 2, 3], ex_done) \<and>
   bytes_at 0 2 [1, 2, 3 :: u8] = [1, 2]"
  using chunk_append_durable [OF ex_env ex_reachable_wait ex_append_fill st_ok_OK chunk_run.run_refl ex_files]
    ex_append_fill by simp

text \<open>
  C12: the same for an append that had to wait: when its thread is woken with success,
  its bytes are at its offset, now and in every later state, and the answer does not change.
\<close>

theorem chunk_queued_durable:
  assumes "iobuf_library I" "mem_inv s0" "chunk_reachable L (mem_vt I) s0 u (s, c)"
    and "c_reqs c i = Some rq" "chunk_append_finish c i = Done (Returns st)" "st_ok st"
    and "chunk_run L (mem_vt I) (s, c) (s', c')"
    and "mem_files s' (u_str L u) = Some bs'" "length bs' < 2 ^ 64"
  shows "bytes_at (unat (rq_offset rq)) (length (rq_buf rq)) bs' = rq_buf rq \<and>
    chunk_append_finish c' i = Done (Returns st)"
proof -
  have rq: "rq_promise rq = KResult st"
    using assms(4,5) by (cases "rq_promise rq") (auto simp: chunk_append_finish_def)
  obtain bs where on: "mem_on L s c bs" "c_uuid c = u" using mem_reachable_on [OF assms(1-3)] .
  obtain ys where p: "mem_on L s' c' (bs @ ys)" "c_uuid c' = c_uuid c" "reqs_le c c'"
    using mem_post [OF assms(1,7) on(1)] by metis
  then have bs': "bs' = bs @ ys" using mem_onD(2) [OF p(1)] assms(8) on(2) by simp
  have "c_reqs c' i = Some rq" using p(3) assms(4) rq by (fastforce simp: reqs_le_def)
  moreover have "acked bs' c'" using mem_onD(3) [OF p(1)] assms(9) bs' by (simp add: chunk_ok_def)
  ultimately show ?thesis using rq assms(6) by (auto simp: acked_def chunk_append_finish_def)
qed

theorem chunk_queued_durable_witness:
  "c_reqs ex_done 0 = Some (ex_rq (KResult status_OK)) \<and> bytes_at 2 1 [1, 2, 3 :: u8] = [3]"
proof -
  have rq: "c_reqs ex_done 0 = Some (ex_rq (KResult status_OK))" by (simp add: ex_defs)
  then have fin: "chunk_append_finish ex_done 0 = Done (Returns status_OK)"
    by (simp add: chunk_append_finish_def ex_rq_def)
  from chunk_queued_durable [OF ex_env ex_reachable_done rq fin st_ok_OK chunk_run.run_refl ex_files] rq
  show ?thesis by (simp add: ex_rq_def)
qed

text \<open>
  C15: a read whose range does not wrap around, so that its offset and its length add up to less than \<open>2 ^ 64\<close>, is exact on every reachable chunk over the
  memory store: inside the chunk it returns success with exactly the bytes of the file at the offset, and if it ends
  beyond the chunk it returns \<^verbatim>\<open>EINVAL\<close> and no bytes; neither changes the store. For ranges that wrap around see
  \<open>chunk_read_wraps\<close>.
\<close>

theorem chunk_read_correct:
  assumes "iobuf_library I" "mem_inv s0" "chunk_reachable L (mem_vt I) s0 u (s, c)"
    and "mem_files s (u_str L u) = Some bs" "length bs < 2 ^ 64" "unat off + unat n < 2 ^ 64"
  shows "chunk_read L (mem_vt I) s c off n (Some []) =
    (if unat off + unat n \<le> length bs then Done (status_OK, Some (bytes_at (unat off) (unat n) bs), s)
     else Done (read_range_error off n (c_size c), Some [], s))"
proof -
  obtain bs' where on: "mem_on L s c bs'" "c_uuid c = u" using mem_reachable_on [OF assms(1-3)] .
  then have "mem_on L s c bs" using mem_onD(2) [OF on(1)] assms(4) by simp
  then show ?thesis using mem_read_ok [OF assms(1)] assms(5,6) by blast
qed

theorem chunk_read_correct_witness:
  "chunk_reachable hex_lib ex_V mem_empty ex_u (ex_store [1, 2, 3], ex_done) \<and>
   chunk_read hex_lib ex_V (ex_store [1, 2, 3]) ex_done 1 2 (Some []) = Done (status_OK, Some [2, 3], ex_store [1, 2, 3]) \<and>
   chunk_read hex_lib ex_V (ex_store [1, 2, 3]) ex_done 2 2 (Some []) =
     Done (read_range_error 2 2 (c_size ex_done), Some [], ex_store [1, 2, 3])"
  using chunk_read_correct [OF ex_env ex_reachable_done ex_files, of 1 2]
    chunk_read_correct [OF ex_env ex_reachable_done ex_files, of 2 2] ex_reachable_done by simp

text \<open>
  C40: the range check of a read is computed modulo \<open>2 ^ 64\<close>: a range whose end wraps
  around to a position inside the chunk passes it, and the read answers success with fewer bytes
  than were asked for.
\<close>

theorem chunk_read_wraps:
  assumes "iobuf_library I" "mem_inv s0" "chunk_reachable L (mem_vt I) s0 u (s, c)"
    and "mem_files s (u_str L u) = Some bs" "length bs < 2 ^ 64"
    and "2 ^ 64 \<le> unat off + unat n" "unat off + unat n \<le> 2 ^ 64 + length bs"
  shows "\<exists>b. chunk_read L (mem_vt I) s c off n (Some []) = Done (status_OK, Some b, s) \<and> length b < unat n"
proof -
  obtain bs' where on: "mem_on L s c bs'" "c_uuid c = u" using mem_reachable_on [OF assms(1-3)] .
  have sz: "c_size c = word_of_nat (length bs)"
    using mem_onD(2,3) [OF on(1)] on(2) assms(4) by (simp add: chunk_ok_def)
  have lt: "unat off < 2 ^ 64" "unat n < 2 ^ 64" using unsigned_less [of off] unsigned_less [of n] by simp_all
  have "(unat off + unat n) mod 2 ^ 64 = unat off + unat n - 2 ^ 64"
    using lt assms(6) by (simp add: mod_if)
  then have "off + n \<le> c_size c"
    using assms(5,7) by (simp add: word_le_nat_alt sz unat_of_nat_u64 unat_word_ariths)
  moreover have "length (bytes_at (unat off) (unat n) bs) < unat n" using assms(5,6) lt by auto
  ultimately show ?thesis
    using mem_read_path [OF assms(1,4)] on(2) by (auto simp: chunk_read_def not_le [symmetric])
qed

theorem chunk_read_wraps_witness:
  "chunk_reachable hex_lib ex_V mem_empty ex_u (ex_store [1, 2, 3], ex_done) \<and>
   (\<exists>b. chunk_read hex_lib ex_V (ex_store [1, 2, 3]) ex_done 1 18446744073709551615 (Some []) =
      Done (status_OK, Some b, ex_store [1, 2, 3]) \<and> length b < 18446744073709551615)"
  using chunk_read_wraps [OF ex_env ex_reachable_done ex_files, of 1 18446744073709551615] ex_reachable_done by simp

text \<open>
  C16: sealing a reachable chunk returns the length of its file; from then on, along every run,
  the file stays as it is and every append is refused with \<^verbatim>\<open>EPERM\<close>.
\<close>

theorem chunk_seal_final:
  assumes "iobuf_library I" "mem_inv s0" "chunk_reachable L (mem_vt I) s0 u (s, c)"
    and "mem_files s (u_str L u) = Some bs"
  shows "\<exists>s1 c1. chunk_query_and_seal (mem_vt I) s c (Some x) =
      Done (status_OK, Some (word_of_nat (length bs)), s1, c1) \<and>
    (\<forall>s2 c2 buf off. chunk_run L (mem_vt I) (s1, c1) (s2, c2) \<longrightarrow> mem_files s2 (u_str L u) = Some bs \<and>
      chunk_append (mem_vt I) s2 c2 buf off = Done (Returned (Status EPERM ''chunk is sealed''), s2, c2))"
proof -
  obtain bs' where on: "mem_on L s c bs'" "c_uuid c = u" using mem_reachable_on [OF assms(1-3)] .
  let ?c1 = "c\<lparr>c_state := KSealed\<rparr>"
  have sealed: "chunk_query_and_seal (mem_vt I) s c (Some x) = Done (status_OK, Some (word_of_nat (length bs)), s, ?c1)"
    using mem_onD(4) [OF on(1)] on(2) assms(4)
    by (simp add: chunk_query_and_seal_def fh_seal_def fh_size_def mem_ops mem_files_def om_index_hit)
  then have on1: "mem_on L s ?c1 bs"
    using file_store.seal_ok [OF mem_vt_contract [OF assms(1)] on(1), of "Some x"] mem_onD(2) [OF on(1)] assms(4) on(2)
    by (auto simp: file_store.chunk_post_def [OF mem_vt_contract [OF assms(1)]])
  have "mem_files s2 (u_str L u) = Some bs \<and> c_state c2 = KSealed"
    if run: "chunk_run L (mem_vt I) (s, ?c1) (s2, c2)" for s2 c2
    using mem_post [OF assms(1) run on1] mem_onD(2) [of L s2 c2] on(2) by (metis append_Nil2 chunk.select_convs(1,3) chunk.surjective chunk.update_convs(3))
  with sealed show ?thesis by (intro exI [of _ s] exI [of _ ?c1]) (auto simp: chunk_append_def)
qed

theorem chunk_seal_final_witness:
  "chunk_reachable hex_lib ex_V mem_empty ex_u (ex_store [1, 2, 3], ex_done) \<and>
   (\<exists>s1 c1. chunk_query_and_seal ex_V (ex_store [1, 2, 3]) ex_done (Some 0) = Done (status_OK, Some 3, s1, c1) \<and>
      chunk_append ex_V s1 c1 [4] 3 = Done (Returned (Status EPERM ''chunk is sealed''), s1, c1))"
  using chunk_seal_final [OF ex_env ex_reachable_done ex_files, of 0] ex_reachable_done chunk_run.run_refl
  by fastforce

text \<open>
  C13: an append that waits is always answered: whatever happens to the chunk in the meantime, its
  timer callback runs without a failed assertion and then the waiting thread has a status to return.
\<close>

theorem chunk_waiting_answered:
  assumes "iobuf_library I" "mem_inv s0" "chunk_reachable L (mem_vt I) s0 u (s, c)"
    and "chunk_append (mem_vt I) s c buf off = Done (Waiting i, s1, c1)"
    and "chunk_run L (mem_vt I) (s1, c1) (s2, c2)"
  shows "\<exists>c3 st. chunk_timeout c2 i = Done c3 \<and> chunk_append_finish c3 i = Done (Returns st)"
proof -
  note fs = mem_vt_contract [OF assms(1)]
  obtain bs where on: "mem_on L s c bs" "c_uuid c = u" using mem_reachable_on [OF assms(1-3)] .
  have step: "chunk_run L (mem_vt I) (s, c) (s1, c1)"
    using assms(4) by (intro chunk_run_step chunk_step.step_append)
  have "c_reqs c1 i \<noteq> None" using assms(4)
    by (auto simp: chunk_append_def Let_def outcome_simps split: if_splits prod.splits)
  moreover obtain bs1 where "mem_on L s1 c1 bs1" using mem_post [OF assms(1) step on(1)] by metis
  then obtain bs2 where on2: "mem_on L s2 c2 bs2" "reqs_le c1 c2"
    using mem_post [OF assms(1,5)] by metis
  ultimately obtain rq where "c_reqs c2 i = Some rq" by (auto simp: reqs_le_def)
  from file_store.timeout_ok [OF fs on2(1) this] obtain c3 rq' where
    c3: "chunk_timeout c2 i = Done c3" "c_reqs c3 i = Some rq'" "fs_available (rq_promise rq')"
    and "file_store.chunk_post mem_inv mem_files mem_hpath L s2 c2 bs2 s2 c3 []" by blast
  then have "reqs_fresh c3"
    using mem_onD(3) by (fastforce simp: file_store.chunk_post_def [OF fs] chunk_ok_def)
  with c3 show ?thesis
    by (cases "rq_promise rq'") (auto simp: chunk_append_finish_def reqs_fresh_def)
qed

theorem chunk_waiting_answered_witness:
  "chunk_append ex_V (ex_store []) ex_chunk [3] 2 = Done (Waiting 0, ex_store [], ex_waiting) \<and>
   (\<exists>c3 st. chunk_timeout ex_waiting 0 = Done c3 \<and> chunk_append_finish c3 0 = Done (Returns st))"
  using chunk_waiting_answered [OF ex_env ex_reachable ex_append_wait chunk_run.run_refl] ex_append_wait by blast

end
