(* ===== verification/Chunk_Order.thy ===== *)
theory Chunk_Order
  imports Mem_Chunk
begin

text \<open>
  Appends that arrive out of order. A client that writes the pieces \<open>ps\<close> of a stream sends each of them with
  its offset; they may arrive in any order. The queue of the chunk puts them in order again: when all have
  arrived, the file has the pieces in the order of their offsets and every append has been answered with success.
\<close>

section \<open>Definitions\<close>

text \<open>The appends \<open>(buf, off)\<close> one after the other, with their results.\<close>

fun deliver :: "('s, 'h) store_vt \<Rightarrow> 's \<Rightarrow> 'h chunk \<Rightarrow> (iobuf \<times> u64) list \<Rightarrow> (append_result list \<times> 's \<times> 'h chunk) outcome" where
  "deliver V s c [] = Done ([], s, c)"
| "deliver V s c ((buf, off) # xs) =
     obind (chunk_append V s c buf off) (\<lambda>(r, s1, c1). obind (deliver V s1 c1 xs) (\<lambda>(rs, s2, c2). Done (r # rs, s2, c2)))"

text \<open>Where piece \<open>i\<close> goes, when the stream begins at position \<open>n\<close>.\<close>

definition piece_end :: "nat \<Rightarrow> iobuf list \<Rightarrow> nat \<Rightarrow> nat" where
  "piece_end n ps i = n + length (concat (take i ps))"

definition piece_off :: "nat \<Rightarrow> iobuf list \<Rightarrow> nat \<Rightarrow> u64" where
  "piece_off n ps i = word_of_nat (piece_end n ps i)"

definition piece_rq :: "nat \<Rightarrow> iobuf list \<Rightarrow> nat \<Rightarrow> append_request" where
  "piece_rq n ps i = \<lparr>rq_offset = piece_off n ps i, rq_buf = ps ! i, rq_promise = KFuture\<rparr>"

text \<open>The addresses \<open>q\<close> hold the waiting requests of the pieces \<open>js\<close>.\<close>

definition linked :: "nat \<Rightarrow> iobuf list \<Rightarrow> 'h chunk \<Rightarrow> nat list \<Rightarrow> nat list \<Rightarrow> bool" where
  "linked n ps c q js \<longleftrightarrow> list_all2 (\<lambda>id j. c_reqs c id = Some (piece_rq n ps j)) q js"

text \<open>The pieces that follow \<open>k\<close> without a gap, and the rest.\<close>

fun run_end :: "nat \<Rightarrow> nat list \<Rightarrow> nat" where
  "run_end k [] = k"
| "run_end k (j # js) = (if j = k then run_end (Suc k) js else k)"

fun run_rest :: "nat \<Rightarrow> nat list \<Rightarrow> nat list" where
  "run_rest k [] = []"
| "run_rest k (j # js) = (if j = k then run_rest (Suc k) js else j # js)"

text \<open>The state of a chunk whose file ends at piece \<open>k\<close>.\<close>

definition at_piece :: "string \<Rightarrow> iobuf \<Rightarrow> iobuf list \<Rightarrow> nat \<Rightarrow> mem_store \<Rightarrow> mem_handle chunk \<Rightarrow> bool" where
  "at_piece p bs ps k s c \<longleftrightarrow> mem_files s p = Some (bs @ concat (take k ps)) \<and> c_fh c = Some p \<and>
     c_size c = piece_off (length bs) ps k"

text \<open>The pieces before \<open>k\<close> are in the file and the pieces \<open>js\<close> wait in the queue; every result in \<open>rs\<close> is a
  success or belongs to a request that waits.\<close>

definition answered :: "mem_handle chunk \<Rightarrow> append_result \<Rightarrow> bool" where
  "answered c r \<longleftrightarrow> r = Returned status_OK \<or> (\<exists>a. r = Waiting a \<and> chunk_append_finish c a = Done (Returns status_OK))"

definition arrived ::
  "uuid_lib \<Rightarrow> iobuf \<Rightarrow> iobuf list \<Rightarrow> nat \<Rightarrow> nat list \<Rightarrow> mem_store \<Rightarrow> mem_handle chunk \<Rightarrow> append_result set \<Rightarrow> bool" where
  "arrived L bs ps k js s c rs \<longleftrightarrow> k \<le> length ps \<and> sorted_wrt (<) js \<and> (\<forall>j\<in>set js. k < j \<and> j < length ps) \<and>
     mem_on L s c (bs @ concat (take k ps)) \<and> c_state c \<noteq> KSealed \<and>
     linked (length bs) ps c (c_queue c) js \<and> distinct (c_queue c) \<and>
     (\<forall>r\<in>rs. answered c r \<or> (\<exists>a\<in>set (c_queue c). r = Waiting a))"

text \<open>The pieces, each with its offset, in the order \<open>ord\<close>.\<close>

definition arrivals :: "nat \<Rightarrow> iobuf list \<Rightarrow> nat list \<Rightarrow> (iobuf \<times> u64) list" where
  "arrivals n ps ord = map (\<lambda>i. (ps ! i, piece_off n ps i)) ord"

section \<open>Lemmas\<close>

lemma deliver_length: "deliver V s c xs = Done (out, s', c') \<Longrightarrow> length out = length xs"
  by (induction V s c xs arbitrary: out rule: deliver.induct) (auto simp: outcome_simps split: prod.splits)

lemma piece_end_Suc: "i < length ps \<Longrightarrow> piece_end n ps (Suc i) = piece_end n ps i + length (ps ! i)"
  by (simp add: piece_end_def take_Suc_conv_app_nth)

lemma piece_end_mono:
  assumes "i \<le> j" "j \<le> length ps"
  shows "piece_end n ps i \<le> piece_end n ps j"
proof -
  have "take j ps = take i ps @ take (j - i) (drop i ps)" using assms(1) by (metis le_add_diff_inverse take_add)
  then show ?thesis by (simp add: piece_end_def)
qed

lemma piece_off_less:
  assumes "i < j" "j \<le> length ps" "\<forall>p\<in>set ps. p \<noteq> []" "n + length (concat ps) < 2 ^ 64"
  shows "piece_off n ps i < piece_off n ps j"
proof -
  have "ps ! i \<noteq> []" using assms by simp
  then have "piece_end n ps i < piece_end n ps (Suc i)" using piece_end_Suc [of i ps n] assms by simp
  also have "\<dots> \<le> piece_end n ps j" using assms by (intro piece_end_mono) auto
  finally have lt: "piece_end n ps i < piece_end n ps j" .
  have "piece_end n ps j \<le> piece_end n ps (length ps)" using assms by (intro piece_end_mono) auto
  then have "piece_end n ps j < 2 ^ 64" using assms(4) by (simp add: piece_end_def)
  with lt show ?thesis by (simp add: piece_off_def word_less_nat_alt unat_of_nat_u64)
qed

lemma run_sets:
  assumes "sorted_wrt (<) js" "\<forall>j\<in>set js. k \<le> j"
  shows "{..<run_end k js} \<union> set (run_rest k js) = {..<k} \<union> set js" "sorted_wrt (<) (run_rest k js)"
    "\<forall>j\<in>set (run_rest k js). run_end k js < j" "set (run_rest k js) \<subseteq> set js"
  using assms
proof (induction js arbitrary: k)
  case (Cons j js)
  { case 1 then show ?case using Cons.IH(1) [of "Suc k"] by (cases "j = k") (simp_all add: lessThan_Suc Suc_le_eq)
  next case 2 then show ?case using Cons.IH(2) [of "Suc k"] by (auto simp: Suc_le_eq)
  next case 3 then show ?case using Cons.IH(3) [of "Suc k"] by (force simp: Suc_le_eq)
  next case 4 then show ?case using Cons.IH(4) [of "Suc k"] by (cases "j = k") (auto simp: Suc_le_eq dest: subsetD) }
qed auto

lemma linked_put:
  assumes "linked n ps c q js" "a \<notin> set q"
  shows "linked n ps (put_rq c a rq) q js"
  using assms unfolding linked_def by (auto elim!: list.rel_mono_strong)

lemma linked_off: "linked n ps c q js \<Longrightarrow> map (rq_off c) q = map (piece_off n ps) js"
  unfolding linked_def by (induction rule: list_all2_induct) (auto simp: rq_off_def piece_rq_def)

lemma append_piece:
  assumes "at_piece p bs ps k s c" "k < length ps"
  obtains s' where "fh_append (mem_vt I) s (c_fh c) off (ps ! k) = Done (status_OK, (), s')"
    "at_piece p bs ps (Suc k) s' (c\<lparr>c_size := c_size c + word_of_nat (length (ps ! k))\<rparr>)"
proof
  let ?s = "s\<lparr>m_files := om_set string_lt (m_files s) p (bs @ concat (take k ps) @ ps ! k)\<rparr>"
  show "fh_append (mem_vt I) s (c_fh c) off (ps ! k) = Done (status_OK, (), ?s)"
    using assms(1) by (auto simp: at_piece_def fh_append_def mem_append_def mem_files_def om_index_hit)
  show "at_piece p bs ps (Suc k) ?s (c\<lparr>c_size := c_size c + word_of_nat (length (ps ! k))\<rparr>)"
    using assms by (simp add: at_piece_def piece_off_def piece_end_Suc take_Suc_conv_app_nth)
qed

lemma drain_pieces:
  assumes "at_piece p bs ps k s c" "linked (length bs) ps c q js" "distinct q" "sorted_wrt (<) js"
    and "\<forall>j\<in>set js. k \<le> j \<and> j < length ps" "k \<le> length ps"
    and "\<forall>p\<in>set ps. p \<noteq> []" "length bs + length (concat ps) < 2 ^ 64"
  shows "\<exists>s' c'. drain (mem_vt I) s c q = Done (s', c') \<and> at_piece p bs ps (run_end k js) s' c' \<and>
    linked (length bs) ps c' (c_queue c') (run_rest k js) \<and> distinct (c_queue c') \<and> set (c_queue c') \<subseteq> set q \<and>
    c_state c' = c_state c \<and> c_next c' = c_next c \<and>
    (\<forall>a. a \<notin> set q - set (c_queue c') \<longrightarrow> c_reqs c' a = c_reqs c a) \<and>
    (\<forall>a\<in>set q - set (c_queue c'). chunk_append_finish c' a = Done (Returns status_OK))"
  using assms(1-6)
proof (induction q arbitrary: s c k js)
  case Nil
  then show ?case by (auto simp: linked_def at_piece_def)
next
  case (Cons a q)
  obtain j js' where js: "js = j # js'" and rq: "c_reqs c a = Some (piece_rq (length bs) ps j)"
    and l: "linked (length bs) ps c q js'"
    using Cons.prems(2) by (cases js) (auto simp: linked_def)
  show ?case
  proof (cases "j = k")
    case False
    then have "k < j" "j \<le> length ps" using Cons.prems(5) js by auto
    then have "c_size c < rq_offset (piece_rq (length bs) ps j)"
      using Cons.prems(1) piece_off_less [OF _ _ assms(7,8)] by (simp add: at_piece_def piece_rq_def)
    then show ?thesis
      using rq False Cons.prems(1-3) js by (auto simp: at_piece_def linked_def)
  next
    case True
    have k: "k < length ps" using Cons.prems(5) js True by simp
    obtain s1 where s1: "fh_append (mem_vt I) s (c_fh c) (piece_off (length bs) ps k) (ps ! k) = Done (status_OK, (), s1)"
      "at_piece p bs ps (Suc k) s1 (c\<lparr>c_size := c_size c + word_of_nat (length (ps ! k))\<rparr>)"
      using append_piece [OF Cons.prems(1) k] .
    let ?c1 = "put_rq (c\<lparr>c_size := c_size c + word_of_nat (length (ps ! k))\<rparr>) a ((piece_rq (length bs) ps k)\<lparr>rq_promise := KResult status_OK\<rparr>)"
    have a: "a \<notin> set q" "distinct q" using Cons.prems(3) by auto
    have "at_piece p bs ps (Suc k) s1 ?c1" using s1(2) by (simp add: at_piece_def)
    moreover have "linked (length bs) ps ?c1 q js'" by (rule linked_put [OF _ a(1)]) (use l in \<open>simp add: linked_def\<close>)
    moreover have "\<forall>j\<in>set js'. Suc k \<le> j \<and> j < length ps" using Cons.prems(4,5) js True by (auto simp: Suc_le_eq)
    ultimately obtain s' c' where IH: "drain (mem_vt I) s1 ?c1 q = Done (s', c')" "at_piece p bs ps (run_end (Suc k) js') s' c'"
      "linked (length bs) ps c' (c_queue c') (run_rest (Suc k) js')" "distinct (c_queue c')" "set (c_queue c') \<subseteq> set q"
      "c_state c' = c_state ?c1" "c_next c' = c_next ?c1"
      "\<forall>b. b \<notin> set q - set (c_queue c') \<longrightarrow> c_reqs c' b = c_reqs ?c1 b"
      "\<forall>b\<in>set q - set (c_queue c'). chunk_append_finish c' b = Done (Returns status_OK)"
      using Cons.IH [of "Suc k" s1 ?c1 js'] a(2) Cons.prems(4) k js by auto
    have "drain (mem_vt I) s c (a # q) = Done (s', c')"
      using rq True Cons.prems(1) s1(1) IH(1) by (simp add: at_piece_def piece_rq_def)
    moreover have "c_reqs c' a = Some ((piece_rq (length bs) ps k)\<lparr>rq_promise := KResult status_OK\<rparr>)"
      using IH(8) a(1) by auto
    then have "chunk_append_finish c' a = Done (Returns status_OK)" by (simp add: chunk_append_finish_def)
    ultimately show ?thesis using IH js True a by (intro exI [of _ s'] exI [of _ c']) auto
  qed
qed

lemma linked_insert:
  assumes "linked n ps c q js" "c_reqs c a = Some (piece_rq n ps i)" "i \<notin> set js" "i < length ps" "\<forall>j\<in>set js. j < length ps"
    and "\<forall>p\<in>set ps. p \<noteq> []" "n + length (concat ps) < 2 ^ 64"
  shows "linked n ps c (queue_insert (rq_off c) a q) (insort i js)"
proof -
  note less = piece_off_less [OF _ _ assms(6,7)]
  have off: "rq_off c a = piece_off n ps i" using assms(2) by (simp add: rq_off_def piece_rq_def)
  have "list_all2 (\<lambda>a j. c_reqs c a = Some (piece_rq n ps j)) q js \<Longrightarrow> i \<notin> set js \<Longrightarrow> \<forall>j\<in>set js. j < length ps \<Longrightarrow>
    list_all2 (\<lambda>a j. c_reqs c a = Some (piece_rq n ps j)) (queue_insert (rq_off c) a q) (insort i js)"
  proof (induction rule: list_all2_induct)
    case (Cons b q j js)
    then have "rq_off c b = piece_off n ps j" by (simp add: rq_off_def piece_rq_def)
    moreover have "piece_off n ps j < piece_off n ps i" if "j < i" using less that assms(4) by simp
    moreover have "piece_off n ps i < piece_off n ps j" if "i < j" using less that Cons.prems(2) by simp
    ultimately show ?case using Cons assms(2) off by (auto simp: linorder_neq_iff)
  qed (simp add: assms(2))
  then show ?thesis using assms(1,3,5) by (simp add: linked_def)
qed

lemma distinct_queue_insert: "distinct q \<Longrightarrow> a \<notin> set q \<Longrightarrow> distinct (queue_insert off a q)"
  using set_queue_insert [of off a] by (induction q) (auto split: if_splits)

lemma mem_on_at_piece: "mem_on L s c (bs @ concat (take k ps)) \<Longrightarrow> at_piece (u_str L (c_uuid c)) bs ps k s c"
  using mem_onD [of L s c] by (simp add: at_piece_def chunk_ok_def piece_off_def piece_end_def)

lemma mem_chunk_post:
  assumes "iobuf_library I" "mem_on L s c bs" "chunk_append (mem_vt I) s c buf off = Done (r, s', c')"
  obtains ys where "mem_on L s' c' (bs @ ys)" "c_uuid c' = c_uuid c" "reqs_le c c'"
  using mem_post [OF assms(1) chunk_run_step [OF chunk_step.step_append [OF assms(3)]] assms(2)] by metis

lemma mem_on_files:
  assumes "mem_on L s c bs'" "mem_files s (u_str L (c_uuid c)) = Some bs"
  shows "mem_on L s c bs"
  using mem_onD(2) [OF assms(1)] assms by simp

lemma answered_mono: "answered c r \<Longrightarrow> reqs_le c c' \<Longrightarrow> answered c' r"
  unfolding answered_def reqs_le_def chunk_append_finish_def
  by (fastforce split: option.splits elim: fs_get.elims)

lemma answered_later:
  assumes "\<forall>r\<in>rs. answered c r \<or> (\<exists>a\<in>set q. r = Waiting a)" "reqs_le c c'" "r \<in> rs"
    and "\<forall>a\<in>set q - set q'. chunk_append_finish c' a = Done (Returns status_OK)"
  shows "answered c' r \<or> (\<exists>a\<in>set q'. r = Waiting a)"
  using assms answered_mono [OF _ assms(2)] unfolding answered_def by blast

lemma next_fresh:
  assumes "mem_on L s c bs"
  shows "c_next c \<notin> set (c_queue c)" "c_reqs c (c_next c) = None"
  using mem_onD(3) [OF assms] by (fastforce simp: chunk_ok_def pending_def reqs_fresh_def)+

text \<open>The piece that the file is waiting for arrives.\<close>

lemma arrive_next:
  assumes "iobuf_library I" "arrived L bs ps k js s c rs" "k < length ps"
    and "\<forall>p\<in>set ps. p \<noteq> []" "length bs + length (concat ps) < 2 ^ 64"
  shows "\<exists>s' c'. chunk_append (mem_vt I) s c (ps ! k) (piece_off (length bs) ps k) = Done (Returned status_OK, s', c') \<and>
    arrived L bs ps (run_end (Suc k) js) (run_rest (Suc k) js) s' c' (insert (Returned status_OK) rs) \<and> c_uuid c' = c_uuid c"
proof -
  have on: "mem_on L s c (bs @ concat (take k ps))" and js: "sorted_wrt (<) js" "\<forall>j\<in>set js. k < j \<and> j < length ps"
    and l: "linked (length bs) ps c (c_queue c) js" "distinct (c_queue c)" and st: "c_state c \<noteq> KSealed"
    using assms(2) by (auto simp: arrived_def)
  let ?p = "u_str L (c_uuid c)"
  have at: "at_piece ?p bs ps k s c" using mem_on_at_piece [OF on] .
  obtain s1 where s1: "fh_append (mem_vt I) s (c_fh c) (piece_off (length bs) ps k) (ps ! k) = Done (status_OK, (), s1)"
    "at_piece ?p bs ps (Suc k) s1 (c\<lparr>c_size := c_size c + word_of_nat (length (ps ! k))\<rparr>)"
    using append_piece [OF at assms(3)] .
  let ?c1 = "c\<lparr>c_size := c_size c + word_of_nat (length (ps ! k))\<rparr>"
  have l1: "linked (length bs) ps ?c1 (c_queue c) js" using l(1) by (simp add: linked_def)
  have lo: "\<forall>j\<in>set js. Suc k \<le> j \<and> j < length ps" using js(2) by auto
  obtain s' c' where d: "drain (mem_vt I) s1 ?c1 (c_queue c) = Done (s', c')"
    "at_piece ?p bs ps (run_end (Suc k) js) s' c'" "linked (length bs) ps c' (c_queue c') (run_rest (Suc k) js)"
    "distinct (c_queue c')" "c_state c' = c_state c"
    "\<forall>a\<in>set (c_queue c) - set (c_queue c'). chunk_append_finish c' a = Done (Returns status_OK)"
    using drain_pieces [OF s1(2) l1 l(2) js(1) lo Suc_leI [OF assms(3)] assms(4,5), of I]
    by (elim exE conjE, intro that) (assumption | simp)+
  have app: "chunk_append (mem_vt I) s c (ps ! k) (piece_off (length bs) ps k) = Done (Returned status_OK, s', c')"
    using at st s1(1) d(1) by (simp add: chunk_append_def at_piece_def)
  obtain ys where post: "mem_on L s' c' ((bs @ concat (take k ps)) @ ys)" "c_uuid c' = c_uuid c" "reqs_le c c'"
    using mem_chunk_post [OF assms(1) on app] .
  have on': "mem_on L s' c' (bs @ concat (take (run_end (Suc k) js) ps))"
    using mem_on_files [OF post(1)] d(2) post(2) by (simp add: at_piece_def)
  have "\<forall>j\<in>set js. Suc k \<le> j" using lo by blast
  note runs = run_sets [OF js(1) this]
  have "{..<run_end (Suc k) js} \<subseteq> {..<Suc k} \<union> set js" using runs(1) by blast
  also have "\<dots> \<subseteq> {..<length ps}" using js(2) assms(3) by auto
  finally have "run_end (Suc k) js \<le> length ps" by simp
  moreover have "answered c' r \<or> (\<exists>a\<in>set (c_queue c'). r = Waiting a)" if "r \<in> insert (Returned status_OK) rs" for r
    using that answered_later [OF _ post(3) _ d(6), of rs r] assms(2) by (auto simp: arrived_def answered_def)
  ultimately show ?thesis
    using app on' runs js(2) d(3-5) st post(2) by (auto simp: arrived_def)
qed

text \<open>A piece behind a gap arrives.\<close>

lemma arrive_early:
  assumes "iobuf_library I" "arrived L bs ps k js s c rs" "k < i" "i < length ps" "i \<notin> set js"
    and "\<forall>p\<in>set ps. p \<noteq> []" "length bs + length (concat ps) < 2 ^ 64"
  shows "\<exists>r c'. chunk_append (mem_vt I) s c (ps ! i) (piece_off (length bs) ps i) = Done (r, s, c') \<and>
    arrived L bs ps k (insort i js) s c' (insert r rs) \<and> c_uuid c' = c_uuid c"
proof -
  have on: "mem_on L s c (bs @ concat (take k ps))" and js: "sorted_wrt (<) js" "\<forall>j\<in>set js. k < j \<and> j < length ps"
    and l: "linked (length bs) ps c (c_queue c) js" "distinct (c_queue c)" and st: "c_state c \<noteq> KSealed"
    using assms(2) by (auto simp: arrived_def)
  let ?a = "c_next c"
  let ?c1 = "(put_rq c ?a (piece_rq (length bs) ps i))\<lparr>c_next := Suc ?a\<rparr>"
  let ?q = "queue_insert (rq_off ?c1) ?a (c_queue c)"
  note less = piece_off_less [OF _ _ assms(6,7)]
  have "c_size c < piece_off (length bs) ps i"
    using mem_on_at_piece [OF on] less [OF assms(3)] assms(4) by (simp add: at_piece_def)
  then have app: "chunk_append (mem_vt I) s c (ps ! i) (piece_off (length bs) ps i) = Done (Waiting ?a, s, ?c1\<lparr>c_queue := ?q\<rparr>)"
    using st by (auto simp: chunk_append_def piece_rq_def Let_def)
  obtain ys where post: "mem_on L s (?c1\<lparr>c_queue := ?q\<rparr>) ((bs @ concat (take k ps)) @ ys)" "reqs_le c (?c1\<lparr>c_queue := ?q\<rparr>)"
    using mem_chunk_post [OF assms(1) on app] by metis
  have on': "mem_on L s (?c1\<lparr>c_queue := ?q\<rparr>) (bs @ concat (take k ps))"
    using mem_on_files [OF post(1)] mem_onD(2) [OF on] by simp
  have l1: "linked (length bs) ps ?c1 (c_queue c) js"
    using linked_put [OF l(1) next_fresh(1) [OF on]] by (simp add: linked_def)
  then have l': "linked (length bs) ps ?c1 ?q (insort i js)"
    using js(2) by (intro linked_insert [OF _ _ assms(5,4) _ assms(6,7)]) auto
  have "rq_off ?c1 ` set (c_queue c) = piece_off (length bs) ps ` set js"
    using arg_cong [OF linked_off [OF l1], of set] by simp
  moreover have "piece_off (length bs) ps i \<noteq> piece_off (length bs) ps j" if "j \<in> set js" for j
    using less [of i j] less [of j i] that assms(4,5) js(2) by (cases i j rule: linorder_cases) auto
  ultimately have "rq_off ?c1 ?a \<notin> rq_off ?c1 ` set (c_queue c)" by (auto simp: piece_rq_def)
  then have "?a \<in> set ?q" by (rule queue_insert_linked)
  then have q: "set (c_queue c) \<subseteq> set ?q" "?a \<in> set ?q" using set_queue_insert_super by blast+
  have "answered (?c1\<lparr>c_queue := ?q\<rparr>) r \<or> (\<exists>a\<in>set ?q. r = Waiting a)" if "r \<in> insert (Waiting ?a) rs" for r
    using that q answered_later [OF _ post(2), of rs "c_queue c" r ?q] assms(2) by (auto simp: arrived_def)
  moreover have "distinct ?q" by (rule distinct_queue_insert [OF l(2) next_fresh(1) [OF on]])
  moreover have "sorted_wrt (<) (insort i js)"
    using js(1) assms(5) by (simp add: strict_sorted_iff sorted_insort distinct_insort)
  ultimately show ?thesis
    using app on' l' js(2) st assms(2,3,4) unfolding arrived_def
    by (intro exI [of _ "Waiting ?a"] exI [of _ "?c1\<lparr>c_queue := ?q\<rparr>"]) (auto simp: linked_def set_insort_key)
qed

lemma arrive:
  assumes "iobuf_library I" "arrived L bs ps k js s c rs" "i < length ps" "i \<notin> {..<k} \<union> set js"
    and "\<forall>p\<in>set ps. p \<noteq> []" "length bs + length (concat ps) < 2 ^ 64"
  shows "\<exists>r s' c' k' js'. chunk_append (mem_vt I) s c (ps ! i) (piece_off (length bs) ps i) = Done (r, s', c') \<and>
    arrived L bs ps k' js' s' c' (insert r rs) \<and> c_uuid c' = c_uuid c \<and>
    {..<k'} \<union> set js' = insert i ({..<k} \<union> set js)"
proof (cases "i = k")
  case True
  have "sorted_wrt (<) js" "\<forall>j\<in>set js. Suc k \<le> j" using assms(2) by (auto simp: arrived_def)
  from run_sets(1) [OF this]
  have "{..<run_end (Suc k) js} \<union> set (run_rest (Suc k) js) = insert i ({..<k} \<union> set js)"
    using True by (simp add: lessThan_Suc)
  with True arrive_next [OF assms(1,2) _ assms(5,6)] assms(3) show ?thesis by metis
next
  case False
  then have "k < i" "i \<notin> set js" using assms(4) by auto
  moreover have "{..<k} \<union> set (insort i js) = insert i ({..<k} \<union> set js)" by (simp add: set_insort_key)
  ultimately show ?thesis using arrive_early [OF assms(1,2) _ assms(3) _ assms(5,6)] by metis
qed

lemma arrive_all:
  assumes "iobuf_library I" "arrived L bs ps k js s c rs" "distinct ord" "set ord \<subseteq> {..<length ps}"
    and "set ord \<inter> ({..<k} \<union> set js) = {}"
    and "\<forall>p\<in>set ps. p \<noteq> []" "length bs + length (concat ps) < 2 ^ 64"
  shows "\<exists>out s' c' k' js'. deliver (mem_vt I) s c (arrivals (length bs) ps ord) = Done (out, s', c') \<and>
    arrived L bs ps k' js' s' c' (rs \<union> set out) \<and> c_uuid c' = c_uuid c \<and>
    {..<k'} \<union> set js' = {..<k} \<union> set js \<union> set ord"
  using assms(2-5)
proof (induction ord arbitrary: k js s c rs)
  case Nil
  then show ?case by (auto simp: arrivals_def)
next
  case (Cons i ord)
  obtain r s1 c1 k1 js1 where a: "chunk_append (mem_vt I) s c (ps ! i) (piece_off (length bs) ps i) = Done (r, s1, c1)"
    "arrived L bs ps k1 js1 s1 c1 (insert r rs)" "c_uuid c1 = c_uuid c"
    "{..<k1} \<union> set js1 = insert i ({..<k} \<union> set js)"
    using arrive [OF assms(1) Cons.prems(1) _ _ assms(6,7), of i] Cons.prems(3,4) by auto
  have "set ord \<inter> ({..<k1} \<union> set js1) = {}" using Cons.prems(2,4) unfolding a(4) by auto
  moreover have "distinct ord" "set ord \<subseteq> {..<length ps}" using Cons.prems(2,3) by auto
  ultimately obtain out s' c' k' js' where IH:
    "deliver (mem_vt I) s1 c1 (arrivals (length bs) ps ord) = Done (out, s', c')"
    "arrived L bs ps k' js' s' c' (insert r rs \<union> set out)" "c_uuid c' = c_uuid c1"
    "{..<k'} \<union> set js' = {..<k1} \<union> set js1 \<union> set ord"
    using Cons.IH [OF a(2)] by metis
  have "deliver (mem_vt I) s c (arrivals (length bs) ps (i # ord)) = Done (r # out, s', c')"
    using a(1) IH(1) by (simp add: arrivals_def)
  moreover have "arrived L bs ps k' js' s' c' (rs \<union> set (r # out))" using IH(2) by simp
  moreover have "{..<k'} \<union> set js' = {..<k} \<union> set js \<union> set (i # ord)" using IH(4) a(4) by auto
  ultimately show ?case using IH(3) a(3) by metis
qed

section \<open>Properties\<close>

text \<open>
  C3: the order in which the pieces of a stream arrive does not matter. From any reachable chunk that is not
  sealed and has no append waiting, delivering the nonempty pieces \<open>ps\<close>, each with its offset, in any order
  \<open>ord\<close> leaves the file with the pieces in the order of the stream, as delivering them in order would; the queue
  is empty again and every append has returned success, at once or through its promise.
\<close>

theorem chunk_reorder:
  assumes "iobuf_library I" "mem_inv s0" "chunk_reachable L (mem_vt I) s0 u (s, c)"
    and "c_state c \<noteq> KSealed" "c_queue c = []" "mem_files s (u_str L u) = Some bs"
    and "\<forall>p\<in>set ps. p \<noteq> []" "length bs + length (concat ps) < 2 ^ 64"
    and "distinct ord" "set ord = {..<length ps}"
  shows "\<exists>out s' c'. deliver (mem_vt I) s c (arrivals (length bs) ps ord) = Done (out, s', c') \<and>
    mem_files s' (u_str L u) = Some (bs @ concat ps) \<and> c_queue c' = [] \<and> length out = length ps \<and>
    (\<forall>r\<in>set out. answered c' r)"
proof -
  obtain bs' where on: "mem_on L s c bs'" "c_uuid c = u" using mem_reachable_on [OF assms(1-3)] .
  then have "mem_on L s c bs" using mem_on_files [OF on(1)] assms(6) by simp
  then have "arrived L bs ps 0 [] s c {}" using assms(4,5) by (simp add: arrived_def linked_def)
  then obtain out s' c' k js where r: "deliver (mem_vt I) s c (arrivals (length bs) ps ord) = Done (out, s', c')"
    "arrived L bs ps k js s' c' (set out)" "c_uuid c' = c_uuid c" "{..<k} \<union> set js = {..<length ps}"
    using arrive_all [OF assms(1) _ assms(9) _ _ assms(7,8), of L 0 "[]" s c "{}"] assms(10) by auto
  have k: "k = length ps"
  proof (rule ccontr)
    assume "k \<noteq> length ps"
    then have "k \<in> {..<k} \<union> set js" unfolding r(4) using r(2) by (simp add: arrived_def)
    then show False using r(2) by (auto simp: arrived_def)
  qed
  then have js: "js = []" using r(2) by (cases js) (auto simp: arrived_def)
  then have "c_queue c' = []" using r(2) by (simp add: arrived_def linked_def)
  moreover have "mem_files s' (u_str L u) = Some (bs @ concat ps)"
    using r(2,3) k on(2) mem_onD(2) [of L s' c'] by (simp add: arrived_def)
  moreover have "length out = length ord" using r(1)
    by (rule deliver_length [THEN trans]) (simp add: arrivals_def)
  moreover have "length ord = length ps" using assms(9,10) by (metis card_lessThan distinct_card)
  ultimately show ?thesis using r(1,2) by (auto simp: arrived_def)
qed

theorem chunk_reorder_witness:
  "chunk_reachable hex_lib ex_V mem_empty ex_u (ex_store [], ex_chunk) \<and>
   (\<exists>out s' c'. deliver ex_V (ex_store []) ex_chunk [([3], 2), ([1, 2], 0)] = Done (out, s', c') \<and>
     mem_files s' (u_str hex_lib ex_u) = Some [1, 2, 3] \<and> c_queue c' = [] \<and> length out = 2)"
proof -
  let ?ps = "[[1, 2], [3 :: u8]]"
  have arr: "arrivals (length ([] :: iobuf)) ?ps [1, 0] = [([3], 2), ([1, 2], 0)]"
    by (simp add: arrivals_def piece_off_def piece_end_def)
  have open_: "c_state ex_chunk \<noteq> KSealed" "c_queue ex_chunk = []" by (auto simp: ex_chunk_def)
  have pieces: "\<forall>p\<in>set ?ps. p \<noteq> []" "length ([] :: iobuf) + length (concat ?ps) < 2 ^ 64" by auto
  have order: "distinct [1, 0 :: nat]" "set [1, 0] = {..<length ?ps}" by auto
  note run = chunk_reorder [OF ex_env ex_reachable open_ ex_files pieces order, unfolded arr]
  have ps: "[] @ concat ?ps = [1, 2, 3]" "length ?ps = 2" by simp_all
  show ?thesis using run ex_reachable unfolding ps by blast
qed

end
