(* ===== verification/Lifetimes.thy ===== *)
theory Lifetimes
  imports Prelude
begin

text \<open>
  The lifetimes of a chunk and of the append requests that wait in its queue: the reference counts of
  \<^verbatim>\<open>src/manusya/chunk.h\<close> and the places of \<^verbatim>\<open>src/manusya/chunk.cc\<close> that take and drop references. The theory
  \<open>Chunk\<close> has an append, and the callback of its timer, as one step each; here they are cut into the actions between which
  other threads may run. The count of a chunk is atomic. The count of a request is a plain \<^verbatim>\<open>int\<close>, which the waiting thread
  and the timer thread change without a common lock, so a decrement is a load and a store. What the requests write is not
  part of this theory.
\<close>

section \<open>States\<close>

text \<open>
  The thread of an append that waits: blocked on its future, about to drop its pointer to the request, between the load and
  the store of that decrement, about to drop its pointer to the chunk, gone.
\<close>

datatype waiter_pc = WWait | WLoad | WStore int | WDrop | WGone

text \<open>
  The callback of the timer: not yet run, about to drop its reference, between load and store, about to unlock the mutex of
  the chunk, gone. The flag says whether it went through the release.
\<close>

datatype timer_pc = TArmed | TLoad | TStore int | TUnlock bool | TGone bool

record rq_life =
  rl_count :: int
  rl_alive :: bool
  rl_linked :: bool
  rl_ready :: bool
  rl_waiter :: waiter_pc
  rl_timer :: timer_pc

text \<open>
  A chunk with all requests it ever had. \<open>lf_bank\<close>: the table of chunks still points to it; \<open>lf_handlers\<close>: the number of
  handlers that have a pointer to it and are not waiting. The last two fields record whether anything touched a deleted
  request, or a deleted chunk.
\<close>

record life =
  lf_bank :: bool
  lf_handlers :: nat
  lf_reqs :: "rq_life list"
  lf_refs :: int
  lf_chunk :: bool
  lf_locked :: bool
  lf_bad_rq :: bool
  lf_bad_chunk :: bool

section \<open>Reference counts\<close>

definition touch_chunk :: "life \<Rightarrow> life" where
  "touch_chunk s = s\<lparr>lf_bad_chunk := lf_bad_chunk s \<or> \<not> lf_chunk s\<rparr>"

definition chunk_add_ref :: "life \<Rightarrow> life" where
  "chunk_add_ref s = (touch_chunk s)\<lparr>lf_refs := lf_refs s + 1\<rparr>"

definition chunk_release :: "life \<Rightarrow> life" where
  "chunk_release s = (touch_chunk s)\<lparr>lf_refs := lf_refs s - 1, lf_chunk := (if lf_refs s = 1 then False else lf_chunk s)\<rparr>"

definition touch_rq :: "nat \<Rightarrow> life \<Rightarrow> life" where
  "touch_rq i s = s\<lparr>lf_bad_rq := lf_bad_rq s \<or> \<not> rl_alive (lf_reqs s ! i)\<rparr>"

definition upd_rq :: "nat \<Rightarrow> (rq_life \<Rightarrow> rq_life) \<Rightarrow> life \<Rightarrow> life" where
  "upd_rq i f s = s\<lparr>lf_reqs := (lf_reqs s)[i := f (lf_reqs s ! i)]\<rparr>"

definition rq_add_ref :: "rq_life \<Rightarrow> rq_life" where
  "rq_add_ref r = r\<lparr>rl_count := rl_count r + 1\<rparr>"

text \<open>The destructor of a request drops its pointer to the chunk.\<close>

definition rq_delete :: "nat \<Rightarrow> life \<Rightarrow> life" where
  "rq_delete i s = chunk_release (upd_rq i (\<lambda>r. r\<lparr>rl_alive := False\<rparr>) (touch_rq i s))"

text \<open>The store of \<^verbatim>\<open>--rq->use_count\<close> after \<open>n\<close> was loaded, and the test of its result.\<close>

definition rq_release_store :: "nat \<Rightarrow> int \<Rightarrow> life \<Rightarrow> life" where
  "rq_release_store i n s =
     (let s1 = upd_rq i (\<lambda>r. r\<lparr>rl_count := n - 1\<rparr>) (touch_rq i s)
      in if n - 1 = 0 then rq_delete i s1 else s1)"

section \<open>Actions\<close>

text \<open>A new request has the pointer of the waiting thread and the reference that the timer was given.\<close>

definition new_rq :: "bool \<Rightarrow> rq_life" where
  "new_rq linked = rq_add_ref (rq_add_ref
     \<lparr>rl_count = 0, rl_alive = True, rl_linked = linked, rl_ready = False, rl_waiter = WWait, rl_timer = TArmed\<rparr>)"

text \<open>
  \<open>EGet\<close>, \<open>EPut\<close>: a handler gets its pointer from the table and drops it. \<open>ERemove\<close>: the table drops its own. \<open>EAppend\<close>: an
  append beyond the end creates a request, which the queue links unless it has one with the same offset. \<open>EDrain\<close>: another
  append takes a request from the queue and answers it. \<open>EWaiter\<close>, \<open>ETimer\<close>: the next action of the waiting append, and of
  the callback of its timer.
\<close>

datatype event = EGet | EPut | ERemove | EAppend bool | EDrain nat | EWaiter nat | ETimer nat

definition ev_get :: "life \<Rightarrow> life option" where
  "ev_get s = (if lf_bank s then Some (chunk_add_ref (s\<lparr>lf_handlers := Suc (lf_handlers s)\<rparr>)) else None)"

definition ev_put :: "life \<Rightarrow> life option" where
  "ev_put s = (if 0 < lf_handlers s then Some (chunk_release (s\<lparr>lf_handlers := lf_handlers s - 1\<rparr>)) else None)"

definition ev_remove :: "life \<Rightarrow> life option" where
  "ev_remove s = (if lf_bank s then Some (chunk_release (s\<lparr>lf_bank := False\<rparr>)) else None)"

definition ev_append :: "bool \<Rightarrow> life \<Rightarrow> life option" where
  "ev_append linked s =
     (if 0 < lf_handlers s \<and> \<not> lf_locked s
      then Some (chunk_add_ref (s\<lparr>lf_handlers := lf_handlers s - 1, lf_reqs := lf_reqs s @ [new_rq linked]\<rparr>)) else None)"

definition ev_drain :: "nat \<Rightarrow> life \<Rightarrow> life option" where
  "ev_drain i s =
     (if 0 < lf_handlers s \<and> \<not> lf_locked s \<and> i < length (lf_reqs s) \<and> rl_linked (lf_reqs s ! i)
      then Some (upd_rq i (\<lambda>r. r\<lparr>rl_linked := False, rl_ready := True\<rparr>) (touch_rq i (touch_chunk s))) else None)"

definition ev_waiter :: "nat \<Rightarrow> life \<Rightarrow> life option" where
  "ev_waiter i s =
     (if \<not> i < length (lf_reqs s) then None
      else let r = lf_reqs s ! i; go = (\<lambda>pc. upd_rq i (\<lambda>r. r\<lparr>rl_waiter := pc\<rparr>)) in
           case rl_waiter r of
             WWait \<Rightarrow> if rl_ready r then Some (go WLoad (touch_rq i s)) else None
           | WLoad \<Rightarrow> Some (go (WStore (rl_count r)) (touch_rq i s))
           | WStore n \<Rightarrow> Some (rq_release_store i n (go WDrop s))
           | WDrop \<Rightarrow> Some (chunk_release (go WGone s))
           | WGone \<Rightarrow> None)"

text \<open>
  The callback locks the mutex first. When the promise is fulfilled already it returns, which unlocks the mutex; otherwise it
  unlinks and answers the request, drops its reference, and then unlocks.
\<close>

definition ev_timer :: "nat \<Rightarrow> life \<Rightarrow> life option" where
  "ev_timer i s =
     (if \<not> i < length (lf_reqs s) then None
      else let r = lf_reqs s ! i; go = (\<lambda>pc. upd_rq i (\<lambda>r. r\<lparr>rl_timer := pc\<rparr>)) in
           case rl_timer r of
             TArmed \<Rightarrow>
               if lf_locked s then None
               else let s1 = (touch_chunk (touch_rq i s))\<lparr>lf_locked := True\<rparr> in
                    Some (if rl_ready r then go (TUnlock False) s1
                          else upd_rq i (\<lambda>r. r\<lparr>rl_linked := False, rl_ready := True, rl_timer := TLoad\<rparr>) s1)
           | TLoad \<Rightarrow> Some (go (TStore (rl_count r)) (touch_rq i s))
           | TStore n \<Rightarrow> Some (rq_release_store i n (go (TUnlock True) s))
           | TUnlock b \<Rightarrow> Some ((go (TGone b) (touch_chunk s))\<lparr>lf_locked := False\<rparr>)
           | TGone b \<Rightarrow> None)"

fun life_do :: "event \<Rightarrow> life \<Rightarrow> life option" where
  "life_do EGet s = ev_get s"
| "life_do EPut s = ev_put s"
| "life_do ERemove s = ev_remove s"
| "life_do (EAppend b) s = ev_append b s"
| "life_do (EDrain i) s = ev_drain i s"
| "life_do (EWaiter i) s = ev_waiter i s"
| "life_do (ETimer i) s = ev_timer i s"

text \<open>Any interleaving of the actions, from a chunk that was just put into the table.\<close>

inductive life_run :: "life \<Rightarrow> life \<Rightarrow> bool" where
  life_refl: "life_run s s"
| life_step: "life_run s s1 \<Longrightarrow> life_do e s1 = Some s2 \<Longrightarrow> life_run s s2"

definition life_init :: life where
  "life_init = \<lparr>lf_bank = True, lf_handlers = 0, lf_reqs = [], lf_refs = 1, lf_chunk = True, lf_locked = False,
     lf_bad_rq = False, lf_bad_chunk = False\<rparr>"

fun life_exec :: "event list \<Rightarrow> life \<Rightarrow> life option" where
  "life_exec [] s = Some s"
| "life_exec (e # es) s = Option.bind (life_do e s) (life_exec es)"

lemma life_run_exec_from: "life_run s0 s \<Longrightarrow> life_exec es s = Some s' \<Longrightarrow> life_run s0 s'"
  by (induction es arbitrary: s) (auto split: bind_splits intro: life_step)

lemma life_run_exec: "life_exec es s = Some s' \<Longrightarrow> life_run s s'"
  using life_run_exec_from life_refl by blast

section \<open>The invariant\<close>

text \<open>
  What the count of a request can be. As long as neither side has stored its decrement it is 2, after the first store it is
  1, and a side that loaded before the store of the other one still has the value 2 in its hands.
\<close>

fun waiter_open :: "waiter_pc \<Rightarrow> bool" where
  "waiter_open WDrop = False"
| "waiter_open WGone = False"
| "waiter_open _ = True"

fun timer_open :: "timer_pc \<Rightarrow> bool" where
  "timer_open (TUnlock b) = (\<not> b)"
| "timer_open (TGone b) = (\<not> b)"
| "timer_open _ = True"

definition rl_ok :: "rq_life \<Rightarrow> bool" where
  "rl_ok r \<longleftrightarrow>
     (if waiter_open (rl_waiter r) \<and> timer_open (rl_timer r)
      then rl_alive r \<and> rl_count r = 2 \<and> (\<forall>n. rl_waiter r = WStore n \<or> rl_timer r = TStore n \<longrightarrow> n = 2)
      else if waiter_open (rl_waiter r) \<or> timer_open (rl_timer r)
      then rl_alive r \<and> rl_count r = 1 \<and> (\<forall>n. rl_waiter r = WStore n \<or> rl_timer r = TStore n \<longrightarrow> n = 1 \<or> n = 2)
      else rl_alive r \<longrightarrow> rl_count r = 1) \<and>
     (rl_waiter r \<noteq> WWait \<or> rl_timer r \<noteq> TArmed \<longrightarrow> rl_ready r) \<and> (rl_linked r \<longrightarrow> \<not> rl_ready r)"

text \<open>The references to the chunk that a request and its waiting thread stand for.\<close>

definition rq_refs :: "rq_life \<Rightarrow> int" where
  "rq_refs r = of_bool (rl_alive r) + of_bool (rl_waiter r \<noteq> WGone)"

definition refs_of :: "life \<Rightarrow> int" where
  "refs_of s = of_bool (lf_bank s) + int (lf_handlers s) + sum_list (map rq_refs (lf_reqs s))"

definition life_inv :: "life \<Rightarrow> bool" where
  "life_inv s \<longleftrightarrow> (\<forall>r\<in>set (lf_reqs s). rl_ok r) \<and> lf_refs s = refs_of s \<and> lf_chunk s = (0 < lf_refs s) \<and> \<not> lf_bad_rq s"

lemma sum_list_upd:
  fixes f :: "'a \<Rightarrow> int"
  assumes "i < length xs"
  shows "sum_list (map f (xs[i := y])) = sum_list (map f xs) + f y - f (xs ! i)"
  using assms by (induction xs arbitrary: i) (auto split: nat.splits)

lemma touch_sels [simp]:
  "lf_bank (touch_chunk s) = lf_bank s" "lf_handlers (touch_chunk s) = lf_handlers s" "lf_reqs (touch_chunk s) = lf_reqs s"
  "lf_refs (touch_chunk s) = lf_refs s" "lf_chunk (touch_chunk s) = lf_chunk s" "lf_bad_rq (touch_chunk s) = lf_bad_rq s"
  "lf_locked (touch_chunk s) = lf_locked s"
  "lf_bank (touch_rq i s) = lf_bank s" "lf_handlers (touch_rq i s) = lf_handlers s" "lf_reqs (touch_rq i s) = lf_reqs s"
  "lf_refs (touch_rq i s) = lf_refs s" "lf_chunk (touch_rq i s) = lf_chunk s" "lf_locked (touch_rq i s) = lf_locked s"
  "lf_bad_rq (touch_rq i s) = (lf_bad_rq s \<or> \<not> rl_alive (lf_reqs s ! i))"
  by (simp_all add: touch_chunk_def touch_rq_def)

lemma upd_rq_sels [simp]:
  "lf_bank (upd_rq i f s) = lf_bank s" "lf_handlers (upd_rq i f s) = lf_handlers s" "lf_refs (upd_rq i f s) = lf_refs s"
  "lf_chunk (upd_rq i f s) = lf_chunk s" "lf_bad_rq (upd_rq i f s) = lf_bad_rq s" "lf_locked (upd_rq i f s) = lf_locked s"
  "lf_reqs (upd_rq i f s) = (lf_reqs s)[i := f (lf_reqs s ! i)]"
  by (simp_all add: upd_rq_def)

lemma chunk_ref_sels [simp]:
  "lf_bank (chunk_release s) = lf_bank s" "lf_handlers (chunk_release s) = lf_handlers s" "lf_reqs (chunk_release s) = lf_reqs s"
  "lf_bad_rq (chunk_release s) = lf_bad_rq s" "lf_refs (chunk_release s) = lf_refs s - 1"
  "lf_chunk (chunk_release s) = (lf_chunk s \<and> lf_refs s \<noteq> 1)" "lf_locked (chunk_release s) = lf_locked s"
  "lf_bank (chunk_add_ref s) = lf_bank s" "lf_handlers (chunk_add_ref s) = lf_handlers s" "lf_reqs (chunk_add_ref s) = lf_reqs s"
  "lf_bad_rq (chunk_add_ref s) = lf_bad_rq s" "lf_refs (chunk_add_ref s) = lf_refs s + 1"
  "lf_chunk (chunk_add_ref s) = lf_chunk s" "lf_locked (chunk_add_ref s) = lf_locked s"
  by (simp_all add: chunk_release_def chunk_add_ref_def)

lemma rq_release_store_sels:
  assumes "i < length (lf_reqs s)"
  shows "lf_bank (rq_release_store i n s) = lf_bank s" "lf_handlers (rq_release_store i n s) = lf_handlers s"
    "lf_locked (rq_release_store i n s) = lf_locked s"
    "lf_reqs (rq_release_store i n s) = (lf_reqs s)[i := (lf_reqs s ! i)\<lparr>rl_count := n - 1,
       rl_alive := (rl_alive (lf_reqs s ! i) \<and> n \<noteq> 1)\<rparr>]"
    "lf_bad_rq (rq_release_store i n s) = (lf_bad_rq s \<or> \<not> rl_alive (lf_reqs s ! i))"
    "lf_refs (rq_release_store i n s) = lf_refs s - of_bool (n = 1)"
    "lf_chunk (rq_release_store i n s) = (lf_chunk s \<and> \<not> (n = 1 \<and> lf_refs s = 1))"
  using assms by (auto simp: rq_release_store_def rq_delete_def Let_def)

text \<open>The part of the invariant that is about the request \<open>i\<close> only, and the part about the counter of the chunk.\<close>

lemma rl_ok_nth: "\<forall>r\<in>set rs. rl_ok r \<Longrightarrow> i < length rs \<Longrightarrow> rl_ok (rs ! i)"
  by simp

lemma rl_ok_upd: "\<forall>r\<in>set rs. rl_ok r \<Longrightarrow> rl_ok r' \<Longrightarrow> \<forall>r\<in>set (rs[i := r']). rl_ok r"
  using set_update_subset_insert by fastforce

lemma rq_refs_nonneg: "0 \<le> rq_refs r"
  by (simp add: rq_refs_def)

lemma sum_refs_nonneg: "0 \<le> sum_list (map rq_refs rs)"
  by (induction rs) (simp_all add: rq_refs_nonneg)

lemma rq_refs_le_sum: "i < length rs \<Longrightarrow> rq_refs (rs ! i) \<le> sum_list (map rq_refs rs)"
proof (induction rs arbitrary: i)
  case (Cons r rs)
  then show ?case using sum_refs_nonneg [of rs] rq_refs_nonneg [of r] by (cases i) (auto, fastforce)
qed simp

lemma refs_of_ge:
  "lf_bank s \<Longrightarrow> 1 \<le> refs_of s" "0 < lf_handlers s \<Longrightarrow> 1 \<le> refs_of s" "i < length (lf_reqs s) \<Longrightarrow> rq_refs (lf_reqs s ! i) \<le> refs_of s"
  using sum_refs_nonneg [of "lf_reqs s"] rq_refs_le_sum [of i "lf_reqs s"] by (auto simp: refs_of_def of_bool_def)

lemma life_inv_rq:
  assumes "life_inv s" "i < length (lf_reqs s)"
    and "lf_bank s' = lf_bank s" "lf_handlers s' = lf_handlers s" "lf_reqs s' = (lf_reqs s)[i := r']" "rl_ok r'"
    and "lf_refs s' = lf_refs s + rq_refs r' - rq_refs (lf_reqs s ! i)" "lf_chunk s' = (0 < lf_refs s')" "\<not> lf_bad_rq s'"
  shows "life_inv s'"
  using assms rl_ok_upd [of "lf_reqs s" r' i] by (auto simp: life_inv_def refs_of_def sum_list_upd)

text \<open>The two decrements.\<close>

lemma rl_ok_store:
  assumes "rl_ok r" "rl_waiter r = WStore n \<or> rl_timer r = TStore n"
  shows "rl_alive r" "n = 1 \<or> n = 2"
    "rl_waiter r = WStore n \<Longrightarrow> rl_ok (r\<lparr>rl_waiter := WDrop, rl_count := n - 1, rl_alive := (rl_alive r \<and> n \<noteq> 1)\<rparr>)"
    "rl_timer r = TStore n \<Longrightarrow> rl_ok (r\<lparr>rl_timer := TUnlock True, rl_count := n - 1, rl_alive := (rl_alive r \<and> n \<noteq> 1)\<rparr>)"
  using assms unfolding rl_ok_def by (auto split: if_splits)

lemma life_inv_store:
  assumes "life_inv s" "i < length (lf_reqs s)" "s' = rq_release_store i n (upd_rq i f s)" "q = lf_reqs s ! i"
    and "rl_alive (f q) = rl_alive q" "(rl_waiter (f q) = WGone) = (rl_waiter q = WGone)" "rl_alive q"
    and "rl_ok ((f q)\<lparr>rl_count := n - 1, rl_alive := (rl_alive (f q) \<and> n \<noteq> 1)\<rparr>)"
  shows "life_inv s'"
proof (rule life_inv_rq [OF assms(1,2) _ _ _ assms(8)])
  have i: "i < length (lf_reqs (upd_rq i f s))" using assms(2) by simp
  note S = rq_release_store_sels [OF i, of n]
  show "lf_bank s' = lf_bank s" "lf_handlers s' = lf_handlers s" using S by (simp_all add: assms(3))
  show "lf_reqs s' = (lf_reqs s)[i := (f q)\<lparr>rl_count := n - 1, rl_alive := (rl_alive (f q) \<and> n \<noteq> 1)\<rparr>]"
    using S assms(2,4) by (simp add: assms(3))
  show "\<not> lf_bad_rq s'" using S(5) assms(1,2,4,5,7) by (simp add: assms(3) life_inv_def)
  show refs: "lf_refs s' = lf_refs s + rq_refs ((f q)\<lparr>rl_count := n - 1, rl_alive := (rl_alive (f q) \<and> n \<noteq> 1)\<rparr>) -
      rq_refs (lf_reqs s ! i)"
    using S(6) assms(4-7) by (simp add: assms(3) rq_refs_def)
  have "rq_refs q \<le> lf_refs s" "lf_chunk s = (0 < lf_refs s)" using refs_of_ge(3) [OF assms(2)] assms(1,4) by (simp_all add: life_inv_def)
  moreover have "1 \<le> rq_refs q" using assms(7) by (simp add: rq_refs_def)
  ultimately show "lf_chunk s' = (0 < lf_refs s')" using S(6,7) by (auto simp: assms(3))
qed

lemma ev_waiter_inv:
  assumes "life_inv s" "ev_waiter i s = Some s'"
  shows "life_inv s'"
proof -
  have i: "i < length (lf_reqs s)" using assms(2) by (auto simp: ev_waiter_def split: if_splits)
  let ?r = "lf_reqs s ! i"
  have ok: "rl_ok ?r" using assms(1) i by (simp add: life_inv_def)
  have refs: "lf_refs s = refs_of s" "lf_chunk s = (0 < lf_refs s)" "\<not> lf_bad_rq s" using assms(1) by (auto simp: life_inv_def)
  have ge: "rq_refs ?r \<le> lf_refs s" using refs_of_ge(3) [OF i] refs by simp
  show ?thesis
  proof (cases "rl_waiter ?r")
    case WWait
    then show ?thesis
      by (intro life_inv_rq [OF assms(1) i, of s' "?r\<lparr>rl_waiter := WLoad\<rparr>"])
        (use assms(2) i ok refs in \<open>auto simp: ev_waiter_def rl_ok_def rq_refs_def split: if_splits\<close>)
  next
    case WLoad
    then show ?thesis
      by (intro life_inv_rq [OF assms(1) i, of s' "?r\<lparr>rl_waiter := WStore (rl_count ?r)\<rparr>"])
        (use assms(2) i ok refs in \<open>auto simp: ev_waiter_def rl_ok_def rq_refs_def split: if_splits\<close>)
  next
    case (WStore n)
    then have s': "s' = rq_release_store i n (upd_rq i (\<lambda>r. r\<lparr>rl_waiter := WDrop\<rparr>) s)" using assms(2) i by (simp add: ev_waiter_def)
    show ?thesis by (rule life_inv_store [OF assms(1) i s' refl]) (use rl_ok_store [OF ok, of n] WStore in simp_all)
  next
    case WDrop
    then show ?thesis
      by (intro life_inv_rq [OF assms(1) i, of s' "?r\<lparr>rl_waiter := WGone\<rparr>"])
        (use assms(2) i ok refs ge in \<open>auto simp: ev_waiter_def rl_ok_def rq_refs_def split: if_splits\<close>)
  qed (use assms(2) in \<open>auto simp: ev_waiter_def split: if_splits\<close>)
qed

lemma ev_timer_inv:
  assumes "life_inv s" "ev_timer i s = Some s'"
  shows "life_inv s'"
proof -
  have i: "i < length (lf_reqs s)" using assms(2) by (auto simp: ev_timer_def split: if_splits)
  let ?r = "lf_reqs s ! i"
  have ok: "rl_ok ?r" using assms(1) i by (simp add: life_inv_def)
  have refs: "lf_refs s = refs_of s" "lf_chunk s = (0 < lf_refs s)" "\<not> lf_bad_rq s" using assms(1) by (auto simp: life_inv_def)
  have ge: "rq_refs ?r \<le> lf_refs s" using refs_of_ge(3) [OF i] refs by simp
  show ?thesis
  proof (cases "rl_timer ?r")
    case TArmed
    then show ?thesis
      by (intro life_inv_rq [OF assms(1) i, of s' "if rl_ready ?r then ?r\<lparr>rl_timer := TUnlock False\<rparr>
            else ?r\<lparr>rl_linked := False, rl_ready := True, rl_timer := TLoad\<rparr>"])
        (use assms(2) i ok refs in \<open>auto simp: ev_timer_def rl_ok_def rq_refs_def Let_def split: if_splits\<close>)
  next
    case TLoad
    then show ?thesis
      by (intro life_inv_rq [OF assms(1) i, of s' "?r\<lparr>rl_timer := TStore (rl_count ?r)\<rparr>"])
        (use assms(2) i ok refs in \<open>auto simp: ev_timer_def rl_ok_def rq_refs_def split: if_splits\<close>)
  next
    case (TStore n)
    then have s': "s' = rq_release_store i n (upd_rq i (\<lambda>r. r\<lparr>rl_timer := TUnlock True\<rparr>) s)" using assms(2) i by (simp add: ev_timer_def)
    show ?thesis by (rule life_inv_store [OF assms(1) i s' refl]) (use rl_ok_store [OF ok, of n] TStore in simp_all)
  next
    case (TUnlock b)
    then show ?thesis
      by (intro life_inv_rq [OF assms(1) i, of s' "?r\<lparr>rl_timer := TGone b\<rparr>"])
        (use assms(2) i ok refs in \<open>auto simp: ev_timer_def rl_ok_def rq_refs_def split: if_splits\<close>)
  qed (use assms(2) in \<open>auto simp: ev_timer_def split: if_splits\<close>)
qed

lemma rl_ok_new: "rl_ok (new_rq b)"
  by (simp add: rl_ok_def new_rq_def rq_add_ref_def)

lemma ev_drain_inv:
  assumes "life_inv s" "ev_drain i s = Some s'"
  shows "life_inv s'"
proof -
  have i: "i < length (lf_reqs s)" using assms(2) by (auto simp: ev_drain_def split: if_splits)
  let ?r = "lf_reqs s ! i"
  have "rl_ok ?r" using assms(1) i by (simp add: life_inv_def)
  then show ?thesis
    by (intro life_inv_rq [OF assms(1) i, of s' "?r\<lparr>rl_linked := False, rl_ready := True\<rparr>"])
      (use assms i in \<open>auto simp: ev_drain_def rl_ok_def rq_refs_def life_inv_def split: if_splits\<close>)
qed

text \<open>Taking and dropping a pointer to the chunk.\<close>

lemma life_inv_chunk:
  assumes "life_inv s" "\<forall>r\<in>set (lf_reqs s'). rl_ok r" "lf_refs s' = refs_of s'" "lf_bad_rq s' = lf_bad_rq s" "1 \<le> refs_of s"
    and "s' = chunk_release t \<or> s' = chunk_add_ref t" "lf_refs t = lf_refs s" "lf_chunk t = lf_chunk s"
  shows "life_inv s'"
  using assms by (auto simp: life_inv_def)

lemma life_do_inv:
  assumes "life_inv s" "life_do e s = Some s'"
  shows "life_inv s'"
proof (cases e)
  case EGet
  with assms refs_of_ge(1) [of s] show ?thesis
    by (intro life_inv_chunk [OF assms(1), of s' "s\<lparr>lf_handlers := Suc (lf_handlers s)\<rparr>"])
      (auto simp: ev_get_def life_inv_def refs_of_def split: if_splits)
next
  case EPut
  with assms refs_of_ge(2) [of s] show ?thesis
    by (intro life_inv_chunk [OF assms(1), of s' "s\<lparr>lf_handlers := lf_handlers s - 1\<rparr>"])
      (auto simp: ev_put_def life_inv_def refs_of_def split: if_splits)
next
  case ERemove
  with assms refs_of_ge(1) [of s] show ?thesis
    by (intro life_inv_chunk [OF assms(1), of s' "s\<lparr>lf_bank := False\<rparr>"])
      (auto simp: ev_remove_def life_inv_def refs_of_def split: if_splits)
next
  case (EAppend b)
  have "rq_refs (new_rq b) = 2" by (simp add: rq_refs_def new_rq_def rq_add_ref_def)
  with EAppend assms refs_of_ge(2) [of s] rl_ok_new show ?thesis
    by (intro life_inv_chunk [OF assms(1), of s' "s\<lparr>lf_handlers := lf_handlers s - 1, lf_reqs := lf_reqs s @ [new_rq b]\<rparr>"])
      (auto simp: ev_append_def life_inv_def refs_of_def split: if_splits)
next
  case (EDrain i)
  then show ?thesis using ev_drain_inv [OF assms(1), of i s'] assms(2) by simp
next
  case (EWaiter i)
  then show ?thesis using ev_waiter_inv [OF assms(1), of i s'] assms(2) by simp
next
  case (ETimer i)
  then show ?thesis using ev_timer_inv [OF assms(1), of i s'] assms(2) by simp
qed

lemma life_run_inv: "life_run s s' \<Longrightarrow> life_inv s \<Longrightarrow> life_inv s'"
  by (induction rule: life_run.induct) (auto intro: life_do_inv)

lemma life_inv_init: "life_inv life_init"
  by (simp add: life_inv_def life_init_def refs_of_def)

text \<open>A request whose promise was fulfilled before its timer ran: its callback will return, or has returned, at once.\<close>

definition skips_release :: "rq_life \<Rightarrow> bool" where
  "skips_release r \<longleftrightarrow> rl_ready r \<and> (rl_timer r = TArmed \<or> rl_timer r = TUnlock False \<or> rl_timer r = TGone False)"

lemma rl_ok_open: "rl_ok r \<Longrightarrow> waiter_open (rl_waiter r) \<or> timer_open (rl_timer r) \<Longrightarrow> rl_alive r"
  by (auto simp: rl_ok_def split: if_splits)

lemma skips_release_alive: "rl_ok r \<Longrightarrow> skips_release r \<Longrightarrow> rl_alive r"
  by (auto simp: rl_ok_def skips_release_def split: if_splits)

lemma life_do_reqs:
  assumes "life_do e s = Some s'" "i < length (lf_reqs s)" "skips_release (lf_reqs s ! i)"
  shows "i < length (lf_reqs s') \<and> skips_release (lf_reqs s' ! i)"
proof (cases e)
  case (EWaiter j)
  with assms show ?thesis
    by (cases "j = i") (auto simp: ev_waiter_def Let_def skips_release_def rq_release_store_sels
        split: if_splits waiter_pc.splits)
next
  case (ETimer j)
  with assms show ?thesis
    by (cases "j = i") (auto simp: ev_timer_def Let_def skips_release_def rq_release_store_sels
        split: if_splits timer_pc.splits)
next
  case (EDrain j)
  with assms show ?thesis
    by (cases "j = i") (auto simp: ev_drain_def skips_release_def split: if_splits)
qed (use assms in \<open>auto simp: ev_get_def ev_put_def ev_remove_def ev_append_def nth_append split: if_splits\<close>)

lemma life_run_skips:
  "life_run s s' \<Longrightarrow> i < length (lf_reqs s) \<Longrightarrow> skips_release (lf_reqs s ! i) \<Longrightarrow>
   i < length (lf_reqs s') \<and> skips_release (lf_reqs s' ! i)"
  by (induction rule: life_run.induct) (use life_do_reqs in blast)+

lemma life_run_trans: "life_run s1 s2 \<Longrightarrow> life_run s0 s1 \<Longrightarrow> life_run s0 s2"
  by (induction rule: life_run.induct) (auto intro: life_step)

text \<open>Which actions touch a chunk that has been deleted: everyone but the callback has a pointer in hand.\<close>

lemma bad_chunk_sels:
  "lf_bad_chunk (touch_chunk s) = (lf_bad_chunk s \<or> \<not> lf_chunk s)" "lf_bad_chunk (chunk_release s) = (lf_bad_chunk s \<or> \<not> lf_chunk s)"
  "lf_bad_chunk (chunk_add_ref s) = (lf_bad_chunk s \<or> \<not> lf_chunk s)" "lf_bad_chunk (upd_rq i f s) = lf_bad_chunk s"
  "lf_bad_chunk (touch_rq i s) = lf_bad_chunk s"
  "lf_bad_chunk (rq_release_store i n s) = (lf_bad_chunk s \<or> n = 1 \<and> \<not> lf_chunk s)"
  by (simp_all add: touch_chunk_def chunk_release_def chunk_add_ref_def upd_rq_def touch_rq_def rq_release_store_def rq_delete_def Let_def)

lemma life_do_bad_chunk:
  assumes "life_inv s" "\<not> lf_bad_chunk s" "life_do e s = Some s'" "lf_bad_chunk s'"
  shows "\<exists>i < length (lf_reqs s). e = ETimer i \<and> rl_timer (lf_reqs s ! i) = TUnlock True \<and> \<not> lf_chunk s"
proof -
  have refs: "lf_chunk s = (0 < refs_of s)" and ok: "\<And>i. i < length (lf_reqs s) \<Longrightarrow> rl_ok (lf_reqs s ! i)"
    using assms(1) by (auto simp: life_inv_def)
  have held: "lf_chunk s" if "lf_bank s \<or> 0 < lf_handlers s" using that refs_of_ge(1,2) [of s] refs by fastforce
  have rq: "lf_chunk s" if "i < length (lf_reqs s)" "rl_alive (lf_reqs s ! i) \<or> rl_waiter (lf_reqs s ! i) \<noteq> WGone" for i
    using that refs_of_ge(3) [OF that(1)] refs by (auto simp: rq_refs_def of_bool_def split: if_splits)
  have opn: "lf_chunk s \<or> \<not> timer_open (rl_timer (lf_reqs s ! i))" if "i < length (lf_reqs s)" for i
    using rq [of i] rl_ok_open [OF ok] that by blast
  show ?thesis
  proof (cases e)
    case (EWaiter i)
    with assms(2-4) rq [of i] show ?thesis
      by (auto simp: ev_waiter_def Let_def bad_chunk_sels split: if_splits waiter_pc.splits)
  next
    case (ETimer i)
    with assms(2-4) opn [of i] show ?thesis
      by (auto simp: ev_timer_def Let_def bad_chunk_sels split: if_splits timer_pc.splits)
  next
    case (EDrain i)
    with assms(2-4) held show ?thesis by (auto simp: ev_drain_def bad_chunk_sels split: if_splits)
  qed (use assms(2-4) held in \<open>auto simp: ev_get_def ev_put_def ev_remove_def ev_append_def bad_chunk_sels split: if_splits\<close>)
qed

section \<open>Properties\<close>

text \<open>
  C17: in every interleaving, a request is alive as long as its waiting thread or its timer has a reference to it, nobody
  touches a deleted request or deletes one twice, the counter of the chunk is the number of pointers to it, and the chunk is
  deleted exactly when there are none left.
\<close>

theorem lifetimes_safe:
  assumes "life_run life_init s"
  shows "\<not> lf_bad_rq s \<and> (\<forall>r\<in>set (lf_reqs s). waiter_open (rl_waiter r) \<or> timer_open (rl_timer r) \<longrightarrow> rl_alive r) \<and>
    lf_refs s = of_bool (lf_bank s) + int (lf_handlers s) +
      (\<Sum>r\<leftarrow>lf_reqs s. of_bool (rl_alive r) + of_bool (rl_waiter r \<noteq> WGone)) \<and>
    (lf_chunk s \<longleftrightarrow> 0 < lf_refs s)"
proof -
  have inv: "life_inv s" using life_run_inv [OF assms life_inv_init] .
  have "(\<Sum>r\<leftarrow>lf_reqs s. of_bool (rl_alive r) + of_bool (rl_waiter r \<noteq> WGone)) = sum_list (map rq_refs (lf_reqs s))"
    by (simp add: rq_refs_def [abs_def])
  with inv show ?thesis using rl_ok_open by (simp add: life_inv_def refs_of_def)
qed

text \<open>
  A request that another append answered is never deleted: its timer returns without dropping the reference it was
  given. So the chunk is never deleted either, whatever happens afterwards, even when it is removed from the table.
\<close>

theorem answered_request_leaks:
  assumes "life_run life_init s" "i < length (lf_reqs s)" "rl_ready (lf_reqs s ! i)" "rl_timer (lf_reqs s ! i) = TArmed"
    and "life_run s s'"
  shows "rl_alive (lf_reqs s' ! i) \<and> lf_chunk s'"
proof -
  have "skips_release (lf_reqs s ! i)" using assms(3,4) by (simp add: skips_release_def)
  from life_run_skips [OF assms(5,2) this] have i: "i < length (lf_reqs s')" "skips_release (lf_reqs s' ! i)" by simp_all
  have inv: "life_inv s'" using life_run_inv [OF life_run_trans [OF assms(5,1)] life_inv_init] .
  then have alive: "rl_alive (lf_reqs s' ! i)" using i skips_release_alive by (simp add: life_inv_def)
  then have "1 \<le> rq_refs (lf_reqs s' ! i)" by (simp add: rq_refs_def)
  with inv alive refs_of_ge(3) [OF i(1)] show ?thesis by (simp add: life_inv_def)
qed

text \<open>Concrete runs: a request that another append answers, and two that only the timer answers.\<close>

definition ex_answered :: "event list" where
  "ex_answered = [EGet, EAppend True, EGet, EDrain 0]"

definition ex_rest :: "event list" where
  "ex_rest = [EPut, ERemove, EWaiter 0, EWaiter 0, EWaiter 0, EWaiter 0, ETimer 0, ETimer 0]"

definition ex_unlock :: "event list" where
  "ex_unlock = [EGet, EAppend True, ERemove, ETimer 0, EWaiter 0, EWaiter 0, EWaiter 0, EWaiter 0, ETimer 0, ETimer 0, ETimer 0]"

definition ex_race :: "event list" where
  "ex_race = [EGet, EAppend True, ERemove, ETimer 0, EWaiter 0, EWaiter 0, ETimer 0, EWaiter 0, EWaiter 0, ETimer 0, ETimer 0]"

lemmas life_eval = ex_answered_def ex_rest_def ex_unlock_def ex_race_def life_init_def ev_get_def ev_put_def ev_remove_def
  ev_append_def ev_drain_def ev_waiter_def ev_timer_def touch_chunk_def touch_rq_def upd_rq_def chunk_add_ref_def chunk_release_def
  rq_add_ref_def new_rq_def rq_delete_def rq_release_store_def Let_def

theorem lifetimes_safe_witness:
  "\<exists>s. life_exec ex_unlock life_init = Some s \<and> \<not> lf_bad_rq s \<and> lf_refs s = 0 \<and> \<not> lf_chunk s"
proof -
  obtain s where s: "life_exec ex_unlock life_init = Some s" "\<not> lf_bank s" "lf_handlers s = 0"
    "\<forall>r\<in>set (lf_reqs s). \<not> rl_alive r \<and> rl_waiter r = WGone"
    by (simp add: life_eval)
  then have "(\<Sum>r\<leftarrow>lf_reqs s. of_bool (rl_alive r) + of_bool (rl_waiter r \<noteq> WGone)) = (0 :: int)"
    by (simp add: sum_list_eq_0_iff cong: map_cong)
  with lifetimes_safe [OF life_run_exec [OF s(1)]] s show ?thesis by auto
qed

theorem answered_request_leaks_witness:
  "\<exists>s s'. life_exec ex_answered life_init = Some s \<and> life_exec ex_rest s = Some s' \<and> \<not> lf_bank s' \<and> lf_handlers s' = 0 \<and>
     rl_waiter (lf_reqs s' ! 0) = WGone \<and> rl_timer (lf_reqs s' ! 0) = TGone False \<and> rl_alive (lf_reqs s' ! 0) \<and> lf_chunk s'"
proof -
  obtain s s' where s: "life_exec ex_answered life_init = Some s" "life_exec ex_rest s = Some s'" "0 < length (lf_reqs s)"
    "rl_ready (lf_reqs s ! 0)" "rl_timer (lf_reqs s ! 0) = TArmed" "\<not> lf_bank s'" "lf_handlers s' = 0"
    "rl_waiter (lf_reqs s' ! 0) = WGone" "rl_timer (lf_reqs s' ! 0) = TGone False"
    by (simp add: life_eval)
  with answered_request_leaks [OF life_run_exec [OF s(1)] s(3-5) life_run_exec [OF s(2)]] show ?thesis by auto
qed

text \<open>
  The callback of the timer may unlock the mutex of a chunk that has been deleted: when the table has dropped the chunk
  and the waiting append is through, the release at the end of the callback deletes the request and with it the chunk, and
  the guard unlocks the mutex afterwards. No other action ever touches a deleted chunk.
\<close>

theorem unlock_after_delete:
  shows "(\<exists>s. life_run life_init s \<and> lf_bad_chunk s) \<and>
    (\<forall>s e s'. life_run life_init s \<longrightarrow> \<not> lf_bad_chunk s \<longrightarrow> life_do e s = Some s' \<longrightarrow> lf_bad_chunk s' \<longrightarrow>
       (\<exists>i < length (lf_reqs s). e = ETimer i \<and> rl_timer (lf_reqs s ! i) = TUnlock True \<and> \<not> lf_chunk s))"
proof (intro conjI allI impI)
  obtain s where "life_exec ex_unlock life_init = Some s" "lf_bad_chunk s" by (simp add: life_eval)
  then show "\<exists>s. life_run life_init s \<and> lf_bad_chunk s" using life_run_exec by blast
next
  fix s e s' assume "life_run life_init s" "\<not> lf_bad_chunk s" "life_do e s = Some s'" "lf_bad_chunk s'"
  then show "\<exists>i < length (lf_reqs s). e = ETimer i \<and> rl_timer (lf_reqs s ! i) = TUnlock True \<and> \<not> lf_chunk s"
    using life_do_bad_chunk life_run_inv life_inv_init by blast
qed

theorem unlock_after_delete_witness:
  "\<exists>s s'. life_exec (butlast ex_unlock) life_init = Some s \<and> life_do (ETimer 0) s = Some s' \<and> lf_bad_chunk s' \<and> \<not> lf_chunk s"
proof -
  obtain s s' where s: "life_exec (butlast ex_unlock) life_init = Some s" "life_do (ETimer 0) s = Some s'" "lf_bad_chunk s'"
    "\<not> lf_bad_chunk s" by (simp add: life_eval)
  with unlock_after_delete life_run_exec [OF s(1)] show ?thesis by blast
qed

text \<open>
  The decrements of the two threads may overlap: both load 2 and store 1. Then nobody deletes the request although everyone
  has dropped it.
\<close>

theorem overlapping_release_leaks:
  "\<exists>s. life_run life_init s \<and> \<not> lf_bank s \<and> lf_handlers s = 0 \<and> rl_waiter (lf_reqs s ! 0) = WGone \<and>
     rl_timer (lf_reqs s ! 0) = TGone True \<and> rl_alive (lf_reqs s ! 0) \<and> lf_chunk s"
proof -
  obtain s where "life_exec ex_race life_init = Some s" "\<not> lf_bank s" "lf_handlers s = 0" "rl_waiter (lf_reqs s ! 0) = WGone"
    "rl_timer (lf_reqs s ! 0) = TGone True" "rl_alive (lf_reqs s ! 0)" "lf_chunk s"
    by (simp add: life_eval)
  then show ?thesis using life_run_exec by blast
qed

end
