(* ===== verification/Intrusive.thy ===== *)
theory Intrusive
  imports Main
begin

text \<open>
  The intrusive reference counts of \<^verbatim>\<open>Rsm\<close>, \<^verbatim>\<open>Container\<close>, \<^verbatim>\<open>Deva\<close>, \<^verbatim>\<open>Op\<close> and of the two \<^verbatim>\<open>Store\<close> classes: an atomic counter in the object, which
  \<^verbatim>\<open>boost::intrusive_ptr\<close> increments for every new pointer and decrements for every pointer that goes away; the thread whose decrement found the value 1 deletes
  the object. Threads are interleaved between the decrement and the deletion. The counts of chunks and append requests are in the theory \<open>Lifetimes\<close>.
\<close>

section \<open>One counter\<close>

text \<open>The counter, the pointers to the object, the threads that are about to delete it, and how often it was deleted.\<close>

record counted =
  ct_use_count :: int
  ct_ptrs :: nat
  ct_deleting :: nat
  ct_deletes :: nat

definition intrusive_ptr_add_ref :: "counted \<Rightarrow> counted" where
  "intrusive_ptr_add_ref x = x\<lparr>ct_use_count := ct_use_count x + 1\<rparr>"

text \<open>\<^verbatim>\<open>fetch_sub(1) == 1\<close>: the new counter, and whether the thread goes on to delete the object.\<close>

definition intrusive_ptr_release :: "counted \<Rightarrow> counted" where
  "intrusive_ptr_release x =
     x\<lparr>ct_use_count := ct_use_count x - 1, ct_deleting := (if ct_use_count x = 1 then Suc (ct_deleting x) else ct_deleting x)\<rparr>"

datatype rc_event = Copy | Drop | Delete

text \<open>A pointer is copied from another one, a pointer is dropped, a thread deletes the object.\<close>

fun rc_do :: "rc_event \<Rightarrow> counted \<Rightarrow> counted option" where
  "rc_do Copy x = (if ct_ptrs x = 0 then None else Some ((intrusive_ptr_add_ref x)\<lparr>ct_ptrs := Suc (ct_ptrs x)\<rparr>))"
| "rc_do Drop x = (if ct_ptrs x = 0 then None else Some ((intrusive_ptr_release x)\<lparr>ct_ptrs := ct_ptrs x - 1\<rparr>))"
| "rc_do Delete x = (if ct_deleting x = 0 then None else Some (x\<lparr>ct_deleting := ct_deleting x - 1, ct_deletes := Suc (ct_deletes x)\<rparr>))"

fun rc_exec :: "rc_event list \<Rightarrow> counted \<Rightarrow> counted option" where
  "rc_exec [] x = Some x"
| "rc_exec (e # es) x = Option.bind (rc_do e x) (rc_exec es)"

text \<open>A new object, with its first pointer.\<close>

definition rc_new :: counted where
  "rc_new = \<lparr>ct_use_count = 1, ct_ptrs = 1, ct_deleting = 0, ct_deletes = 0\<rparr>"

definition rc_inv :: "counted \<Rightarrow> bool" where
  "rc_inv x \<longleftrightarrow> ct_use_count x = int (ct_ptrs x) \<and> ct_deleting x + ct_deletes x = (if ct_ptrs x = 0 then 1 else 0)"

lemma rc_inv_do: "rc_inv x \<Longrightarrow> rc_do e x = Some y \<Longrightarrow> rc_inv y"
  by (cases e) (auto simp: rc_inv_def intrusive_ptr_add_ref_def intrusive_ptr_release_def split: if_splits)

lemma rc_inv_exec: "rc_inv x \<Longrightarrow> rc_exec es x = Some y \<Longrightarrow> rc_inv y"
  by (induction es arbitrary: x) (auto simp: bind_eq_Some_conv intro: rc_inv_do)

section \<open>Two counters in one object\<close>

text \<open>
  A \<^verbatim>\<open>Deva\<close> has the counter of its base class \<^verbatim>\<open>Container\<close> and one of its own, which a pointer of the other type does not look at. An object that was created
  for a \<^verbatim>\<open>DevaPtr\<close> and converted to a \<^verbatim>\<open>ContainerPtr\<close> has one pointer of each type.
\<close>

definition both_new :: "counted \<times> counted" where
  "both_new = (rc_new, rc_new)"

definition both_deletes :: "counted \<times> counted \<Rightarrow> nat" where
  "both_deletes p = ct_deletes (fst p) + ct_deletes (snd p)"

section \<open>Properties\<close>

text \<open>
  With one atomic counter, however the threads that copy and drop pointers and the deletion are interleaved, the object is deleted at most once, only when no
  pointer to it is left, and it has been deleted when no pointer is left and no thread is about to delete it.
\<close>

theorem refcount_safe:
  assumes "rc_exec es rc_new = Some x"
  shows "ct_deletes x \<le> 1 \<and> (ct_deletes x + ct_deleting x > 0 \<longrightarrow> ct_ptrs x = 0) \<and>
    (ct_ptrs x = 0 \<and> ct_deleting x = 0 \<longrightarrow> ct_deletes x = 1)"
  using rc_inv_exec [OF _ assms] by (auto simp: rc_inv_def rc_new_def split: if_splits)

theorem refcount_safe_witness:
  "\<exists>x. rc_exec [Copy, Drop, Copy, Drop, Drop, Delete] rc_new = Some x \<and> ct_ptrs x = 0 \<and> ct_deletes x = 1"
proof -
  obtain x where x: "rc_exec [Copy, Drop, Copy, Drop, Drop, Delete] rc_new = Some x" "ct_ptrs x = 0" "ct_deleting x = 0"
    by (simp add: rc_new_def intrusive_ptr_add_ref_def intrusive_ptr_release_def)
  with refcount_safe [OF x(1)] show ?thesis by auto
qed

text \<open>With the two counters of a \<^verbatim>\<open>Deva\<close>, dropping both pointers deletes the object twice.\<close>

lemma two_counts_delete_twice:
  "\<exists>x y. rc_exec [Drop, Delete] (fst both_new) = Some x \<and> ct_deletes x = 1 \<and> ct_ptrs (snd both_new) = 1 \<and>
     rc_exec [Drop, Delete] (snd both_new) = Some y \<and> both_deletes (x, y) = 2"
  by (simp add: both_new_def both_deletes_def rc_new_def intrusive_ptr_release_def)

end
