(* ===== verification/Namespace.thy ===== *)
theory Namespace
  imports Uuid "HOL-Library.Sublist"
begin

text \<open>
  The directory tree of a metadata server: \<^verbatim>\<open>src/deva/namespace.h\<close> and \<^verbatim>\<open>src/deva/namespace.cc\<close>.
  The state is the UUID of the root and the map from the UUID of a directory to its list of entries.
  What the rest of the server relies on is the locale \<open>directory_service\<close>: seen as a map from paths
  to inodes, creating an entry adds its path and nothing else, and removing one takes away the paths
  below it. A client that creates an entry under a name that is already there changes nothing.
\<close>

section \<open>Definitions\<close>

datatype file_type = KFile | KDirectory

record dir_entry =
  de_inode :: uuid
  de_name :: string
  de_type :: file_type

record namespace =
  n_root :: uuid
  n_entries :: "(uuid, dir_entry list) omap"

definition file_type_str :: "file_type \<Rightarrow> string" where
  "file_type_str t = (case t of KFile \<Rightarrow> ''FILE'' | KDirectory \<Rightarrow> ''DIRECTORY'')"

definition dir_entry_str :: "uuid_lib \<Rightarrow> dir_entry \<Rightarrow> string" where
  "dir_entry_str L e = ''{inode:'' @ u_str L (de_inode e) @ '', name:'' @ de_name e @
     '', type:'' @ file_type_str (de_type e) @ ''}''"

definition ns_new :: "uuid_lib \<Rightarrow> namespace" where
  "ns_new L = (let r = from_str_or_die L nil_uuid_str in \<lparr>n_root = r, n_entries = om_set (u_lt L) [] r []\<rparr>)"

definition ns_load :: "namespace \<Rightarrow> status \<times> namespace" where
  "ns_load n = (status_OK, n)"

definition ENOENT_msg :: status where
  "ENOENT_msg = Status ENOENT ''No such file or directory''"

definition ns_create ::
  "uuid_lib \<Rightarrow> namespace \<Rightarrow> uuid \<Rightarrow> string \<Rightarrow> file_type \<Rightarrow> uuid \<Rightarrow> status \<times> namespace" where
  "ns_create L n parent name type inode =
     (case om_find (u_lt L) (n_entries n) parent of
        None \<Rightarrow> (ENOENT_msg, n)
      | Some es \<Rightarrow>
        let m1 = om_set (u_lt L) (n_entries n) parent
                   (es @ [\<lparr>de_inode = inode, de_name = name, de_type = type\<rparr>]);
            m2 = (if type = KDirectory then om_set (u_lt L) m1 inode [] else m1)
        in (status_OK, n\<lparr>n_entries := m2\<rparr>))"

definition ns_remove :: "uuid_lib \<Rightarrow> namespace \<Rightarrow> uuid \<Rightarrow> string \<Rightarrow> status \<times> namespace" where
  "ns_remove L n parent name =
     (case om_find (u_lt L) (n_entries n) parent of
        None \<Rightarrow> (ENOENT_msg, n)
      | Some es \<Rightarrow>
        (status_OK, n\<lparr>n_entries := om_set (u_lt L) (n_entries n) parent (filter (\<lambda>e. de_name e \<noteq> name) es)\<rparr>))"

definition ns_list :: "uuid_lib \<Rightarrow> namespace \<Rightarrow> uuid \<Rightarrow> dir_entry list \<Rightarrow> dir_entry list" where
  "ns_list L n parent entries =
     (case om_find (u_lt L) (n_entries n) parent of None \<Rightarrow> entries | Some es \<Rightarrow> es)"

text \<open>The outer loop of \<^verbatim>\<open>parse_path\<close>, from the position \<^verbatim>\<open>p\<close> on.\<close>

function parse_components :: "string \<Rightarrow> string list" where
  "parse_components [] = []"
| "parse_components (c # cs) =
     (if c = CHR ''/'' then parse_components cs
      else takeWhile (\<lambda>x. x \<noteq> CHR ''/'') (c # cs) #
           parse_components (dropWhile (\<lambda>x. x \<noteq> CHR ''/'') (c # cs)))"
  by pat_completeness auto
termination
  by (relation "measure length") (auto simp: less_Suc_eq_le length_dropWhile_le)

definition parse_path :: "string \<Rightarrow> string list \<Rightarrow> status \<times> string list" where
  "parse_path path components =
     (if path = [] \<or> hd path \<noteq> CHR ''/'' then (Status EINVAL ''Invalid path'', components)
      else (status_OK, components @ parse_components path))"

text \<open>
  The loop of \<^verbatim>\<open>lookup\<close> over the components; the result is the status, the inode that is stored on
  success, and the type the last assignment left in \<^verbatim>\<open>*file_type\<close>.
\<close>

fun lookup_loop ::
  "uuid_lib \<Rightarrow> namespace \<Rightarrow> uuid \<Rightarrow> file_type \<Rightarrow> string list \<Rightarrow> status \<times> uuid option \<times> file_type" where
  "lookup_loop L n parent ft [] = (status_OK, Some parent, ft)"
| "lookup_loop L n parent ft (c # cs) =
     (case om_find (u_lt L) (n_entries n) parent of
        None \<Rightarrow> (ENOENT_msg, None, ft)
      | Some es \<Rightarrow>
        (case find (\<lambda>e. de_name e = c) es of
           None \<Rightarrow> (ENOENT_msg, None, ft)
         | Some e \<Rightarrow>
           if de_type e = KFile \<and> cs \<noteq> [] then (Status ENOENT ''Not a directory'', None, ft)
           else lookup_loop L n (de_inode e) (de_type e) cs))"

definition ns_lookup ::
  "uuid_lib \<Rightarrow> namespace \<Rightarrow> string \<Rightarrow> uuid \<Rightarrow> file_type \<Rightarrow> status \<times> uuid \<times> file_type" where
  "ns_lookup L n path inode ft =
     (case parse_path path [] of (st, cs) \<Rightarrow>
        if \<not> st_ok st then (st, inode, ft)
        else case lookup_loop L n (n_root n) KDirectory cs of
               (st, i, ft') \<Rightarrow> (st, case i of Some j \<Rightarrow> j | None \<Rightarrow> inode, ft'))"

section \<open>The contract of a directory service\<close>

text \<open>
  \<open>view n cs\<close> is the inode and type at the path with components \<open>cs\<close>; \<open>fresh n u\<close> says that
  \<open>n\<close> does not use the UUID \<open>u\<close>.
\<close>

locale directory_service =
  fixes inv :: "'n \<Rightarrow> bool" and view :: "'n \<Rightarrow> string list \<Rightarrow> (uuid \<times> file_type) option"
    and fresh :: "'n \<Rightarrow> uuid \<Rightarrow> bool"
    and lookup :: "'n \<Rightarrow> string \<Rightarrow> uuid \<Rightarrow> file_type \<Rightarrow> status \<times> uuid \<times> file_type"
    and create :: "'n \<Rightarrow> uuid \<Rightarrow> string \<Rightarrow> file_type \<Rightarrow> uuid \<Rightarrow> status \<times> 'n"
    and remove :: "'n \<Rightarrow> uuid \<Rightarrow> string \<Rightarrow> status \<times> 'n"
  assumes lookup_ok: "inv n \<Longrightarrow> path \<noteq> [] \<Longrightarrow> hd path = CHR ''/'' \<Longrightarrow> view n (parse_components path) = Some (d, t) \<Longrightarrow>
      lookup n path i ft = (status_OK, d, t)"
    and lookup_missing: "inv n \<Longrightarrow> path \<noteq> [] \<Longrightarrow> hd path = CHR ''/'' \<Longrightarrow> view n (parse_components path) = None \<Longrightarrow>
      error_code (fst (lookup n path i ft)) = ENOENT"
    and lookup_invalid: "path = [] \<or> hd path \<noteq> CHR ''/'' \<Longrightarrow> error_code (fst (lookup n path i ft)) = EINVAL"
    and view_root: "inv n \<Longrightarrow> \<exists>r. view n [] = Some (r, KDirectory)"
    and create_ok: "inv n \<Longrightarrow> view n cs = Some (d, KDirectory) \<Longrightarrow> fresh n u \<Longrightarrow>
      \<exists>n'. create n d name t u = (status_OK, n') \<and> inv n' \<and>
        view n' = (if view n (cs @ [name]) = None then (view n)(cs @ [name] \<mapsto> (u, t)) else view n) \<and>
        (\<forall>v. fresh n' v \<longleftrightarrow> fresh n v \<and> v \<noteq> u)"
    and remove_ok: "inv n \<Longrightarrow> view n cs = Some (d, KDirectory) \<Longrightarrow>
      \<exists>n'. remove n d name = (status_OK, n') \<and> inv n' \<and>
        view n' = (\<lambda>xs. if prefix (cs @ [name]) xs then None else view n xs)"

section \<open>The tree invariant and the view of a namespace\<close>

definition step_to :: "uuid_lib \<Rightarrow> namespace \<Rightarrow> uuid \<Rightarrow> string \<Rightarrow> (uuid \<times> file_type) option" where
  "step_to L n p c = (case om_find (u_lt L) (n_entries n) p of None \<Rightarrow> None
     | Some es \<Rightarrow> map_option (\<lambda>e. (de_inode e, de_type e)) (find (\<lambda>e. de_name e = c) es))"

definition ns_view :: "uuid_lib \<Rightarrow> namespace \<Rightarrow> string list \<Rightarrow> (uuid \<times> file_type) option" where
  "ns_view L n cs = (case lookup_loop L n (n_root n) KDirectory cs of
     (st, i, ft) \<Rightarrow> map_option (\<lambda>j. (j, ft)) i)"

text \<open>\<open>is_entry L n p e\<close>: \<open>e\<close> is an entry of the directory \<open>p\<close>.\<close>

definition is_entry :: "uuid_lib \<Rightarrow> namespace \<Rightarrow> uuid \<Rightarrow> dir_entry \<Rightarrow> bool" where
  "is_entry L n p e \<longleftrightarrow> (\<exists>es. om_find (u_lt L) (n_entries n) p = Some es \<and> e \<in> set es)"

definition ns_fresh :: "uuid_lib \<Rightarrow> namespace \<Rightarrow> uuid \<Rightarrow> bool" where
  "ns_fresh L n u \<longleftrightarrow> u \<noteq> n_root n \<and> om_find (u_lt L) (n_entries n) u = None \<and>
     (\<forall>p e. is_entry L n p e \<longrightarrow> de_inode e \<noteq> u)"

text \<open>The entries form a tree: an inode has one parent, the root none, and a directory has its list.\<close>

definition ns_inv :: "uuid_lib \<Rightarrow> namespace \<Rightarrow> bool" where
  "ns_inv L n \<longleftrightarrow> om_sorted (u_lt L) (n_entries n) \<and> om_find (u_lt L) (n_entries n) (n_root n) \<noteq> None \<and>
     (\<forall>p e. is_entry L n p e \<longrightarrow> de_inode e \<noteq> n_root n \<and>
        (de_type e = KDirectory \<longrightarrow> om_find (u_lt L) (n_entries n) (de_inode e) \<noteq> None)) \<and>
     (\<forall>p e p' e'. is_entry L n p e \<longrightarrow> is_entry L n p' e' \<longrightarrow> de_inode e = de_inode e' \<longrightarrow> p = p' \<and> e = e')"

section \<open>Lemmas\<close>

lemma parse_path_ok: "path \<noteq> [] \<Longrightarrow> hd path = CHR ''/'' \<Longrightarrow> parse_path path cs = (status_OK, cs @ parse_components path)"
  by (simp add: parse_path_def)

lemma lookup_loop_status:
  "lookup_loop L n p t cs = (st, i, t') \<Longrightarrow> (if i = None then error_code st = ENOENT else st = status_OK)"
  by (induction L n p t cs rule: lookup_loop.induct)
    (auto simp: ENOENT_msg_def split: option.splits if_splits)

definition walk :: "uuid_lib \<Rightarrow> namespace \<Rightarrow> uuid \<Rightarrow> file_type \<Rightarrow> string list \<Rightarrow> (uuid \<times> file_type) option" where
  "walk L n p t cs = (case lookup_loop L n p t cs of (st, i, ft) \<Rightarrow> map_option (\<lambda>j. (j, ft)) i)"

lemma walk_simps [simp]:
  "walk L n p t [] = Some (p, t)"
  "walk L n p t (c # cs) = (case step_to L n p c of None \<Rightarrow> None
     | Some (q, t') \<Rightarrow> if t' = KFile \<and> cs \<noteq> [] then None else walk L n q t' cs)"
  by (auto simp: walk_def step_to_def split: option.splits)

text \<open>The last component of a path is looked up in the directory the others lead to.\<close>

lemma walk_snoc:
  "walk L n p KDirectory (cs @ [c]) = (case walk L n p KDirectory cs of
     Some (q, KDirectory) \<Rightarrow> step_to L n q c | _ \<Rightarrow> None)"
proof (induction cs arbitrary: p)
  case Nil
  then show ?case by (auto split: option.splits)
next
  case (Cons a cs)
  show ?case
  proof (cases "step_to L n p a")
    case (Some x)
    obtain q t where x: "x = (q, t)" by (cases x)
    show ?thesis using Cons [of q] Some x by (cases t) auto
  qed simp
qed

lemma ns_view_walk: "ns_view L n cs = walk L n (n_root n) KDirectory cs"
  by (simp add: ns_view_def walk_def)

lemma ns_view_Nil [simp]: "ns_view L n [] = Some (n_root n, KDirectory)"
  by (simp add: ns_view_walk)

lemma ns_view_snoc:
  "ns_view L n (cs @ [c]) = (case ns_view L n cs of Some (q, KDirectory) \<Rightarrow> step_to L n q c | _ \<Rightarrow> None)"
  unfolding ns_view_walk by (rule walk_snoc)

lemma ns_view_snocE:
  assumes "ns_view L n (cs @ [c]) = Some (u, t)"
  obtains q where "ns_view L n cs = Some (q, KDirectory)" "step_to L n q c = Some (u, t)"
  using assms by (auto simp: ns_view_snoc split: option.splits file_type.splits)

lemma step_to_entry:
  "step_to L n p c = Some (u, t) \<Longrightarrow> \<exists>e. is_entry L n p e \<and> de_inode e = u \<and> de_name e = c \<and> de_type e = t"
  by (auto simp: step_to_def is_entry_def find_Some_iff split: option.splits) (use nth_mem in blast)

lemma ns_invD:
  assumes "ns_inv L n"
  shows "om_sorted (u_lt L) (n_entries n)" "om_find (u_lt L) (n_entries n) (n_root n) \<noteq> None"
    "is_entry L n p e \<Longrightarrow> de_inode e \<noteq> n_root n"
    "is_entry L n p e \<Longrightarrow> de_type e = KDirectory \<Longrightarrow> om_find (u_lt L) (n_entries n) (de_inode e) \<noteq> None"
    "is_entry L n p e \<Longrightarrow> is_entry L n p' e' \<Longrightarrow> de_inode e = de_inode e' \<Longrightarrow> p = p' \<and> e = e'"
  using assms unfolding ns_inv_def by blast+

lemma ns_view_used:
  assumes "ns_inv L n" "ns_view L n cs = Some (u, t)"
  shows "\<not> ns_fresh L n u" "t = KDirectory \<Longrightarrow> om_find (u_lt L) (n_entries n) u \<noteq> None"
proof -
  have "\<not> ns_fresh L n u \<and> (t = KDirectory \<longrightarrow> om_find (u_lt L) (n_entries n) u \<noteq> None)"
  proof (cases cs rule: rev_cases)
    case Nil
    then show ?thesis using assms(2) ns_invD(2) [OF assms(1)] by (simp add: ns_fresh_def)
  next
    case (snoc ys c)
    then obtain q where "step_to L n q c = Some (u, t)" using assms(2) ns_view_snocE by metis
    then show ?thesis using step_to_entry ns_invD(4) [OF assms(1)] unfolding ns_fresh_def by metis
  qed
  then show "\<not> ns_fresh L n u" "t = KDirectory \<Longrightarrow> om_find (u_lt L) (n_entries n) u \<noteq> None" by auto
qed

text \<open>An inode is reached by one path only.\<close>

lemma ns_view_inj:
  assumes "ns_inv L n" "ns_view L n cs = Some (u, t)" "ns_view L n ds = Some (u, t')"
  shows "cs = ds"
  using assms(2,3)
proof (induction cs arbitrary: ds u t t' rule: rev_induct)
  case Nil
  then show ?case
    using ns_view_snocE [of L n] step_to_entry ns_invD(3) [OF assms(1)]
    by (cases ds rule: rev_cases) (force, metis Pair_inject ns_view_Nil option.inject)
next
  case (snoc c cs)
  obtain q where q: "ns_view L n cs = Some (q, KDirectory)" "step_to L n q c = Some (u, t)"
    using ns_view_snocE [OF snoc.prems(1)] .
  obtain e where e: "is_entry L n q e" "de_inode e = u" "de_name e = c" using step_to_entry [OF q(2)] by blast
  show ?case
  proof (cases ds rule: rev_cases)
    case Nil
    then show ?thesis using snoc.prems(2) e ns_invD(3) [OF assms(1) e(1)] by simp
  next
    case (snoc ds' d)
    then obtain q' where q': "ns_view L n ds' = Some (q', KDirectory)" "step_to L n q' d = Some (u, t')"
      using ns_view_snocE \<open>ns_view L n ds = Some (u, t')\<close> by metis
    obtain e' where e': "is_entry L n q' e'" "de_inode e' = u" "de_name e' = d"
      using step_to_entry [OF q'(2)] by blast
    have "q = q'" "e = e'" using ns_invD(5) [OF assms(1) e(1) e'(1)] e(2) e'(2) by auto
    then show ?thesis using snoc.IH [OF q(1)] q'(1) e(3) e'(3) snoc by blast
  qed
qed

section \<open>Creating and removing entries\<close>

text \<open>The tables after an operation, entry by entry.\<close>

lemma create_tables:
  assumes "uuid_library L" "om_find (u_lt L) (n_entries n) d = Some es" "ns_fresh L n u"
  obtains n' where "ns_create L n d name t u = (status_OK, n')" "n_root n' = n_root n"
    "\<And>p. om_find (u_lt L) (n_entries n') p = (if p = d then Some (es @ [\<lparr>de_inode = u, de_name = name, de_type = t\<rparr>])
       else if p = u \<and> t = KDirectory then Some [] else om_find (u_lt L) (n_entries n) p)"
    "om_sorted (u_lt L) (n_entries n) \<Longrightarrow> om_sorted (u_lt L) (n_entries n')"
proof -
  note cmp = uuid_library.axioms(1) [OF assms(1)]
  have "d \<noteq> u" using assms(2,3) by (auto simp: ns_fresh_def)
  obtain st n' where n': "ns_create L n d name t u = (st, n')" by fastforce
  show ?thesis
    by (rule that [of n']) (use assms(2) n' \<open>d \<noteq> u\<close> in \<open>auto simp: ns_create_def Let_def
        comparator.om_find_set [OF cmp] comparator.om_sorted_set [OF cmp] split: if_splits\<close>)
qed

lemma create_entries:
  assumes "uuid_library L" "om_find (u_lt L) (n_entries n) d = Some es" "ns_fresh L n u"
    and "ns_create L n d name t u = (status_OK, n')"
  shows "n_root n' = n_root n" "om_sorted (u_lt L) (n_entries n) \<Longrightarrow> om_sorted (u_lt L) (n_entries n')"
    "is_entry L n' p e \<longleftrightarrow> is_entry L n p e \<or> p = d \<and> e = \<lparr>de_inode = u, de_name = name, de_type = t\<rparr>"
    "om_find (u_lt L) (n_entries n') p = None \<longleftrightarrow> om_find (u_lt L) (n_entries n) p = None \<and> (t = KDirectory \<longrightarrow> p \<noteq> u)"
    "step_to L n' p c = (if p = d \<and> c = name \<and> step_to L n p c = None then Some (u, t) else step_to L n p c)"
proof -
  let ?e = "\<lparr>de_inode = u, de_name = name, de_type = t\<rparr>"
  have T: "n_root n' = n_root n" "om_sorted (u_lt L) (n_entries n) \<Longrightarrow> om_sorted (u_lt L) (n_entries n')"
    "\<And>p. om_find (u_lt L) (n_entries n') p = (if p = d then Some (es @ [?e])
       else if p = u \<and> t = KDirectory then Some [] else om_find (u_lt L) (n_entries n) p)"
    using create_tables [OF assms(1-3), of name t] assms(4) by (metis Pair_inject)+
  have u: "om_find (u_lt L) (n_entries n) u = None" using assms(3) by (simp add: ns_fresh_def)
  show "n_root n' = n_root n" "om_sorted (u_lt L) (n_entries n) \<Longrightarrow> om_sorted (u_lt L) (n_entries n')"
    by (rule T(1), rule T(2))
  show "is_entry L n' p e \<longleftrightarrow> is_entry L n p e \<or> p = d \<and> e = ?e"
    using T(3) [of p] assms(2) u by (auto simp: is_entry_def)
  show "om_find (u_lt L) (n_entries n') p = None \<longleftrightarrow> om_find (u_lt L) (n_entries n) p = None \<and> (t = KDirectory \<longrightarrow> p \<noteq> u)"
    using T(3) [of p] assms(2) u by auto
  have "find P (xs @ ys) = (case find P xs of None \<Rightarrow> find P ys | Some y \<Rightarrow> Some y)" for P and xs ys :: "dir_entry list"
    by (induction xs) auto
  then show "step_to L n' p c = (if p = d \<and> c = name \<and> step_to L n p c = None then Some (u, t) else step_to L n p c)"
    using T(3) [of p] assms(2) u by (auto simp: step_to_def split: option.splits)
qed

lemma create_inv:
  assumes "uuid_library L" "om_find (u_lt L) (n_entries n) d = Some es" "ns_fresh L n u" "ns_inv L n"
    and "ns_create L n d name t u = (status_OK, n')"
  shows "ns_inv L n'" "ns_fresh L n' v \<longleftrightarrow> ns_fresh L n v \<and> v \<noteq> u"
proof -
  note E = create_entries [OF assms(1-3,5)] and D = ns_invD [OF assms(4)]
  have fr: "is_entry L n p e \<Longrightarrow> de_inode e \<noteq> u" "u \<noteq> n_root n" for p e using assms(3) by (auto simp: ns_fresh_def)
  show "ns_inv L n'"
    unfolding ns_inv_def
  proof (intro conjI allI impI)
    show "om_sorted (u_lt L) (n_entries n')" using E(2) D(1) .
    show "om_find (u_lt L) (n_entries n') (n_root n') \<noteq> None" using D(2) E(1,4) by simp
  next
    fix p e assume "is_entry L n' p e"
    then show "de_inode e \<noteq> n_root n'" using D(3) fr E(1,3) by auto
  next
    fix p e assume "is_entry L n' p e" "de_type e = KDirectory"
    then show "om_find (u_lt L) (n_entries n') (de_inode e) \<noteq> None"
      using D(4) E(3,4) by (metis dir_entry.select_convs(1,3))
  next
    fix p e p' e' assume e: "is_entry L n' p e" "is_entry L n' p' e'" "de_inode e = de_inode e'"
    then have "p = p' \<and> e = e'" using D(5) fr(1) unfolding E(3) by (metis dir_entry.select_convs(1))
    then show "p = p'" "e = e'" by auto
  qed
  have "d \<noteq> u" using assms(2,3) by (auto simp: ns_fresh_def)
  have "om_find (u_lt L) (n_entries n) u = None" using assms(3) by (simp add: ns_fresh_def)
  then show "ns_fresh L n' v \<longleftrightarrow> ns_fresh L n v \<and> v \<noteq> u"
    using E(1,3,4) unfolding ns_fresh_def by (metis dir_entry.select_convs(1))
qed

lemma create_view:
  assumes "uuid_library L" "ns_inv L n" "ns_view L n ds = Some (d, KDirectory)" "ns_fresh L n u"
    and "ns_create L n d name t u = (status_OK, n')"
  shows "ns_view L n' cs = (if cs = ds @ [name] \<and> ns_view L n cs = None then Some (u, t) else ns_view L n cs)"
proof -
  obtain es where es: "om_find (u_lt L) (n_entries n) d = Some es"
    using ns_view_used(2) [OF assms(2,3)] by auto
  note E = create_entries [OF assms(1) es assms(4,5)]
  have root: "n_root n' = n_root n" by (rule E(1))
  have none: "step_to L n u c = None" for c using assms(4) by (simp add: step_to_def ns_fresh_def)
  have du: "d \<noteq> u" using es assms(4) by (auto simp: ns_fresh_def)
  show ?thesis
  proof (induction cs rule: rev_induct)
    case Nil
    then show ?case by (simp add: root)
  next
    case (snoc c cs)
    show ?case
    proof (cases "cs = ds @ [name] \<and> ns_view L n cs = None")
      case True
      then have "ns_view L n' cs = Some (u, t)" "ns_view L n cs = None" "cs @ [c] \<noteq> ds @ [name]"
        using snoc by auto
      then show ?thesis using none du by (simp add: ns_view_snoc E(5) split: file_type.splits)
    next
      case False
      then have same: "ns_view L n' cs = ns_view L n cs" using snoc by auto
      show ?thesis
      proof (cases "\<exists>q. ns_view L n cs = Some (q, KDirectory)")
        case True
        then obtain q where q: "ns_view L n cs = Some (q, KDirectory)" by blast
        have "q = d \<longleftrightarrow> cs = ds" using ns_view_inj [OF assms(2)] q assms(3) by auto
        then have "(q = d \<and> c = name) = (cs @ [c] = ds @ [name])" by simp
        then show ?thesis unfolding ns_view_snoc same q by (auto simp: E(5))
      next
        case False
        then have "ns_view L n' (cs @ [c]) = None" "ns_view L n (cs @ [c]) = None"
          using same by (auto simp: ns_view_snoc split: option.splits file_type.splits)
        moreover have "cs \<noteq> ds" using False assms(3) by blast
        ultimately show ?thesis by simp
      qed
    qed
  qed
qed

lemma remove_entries:
  assumes "uuid_library L" "om_find (u_lt L) (n_entries n) d = Some es" "ns_remove L n d name = (st, n')"
  shows "st = status_OK" "n_root n' = n_root n" "om_sorted (u_lt L) (n_entries n) \<Longrightarrow> om_sorted (u_lt L) (n_entries n')"
    "is_entry L n' p e \<longleftrightarrow> is_entry L n p e \<and> \<not> (p = d \<and> de_name e = name)"
    "om_find (u_lt L) (n_entries n') p = None \<longleftrightarrow> om_find (u_lt L) (n_entries n) p = None"
    "step_to L n' p c = (if p = d \<and> c = name then None else step_to L n p c)"
proof -
  note cmp = uuid_library.axioms(1) [OF assms(1)]
  have n': "n' = n\<lparr>n_entries := om_set (u_lt L) (n_entries n) d (filter (\<lambda>e. de_name e \<noteq> name) es)\<rparr>"
    and st: "st = status_OK" using assms(2,3) by (auto simp: ns_remove_def)
  note set = comparator.om_find_set [OF cmp]
  show "st = status_OK" "n_root n' = n_root n" using n' st by simp_all
  show "om_sorted (u_lt L) (n_entries n) \<Longrightarrow> om_sorted (u_lt L) (n_entries n')"
    using n' comparator.om_sorted_set [OF cmp] by simp
  show "is_entry L n' p e \<longleftrightarrow> is_entry L n p e \<and> \<not> (p = d \<and> de_name e = name)"
    "om_find (u_lt L) (n_entries n') p = None \<longleftrightarrow> om_find (u_lt L) (n_entries n) p = None"
    using assms(2) by (auto simp: n' is_entry_def set)
  have "find (\<lambda>e. de_name e = c) (filter (\<lambda>e. de_name e \<noteq> name) xs) =
      (if c = name then None else find (\<lambda>e. de_name e = c) xs)" for xs :: "dir_entry list"
    by (induction xs) auto
  then show "step_to L n' p c = (if p = d \<and> c = name then None else step_to L n p c)"
    using assms(2) by (auto simp: n' step_to_def set)
qed

lemma remove_inv:
  assumes "uuid_library L" "om_find (u_lt L) (n_entries n) d = Some es" "ns_remove L n d name = (st, n')" "ns_inv L n"
  shows "ns_inv L n'"
proof -
  note E = remove_entries [OF assms(1-3)] and D = ns_invD [OF assms(4)]
  show ?thesis
    unfolding ns_inv_def E(2,4,5) using D(1) E(3) D(2-4) ns_invD(5) [OF assms(4)] by blast
qed

lemma remove_view:
  assumes "uuid_library L" "ns_inv L n" "ns_view L n ds = Some (d, KDirectory)" "ns_remove L n d name = (st, n')"
  shows "ns_view L n' cs = (if prefix (ds @ [name]) cs then None else ns_view L n cs)"
proof -
  obtain es where es: "om_find (u_lt L) (n_entries n) d = Some es"
    using ns_view_used(2) [OF assms(2,3)] by auto
  note E = remove_entries [OF assms(1) es assms(4)]
  show ?thesis
  proof (induction cs rule: rev_induct)
    case Nil
    then show ?case by (simp add: E(2))
  next
    case (snoc c cs)
    show ?case
    proof (cases "prefix (ds @ [name]) cs")
      case True
      then show ?thesis using snoc by (simp add: ns_view_snoc)
    next
      case False
      then have same: "ns_view L n' cs = ns_view L n cs" using snoc by auto
      have "q = d \<Longrightarrow> cs = ds" if "ns_view L n cs = Some (q, KDirectory)" for q
        using ns_view_inj [OF assms(2)] that assms(3) by blast
      then show ?thesis
        using same assms(3) False by (auto simp: ns_view_snoc E(6) split: option.splits file_type.splits)
    qed
  qed
qed

lemma ns_inv_new: "uuid_library L \<Longrightarrow> ns_inv L (ns_new L)"
  using comparator.lt_irrefl [OF uuid_library.axioms(1), of L]
  by (auto simp: ns_inv_def ns_new_def Let_def om_sorted_def is_entry_def split: if_splits)

lemma namespace_contract:
  assumes "uuid_library L"
  shows "directory_service (ns_inv L) (ns_view L) (ns_fresh L) (ns_lookup L) (ns_create L) (ns_remove L)"
proof (unfold_locales, goal_cases)
  case (1 n path d t i ft)
  then show ?case
    using lookup_loop_status [of L n "n_root n" KDirectory "parse_components path"]
    by (auto simp: ns_lookup_def parse_path_ok ns_view_def split: prod.splits)
next
  case (2 n path i ft)
  then show ?case
    using lookup_loop_status [of L n "n_root n" KDirectory "parse_components path"]
    by (auto simp: ns_lookup_def parse_path_ok ns_view_def split: prod.splits)
next
  case (3 path n i ft)
  then show ?case by (auto simp: ns_lookup_def parse_path_def)
next
  case (4 n)
  then show ?case by simp
next
  case (5 n cs d u name t)
  obtain es where es: "om_find (u_lt L) (n_entries n) d = Some es" using ns_view_used(2) [OF 5(1,2)] by auto
  obtain n' where n': "ns_create L n d name t u = (status_OK, n')" using create_tables [OF assms es 5(3)] by metis
  show ?case
    using create_inv [OF assms es 5(3,1) n'] create_view [OF assms 5(1,2,3) n'] n' by (auto simp: fun_eq_iff)
next
  case (6 n cs d name)
  obtain es where es: "om_find (u_lt L) (n_entries n) d = Some es" using ns_view_used(2) [OF 6(1,2)] by auto
  obtain st n' where n': "ns_remove L n d name = (st, n')" by (cases "ns_remove L n d name")
  show ?case
    using remove_inv [OF assms es n' 6(1)] remove_view [OF assms 6 n'] remove_entries(1) [OF assms es n'] n' by auto
qed

interpretation hexns: directory_service "ns_inv hex_lib" "ns_view hex_lib" "ns_fresh hex_lib"
  "ns_lookup hex_lib" "ns_create hex_lib" "ns_remove hex_lib"
  by (rule namespace_contract) (rule hexlib.uuid_library_axioms)

section \<open>Parsing and joining paths\<close>

definition join_path :: "string list \<Rightarrow> string" where
  "join_path cs = concat (map (\<lambda>c. CHR ''/'' # c) cs)"

lemma parse_components_word:
  assumes "c \<noteq> []" "CHR ''/'' \<notin> set c" "rest = [] \<or> hd rest = CHR ''/''"
  shows "parse_components (c @ rest) = c # parse_components rest"
proof -
  obtain x xs where c: "c = x # xs" using assms(1) by (cases c) auto
  have "takeWhile (\<lambda>x. x \<noteq> CHR ''/'') rest = []" "dropWhile (\<lambda>x. x \<noteq> CHR ''/'') rest = rest"
    using assms(3) by (cases rest; simp)+
  moreover have "\<forall>x\<in>set c. x \<noteq> CHR ''/''" using assms(2) by blast
  ultimately have "takeWhile (\<lambda>x. x \<noteq> CHR ''/'') (c @ rest) = c" "dropWhile (\<lambda>x. x \<noteq> CHR ''/'') (c @ rest) = rest"
    by (simp_all add: takeWhile_append2 dropWhile_append2)
  moreover have "x \<noteq> CHR ''/''" using assms(2) by (auto simp: c)
  ultimately show ?thesis by (simp add: c)
qed

lemma parse_components_slashes: "parse_components (replicate k (CHR ''/'') @ rest) = parse_components rest"
  by (induction k) auto

lemma parse_components_set: "c \<in> set (parse_components s) \<Longrightarrow> c \<noteq> [] \<and> CHR ''/'' \<notin> set c"
  by (induction s rule: parse_components.induct) (auto split: if_splits dest: set_takeWhileD)

lemma join_path_hd: "join_path cs = [] \<or> hd (join_path cs) = CHR ''/''"
  by (cases cs) (auto simp: join_path_def)

lemma parse_join:
  assumes "\<forall>c\<in>set cs. c \<noteq> [] \<and> CHR ''/'' \<notin> set c"
  shows "parse_components (join_path cs) = cs"
  using assms
proof (induction cs)
  case Nil
  then show ?case by (simp add: join_path_def)
next
  case (Cons c cs)
  then have "parse_components (c @ join_path cs) = c # cs"
    using parse_components_word [OF _ _ join_path_hd] by simp
  then show ?case by (simp add: join_path_def)
qed

section \<open>Properties\<close>

text \<open>
  \<^verbatim>\<open>parse_path\<close> splits a path at its slashes: it appends to the list exactly the components
  \<open>cs\<close> of a path, none of them empty or with a slash in it, however many slashes separate them and
  follow the last one, and it refuses a path that does not begin with a slash.
\<close>

theorem parse_path_splits:
  assumes "\<forall>c\<in>set cs. c \<noteq> [] \<and> CHR ''/'' \<notin> set c" "length ks = length cs" "\<forall>k\<in>set ks. 0 < k"
    and "path = concat (map2 (\<lambda>k c. replicate k (CHR ''/'') @ c) ks cs) @ replicate j (CHR ''/'')"
  shows "parse_path path components =
    (if path = [] then (Status EINVAL ''Invalid path'', components) else (status_OK, components @ cs))"
proof -
  have "parse_components (concat (map2 (\<lambda>k c. replicate k (CHR ''/'') @ c) ks cs) @ replicate j (CHR ''/'')) = cs"
    using assms(2,1,3)
  proof (induction ks cs rule: list_induct2)
    case Nil
    then show ?case using parse_components_slashes [of j "[]"] by simp
  next
    case (Cons k ks c cs)
    let ?r = "concat (map2 (\<lambda>k c. replicate k (CHR ''/'') @ c) ks cs) @ replicate j (CHR ''/'')"
    have "?r = [] \<or> hd ?r = CHR ''/''"
    proof (cases ks)
      case Nil
      then show ?thesis by (cases j) auto
    next
      case (Cons k' ks')
      then show ?thesis using Cons.prems Cons.hyps by (cases cs; cases k') auto
    qed
    then have "parse_components (c @ ?r) = c # cs"
      using parse_components_word Cons by simp
    then show ?case by (simp add: parse_components_slashes)
  qed
  moreover have "path \<noteq> [] \<Longrightarrow> hd path = CHR ''/''"
    using assms by (cases ks; cases cs; cases j; cases "hd ks") auto
  ultimately show ?thesis using assms(4) by (simp add: parse_path_def)
qed

theorem parse_path_splits_witness:
  "parse_path ''/a//bc/'' [] = (status_OK, [''a'', ''bc''])"
  using parse_path_splits [of "[''a'', ''bc'']" "[1, 2]" "''/a//bc/''" 1 "[]"] by (simp add: numeral_eq_Suc)

end
