(* ===== verification/Deva.thy ===== *)
theory Deva
  imports Namespace
begin

text \<open>
  The state machine of a metadata server: \<^verbatim>\<open>src/deva/deva.h\<close> and \<^verbatim>\<open>src/deva/deva.cc\<close>, with the
  messages of \<^verbatim>\<open>protocols/pain/proto/deva_store.proto\<close> and the two operations of
  \<^verbatim>\<open>std::filesystem::path\<close> the code uses. A request of the log is a value of \<open>deva_request\<close>; the
  six request types whose handlers only write a log line carry no data.
\<close>

section \<open>Messages\<close>

datatype proto_file_type = FILE_TYPE_NONE | FILE_TYPE_FILE | FILE_TYPE_DIRECTORY

record file_info =
  fi_id :: uuid
  fi_type :: proto_file_type
  fi_size :: u64
  fi_atime :: u64
  fi_mtime :: u64
  fi_ctime :: u64
  fi_mode :: u32
  fi_uid :: u32
  fi_gid :: u32

record create_request =
  cr_path :: string
  cr_id :: uuid
  cr_atime :: u64
  cr_mtime :: u64
  cr_ctime :: u64
  cr_mode :: u32
  cr_uid :: u32
  cr_gid :: u32

datatype deva_request =
    RCreateFile create_request
  | RCreateDir create_request
  | RRemoveFile
  | RSealFile
  | RCreateChunk
  | RCheckInChunk
  | RSealChunk
  | RSealAndNewChunk

section \<open>Paths\<close>

text \<open>\<^verbatim>\<open>path::filename\<close>: what follows the last slash.\<close>

definition path_filename :: "string \<Rightarrow> string" where
  "path_filename p = rev (takeWhile (\<lambda>c. c \<noteq> CHR ''/'') (rev p))"

text \<open>
  \<^verbatim>\<open>path::parent_path\<close>: the path itself when it has only slashes, otherwise what comes before the
  last element and the slashes in front of it, except that the slashes of the root are kept.
\<close>

definition path_parent :: "string \<Rightarrow> string" where
  "path_parent p =
     (if \<forall>c\<in>set p. c = CHR ''/'' then p
      else let q = rev (dropWhile (\<lambda>c. c \<noteq> CHR ''/'') (rev p));
               r = rev (dropWhile (\<lambda>c. c = CHR ''/'') (rev q))
           in if r = [] then q else r)"

section \<open>The state machine\<close>

record deva =
  d_namespace :: namespace
  d_file_infos :: "uuid \<Rightarrow> file_info option"

definition deva_new :: "uuid_lib \<Rightarrow> deva" where
  "deva_new L = \<lparr>d_namespace = ns_new L, d_file_infos = (\<lambda>_. None)\<rparr>"

text \<open>The UUID a local variable has before it is assigned does not matter: \<open>UUID 0 0\<close>.\<close>

definition deva_create :: "uuid_lib \<Rightarrow> deva \<Rightarrow> string \<Rightarrow> uuid \<Rightarrow> file_type \<Rightarrow> status \<times> deva" where
  "deva_create L d path fid type =
     (let dir = path_parent path; filename = path_filename path in
      case ns_lookup L (d_namespace d) (c_str dir) (UUID 0 0) KFile of (st, parent_dir_uuid, file_type) \<Rightarrow>
        if \<not> st_ok st then (st, d)
        else if file_type \<noteq> KDirectory then (Status EINVAL (c_str dir @ '' is not a directory''), d)
        else case ns_create L (d_namespace d) parent_dir_uuid filename type (UUID (uuid_high fid) (uuid_low fid)) of
               (st, n) \<Rightarrow> if \<not> st_ok st then (st, d\<lparr>d_namespace := n\<rparr>)
                          else (status_OK, d\<lparr>d_namespace := n\<rparr>))"

definition make_file_info :: "create_request \<Rightarrow> proto_file_type \<Rightarrow> file_info" where
  "make_file_info rq t = \<lparr>fi_id = cr_id rq, fi_type = t, fi_size = 0, fi_atime = cr_atime rq,
     fi_mtime = cr_mtime rq, fi_ctime = cr_ctime rq, fi_mode = cr_mode rq, fi_uid = cr_uid rq, fi_gid = cr_gid rq\<rparr>"

text \<open>A handler returns its status, the file info of the response and the new state.\<close>

definition deva_CreateFile ::
  "uuid_lib \<Rightarrow> deva \<Rightarrow> create_request \<Rightarrow> file_info option \<Rightarrow> status \<times> file_info option \<times> deva" where
  "deva_CreateFile L d rq resp =
     (case deva_create L d (cr_path rq) (cr_id rq) KFile of (st, d') \<Rightarrow>
        if \<not> st_ok st then (st, resp, d')
        else let info = make_file_info rq FILE_TYPE_FILE
             in (status_OK, Some info, d'\<lparr>d_file_infos := (d_file_infos d')(cr_id rq \<mapsto> info)\<rparr>))"

definition deva_CreateDir ::
  "uuid_lib \<Rightarrow> deva \<Rightarrow> create_request \<Rightarrow> file_info option \<Rightarrow> status \<times> file_info option \<times> deva" where
  "deva_CreateDir L d rq resp =
     (case deva_create L d (cr_path rq) (cr_id rq) KDirectory of (st, d') \<Rightarrow>
        if \<not> st_ok st then (st, resp, d')
        else let info = make_file_info rq FILE_TYPE_DIRECTORY
             in (status_OK, Some info, d'\<lparr>d_file_infos := (d_file_infos d')(cr_id rq \<mapsto> info)\<rparr>))"

definition deva_RemoveFile :: "deva \<Rightarrow> status \<times> deva" where
  "deva_RemoveFile d = (status_OK, d)"

definition deva_SealFile :: "deva \<Rightarrow> status \<times> deva" where
  "deva_SealFile d = (status_OK, d)"

definition deva_CreateChunk :: "deva \<Rightarrow> status \<times> deva" where
  "deva_CreateChunk d = (status_OK, d)"

definition deva_CheckInChunk :: "deva \<Rightarrow> status \<times> deva" where
  "deva_CheckInChunk d = (status_OK, d)"

definition deva_SealChunk :: "deva \<Rightarrow> status \<times> deva" where
  "deva_SealChunk d = (status_OK, d)"

definition deva_SealAndNewChunk :: "deva \<Rightarrow> status \<times> deva" where
  "deva_SealAndNewChunk d = (status_OK, d)"

text \<open>The overloads \<^verbatim>\<open>process\<close>, chosen by the type of the request.\<close>

fun deva_process ::
  "uuid_lib \<Rightarrow> deva \<Rightarrow> deva_request \<Rightarrow> file_info option \<Rightarrow> status \<times> file_info option \<times> deva" where
  "deva_process L d (RCreateFile rq) resp = deva_CreateFile L d rq resp"
| "deva_process L d (RCreateDir rq) resp = deva_CreateDir L d rq resp"
| "deva_process L d RRemoveFile resp = (case deva_RemoveFile d of (st, d') \<Rightarrow> (st, resp, d'))"
| "deva_process L d RSealFile resp = (case deva_SealFile d of (st, d') \<Rightarrow> (st, resp, d'))"
| "deva_process L d RCreateChunk resp = (case deva_CreateChunk d of (st, d') \<Rightarrow> (st, resp, d'))"
| "deva_process L d RCheckInChunk resp = (case deva_CheckInChunk d of (st, d') \<Rightarrow> (st, resp, d'))"
| "deva_process L d RSealChunk resp = (case deva_SealChunk d of (st, d') \<Rightarrow> (st, resp, d'))"
| "deva_process L d RSealAndNewChunk resp = (case deva_SealAndNewChunk d of (st, d') \<Rightarrow> (st, resp, d'))"

definition deva_save_snapshot :: "deva \<Rightarrow> string \<Rightarrow> string list \<Rightarrow> status \<times> string list" where
  "deva_save_snapshot d path files = (status_OK, files)"

definition deva_load_snapshot :: "deva \<Rightarrow> string \<Rightarrow> status \<times> deva" where
  "deva_load_snapshot d path = (status_OK, d)"

section \<open>Lemmas on paths\<close>

lemma takeWhile_stop: "takeWhile (\<lambda>x. x \<noteq> a) (xs @ a # ys) = takeWhile (\<lambda>x. x \<noteq> a) xs"
  by (induction xs) auto

lemma dropWhile_stop: "dropWhile (\<lambda>x. x \<noteq> a) (xs @ a # ys) = dropWhile (\<lambda>x. x \<noteq> a) xs @ a # ys"
  by (induction xs) auto

lemma parse_components_append:
  "parse_components (q @ CHR ''/'' # r) = parse_components q @ parse_components r"
proof (induction q rule: parse_components.induct)
  case (2 c cs)
  then show ?case
    using takeWhile_stop [of "CHR ''/''" "c # cs" r] dropWhile_stop [of "CHR ''/''" "c # cs" r] by auto
qed simp

lemma parse_components_strip:
  "parse_components (rev (dropWhile (\<lambda>c. c = CHR ''/'') (rev q))) = parse_components q"
proof (induction q rule: rev_induct)
  case (snoc c q)
  then show ?case using parse_components_append [of q "[]"] by auto
qed simp

text \<open>An absolute path that does not end in a slash is its parent and its filename.\<close>

lemma path_split:
  assumes "p \<noteq> []" "hd p = CHR ''/''" "last p \<noteq> CHR ''/''"
  shows "path_filename p \<noteq> []" "CHR ''/'' \<notin> set (path_filename p)"
    "path_parent p \<noteq> []" "hd (path_parent p) = CHR ''/''"
    "parse_components p = parse_components (path_parent p) @ [path_filename p]"
proof -
  define f where "f = path_filename p"
  define q where "q = rev (dropWhile (\<lambda>c. c \<noteq> CHR ''/'') (rev p))"
  have p: "p = q @ f"
    unfolding q_def f_def path_filename_def by (metis rev_append rev_rev_ident takeWhile_dropWhile_id)
  show f: "path_filename p \<noteq> []" "CHR ''/'' \<notin> set (path_filename p)"
    using assms by (auto simp: path_filename_def takeWhile_eq_Nil_iff hd_rev dest: set_takeWhileD)
  have "CHR ''/'' \<in> set p" using assms(1,2) hd_in_set by metis
  then have "q \<noteq> []" "last q = CHR ''/''"
    using hd_dropWhile [of "\<lambda>c. c \<noteq> CHR ''/''" "rev p"] by (auto simp: q_def dropWhile_eq_Nil_conv last_rev)
  then obtain q' where q: "q = q' @ [CHR ''/'']" by (metis append_butlast_last_id)
  define r where "r = rev (dropWhile (\<lambda>c. c = CHR ''/'') (rev q))"
  have "\<not> (\<forall>c\<in>set p. c = CHR ''/'')" using assms(1,3) last_in_set by blast
  then have parent: "path_parent p = (if r = [] then q else r)"
    unfolding path_parent_def Let_def q_def [symmetric] r_def by (simp only: if_False)
  have "parse_components (path_parent p) = parse_components q"
    using parse_components_strip [of q] unfolding parent r_def [symmetric] by simp
  also have "parse_components q = parse_components q'" using parse_components_append [of q' "[]"] q by simp
  finally have "parse_components (path_parent p) @ [f] = parse_components q' @ parse_components f"
    using parse_components_word [of f "[]"] f by (simp add: f_def)
  then show "parse_components p = parse_components (path_parent p) @ [path_filename p]"
    using parse_components_append [of q' f] unfolding f_def [symmetric] by (simp add: p q)
  have r: "\<exists>s. q = r @ s" unfolding r_def by (metis rev_append rev_rev_ident takeWhile_dropWhile_id)
  have hq: "hd q = CHR ''/''" using \<open>q \<noteq> []\<close> p assms(2) by simp
  have "r \<noteq> [] \<Longrightarrow> hd r = CHR ''/''" using r hq by auto
  then show "path_parent p \<noteq> []" "hd (path_parent p) = CHR ''/''"
    using hq \<open>q \<noteq> []\<close> unfolding parent by auto
qed

section \<open>Applying a log\<close>

text \<open>The requests of a log, one after the other, each with an empty response.\<close>

fun deva_apply :: "uuid_lib \<Rightarrow> deva \<Rightarrow> deva_request list \<Rightarrow> deva" where
  "deva_apply L d [] = d"
| "deva_apply L d (rq # rqs) = deva_apply L (snd (snd (deva_process L d rq None))) rqs"

fun req_ids :: "deva_request \<Rightarrow> uuid list" where
  "req_ids (RCreateFile rq) = [cr_id rq]"
| "req_ids (RCreateDir rq) = [cr_id rq]"
| "req_ids _ = []"

fun proto_type :: "file_type \<Rightarrow> proto_file_type" where
  "proto_type KFile = FILE_TYPE_FILE"
| "proto_type KDirectory = FILE_TYPE_DIRECTORY"

abbreviation deva_view :: "uuid_lib \<Rightarrow> deva \<Rightarrow> string list \<Rightarrow> (uuid \<times> file_type) option" where
  "deva_view L d \<equiv> ns_view L (d_namespace d)"

text \<open>The tree is well-formed and every path that resolves has the file info of its inode.\<close>

definition deva_inv :: "uuid_lib \<Rightarrow> deva \<Rightarrow> bool" where
  "deva_inv L d \<longleftrightarrow> ns_inv L (d_namespace d) \<and> (\<forall>cs u t. cs \<noteq> [] \<longrightarrow> deva_view L d cs = Some (u, t) \<longrightarrow>
     (\<exists>info. d_file_infos d u = Some info \<and> fi_id info = u \<and> fi_type info = proto_type t))"

section \<open>Lemmas on the state machine\<close>

lemma lookup_casesE:
  assumes "uuid_library L" "ns_inv L n" "ns_lookup L n path i ft = (st, u, t)"
  obtains "\<not> st_ok st" "path = [] \<or> hd path \<noteq> CHR ''/'' \<or> ns_view L n (parse_components path) = None"
  | "st = status_OK" "path \<noteq> []" "hd path = CHR ''/''" "ns_view L n (parse_components path) = Some (u, t)"
proof -
  note C = namespace_contract [OF assms(1)]
  consider "path = [] \<or> hd path \<noteq> CHR ''/''" | "path \<noteq> []" "hd path = CHR ''/''" "ns_view L n (parse_components path) = None"
    | x y where "path \<noteq> []" "hd path = CHR ''/''" "ns_view L n (parse_components path) = Some (x, y)" by fastforce
  then show ?thesis
  proof cases
    case 1
    then show ?thesis using directory_service.lookup_invalid [OF C 1, of n i ft] assms(3) that(1) by (auto simp: st_ok_def)
  next
    case 2
    then show ?thesis using directory_service.lookup_missing [OF C assms(2) 2, of i ft] assms(3) that(1) by (simp add: st_ok_def)
  next
    case 3
    then show ?thesis using directory_service.lookup_ok [OF C assms(2) 3, of i ft] assms(3) that(2) by simp
  qed
qed

text \<open>The effect of \<^verbatim>\<open>Deva::create\<close>: nothing, or one new entry in an existing directory.\<close>

lemma deva_create_cases:
  assumes "uuid_library L" "ns_inv L (d_namespace d)" "ns_fresh L (d_namespace d) u"
  obtains st where "deva_create L d p u t = (st, d)" "\<not> st_ok st"
  | cs dir n' where "deva_create L d p u t = (status_OK, d\<lparr>d_namespace := n'\<rparr>)"
      "deva_view L d cs = Some (dir, KDirectory)" "cs = parse_components (c_str (path_parent p))" "ns_inv L n'"
      "ns_view L n' = (let ys = cs @ [path_filename p] in
         if deva_view L d ys = None then (deva_view L d)(ys \<mapsto> (u, t)) else deva_view L d)"
      "\<And>v. ns_fresh L n' v \<longleftrightarrow> ns_fresh L (d_namespace d) v \<and> v \<noteq> u"
proof -
  let ?n = "d_namespace d" and ?dir = "c_str (path_parent p)"
  obtain st dir ft where lk: "ns_lookup L ?n ?dir (UUID 0 0) KFile = (st, dir, ft)" by (metis prod_cases3)
  from assms(1,2) lk show ?thesis
  proof (cases rule: lookup_casesE)
    case 1
    then show ?thesis using lk that(1) by (simp add: deva_create_def Let_def)
  next
    case 2
    show ?thesis
    proof (cases ft)
      case KFile
      then show ?thesis using 2 lk that(1) by (simp add: deva_create_def Let_def)
    next
      case KDirectory
      then have v: "ns_view L ?n (parse_components ?dir) = Some (dir, KDirectory)" using 2 by simp
      from directory_service.create_ok [OF namespace_contract [OF assms(1)] assms(2) v assms(3), of "path_filename p" t]
      obtain n' where n': "ns_create L ?n dir (path_filename p) t u = (status_OK, n')" "ns_inv L n'"
        "ns_view L n' = (if ns_view L ?n (parse_components ?dir @ [path_filename p]) = None
           then (ns_view L ?n)(parse_components ?dir @ [path_filename p] \<mapsto> (u, t)) else ns_view L ?n)"
        "\<forall>w. ns_fresh L n' w \<longleftrightarrow> ns_fresh L ?n w \<and> w \<noteq> u" by metis
      show ?thesis
        by (rule that(2) [OF _ v refl n'(2)]) (use 2 lk n' KDirectory in \<open>auto simp: deva_create_def Let_def\<close>)
    qed
  qed
qed

lemma set_path_parent: "set (path_parent p) \<subseteq> set p"
proof -
  define q where "q = rev (dropWhile (\<lambda>c. c \<noteq> CHR ''/'') (rev p))"
  define r where "r = rev (dropWhile (\<lambda>c. c = CHR ''/'') (rev q))"
  have "set q \<subseteq> set p" unfolding q_def by (auto dest: set_dropWhileD)
  moreover have "set r \<subseteq> set q" unfolding r_def by (auto dest: set_dropWhileD)
  moreover have "path_parent p = p \<or> path_parent p = q \<or> path_parent p = r"
    unfolding path_parent_def Let_def q_def [symmetric] r_def [symmetric] by metis
  ultimately show ?thesis by (metis order_refl order_trans)
qed

lemma c_str_parent: "CHR 0x00 \<notin> set p \<Longrightarrow> c_str (path_parent p) = path_parent p"
  using set_path_parent [of p] by (auto simp: c_str_def takeWhile_eq_all_conv)

lemma deva_create_parent:
  assumes "uuid_library L" "ns_inv L (d_namespace d)" "ns_fresh L (d_namespace d) u"
    and "path_parent p \<noteq> []" "hd (path_parent p) = CHR ''/''" "c_str (path_parent p) = path_parent p"
    and "deva_view L d (parse_components (path_parent p)) = Some (dir, KDirectory)"
  shows "\<exists>d'. deva_create L d p u t = (status_OK, d')"
  using directory_service.lookup_ok [OF namespace_contract [OF assms(1)] assms(2,4,5,7)]
    directory_service.create_ok [OF namespace_contract [OF assms(1)] assms(2,7,3), of "path_filename p" t] assms(6)
  by (auto simp: deva_create_def Let_def)

text \<open>The two handlers that create entries are the same but for the type.\<close>

definition create_handler ::
  "uuid_lib \<Rightarrow> file_type \<Rightarrow> deva \<Rightarrow> create_request \<Rightarrow> file_info option \<Rightarrow> status \<times> file_info option \<times> deva" where
  "create_handler L t d rq resp =
     (case deva_create L d (cr_path rq) (cr_id rq) t of (st, d') \<Rightarrow>
        if \<not> st_ok st then (st, resp, d')
        else (status_OK, Some (make_file_info rq (proto_type t)),
              d'\<lparr>d_file_infos := (d_file_infos d')(cr_id rq \<mapsto> make_file_info rq (proto_type t))\<rparr>))"

lemma create_handlers:
  "deva_CreateFile L = create_handler L KFile" "deva_CreateDir L = create_handler L KDirectory"
  by (simp_all add: fun_eq_iff deva_CreateFile_def deva_CreateDir_def create_handler_def Let_def split: prod.splits)

lemma create_on_path:
  assumes "uuid_library L" "ns_inv L (d_namespace d)" "ns_fresh L (d_namespace d) (cr_id rq)"
    and "cr_path rq = p" "p \<noteq> []" "hd p = CHR ''/''" "last p \<noteq> CHR ''/''" "CHR 0x00 \<notin> set p"
    and "deva_view L d (butlast (parse_components p)) = Some (dir, KDirectory)"
  shows "\<exists>d'. create_handler L t d rq None = (status_OK, Some (make_file_info rq (proto_type t)), d') \<and>
    deva_view L d' = (if deva_view L d (parse_components p) = None
      then (deva_view L d)(parse_components p \<mapsto> (cr_id rq, t)) else deva_view L d) \<and>
    d_file_infos d' = (d_file_infos d)(cr_id rq \<mapsto> make_file_info rq (proto_type t))"
proof -
  note S = path_split [OF assms(5-7)] and C = c_str_parent [OF assms(8)]
  have par: "deva_view L d (parse_components (path_parent p)) = Some (dir, KDirectory)" using assms(9) S(5) by simp
  from deva_create_parent [OF assms(1-3) S(3,4) C par] obtain d' where ok: "deva_create L d p (cr_id rq) t = (status_OK, d')"
    by blast
  from assms(1-3) have "\<exists>n'. d' = d\<lparr>d_namespace := n'\<rparr> \<and> ns_view L n' = (if deva_view L d (parse_components p) = None
      then (deva_view L d)(parse_components p \<mapsto> (cr_id rq, t)) else deva_view L d)"
  proof (cases rule: deva_create_cases [where p = p and t = t])
    case (1 st)
    then show ?thesis using ok by simp
  next
    case (2 cs dir' n')
    then show ?thesis using ok S(5) C by (auto simp: Let_def)
  qed
  then show ?thesis using ok assms(4) by (auto simp: create_handler_def)
qed

lemma create_handler_inv:
  assumes "uuid_library L" "deva_inv L d" "ns_fresh L (d_namespace d) (cr_id rq)"
    and "create_handler L t d rq resp = (st, resp', d')"
  shows "deva_inv L d'" "deva_view L d \<subseteq>\<^sub>m deva_view L d'"
    "ns_fresh L (d_namespace d) v \<Longrightarrow> v \<noteq> cr_id rq \<Longrightarrow> ns_fresh L (d_namespace d') v"
proof -
  let ?u = "cr_id rq"
  have inv: "ns_inv L (d_namespace d)" using assms(2) by (simp add: deva_inv_def)
  have used: "u \<noteq> ?u" if "deva_view L d cs = Some (u, t')" for cs u t'
    using ns_view_used(1) [OF inv that] assms(3) by blast
  from assms(1) inv assms(3) have "deva_inv L d' \<and> deva_view L d \<subseteq>\<^sub>m deva_view L d' \<and>
    (ns_fresh L (d_namespace d) v \<longrightarrow> v \<noteq> ?u \<longrightarrow> ns_fresh L (d_namespace d') v)"
  proof (cases rule: deva_create_cases [where p = "cr_path rq" and t = t])
    case (1 st')
    then show ?thesis using assms(2,4) by (auto simp: create_handler_def)
  next
    case (2 cs dir n')
    have d': "d' = d\<lparr>d_namespace := n', d_file_infos := (d_file_infos d)(?u \<mapsto> make_file_info rq (proto_type t))\<rparr>"
      using assms(4) 2(1) by (auto simp: create_handler_def)
    have "deva_view L d xs = Some (u, t') \<or> u = ?u \<and> t' = t" if "ns_view L n' xs = Some (u, t')" for xs u t'
      using that 2(5) by (auto simp: Let_def split: if_splits)
    then have "deva_inv L d'"
      using 2(4) assms(2) used by (auto simp: deva_inv_def d' make_file_info_def) blast+
    moreover have "deva_view L d \<subseteq>\<^sub>m ns_view L n'"
      using 2(5) by (auto simp: Let_def map_le_def dom_def)
    ultimately show ?thesis using 2(6) by (simp add: d')
  qed
  then show "deva_inv L d'" "deva_view L d \<subseteq>\<^sub>m deva_view L d'"
    "ns_fresh L (d_namespace d) v \<Longrightarrow> v \<noteq> ?u \<Longrightarrow> ns_fresh L (d_namespace d') v" by auto
qed

lemma process_inv:
  assumes "uuid_library L" "deva_inv L d" "\<forall>u\<in>set (req_ids rq). ns_fresh L (d_namespace d) u"
    and "deva_process L d rq resp = (st, resp', d')"
  shows "deva_inv L d'" "deva_view L d \<subseteq>\<^sub>m deva_view L d'"
    "ns_fresh L (d_namespace d) v \<Longrightarrow> v \<notin> set (req_ids rq) \<Longrightarrow> ns_fresh L (d_namespace d') v"
  using assms(2-4) create_handler_inv [OF assms(1,2)]
  by (cases rq; force simp: create_handlers deva_RemoveFile_def deva_SealFile_def deva_CreateChunk_def
      deva_CheckInChunk_def deva_SealChunk_def deva_SealAndNewChunk_def)+

lemma ns_new_no_entry: "uuid_library L \<Longrightarrow> \<not> is_entry L (ns_new L) p e"
  by (auto simp: is_entry_def ns_new_def Let_def comparator.om_find_set [OF uuid_library.axioms(1)] split: if_splits)

lemma deva_view_new:
  assumes "uuid_library L" "cs \<noteq> []"
  shows "deva_view L (deva_new L) cs = None"
proof (rule ccontr)
  assume "deva_view L (deva_new L) cs \<noteq> None"
  then obtain q c u t where "step_to L (ns_new L) q c = Some (u, t)"
    using assms(2) ns_view_snocE by (cases cs rule: rev_cases) (auto simp: deva_new_def, metis)
  then show False using step_to_entry ns_new_no_entry [OF assms(1)] by blast
qed

lemma deva_inv_new: "uuid_library L \<Longrightarrow> deva_inv L (deva_new L)"
  using ns_inv_new [of L] deva_view_new [of L] by (simp add: deva_inv_def) (simp add: deva_new_def)

text \<open>The UUIDs of a log of requests are new: pairwise different, and different from the root's.\<close>

definition fresh_log :: "uuid_lib \<Rightarrow> deva \<Rightarrow> deva_request list \<Rightarrow> bool" where
  "fresh_log L d rqs \<longleftrightarrow> distinct (concat (map req_ids rqs)) \<and>
     (\<forall>u\<in>set (concat (map req_ids rqs)). ns_fresh L (d_namespace d) u)"

lemma fresh_log_Cons:
  assumes "uuid_library L" "deva_inv L d" "fresh_log L d (rq # rqs)"
  shows "fresh_log L (snd (snd (deva_process L d rq resp))) rqs"
proof -
  have fr: "\<forall>u\<in>set (req_ids rq). ns_fresh L (d_namespace d) u" using assms(3) by (auto simp: fresh_log_def)
  obtain st resp' d' where p: "deva_process L d rq resp = (st, resp', d')" by (metis prod_cases3)
  have "ns_fresh L (d_namespace d') v" if "v \<in> set (concat (map req_ids rqs))" for v
    using process_inv(3) [OF assms(1,2) fr p, of v] assms(3) that by (auto simp: fresh_log_def)
  then show ?thesis using assms(3) p by (simp add: fresh_log_def)
qed

lemma apply_inv:
  assumes "uuid_library L" "deva_inv L d" "fresh_log L d rqs"
  shows "deva_inv L (deva_apply L d rqs) \<and> deva_view L d \<subseteq>\<^sub>m deva_view L (deva_apply L d rqs)"
  using assms(2,3)
proof (induction rqs arbitrary: d)
  case Nil
  then show ?case by simp
next
  case (Cons rq rqs)
  obtain st resp' d' where p: "deva_process L d rq None = (st, resp', d')" by (metis prod_cases3)
  have fr: "\<forall>u\<in>set (req_ids rq). ns_fresh L (d_namespace d) u" using Cons.prems(2) by (auto simp: fresh_log_def)
  have "fresh_log L d' rqs" using fresh_log_Cons [OF assms(1) Cons.prems, of None] p by simp
  then show ?case
    using Cons.IH [of d'] process_inv(1,2) [OF assms(1) Cons.prems(1) fr p] map_le_trans by (auto simp: p)
qed

lemma apply_fresh:
  assumes "uuid_library L" "deva_inv L d" "fresh_log L d rqs"
    and "ns_fresh L (d_namespace d) v" "v \<notin> set (concat (map req_ids rqs))"
  shows "ns_fresh L (d_namespace (deva_apply L d rqs)) v"
  using assms(2-5)
proof (induction rqs arbitrary: d)
  case (Cons rq rqs)
  obtain st resp' d' where p: "deva_process L d rq None = (st, resp', d')" by (metis prod_cases3)
  have fr: "\<forall>u\<in>set (req_ids rq). ns_fresh L (d_namespace d) u" using Cons.prems(2) by (auto simp: fresh_log_def)
  have "fresh_log L d' rqs" using fresh_log_Cons [OF assms(1) Cons.prems(1,2), of None] p by simp
  then show ?case
    using Cons.IH [of d'] process_inv(1,3) [OF assms(1) Cons.prems(1) fr p] Cons.prems(3,4) by (simp add: p)
qed simp

section \<open>A concrete log\<close>

definition ex_req :: "string \<Rightarrow> uuid \<Rightarrow> create_request" where
  "ex_req p u = \<lparr>cr_path = p, cr_id = u, cr_atime = 1, cr_mtime = 2, cr_ctime = 3, cr_mode = 438, cr_uid = 0, cr_gid = 0\<rparr>"

definition ex_log :: "deva_request list" where
  "ex_log = [RCreateDir (ex_req ''/a'' (UUID 0 1)), RCreateFile (ex_req ''/a/b'' (UUID 0 2))]"

lemma hex_root: "from_str_or_die hex_lib nil_uuid_str = UUID 0 0"
  by code_simp

lemma ex_fresh_new: "ns_fresh hex_lib (d_namespace (deva_new hex_lib)) u \<longleftrightarrow> u \<noteq> UUID 0 0"
  using ns_new_no_entry [OF hexlib.uuid_library_axioms]
  by (auto simp: ns_fresh_def deva_new_def)
    (use hexlib.cmp.lt_total [of u "UUID 0 0"] in \<open>auto simp: ns_new_def hex_root Let_def hexlib.cmp.lt_irrefl\<close>)

lemma ex_log_fresh: "fresh_log hex_lib (deva_new hex_lib) ex_log"
  by (simp add: fresh_log_def ex_log_def ex_req_def ex_fresh_new)

section \<open>Properties\<close>

text \<open>
  C7: after any log of requests with new UUIDs, every path that resolves has the file info of its
  inode, with the right type, and no other path leads to the same inode.
\<close>

theorem deva_log_consistent:
  assumes "uuid_library L" "fresh_log L (deva_new L) rqs" "d = deva_apply L (deva_new L) rqs"
    and "cs \<noteq> []" "ns_view L (d_namespace d) cs = Some (u, t)"
  shows "(\<exists>info. d_file_infos d u = Some info \<and> fi_id info = u \<and> fi_type info = proto_type t) \<and>
    (\<forall>cs' t'. ns_view L (d_namespace d) cs' = Some (u, t') \<longrightarrow> cs' = cs)"
proof -
  have inv: "deva_inv L d" using apply_inv [OF assms(1) deva_inv_new [OF assms(1)] assms(2)] assms(3) by simp
  then have "ns_inv L (d_namespace d)" by (simp add: deva_inv_def)
  then show ?thesis using inv assms(4,5) ns_view_inj unfolding deva_inv_def by blast
qed

theorem deva_log_consistent_witness:
  "fresh_log hex_lib (deva_new hex_lib) ex_log \<and>
   (\<exists>info. d_file_infos (deva_apply hex_lib (deva_new hex_lib) ex_log) (UUID 0 2) = Some info \<and>
      fi_id info = UUID 0 2 \<and> fi_type info = FILE_TYPE_FILE)"
proof -
  have "ns_view hex_lib (d_namespace (deva_apply hex_lib (deva_new hex_lib) ex_log)) [''a'', ''b''] = Some (UUID 0 2, KFile)"
    by code_simp
  from deva_log_consistent [OF hexlib.uuid_library_axioms ex_log_fresh refl _ this] ex_log_fresh
  show ?thesis by simp
qed

text \<open>
  C6: creating a file or a directory at a path whose parent is a directory succeeds and adds
  exactly that path, with the type and the attributes of the request; every other path resolves as before.
\<close>

theorem deva_create_visible:
  assumes "uuid_library L" "fresh_log L (deva_new L) rqs" "d = deva_apply L (deva_new L) rqs"
    and "ns_fresh L (d_namespace d) (cr_id rq)"
    and "cr_path rq = p" "p \<noteq> []" "hd p = CHR ''/''" "last p \<noteq> CHR ''/''" "CHR 0x00 \<notin> set p"
    and "ns_view L (d_namespace d) (butlast (parse_components p)) = Some (dir, KDirectory)"
    and "ns_view L (d_namespace d) (parse_components p) = None"
  shows "\<exists>d'. deva_process L d (case t of KFile \<Rightarrow> RCreateFile rq | KDirectory \<Rightarrow> RCreateDir rq) None =
      (status_OK, Some (make_file_info rq (proto_type t)), d') \<and>
    ns_view L (d_namespace d') = (ns_view L (d_namespace d))(parse_components p \<mapsto> (cr_id rq, t)) \<and>
    d_file_infos d' = (d_file_infos d)(cr_id rq \<mapsto> make_file_info rq (proto_type t))"
proof -
  have inv: "ns_inv L (d_namespace d)"
    using apply_inv [OF assms(1) deva_inv_new [OF assms(1)] assms(2)] assms(3) by (simp add: deva_inv_def)
  show ?thesis
    using create_on_path [OF assms(1) inv assms(4-10), of t] assms(11) by (cases t) (auto simp: create_handlers)
qed

lemma ex_req_path: "cr_path (ex_req p u) = p" "cr_id (ex_req p u) = u"
  by (simp_all add: ex_req_def)

theorem deva_create_visible_witness:
  "\<exists>d'. deva_process hex_lib (deva_new hex_lib) (RCreateFile (ex_req ''/a'' (UUID 0 1))) None =
      (status_OK, Some (make_file_info (ex_req ''/a'' (UUID 0 1)) FILE_TYPE_FILE), d') \<and>
    ns_view hex_lib (d_namespace d') [''a''] = Some (UUID 0 1, KFile)"
proof -
  have "parse_components ''/a'' = [''a'']" "fresh_log hex_lib (deva_new hex_lib) []" by (simp_all add: fresh_log_def)
  moreover have "ns_view hex_lib (d_namespace (deva_new hex_lib)) [''a''] = None" by code_simp
  ultimately show ?thesis
    using deva_create_visible [OF hexlib.uuid_library_axioms, of "[]" "deva_new hex_lib" "ex_req ''/a'' (UUID 0 1)" "''/a''" _ KFile]
    by (auto simp: ex_req_path ex_fresh_new)
qed

text \<open>
  C31: creating an entry at a path that already exists is not refused: the handler answers success,
  the path keeps leading to the old inode, and the new inode is reached by no path.
\<close>

theorem deva_create_shadowed:
  assumes "uuid_library L" "fresh_log L (deva_new L) rqs" "d = deva_apply L (deva_new L) rqs"
    and "ns_fresh L (d_namespace d) (cr_id rq)"
    and "cr_path rq = p" "p \<noteq> []" "hd p = CHR ''/''" "last p \<noteq> CHR ''/''" "CHR 0x00 \<notin> set p"
    and "ns_view L (d_namespace d) (butlast (parse_components p)) = Some (dir, KDirectory)"
    and "ns_view L (d_namespace d) (parse_components p) = Some (old, ot)"
  shows "\<exists>d'. deva_process L d (case t of KFile \<Rightarrow> RCreateFile rq | KDirectory \<Rightarrow> RCreateDir rq) None =
      (status_OK, Some (make_file_info rq (proto_type t)), d') \<and>
    ns_view L (d_namespace d') = ns_view L (d_namespace d) \<and>
    (\<nexists>cs t'. ns_view L (d_namespace d') cs = Some (cr_id rq, t'))"
proof -
  have inv: "ns_inv L (d_namespace d)"
    using apply_inv [OF assms(1) deva_inv_new [OF assms(1)] assms(2)] assms(3) by (simp add: deva_inv_def)
  moreover have "\<nexists>cs t'. ns_view L (d_namespace d) cs = Some (cr_id rq, t')"
    using ns_view_used(1) [OF inv] assms(4) by blast
  ultimately show ?thesis
    using create_on_path [OF assms(1) inv assms(4-10), of t] assms(11) by (cases t) (auto simp: create_handlers)
qed

theorem deva_create_shadowed_witness:
  "\<exists>d'. deva_process hex_lib (deva_apply hex_lib (deva_new hex_lib) ex_log) (RCreateFile (ex_req ''/a/b'' (UUID 0 3))) None =
      (status_OK, Some (make_file_info (ex_req ''/a/b'' (UUID 0 3)) FILE_TYPE_FILE), d') \<and>
    ns_view hex_lib (d_namespace d') [''a'', ''b''] = Some (UUID 0 2, KFile)"
proof -
  let ?d = "deva_apply hex_lib (deva_new hex_lib) ex_log"
  have fr: "ns_fresh hex_lib (d_namespace ?d) (UUID 0 3)"
    using apply_fresh [OF hexlib.uuid_library_axioms deva_inv_new [OF hexlib.uuid_library_axioms] ex_log_fresh, of "UUID 0 3"]
    by (simp add: ex_fresh_new ex_log_def ex_req_def)
  have v: "ns_view hex_lib (d_namespace ?d) [''a''] = Some (UUID 0 1, KDirectory)"
    "ns_view hex_lib (d_namespace ?d) [''a'', ''b''] = Some (UUID 0 2, KFile)" by code_simp+
  have "parse_components ''/a/b'' = [''a'', ''b'']" by simp
  then show ?thesis
    using deva_create_shadowed [OF hexlib.uuid_library_axioms ex_log_fresh refl, of "ex_req ''/a/b'' (UUID 0 3)" "''/a/b''"
        "UUID 0 1" "UUID 0 2" KFile KFile]
      fr v by (auto simp: ex_req_path)
qed

lemma refused_create:
  assumes "uuid_library L" "fresh_log L (deva_new L) rqs" "d = deva_apply L (deva_new L) rqs"
    and "dir = c_str (path_parent p)"
    and "dir = [] \<or> hd dir \<noteq> CHR ''/'' \<or> (\<nexists>u. ns_view L (d_namespace d) (parse_components dir) = Some (u, KDirectory))"
  shows "\<exists>st. (error_code st = ENOENT \<or> error_code st = EINVAL) \<and> deva_create L d p u t = (st, d)"
proof (cases "dir = [] \<or> hd dir \<noteq> CHR ''/''")
  case True
  then show ?thesis
    using directory_service.lookup_invalid [OF namespace_contract [OF assms(1)] True, of "d_namespace d" "UUID 0 0" KFile] assms(4)
    by (auto simp: deva_create_def Let_def st_ok_def errno_defs split: prod.splits)
next
  case False
  then have h: "dir \<noteq> []" "hd dir = CHR ''/''" by auto
  note C = namespace_contract [OF assms(1)]
  have inv: "ns_inv L (d_namespace d)"
    using apply_inv [OF assms(1) deva_inv_new [OF assms(1)] assms(2)] assms(3) by (simp add: deva_inv_def)
  show ?thesis
  proof (cases "ns_view L (d_namespace d) (parse_components dir)")
    case None
    then show ?thesis
      using directory_service.lookup_missing [OF C inv h None, of "UUID 0 0" KFile] assms(4)
      by (auto simp: deva_create_def Let_def st_ok_def errno_defs split: prod.splits)
  next
    case (Some x)
    then obtain v where "ns_view L (d_namespace d) (parse_components dir) = Some (v, KFile)"
      using assms(5) h by (cases x; cases "snd x") auto
    from directory_service.lookup_ok [OF C inv h this, of "UUID 0 0" KFile] assms(4)
    show ?thesis by (auto simp: deva_create_def Let_def)
  qed
qed

lemma refused_process:
  assumes "error_code st = ENOENT \<or> error_code st = EINVAL" "deva_create L d (cr_path rq) (cr_id rq) t = (st, d)"
  shows "deva_process L d (case t of KFile \<Rightarrow> RCreateFile rq | KDirectory \<Rightarrow> RCreateDir rq) None = (st, None, d)"
  using assms by (cases t) (auto simp: create_handlers create_handler_def st_ok_def errno_defs)

text \<open>
  Creating an entry at a path that is relative, or whose parent does not exist or is a
  file, is refused with \<^verbatim>\<open>ENOENT\<close> or \<^verbatim>\<open>EINVAL\<close> and changes nothing.
\<close>

theorem deva_create_refused:
  assumes "uuid_library L" "fresh_log L (deva_new L) rqs" "d = deva_apply L (deva_new L) rqs"
    and "dir = c_str (path_parent (cr_path rq))"
    and "dir = [] \<or> hd dir \<noteq> CHR ''/'' \<or> (\<nexists>u. ns_view L (d_namespace d) (parse_components dir) = Some (u, KDirectory))"
  shows "\<exists>st. (error_code st = ENOENT \<or> error_code st = EINVAL) \<and>
    deva_process L d (case t of KFile \<Rightarrow> RCreateFile rq | KDirectory \<Rightarrow> RCreateDir rq) None = (st, None, d)"
  using refused_create [OF assms, of "cr_id rq" t] refused_process by blast

theorem deva_create_refused_witness:
  "\<exists>st. (error_code st = ENOENT \<or> error_code st = EINVAL) \<and>
     deva_process hex_lib (deva_new hex_lib) (RCreateFile (ex_req ''/x/y'' (UUID 0 1))) None = (st, None, deva_new hex_lib)"
proof -
  have "path_parent ''/x/y'' = ''/x''" "c_str ''/x'' = ''/x''" "parse_components ''/x'' = [''x'']" by code_simp+
  moreover have "ns_view hex_lib (d_namespace (deva_new hex_lib)) [''x''] = None" by code_simp
  ultimately show ?thesis
    using deva_create_refused [OF hexlib.uuid_library_axioms, of "[]" "deva_new hex_lib" "''/x''" "ex_req ''/x/y'' (UUID 0 1)" KFile]
    by (auto simp: ex_req_path fresh_log_def)
qed

end
