(* ===== verification/Op.thy ===== *)
theory Op
  imports Deva
begin

text \<open>
  Operations of the replicated log: \<^verbatim>\<open>src/deva/op.h\<close>, \<^verbatim>\<open>src/deva/op.cc\<close>,
  \<^verbatim>\<open>src/deva/container_op.h\<close> and \<^verbatim>\<open>src/deva/container_op.cc\<close>. An operation is written to the log
  as the 64 bytes of the struct \<^verbatim>\<open>OpMeta\<close> (little-endian, with the padding the compiler puts at
  its end) followed by the serialised request. Serialisation is done by the external protobuf
  library, so it is the argument \<open>pb_codec\<close>; the code relies on parsing what was serialised, which is
  the locale \<open>pb_library\<close>.
\<close>

section \<open>Operation types\<close>

datatype op_type =
    OpInvalid
  | OpCreateFile
  | OpCreateDir
  | OpRemoveFile
  | OpSealFile
  | OpCreateChunk
  | OpCheckInChunk
  | OpSealChunk
  | OpSealAndNewChunk

fun op_code :: "op_type \<Rightarrow> u32" where
  "op_code OpInvalid = 0"
| "op_code OpCreateFile = 1"
| "op_code OpCreateDir = 2"
| "op_code OpRemoveFile = 3"
| "op_code OpSealFile = 4"
| "op_code OpCreateChunk = 5"
| "op_code OpCheckInChunk = 6"
| "op_code OpSealChunk = 7"
| "op_code OpSealAndNewChunk = 8"

fun op_type_of :: "deva_request \<Rightarrow> op_type" where
  "op_type_of (RCreateFile _) = OpCreateFile"
| "op_type_of (RCreateDir _) = OpCreateDir"
| "op_type_of RRemoveFile = OpRemoveFile"
| "op_type_of RSealFile = OpSealFile"
| "op_type_of RCreateChunk = OpCreateChunk"
| "op_type_of RCheckInChunk = OpCheckInChunk"
| "op_type_of RSealChunk = OpSealChunk"
| "op_type_of RSealAndNewChunk = OpSealAndNewChunk"

section \<open>The header of a log entry\<close>

record op_meta =
  mt_version :: u32
  mt_type :: u32
  mt_timestamp :: u64
  mt_size :: u32

text \<open>Little-endian integers of \<open>k\<close> bytes.\<close>

fun le_bytes :: "nat \<Rightarrow> nat \<Rightarrow> iobuf" where
  "le_bytes 0 n = []"
| "le_bytes (Suc k) n = word_of_nat (n mod 256) # le_bytes k (n div 256)"

fun le_nat :: "iobuf \<Rightarrow> nat" where
  "le_nat [] = 0"
| "le_nat (b # bs) = unat b + 256 * le_nat bs"

text \<open>The bytes of the struct: \<open>pad\<close> is the content of the four padding bytes.\<close>

definition meta_bytes :: "op_meta \<Rightarrow> iobuf \<Rightarrow> iobuf" where
  "meta_bytes m pad = le_bytes 4 (unat (mt_version m)) @ le_bytes 4 (unat (mt_type m)) @
     le_bytes 8 (unat (mt_timestamp m)) @ le_bytes 4 (unat (mt_size m)) @ replicate 40 0 @ pad"

definition meta_of_bytes :: "iobuf \<Rightarrow> op_meta" where
  "meta_of_bytes bs = \<lparr>mt_version = word_of_nat (le_nat (bytes_at 0 4 bs)),
     mt_type = word_of_nat (le_nat (bytes_at 4 4 bs)), mt_timestamp = word_of_nat (le_nat (bytes_at 8 8 bs)),
     mt_size = word_of_nat (le_nat (bytes_at 16 4 bs))\<rparr>"

section \<open>Encoding and decoding\<close>

record pb_codec =
  pb_ser :: "deva_request \<Rightarrow> iobuf option"
  pb_parse :: "op_type \<Rightarrow> iobuf \<Rightarrow> deva_request option"

text \<open>\<^verbatim>\<open>ContainerOp::encode\<close>.\<close>

definition request_encode :: "pb_codec \<Rightarrow> deva_request \<Rightarrow> iobuf \<Rightarrow> iobuf outcome" where
  "request_encode K rq buf =
     (case pb_ser K rq of None \<Rightarrow> Abort ''serialize response failed'' | Some b \<Rightarrow> Done (buf @ b))"

text \<open>\<^verbatim>\<open>ContainerOp::decode\<close> of an operation of type \<open>t\<close>.\<close>

definition request_decode :: "pb_codec \<Rightarrow> op_type \<Rightarrow> iobuf \<Rightarrow> deva_request outcome" where
  "request_decode K t buf =
     (case pb_parse K t buf of None \<Rightarrow> Abort ''parse request failed'' | Some rq \<Rightarrow> Done rq)"

text \<open>\<^verbatim>\<open>encode\<close>: \<open>now\<close> is the time of day, \<open>buf\<close> what the buffer holds already.\<close>

definition op_encode :: "pb_codec \<Rightarrow> u64 \<Rightarrow> iobuf \<Rightarrow> deva_request \<Rightarrow> iobuf \<Rightarrow> iobuf outcome" where
  "op_encode K now pad rq buf =
     obind (request_encode K rq []) (\<lambda>meta.
     let m = \<lparr>mt_version = 1, mt_type = op_code (op_type_of rq), mt_timestamp = now,
              mt_size = word_of_nat (length meta)\<rparr>
     in Done ((buf @ meta_bytes m pad) @ meta))"

text \<open>The switch of \<^verbatim>\<open>decode\<close> in \<^verbatim>\<open>container_op.cc\<close>: the operation types it has a branch for.\<close>

fun branch_of :: "u32 \<Rightarrow> op_type option" where
  "branch_of c =
     (if c = op_code OpCreateFile then Some OpCreateFile
      else if c = op_code OpRemoveFile then Some OpRemoveFile
      else if c = op_code OpSealFile then Some OpSealFile
      else if c = op_code OpCreateChunk then Some OpCreateChunk
      else if c = op_code OpCheckInChunk then Some OpCheckInChunk
      else if c = op_code OpSealChunk then Some OpSealChunk
      else if c = op_code OpSealAndNewChunk then Some OpSealAndNewChunk
      else None)"

definition container_decode :: "pb_codec \<Rightarrow> u32 \<Rightarrow> iobuf \<Rightarrow> deva_request outcome" where
  "container_decode K code buf =
     (case branch_of code of None \<Rightarrow> Abort ''unknown op type'' | Some t \<Rightarrow> request_decode K t buf)"

text \<open>
  \<^verbatim>\<open>decode\<close> in \<^verbatim>\<open>op.cc\<close>: when the buffer has fewer than 64 bytes, the rest of the struct keeps its
  zeros. The result is the request and what is left of the buffer.
\<close>

definition op_decode :: "iobuf_lib \<Rightarrow> pb_codec \<Rightarrow> iobuf \<Rightarrow> (deva_request \<times> iobuf) outcome" where
  "op_decode I K buf =
     (case io_cutn I buf 64 of (hdr, buf1) \<Rightarrow>
        let m = meta_of_bytes (hdr @ replicate (64 - length hdr) 0) in
        case io_cutn I buf1 (unat (mt_size m)) of (meta, buf2) \<Rightarrow>
          obind (container_decode K (mt_type m) meta) (\<lambda>rq. Done (rq, buf2)))"

section \<open>The contract of the serialiser\<close>

locale pb_library =
  fixes K :: pb_codec
  assumes parse_ser: "pb_ser K rq = Some b \<Longrightarrow> pb_parse K (op_type_of rq) b = Some rq"

text \<open>A codec that satisfies it: the fixed-size fields, then the path.\<close>

definition ser_create :: "create_request \<Rightarrow> iobuf" where
  "ser_create r = le_bytes 8 (unat (uuid_high (cr_id r))) @ le_bytes 8 (unat (uuid_low (cr_id r))) @
     le_bytes 8 (unat (cr_atime r)) @ le_bytes 8 (unat (cr_mtime r)) @ le_bytes 8 (unat (cr_ctime r)) @
     le_bytes 4 (unat (cr_mode r)) @ le_bytes 4 (unat (cr_uid r)) @ le_bytes 4 (unat (cr_gid r)) @
     map (\<lambda>c. word_of_nat (of_char c)) (cr_path r)"

definition parse_create :: "iobuf \<Rightarrow> create_request" where
  "parse_create b = \<lparr>cr_path = map (\<lambda>x. char_of (unat x)) (drop 52 b),
     cr_id = UUID (word_of_nat (le_nat (bytes_at 0 8 b))) (word_of_nat (le_nat (bytes_at 8 8 b))),
     cr_atime = word_of_nat (le_nat (bytes_at 16 8 b)), cr_mtime = word_of_nat (le_nat (bytes_at 24 8 b)),
     cr_ctime = word_of_nat (le_nat (bytes_at 32 8 b)), cr_mode = word_of_nat (le_nat (bytes_at 40 4 b)),
     cr_uid = word_of_nat (le_nat (bytes_at 44 4 b)), cr_gid = word_of_nat (le_nat (bytes_at 48 4 b))\<rparr>"

fun fixed_ser :: "deva_request \<Rightarrow> iobuf option" where
  "fixed_ser (RCreateFile r) = Some (ser_create r)"
| "fixed_ser (RCreateDir r) = Some (ser_create r)"
| "fixed_ser _ = Some []"

fun fixed_parse :: "op_type \<Rightarrow> iobuf \<Rightarrow> deva_request option" where
  "fixed_parse OpInvalid b = None"
| "fixed_parse OpCreateFile b = Some (RCreateFile (parse_create b))"
| "fixed_parse OpCreateDir b = Some (RCreateDir (parse_create b))"
| "fixed_parse OpRemoveFile b = Some RRemoveFile"
| "fixed_parse OpSealFile b = Some RSealFile"
| "fixed_parse OpCreateChunk b = Some RCreateChunk"
| "fixed_parse OpCheckInChunk b = Some RCheckInChunk"
| "fixed_parse OpSealChunk b = Some RSealChunk"
| "fixed_parse OpSealAndNewChunk b = Some RSealAndNewChunk"

definition fixed_codec :: pb_codec where
  "fixed_codec = \<lparr>pb_ser = fixed_ser, pb_parse = fixed_parse\<rparr>"

section \<open>Lemmas\<close>

lemma length_le_bytes [simp]: "length (le_bytes k n) = k"
  by (induction k arbitrary: n) auto

lemma le_nat_bytes: "n < 256 ^ k \<Longrightarrow> le_nat (le_bytes k n) = n"
proof (induction k arbitrary: n)
  case (Suc k)
  then have "le_nat (le_bytes k (n div 256)) = n div 256" by (simp add: less_mult_imp_div_less mult.commute)
  moreover have "unat (word_of_nat (n mod 256) :: u8) = n mod 256" by (simp add: unat_of_nat take_bit_nat_eq_self)
  ultimately show ?case by simp
qed simp

lemma le_u32 [simp]: "word_of_nat (le_nat (le_bytes 4 (unat (w :: u32)))) = w"
proof -
  have "unat w < 256 ^ 4" using unsigned_less [of w, where 'a = nat] by simp
  then show ?thesis by (simp add: le_nat_bytes)
qed

lemma le_u64 [simp]: "word_of_nat (le_nat (le_bytes 8 (unat (w :: u64)))) = w"
proof -
  have "unat w < 256 ^ 8" using unsigned_less [of w, where 'a = nat] by simp
  then show ?thesis by (simp add: le_nat_bytes)
qed

lemma length_meta_bytes: "length pad = 4 \<Longrightarrow> length (meta_bytes m pad) = 64"
  by (simp add: meta_bytes_def)

lemma meta_of_meta_bytes: "meta_of_bytes (meta_bytes m pad) = m"
  by (simp add: meta_of_bytes_def meta_bytes_def)

lemma char_u8 [simp]: "char_of (unat (word_of_nat (of_char c) :: u8)) = c"
  by (simp add: unat_of_nat take_bit_eq_mod)

lemma parse_ser_create: "parse_create (ser_create r) = r"
  by (simp add: parse_create_def ser_create_def o_def)

interpretation fixed: pb_library fixed_codec
proof unfold_locales
  fix rq b assume "pb_ser fixed_codec rq = Some b"
  then show "pb_parse fixed_codec (op_type_of rq) b = Some rq"
    by (cases rq) (auto simp: fixed_codec_def parse_ser_create)
qed

lemma branch_of_request: "branch_of (op_code (op_type_of rq)) = (if op_type_of rq = OpCreateDir then None else Some (op_type_of rq))"
  by (cases rq) simp_all

text \<open>Decoding undoes encoding, as far as there is a branch for the operation.\<close>

lemma op_decode_encoded:
  assumes "iobuf_library I" "pb_library K" "op_encode K now pad rq [] = Done b" "length pad = 4"
    and "length b < 2 ^ 32"
  shows "op_decode I K (b @ rest) = (if op_type_of rq = OpCreateDir then Abort ''unknown op type'' else Done (rq, rest))"
proof -
  obtain meta where meta: "pb_ser K rq = Some meta"
    using assms(3) by (auto simp: op_encode_def request_encode_def split: option.splits)
  let ?m = "\<lparr>mt_version = 1, mt_type = op_code (op_type_of rq), mt_timestamp = now, mt_size = word_of_nat (length meta)\<rparr>"
  have b: "b = meta_bytes ?m pad @ meta"
    using assms(3) meta by (simp add: op_encode_def request_encode_def Let_def)
  have len: "length (meta_bytes ?m pad) = 64" using assms(4) by (rule length_meta_bytes)
  have size: "unat (word_of_nat (length meta) :: u32) = length meta"
    using assms(5) by (simp add: b unat_of_nat take_bit_nat_eq_self)
  show ?thesis
    using pb_library.parse_ser [OF assms(2) meta] branch_of_request [of rq]
    by (simp add: op_decode_def iobuf_library.cutn [OF assms(1)] b len size meta_of_meta_bytes Let_def
        container_decode_def request_decode_def del: branch_of.simps)
qed

section \<open>Properties\<close>

text \<open>
  C19: encoding and decoding of operations: every request but \<^verbatim>\<open>CreateDir\<close> is read back from the log
  exactly as it was written, with what follows it in the buffer left alone; decoding a
  \<^verbatim>\<open>CreateDir\<close> entry fails an assertion, because the switch has no branch for it.
\<close>

theorem op_roundtrip:
  assumes "iobuf_library I" "pb_library K" "length pad = 4"
    and "op_encode K now pad rq [] = Done b" "length b < 2 ^ 32"
  shows "(op_type_of rq \<noteq> OpCreateDir \<longrightarrow> op_decode I K (b @ rest) = Done (rq, rest)) \<and>
    (op_type_of rq = OpCreateDir \<longrightarrow> op_decode I K (b @ rest) = Abort ''unknown op type'')"
  using op_decode_encoded [OF assms(1,2,4,3,5)] by simp

theorem op_roundtrip_witness:
  "\<exists>b. op_encode fixed_codec 7 [0, 0, 0, 0] (RCreateFile (ex_req ''/a'' (UUID 0 1))) [] = Done b \<and>
     op_decode byte_seq_lib fixed_codec (b @ [9]) = Done (RCreateFile (ex_req ''/a'' (UUID 0 1)), [9])"
proof -
  obtain b where b: "op_encode fixed_codec 7 [0, 0, 0, 0] (RCreateFile (ex_req ''/a'' (UUID 0 1))) [] = Done b" "length b = 118"
    by (simp add: op_encode_def request_encode_def fixed_codec_def Let_def length_meta_bytes ser_create_def ex_req_def)
  then show ?thesis
    using op_roundtrip [OF byte_seq.iobuf_library_axioms fixed.pb_library_axioms _ b(1)] by simp
qed

end
