(* ===== verification/Rsm.thy ===== *)
theory Rsm
  imports Op Futures
begin

text \<open>
  The replicated state machine of a metadata server: \<^verbatim>\<open>src/deva/rsm.h\<close>, \<^verbatim>\<open>src/deva/rsm.cc\<close>,
  the closure of \<^verbatim>\<open>src/deva/container_op.h\<close> and \<^verbatim>\<open>src/deva/bridge.h\<close>. The raft library is external:
  what it does with a task is an argument (\<open>raft_result\<close>), and the entries it hands to
  \<^verbatim>\<open>on_apply\<close> are a list. An entry that this node proposed itself comes with the closure of its
  operation, which the guard runs in a thread of its own; every other entry is decoded from the log
  and applied at once.
\<close>

section \<open>Definitions\<close>

record rsm =
  r_group :: string
  r_started :: bool
  r_raft_leader :: bool
  r_leader_term :: int
  r_container :: deva

definition rsm_new :: "string \<Rightarrow> deva \<Rightarrow> rsm" where
  "rsm_new grp c = \<lparr>r_group = grp, r_started = False, r_raft_leader = False, r_leader_term = -1, r_container = c\<rparr>"

text \<open>\<open>init_ok\<close>: whether \<^verbatim>\<open>Node::init\<close> returned 0.\<close>

definition rsm_start :: "bool \<Rightarrow> rsm \<Rightarrow> int \<times> rsm" where
  "rsm_start init_ok r = (if \<not> init_ok then (-1, r) else (0, r\<lparr>r_started := True\<rparr>))"

definition rsm_is_leader :: "rsm \<Rightarrow> bool" where
  "rsm_is_leader r = (if \<not> r_started r then False else r_raft_leader r)"

definition rsm_on_leader_start :: "int \<Rightarrow> rsm \<Rightarrow> rsm" where
  "rsm_on_leader_start term r = r\<lparr>r_leader_term := term\<rparr>"

definition rsm_on_leader_stop :: "rsm \<Rightarrow> rsm" where
  "rsm_on_leader_stop r = r\<lparr>r_leader_term := -1\<rparr>"

text \<open>The state machine after the call: nothing is read from the snapshot.\<close>

definition rsm_on_snapshot_load :: "rsm \<Rightarrow> (int \<times> rsm) outcome" where
  "rsm_on_snapshot_load r =
     (if rsm_is_leader r then Abort ''Leader is not supposed to load snapshot'' else Done (0, r))"

text \<open>
  The files of the snapshot when its closure runs, with success: \<^verbatim>\<open>save_snapshot\<close> writes nothing and
  adds nothing to the writer.
\<close>

definition rsm_on_snapshot_save :: "rsm \<Rightarrow> string list \<Rightarrow> string list" where
  "rsm_on_snapshot_save r files = files"

section \<open>Operations\<close>

text \<open>
  \<^verbatim>\<open>ContainerOp\<close>: the request, the contents of the response message it points to, and the promise that its
  callback fulfils, if it has a callback. An operation without a response message uses its own, which is empty.
\<close>

record container_op =
  op_request :: deva_request
  op_response :: "file_info option"
  op_finish :: "status future_state option"

definition cop_new :: "deva_request \<Rightarrow> file_info option option \<Rightarrow> status future_state option \<Rightarrow> container_op" where
  "cop_new rq response finish =
     \<lparr>op_request = rq, op_response = (case response of None \<Rightarrow> None | Some m \<Rightarrow> m), op_finish = finish\<rparr>"

definition cop_on_finish :: "container_op \<Rightarrow> status \<Rightarrow> container_op outcome" where
  "cop_on_finish op st =
     (case op_finish op of None \<Rightarrow> Done op
      | Some p \<Rightarrow> obind (fs_set_value st p) (\<lambda>p'. Done (op\<lparr>op_finish := Some p'\<rparr>)))"

definition cop_on_apply :: "uuid_lib \<Rightarrow> container_op \<Rightarrow> deva \<Rightarrow> (container_op \<times> deva) outcome" where
  "cop_on_apply L op c =
     (case deva_process L c (op_request op) (op_response op) of (st, resp, c') \<Rightarrow>
        obind (cop_on_finish (op\<lparr>op_response := resp\<rparr>) st) (\<lambda>op'. Done (op', c')))"

text \<open>\<^verbatim>\<open>OpClosure::Run\<close> with the status the raft library gave the task.\<close>

definition closure_run :: "uuid_lib \<Rightarrow> status \<Rightarrow> container_op \<Rightarrow> deva \<Rightarrow> (container_op \<times> deva) outcome" where
  "closure_run L st op d =
     (if st_ok st then cop_on_apply L op d else obind (cop_on_finish op st) (\<lambda>op'. Done (op', d)))"

section \<open>Applying the log\<close>

record log_entry =
  le_index :: int
  le_data :: iobuf
  le_done :: "container_op option"

text \<open>
  \<^verbatim>\<open>on_apply\<close> over the entries: the closures it hands to other threads, with the index they were
  given, and the container after the entries that were applied at once.
\<close>

fun rsm_on_apply ::
  "uuid_lib \<Rightarrow> iobuf_lib \<Rightarrow> pb_codec \<Rightarrow> log_entry list \<Rightarrow> deva \<Rightarrow> ((int \<times> container_op) list \<times> deva) outcome" where
  "rsm_on_apply L I K [] d = Done ([], d)"
| "rsm_on_apply L I K (e # es) d =
     (case le_done e of
        Some op \<Rightarrow>
          obind (rsm_on_apply L I K es d) (\<lambda>(cs, d'). Done ((le_index e, op) # cs, d'))
      | None \<Rightarrow>
          obind (op_decode I K (le_data e)) (\<lambda>(rq, _).
          obind (cop_on_apply L (cop_new rq None None) d) (\<lambda>(_, d').
          rsm_on_apply L I K es d')))"

text \<open>The closures of a leader, in the order the threads happen to run them, and the operations afterwards.\<close>

fun run_closures :: "uuid_lib \<Rightarrow> (int \<times> container_op) list \<Rightarrow> deva \<Rightarrow> (container_op list \<times> deva) outcome" where
  "run_closures L [] d = Done ([], d)"
| "run_closures L ((i, op) # cs) d =
     obind (closure_run L status_OK op d) (\<lambda>(op', d').
     obind (run_closures L cs d') (\<lambda>(ops, d''). Done (op' # ops, d'')))"

section \<open>The bridge\<close>

text \<open>
  What the raft library does with a task: it commits the task and runs its closure with success, it
  runs the closure with an error (the node is not the leader), or it has not run it yet.
\<close>

datatype raft_result = Committed int | Rejected status | InFlight

text \<open>\<^verbatim>\<open>Rsm::apply\<close>: a node that was not started drops the task, and nobody runs its closure.\<close>

definition rsm_apply :: "rsm \<Rightarrow> raft_result \<Rightarrow> raft_result option" where
  "rsm_apply r res = (if r_started r then Some res else None)"

definition cop_apply ::
  "uuid_lib \<Rightarrow> pb_codec \<Rightarrow> u64 \<Rightarrow> iobuf \<Rightarrow> raft_result \<Rightarrow> rsm \<Rightarrow> container_op \<Rightarrow> (container_op \<times> rsm) outcome" where
  "cop_apply L K now pad res r op =
     obind (op_encode K now pad (op_request op) []) (\<lambda>_.
     case rsm_apply r res of
       Some (Committed i) \<Rightarrow>
         obind (closure_run L status_OK op (r_container r)) (\<lambda>(op', d). Done (op', r\<lparr>r_container := d\<rparr>))
     | Some (Rejected st) \<Rightarrow>
         obind (closure_run L st op (r_container r)) (\<lambda>(op', d). Done (op', r\<lparr>r_container := d\<rparr>))
     | _ \<Rightarrow> Done (op, r))"

text \<open>
  \<^verbatim>\<open>bridge\<close> with a future, and the \<^verbatim>\<open>get\<close> the callers do on it, with an empty response message.
\<close>

definition bridge ::
  "uuid_lib \<Rightarrow> pb_codec \<Rightarrow> u64 \<Rightarrow> iobuf \<Rightarrow> raft_result \<Rightarrow> rsm \<Rightarrow> deva_request \<Rightarrow>
   (status got \<times> file_info option \<times> rsm) outcome" where
  "bridge L K now pad res r rq =
     obind (cop_apply L K now pad res r (cop_new rq (Some None) (Some KFuture))) (\<lambda>(op, r').
     case op_finish op of None \<Rightarrow> Done (Blocks, op_response op, r')
     | Some p \<Rightarrow> Done (fst (fs_get (\<lambda>v. v) p), op_response op, r'))"

section \<open>Lemmas\<close>

text \<open>An operation whose caller still waits, and the operation after the handler answered it.\<close>

definition waiting :: "container_op \<Rightarrow> bool" where
  "waiting op \<longleftrightarrow> op_response op = None \<and> op_finish op = Some KFuture"

definition answered :: "container_op \<Rightarrow> status \<Rightarrow> file_info option \<Rightarrow> container_op" where
  "answered op st resp = op\<lparr>op_response := resp, op_finish := Some (KResult st)\<rparr>"

lemma waiting_new [simp]: "waiting (cop_new rq (Some None) (Some KFuture))"
  by (simp add: waiting_def cop_new_def)

lemma cop_new_request [simp]: "op_request (cop_new rq resp fin) = rq"
  by (simp add: cop_new_def)

lemma answered_sels [simp]:
  "op_request (answered op st resp) = op_request op" "op_response (answered op st resp) = resp"
  "op_finish (answered op st resp) = Some (KResult st)"
  by (simp_all add: answered_def)

lemma closure_run_waiting:
  assumes "waiting op" "deva_process L d (op_request op) None = (st', resp, d')"
  shows "closure_run L st op d = Done (if st_ok st then (answered op st' resp, d') else (answered op st None, d))"
  using assms by (simp add: closure_run_def cop_on_apply_def cop_on_finish_def waiting_def answered_def)

lemma cop_on_apply_decoded: "cop_on_apply L (cop_new rq None None) d = Done (\<lparr>op_request = rq, op_response =
    fst (snd (deva_process L d rq None)), op_finish = None\<rparr>, snd (snd (deva_process L d rq None)))"
  by (simp add: cop_on_apply_def cop_on_finish_def cop_new_def split: prod.split)

lemma bridge_eq:
  assumes "deva_process L (r_container r) rq None = (st', resp, d')"
  shows "bridge L K now pad res r rq =
     obind (op_encode K now pad rq []) (\<lambda>_.
     if \<not> r_started r then Done (Blocks, None, r)
     else case res of InFlight \<Rightarrow> Done (Blocks, None, r)
          | Committed i \<Rightarrow> Done (Returns st', resp, r\<lparr>r_container := d'\<rparr>)
          | Rejected st \<Rightarrow> if st_ok st then Done (Returns st', resp, r\<lparr>r_container := d'\<rparr>) else Done (Returns st, None, r))"
  using closure_run_waiting [OF waiting_new, of L "r_container r" rq st' resp d'] assms
  by (cases "op_encode K now pad rq []"; cases res)
    (auto simp: bridge_def cop_apply_def rsm_apply_def, simp_all add: cop_new_def)

lemma bridge_unstarted:
  "\<not> r_started r \<Longrightarrow> bridge L K now pad res r rq = obind (op_encode K now pad rq []) (\<lambda>_. Done (Blocks, None, r))"
  by (cases "deva_process L (r_container r) rq None") (simp add: bridge_eq)

text \<open>\<open>logged K rq e\<close>: the entry \<open>e\<close> holds the encoding of \<open>rq\<close>.\<close>

definition logged :: "pb_codec \<Rightarrow> deva_request \<Rightarrow> log_entry \<Rightarrow> bool" where
  "logged K rq e \<longleftrightarrow> (\<exists>now pad. op_encode K now pad rq [] = Done (le_data e) \<and> length pad = 4) \<and> length (le_data e) < 2 ^ 32"

lemma logged_done [simp]: "logged K rq (e\<lparr>le_done := x\<rparr>) = logged K rq e"
  by (simp add: logged_def)

lemma logged_decode:
  assumes "iobuf_library I" "pb_library K" "logged K rq e"
  shows "op_decode I K (le_data e) = (if op_type_of rq = OpCreateDir then Abort ''unknown op type'' else Done (rq, []))"
proof -
  obtain now pad where e: "op_encode K now pad rq [] = Done (le_data e)" "length pad = 4" "length (le_data e) < 2 ^ 32"
    using assms(3) by (auto simp: logged_def)
  then show ?thesis using op_decode_encoded [OF assms(1,2) e(1), of "[]"] by simp
qed

lemma follower_apply:
  assumes "iobuf_library I" "pb_library K" "list_all2 (logged K) rqs es" "\<forall>e\<in>set es. le_done e = None"
    and "\<forall>rq\<in>set rqs. op_type_of rq \<noteq> OpCreateDir"
  shows "rsm_on_apply L I K es d = Done ([], deva_apply L d rqs)"
  using assms(3-5)
proof (induction arbitrary: d rule: list_all2_induct)
  case (Cons rq rqs e es)
  then show ?case using logged_decode [OF assms(1,2)] by (simp add: cop_on_apply_decoded)
qed simp

lemma leader_apply:
  assumes "list_all2 (\<lambda>op e. le_done e = Some op) ops es"
  shows "\<exists>is. rsm_on_apply L I K es d = Done (zip is ops, d) \<and> length is = length ops"
  using assms
proof (induction rule: list_all2_induct)
  case (Cons op ops e es)
  then obtain ns where "rsm_on_apply L I K es d = Done (zip ns ops, d)" "length ns = length ops" by blast
  with Cons.hyps show ?case by (intro exI [of _ "le_index e # ns"]) simp
qed (simp add: exI [of _ "[]"])

text \<open>What the callers of the operations get when the closures run one after the other.\<close>

fun answers :: "uuid_lib \<Rightarrow> deva \<Rightarrow> container_op list \<Rightarrow> container_op list" where
  "answers L d [] = []"
| "answers L d (op # ops) =
     (case deva_process L d (op_request op) None of (st, resp, d') \<Rightarrow> answered op st resp # answers L d' ops)"

lemma run_closures_in_order:
  "length is = length ops \<Longrightarrow> \<forall>op\<in>set ops. waiting op \<Longrightarrow>
   run_closures L (zip is ops) d = Done (answers L d ops, deva_apply L d (map op_request ops))"
proof (induction "is" ops arbitrary: d rule: list_induct2)
  case (Cons i "is" op ops)
  then show ?case
    by (cases "deva_process L d (op_request op) None") (simp add: closure_run_waiting)
qed simp

section \<open>Properties\<close>

text \<open>
  The replicas agree: a leader that runs the closures of a batch in the order of the log and a
  follower that decodes the same batch from the log end in the same state, and the leader answers every
  waiting caller with the status and the response of its own request, provided that the batch creates no directory.
\<close>

theorem replicas_agree:
  assumes "iobuf_library I" "pb_library K" "list_all2 (\<lambda>op. logged K (op_request op)) ops es"
    and "\<forall>op\<in>set ops. waiting op \<and> op_type_of (op_request op) \<noteq> OpCreateDir"
    and "es_leader = map2 (\<lambda>e op. e\<lparr>le_done := Some op\<rparr>) es ops" "es_follower = map (\<lambda>e. e\<lparr>le_done := None\<rparr>) es"
  shows "\<exists>cs d'. rsm_on_apply L I K es_leader d = Done (cs, d) \<and> rsm_on_apply L I K es_follower d = Done ([], d') \<and>
    run_closures L cs d = Done (answers L d ops, d') \<and> map snd cs = ops"
proof -
  have len: "length es = length ops" using assms(3) by (simp add: list_all2_lengthD)
  then have "list_all2 (\<lambda>op e. le_done e = Some op) ops es_leader" by (simp add: assms(5) list_all2_conv_all_nth)
  from leader_apply [OF this] obtain ns where ns: "rsm_on_apply L I K es_leader d = Done (zip ns ops, d)" "length ns = length ops"
    by blast
  have "list_all2 (logged K) (map op_request ops) es_follower" using assms(3) by (simp add: assms(6) list_all2_map1 list_all2_map2)
  then have "rsm_on_apply L I K es_follower d = Done ([], deva_apply L d (map op_request ops))"
    using assms(4) by (intro follower_apply [OF assms(1,2)]) (auto simp: assms(6))
  then show ?thesis using ns run_closures_in_order [OF ns(2), of L d] assms(4) by (intro exI) auto
qed

text \<open>
  C33: a log that creates a directory brings a follower down: applying the batch that has the entry
  aborts the process, whatever comes before and after it.
\<close>

theorem follower_aborts_on_create_dir:
  assumes "iobuf_library I" "pb_library K" "list_all2 (logged K) (rqs @ [RCreateDir rq]) es" "\<forall>e\<in>set es. le_done e = None"
  shows "rsm_on_apply L I K (es @ es') d = Abort ''unknown op type''"
proof -
  have "rsm_on_apply L I K (es @ es') d = Abort ''unknown op type''"
    if "list_all2 (logged K) (rqs @ [RCreateDir rq]) es" "\<forall>e\<in>set es. le_done e = None" for rqs es d
    using that
  proof (induction rqs arbitrary: es d)
    case Nil
    then obtain e where "es = [e]" "logged K (RCreateDir rq) e" "le_done e = None" by (auto simp: list_all2_Cons1)
    then show ?case using logged_decode [OF assms(1,2)] by simp
  next
    case (Cons q rqs)
    then obtain e fs where e: "es = e # fs" "logged K q e" "le_done e = None"
      "list_all2 (logged K) (rqs @ [RCreateDir rq]) fs" "\<forall>e\<in>set fs. le_done e = None"
      by (auto simp: list_all2_Cons1)
    then show ?case using logged_decode [OF assms(1,2) e(2)] Cons.IH [OF e(4,5)]
      by (simp add: cop_on_apply_decoded split: if_splits)
  qed
  then show ?thesis using assms(3,4) by blast
qed

text \<open>Two creations of the same path: both are answered with success, and the first one that is applied decides where the path leads.\<close>

lemma first_create_wins:
  assumes "uuid_library L" "deva_inv L d" "fresh_log L d [RCreateFile rq1, RCreateFile rq2]"
    and "cr_path rq1 = p" "cr_path rq2 = p" "p \<noteq> []" "hd p = CHR ''/''" "last p \<noteq> CHR ''/''" "CHR 0x00 \<notin> set p"
    and "deva_view L d (butlast (parse_components p)) = Some (dir, KDirectory)" "deva_view L d (parse_components p) = None"
  shows "\<exists>r1 d1 r2 d2. deva_process L d (RCreateFile rq1) None = (status_OK, r1, d1) \<and>
    deva_process L d1 (RCreateFile rq2) None = (status_OK, r2, d2) \<and> deva_view L d2 (parse_components p) = Some (cr_id rq1, KFile)"
proof -
  have fr: "ns_fresh L (d_namespace d) (cr_id rq1)" "ns_fresh L (d_namespace d) (cr_id rq2)" "cr_id rq2 \<noteq> cr_id rq1"
    using assms(3) by (auto simp: fresh_log_def)
  have inv: "ns_inv L (d_namespace d)" using assms(2) by (simp add: deva_inv_def)
  obtain d1 where d1: "create_handler L KFile d rq1 None = (status_OK, Some (make_file_info rq1 FILE_TYPE_FILE), d1)"
    "deva_view L d1 = (deva_view L d)(parse_components p \<mapsto> (cr_id rq1, KFile))"
    using create_on_path [OF assms(1) inv fr(1) assms(4,6-10), of KFile] assms(11) by auto
  have inv1: "deva_inv L d1" and fr1: "ns_fresh L (d_namespace d1) (cr_id rq2)"
    using create_handler_inv [OF assms(1,2) fr(1) d1(1)] fr by auto
  have "parse_components p \<noteq> []" using path_split(5) [OF assms(6-8)] by simp
  then have "butlast (parse_components p) \<noteq> parse_components p"
    by (metis append_butlast_last_id append_self_conv list.discI)
  then have dir: "deva_view L d1 (butlast (parse_components p)) = Some (dir, KDirectory)" using assms(10) d1(2) by simp
  have "ns_inv L (d_namespace d1)" using inv1 by (simp add: deva_inv_def)
  from create_on_path [OF assms(1) this fr1 assms(5,6-9) dir, of KFile] d1(2)
  show ?thesis by (auto simp: create_handlers d1(1))
qed

text \<open>The same for the closures of a leader.\<close>

lemma first_closure_wins:
  assumes "uuid_library L" "deva_inv L d" "fresh_log L d [RCreateFile rq1, RCreateFile rq2]"
    and "cr_path rq1 = p" "cr_path rq2 = p" "p \<noteq> []" "hd p = CHR ''/''" "last p \<noteq> CHR ''/''" "CHR 0x00 \<notin> set p"
    and "deva_view L d (butlast (parse_components p)) = Some (dir, KDirectory)" "deva_view L d (parse_components p) = None"
    and "waiting op1" "op_request op1 = RCreateFile rq1" "waiting op2" "op_request op2 = RCreateFile rq2"
  shows "\<exists>ops. run_closures L [(i, op1), (j, op2)] d = Done (ops, deva_apply L d [RCreateFile rq1, RCreateFile rq2]) \<and>
    deva_view L (deva_apply L d [RCreateFile rq1, RCreateFile rq2]) (parse_components p) = Some (cr_id rq1, KFile) \<and> map op_finish ops = [Some (KResult status_OK), Some (KResult status_OK)]"
proof -
  obtain r1 d1 r2 d2 where d: "deva_process L d (RCreateFile rq1) None = (status_OK, r1, d1)"
    "deva_process L d1 (RCreateFile rq2) None = (status_OK, r2, d2)" "deva_view L d2 (parse_components p) = Some (cr_id rq1, KFile)"
    using first_create_wins [OF assms(1-11)] by blast
  have "answers L d [op1, op2] = [answered op1 status_OK r1, answered op2 status_OK r2]"
    using d(1,2) assms(13,15) by (simp del: deva_process.simps)
  moreover have "deva_apply L d [RCreateFile rq1, RCreateFile rq2] = d2" using d(1,2) by (simp del: deva_process.simps)
  ultimately show ?thesis
    using run_closures_in_order [of "[i, j]" "[op1, op2]" L d] assms(12-15) d(3) by (simp del: deva_process.simps)
qed

lemma ex_parent: "parse_components ''/a'' = [''a'']" "ns_view hex_lib (d_namespace (deva_new hex_lib)) [''a''] = None"
  by (simp, code_simp)

definition ex_entry :: "deva_request \<Rightarrow> container_op option \<Rightarrow> log_entry" where
  "ex_entry rq done = \<lparr>le_index = 1, le_data = (case op_encode fixed_codec 7 [0, 0, 0, 0] rq [] of Done b \<Rightarrow> b | Abort _ \<Rightarrow> []), le_done = done\<rparr>"

abbreviation ex_file :: "u64 \<Rightarrow> create_request" where
  "ex_file k \<equiv> ex_req ''/a'' (UUID 0 k)"

lemma ex_entry_done [simp]: "le_done (ex_entry rq x) = x"
  by (simp add: ex_entry_def)

lemma ex_logged: "logged fixed_codec (RCreateFile (ex_file k)) (ex_entry (RCreateFile (ex_file k)) x)"
    "logged fixed_codec (RCreateDir (ex_file k)) (ex_entry (RCreateDir (ex_file k)) x)"
  unfolding logged_def
  by (rule conjI, rule exI [of _ 7], rule exI [of _ "[0, 0, 0, 0]"];
      simp add: ex_entry_def op_encode_def request_encode_def fixed_codec_def Let_def length_meta_bytes ser_create_def ex_req_def)+

abbreviation ex_op :: "u64 \<Rightarrow> container_op" where
  "ex_op k \<equiv> cop_new (RCreateFile (ex_file k)) (Some None) (Some KFuture)"

theorem replicas_agree_witness:
  "\<exists>cs d'. rsm_on_apply hex_lib byte_seq_lib fixed_codec [ex_entry (RCreateFile (ex_file 1)) None] (deva_new hex_lib) = Done ([], d') \<and>
     run_closures hex_lib cs (deva_new hex_lib) = Done (answers hex_lib (deva_new hex_lib) [ex_op 1], d') \<and> map snd cs = [ex_op 1]"
proof -
  let ?e = "ex_entry (RCreateFile (ex_file 1)) None"
  have e: "list_all2 (\<lambda>op. logged fixed_codec (op_request op)) [ex_op 1] [?e]"
    "\<forall>op\<in>set [ex_op 1]. waiting op \<and> op_type_of (op_request op) \<noteq> OpCreateDir"
    "[?e] = map (\<lambda>e. e\<lparr>le_done := None\<rparr>) [?e]"
    using ex_logged(1) [of 1 None] by (simp_all add: ex_entry_def)
  from replicas_agree [OF byte_seq.iobuf_library_axioms fixed.pb_library_axioms e(1,2) refl e(3), of hex_lib "deva_new hex_lib"]
  show ?thesis by (elim exE conjE) (intro exI conjI)
qed

theorem follower_aborts_on_create_dir_witness:
  "rsm_on_apply hex_lib byte_seq_lib fixed_codec [ex_entry (RCreateDir (ex_file 1)) None] (deva_new hex_lib) = Abort ''unknown op type''"
  using follower_aborts_on_create_dir [OF byte_seq.iobuf_library_axioms fixed.pb_library_axioms, of "[]" "ex_file 1"
      "[ex_entry (RCreateDir (ex_file 1)) None]" hex_lib "[]" "deva_new hex_lib"] ex_logged(2) [of 1 None]
  by simp



text \<open>
  What a caller of the bridge gets: on a node that was not started it waits forever; when the
  raft library rejects the task it gets that status and the state machine is unchanged; when the task
  is committed it gets the status and the response of the handler, and the new state.
\<close>

theorem bridge_outcomes:
  assumes "op_encode K now pad rq [] = Done b"
  shows "(\<not> r_started r \<longrightarrow> bridge L K now pad res r rq = Done (Blocks, None, r)) \<and>
    (r_started r \<longrightarrow> \<not> st_ok st \<longrightarrow> bridge L K now pad (Rejected st) r rq = Done (Returns st, None, r)) \<and>
    (r_started r \<longrightarrow> deva_process L (r_container r) rq None = (st', resp, d') \<longrightarrow>
       bridge L K now pad (Committed i) r rq = Done (Returns st', resp, r\<lparr>r_container := d'\<rparr>))"
  using assms by (cases "deva_process L (r_container r) rq None") (simp add: bridge_eq)

theorem bridge_outcomes_witness:
  "bridge hex_lib fixed_codec 7 [0, 0, 0, 0] InFlight (rsm_new ''default'' (deva_new hex_lib)) RSealFile =
     Done (Blocks, None, rsm_new ''default'' (deva_new hex_lib))"
  using bridge_outcomes [of fixed_codec 7 "[0, 0, 0, 0]" RSealFile _ "rsm_new ''default'' (deva_new hex_lib)" hex_lib InFlight]
  by (simp add: rsm_new_def op_encode_def request_encode_def fixed_codec_def Let_def)

text \<open>
  Snapshots lose the state. Saving a snapshot succeeds without adding a file to it, so the raft library may drop the
  log up to it; a restarted node that is given this snapshot and then the entries \<open>es\<close> logged after it ends in the state
  that these entries alone lead to, whatever was logged before. In particular it has no path at all when there are none.
\<close>

theorem snapshot_loses_state:
  assumes "uuid_library L" "iobuf_library I" "pb_library K" "list_all2 (logged K) rqs es" "\<forall>e\<in>set es. le_done e = None"
    and "\<forall>rq\<in>set rqs. op_type_of rq \<noteq> OpCreateDir"
  shows "rsm_on_snapshot_save r [] = [] \<and>
    (\<exists>r'. rsm_on_snapshot_load (rsm_new g (deva_new L)) = Done (0, r') \<and>
       rsm_on_apply L I K es (r_container r') = Done ([], deva_apply L (deva_new L) rqs) \<and>
       (rqs = [] \<longrightarrow> (\<forall>cs. cs \<noteq> [] \<longrightarrow> ns_view L (d_namespace (deva_apply L (deva_new L) rqs)) cs = None)))"
  using follower_apply [OF assms(2-6)] deva_view_new [OF assms(1)]
  by (simp add: rsm_on_snapshot_save_def rsm_on_snapshot_load_def rsm_is_leader_def rsm_new_def)

theorem snapshot_loses_state_witness:
  "\<exists>d r'. deva_apply hex_lib (deva_new hex_lib) [RCreateFile (ex_file 1)] = d \<and>
     ns_view hex_lib (d_namespace d) [''a''] = Some (UUID 0 1, KFile) \<and>
     rsm_on_snapshot_save (rsm_new ''default'' d) [] = [] \<and>
     rsm_on_snapshot_load (rsm_new ''default'' (deva_new hex_lib)) = Done (0, r') \<and>
     rsm_on_apply hex_lib byte_seq_lib fixed_codec [] (r_container r') = Done ([], deva_new hex_lib) \<and>
     ns_view hex_lib (d_namespace (deva_new hex_lib)) [''a''] = None"
proof -
  let ?d = "deva_apply hex_lib (deva_new hex_lib) [RCreateFile (ex_file 1)]"
  have "ns_view hex_lib (d_namespace ?d) [''a''] = Some (UUID 0 1, KFile)" by code_simp
  with snapshot_loses_state [OF hexlib.uuid_library_axioms byte_seq.iobuf_library_axioms fixed.pb_library_axioms,
      of "[]" "[]" "rsm_new ''default'' ?d" "''default''"]
  show ?thesis by (auto simp: rsm_new_def)
qed

end
