(* ===== verification/Replication.thy ===== *)
theory Replication
  imports Rsm "HOL-Library.Multiset"
begin

text \<open>
  Metadata servers over one raft log. The raft library is external, and it is a parameter: the list \<open>log\<close> of the tasks it committed, the same for all
  nodes, and for every incarnation of a node the history of the calls it made on the state machine of the node. What the library documents of them is the
  predicate \<open>raft_hands\<close>: a node gets the entries of the log one after the other, each with its data and, where this incarnation proposed it, with its
  closure; a snapshot moves the position in the log, and is loaded only by a node that is not the leader. The closures that \<^verbatim>\<open>on_apply\<close> hands to threads
  run at any later time and in any order, which is also in the history. What a node does in a call is the code of \<^verbatim>\<open>src/deva/rsm.cc\<close> and
  \<^verbatim>\<open>src/deva/container_op.h\<close>, as in \<open>Rsm\<close>. A restarted node is a new incarnation, with a history of its own.
\<close>

section \<open>Tasks and calls\<close>

record raft_task =
  tk_data :: iobuf
  tk_op :: container_op

text \<open>The task that \<^verbatim>\<open>ContainerOp::apply\<close> gives to the raft library.\<close>

definition cop_task :: "pb_codec \<Rightarrow> u64 \<Rightarrow> iobuf \<Rightarrow> container_op \<Rightarrow> raft_task outcome" where
  "cop_task K now pad op = obind (op_encode K now pad (op_request op) []) (\<lambda>b. Done \<lparr>tk_data = b, tk_op = op\<rparr>)"

text \<open>The committed tasks are those of callers of the bridge; the raft library limits the size of an entry.\<close>

definition proposed :: "pb_codec \<Rightarrow> raft_task \<Rightarrow> bool" where
  "proposed K t \<longleftrightarrow> (\<exists>rq now pad. length pad = 4 \<and> cop_task K now pad (cop_new rq (Some None) (Some KFuture)) = Done t) \<and> length (tk_data t) < 2 ^ 32"

datatype callback =
    CApply "log_entry list" | CClosure nat | CSnapshotSave | CSnapshotLoad nat | CLeaderStart int | CLeaderStop

text \<open>
  A node: the state machine, the closures that were given to threads and have not run yet, the operations that were answered, and the files of the
  snapshots it saved. \<open>nd_ran\<close> are the indices of the entries it has run, in the order in which it ran them.
\<close>

record node =
  nd_rsm :: rsm
  nd_pending :: "(int \<times> container_op) list"
  nd_answers :: "(int \<times> container_op) list"
  nd_ran :: "int list"
  nd_saved :: "string list list"

definition node_new :: "uuid_lib \<Rightarrow> node" where
  "node_new L = \<lparr>nd_rsm = snd (rsm_start True (rsm_new ''default'' (deva_new L))), nd_pending = [], nd_answers = [], nd_ran = [], nd_saved = []\<rparr>"

section \<open>What a node does\<close>

definition others :: "log_entry list \<Rightarrow> int list" where
  "others es = map le_index (filter (\<lambda>e. le_done e = None) es)"

definition node_apply :: "uuid_lib \<Rightarrow> iobuf_lib \<Rightarrow> pb_codec \<Rightarrow> log_entry list \<Rightarrow> node \<Rightarrow> node outcome" where
  "node_apply L I K es nd =
     obind (rsm_on_apply L I K es (r_container (nd_rsm nd))) (\<lambda>(cs, d).
     Done (nd\<lparr>nd_rsm := (nd_rsm nd)\<lparr>r_container := d\<rparr>, nd_pending := nd_pending nd @ cs, nd_ran := nd_ran nd @ others es\<rparr>))"

definition node_closure :: "uuid_lib \<Rightarrow> nat \<Rightarrow> node \<Rightarrow> node outcome" where
  "node_closure L k nd =
     (case nd_pending nd ! k of (i, op) \<Rightarrow>
      obind (closure_run L status_OK op (r_container (nd_rsm nd))) (\<lambda>(op', d).
      Done (nd\<lparr>nd_rsm := (nd_rsm nd)\<lparr>r_container := d\<rparr>, nd_pending := take k (nd_pending nd) @ drop (Suc k) (nd_pending nd),
        nd_answers := nd_answers nd @ [(i, op')], nd_ran := nd_ran nd @ [i]\<rparr>)))"

fun node_do :: "uuid_lib \<Rightarrow> iobuf_lib \<Rightarrow> pb_codec \<Rightarrow> callback \<Rightarrow> node \<Rightarrow> node outcome" where
  "node_do L I K (CApply es) nd = node_apply L I K es nd"
| "node_do L I K (CClosure k) nd = node_closure L k nd"
| "node_do L I K CSnapshotSave nd = Done (nd\<lparr>nd_saved := nd_saved nd @ [rsm_on_snapshot_save (nd_rsm nd) []]\<rparr>)"
| "node_do L I K (CSnapshotLoad s) nd = obind (rsm_on_snapshot_load (nd_rsm nd)) (\<lambda>(_, r). Done (nd\<lparr>nd_rsm := r\<rparr>))"
| "node_do L I K (CLeaderStart term) nd = Done (nd\<lparr>nd_rsm := rsm_on_leader_start term ((nd_rsm nd)\<lparr>r_raft_leader := True\<rparr>)\<rparr>)"
| "node_do L I K CLeaderStop nd = Done (nd\<lparr>nd_rsm := rsm_on_leader_stop ((nd_rsm nd)\<lparr>r_raft_leader := False\<rparr>)\<rparr>)"

fun node_run :: "uuid_lib \<Rightarrow> iobuf_lib \<Rightarrow> pb_codec \<Rightarrow> callback list \<Rightarrow> node \<Rightarrow> node outcome" where
  "node_run L I K [] nd = Done nd"
| "node_run L I K (c # cs) nd = obind (node_do L I K c nd) (node_run L I K cs)"

section \<open>What the raft library promises\<close>

text \<open>The iterator at an entry; the first index of a raft log is 1.\<close>

definition entry_of :: "raft_task \<Rightarrow> nat \<Rightarrow> log_entry \<Rightarrow> bool" where
  "entry_of t j e \<longleftrightarrow> le_index e = int (Suc j) \<and> le_data e = tk_data t \<and> (le_done e = None \<or> le_done e = Some (tk_op t))"

fun entries_from :: "raft_task list \<Rightarrow> nat \<Rightarrow> log_entry list \<Rightarrow> bool" where
  "entries_from log pos [] \<longleftrightarrow> True"
| "entries_from log pos (e # es) \<longleftrightarrow> pos < length log \<and> entry_of (log ! pos) pos e \<and> entries_from log (Suc pos) es"

text \<open>\<open>pos\<close> entries are behind the node, \<open>p\<close> closures are pending, and \<open>ld\<close> says whether it is the leader.\<close>

fun raft_hands :: "raft_task list \<Rightarrow> nat \<Rightarrow> nat \<Rightarrow> bool \<Rightarrow> callback list \<Rightarrow> bool" where
  "raft_hands log pos p ld [] \<longleftrightarrow> True"
| "raft_hands log pos p ld (CApply es # cs) \<longleftrightarrow>
     entries_from log pos es \<and> raft_hands log (pos + length es) (p + length (filter (\<lambda>e. le_done e \<noteq> None) es)) ld cs"
| "raft_hands log pos p ld (CClosure k # cs) \<longleftrightarrow> k < p \<and> raft_hands log pos (p - 1) ld cs"
| "raft_hands log pos p ld (CSnapshotSave # cs) \<longleftrightarrow> raft_hands log pos p ld cs"
| "raft_hands log pos p ld (CSnapshotLoad s # cs) \<longleftrightarrow> \<not> ld \<and> pos \<le> s \<and> s \<le> length log \<and> raft_hands log s p ld cs"
| "raft_hands log pos p ld (CLeaderStart term # cs) \<longleftrightarrow> raft_hands log pos p True cs"
| "raft_hands log pos p ld (CLeaderStop # cs) \<longleftrightarrow> raft_hands log pos p False cs"

text \<open>The indices of the entries a node was handed, and of those among them that came with a closure.\<close>

fun handed :: "callback list \<Rightarrow> int list" where
  "handed [] = []"
| "handed (CApply es # cs) = map le_index es @ handed cs"
| "handed (c # cs) = handed cs"

definition own :: "log_entry list \<Rightarrow> int list" where
  "own es = map le_index (filter (\<lambda>e. le_done e \<noteq> None) es)"

fun handed_own :: "callback list \<Rightarrow> int list" where
  "handed_own [] = []"
| "handed_own (CApply es # cs) = own es @ handed_own cs"
| "handed_own (c # cs) = handed_own cs"

section \<open>The abstract server\<close>

text \<open>One metadata server that runs the entries with the given indices alone: its state, and its answer to the entry \<open>i\<close> after the entries \<open>js\<close>.\<close>

definition op_at :: "raft_task list \<Rightarrow> int \<Rightarrow> container_op" where
  "op_at log i = tk_op (log ! nat (i - 1))"

definition serve :: "uuid_lib \<Rightarrow> raft_task list \<Rightarrow> int list \<Rightarrow> deva" where
  "serve L log js = deva_apply L (deva_new L) (map (\<lambda>i. op_request (op_at log i)) js)"

definition answer :: "uuid_lib \<Rightarrow> raft_task list \<Rightarrow> int list \<Rightarrow> int \<Rightarrow> container_op" where
  "answer L log js i = (case deva_process L (serve L log js) (op_request (op_at log i)) None of (st, resp, d) \<Rightarrow> answered (op_at log i) st resp)"

section \<open>The invariant\<close>

definition node_inv :: "uuid_lib \<Rightarrow> raft_task list \<Rightarrow> int list \<Rightarrow> int list \<Rightarrow> node \<Rightarrow> bool" where
  "node_inv L log hs ms nd \<longleftrightarrow>
     mset (nd_ran nd) + mset (map fst (nd_pending nd)) = mset hs \<and> mset (map fst (nd_answers nd)) + mset (map fst (nd_pending nd)) = mset ms \<and>
     r_container (nd_rsm nd) = serve L log (nd_ran nd) \<and> (\<forall>(i, op) \<in> set (nd_pending nd). op = op_at log i \<and> waiting op) \<and>
     (\<forall>(i, op) \<in> set (nd_answers nd). \<exists>us vs. nd_ran nd = us @ i # vs \<and> op = answer L log us i) \<and> (\<forall>fs \<in> set (nd_saved nd). fs = [])"

lemma deva_apply_append: "deva_apply L d (xs @ ys) = deva_apply L (deva_apply L d xs) ys"
  by (induction xs arbitrary: d) simp_all

lemma serve_append: "serve L log (js @ is) = deva_apply L (serve L log js) (map (\<lambda>i. op_request (op_at log i)) is)"
  by (simp add: serve_def deva_apply_append)

lemma op_at_entry: "entry_of (log ! j) j e \<Longrightarrow> op_at log (le_index e) = tk_op (log ! j)"
  by (simp add: entry_of_def op_at_def)

lemma proposed_entry:
  assumes "proposed K t" "entry_of t j e"
  shows "logged K (op_request (tk_op t)) e" "waiting (tk_op t)"
proof -
  obtain rq now pad where t: "length pad = 4" "cop_task K now pad (cop_new rq (Some None) (Some KFuture)) = Done t" "length (tk_data t) < 2 ^ 32"
    using assms(1) by (auto simp: proposed_def)
  then have op: "tk_op t = cop_new rq (Some None) (Some KFuture)" "op_encode K now pad rq [] = Done (tk_data t)"
    by (auto simp: cop_task_def outcome_simps)
  then show "logged K (op_request (tk_op t)) e" "waiting (tk_op t)"
    using t(1,3) assms(2) by (auto simp: logged_def entry_of_def)
qed

abbreviation has_dir :: "raft_task list \<Rightarrow> bool" where
  "has_dir log \<equiv> \<exists>t \<in> set log. op_type_of (op_request (tk_op t)) = OpCreateDir"

text \<open>A batch: the entries without a closure are run in their order, the others are pending.\<close>

lemma apply_batch:
  assumes "iobuf_library I" "pb_library K" "\<forall>t \<in> set log. proposed K t" "entries_from log pos es"
  shows "case rsm_on_apply L I K es d of Abort m \<Rightarrow> has_dir log
    | Done (cs, d') \<Rightarrow> map fst cs = own es \<and> (\<forall>(i, op) \<in> set cs. op = op_at log i \<and> waiting op) \<and>
        d' = deva_apply L d (map (\<lambda>i. op_request (op_at log i)) (others es))"
  using assms(4)
proof (induction es arbitrary: pos d)
  case (Cons e es)
  let ?t = "log ! pos"
  have e: "entry_of ?t pos e" "?t \<in> set log" using Cons.prems by simp_all
  note P = proposed_entry [OF bspec [OF assms(3) e(2)] e(1)] and at = op_at_entry [OF e(1)]
  show ?case
  proof (cases "le_done e")
    case (Some op)
    then have "op = tk_op ?t" using e(1) by (simp add: entry_of_def)
    with Some Cons.IH [of "Suc pos" d] Cons.prems P(2) at show ?thesis
      by (cases "rsm_on_apply L I K es d") (auto simp: own_def others_def)
  next
    case None
    show ?thesis
    proof (cases "op_type_of (op_request (tk_op ?t)) = OpCreateDir")
      case True
      then show ?thesis using None logged_decode [OF assms(1,2) P(1)] e(2) by auto
    next
      case False
      let ?d = "snd (snd (deva_process L d (op_request (tk_op ?t)) None))"
      have "rsm_on_apply L I K (e # es) d = rsm_on_apply L I K es ?d"
        using None False logged_decode [OF assms(1,2) P(1)] by (simp add: cop_on_apply_decoded)
      moreover have "own (e # es) = own es" "others (e # es) = le_index e # others es" using None by (simp_all add: own_def others_def)
      ultimately show ?thesis using Cons.IH [of "Suc pos" ?d] Cons.prems at
        by (cases "rsm_on_apply L I K es ?d") (auto simp del: rsm_on_apply.simps)
    qed
  qed
qed (simp add: own_def others_def)

lemma mset_others_own: "mset (others es) + mset (own es) = mset (map le_index es)"
  by (induction es) (auto simp: others_def own_def)

lemma mset_drop_nth: "k < length xs \<Longrightarrow> add_mset (fst (xs ! k)) (mset (map fst (take k xs @ drop (Suc k) xs))) = mset (map fst xs)"
  using arg_cong [OF id_take_nth_drop [of k xs], of "\<lambda>ys. mset (map fst ys)"] by simp

lemma run_apply:
  assumes "iobuf_library I" "pb_library K" "\<forall>t \<in> set log. proposed K t" "entries_from log pos es" "node_inv L log hs ms nd"
  shows "case node_apply L I K es nd of Abort m \<Rightarrow> has_dir log
    | Done nd' \<Rightarrow> node_inv L log (hs @ map le_index es) (ms @ own es) nd' \<and>
        length (nd_pending nd') = length (nd_pending nd) + length (filter (\<lambda>e. le_done e \<noteq> None) es) \<and> r_raft_leader (nd_rsm nd') = r_raft_leader (nd_rsm nd)"
proof (cases "rsm_on_apply L I K es (r_container (nd_rsm nd))")
  case (Abort m)
  then show ?thesis using apply_batch [OF assms(1-4), of L "r_container (nd_rsm nd)"] by (simp add: node_apply_def)
next
  case (Done x)
  obtain cs d where x: "x = (cs, d)" by fastforce
  with Done apply_batch [OF assms(1-4), of L "r_container (nd_rsm nd)"] have b: "map fst cs = own es"
    "\<forall>(i, op) \<in> set cs. op = op_at log i \<and> waiting op" "d = deva_apply L (r_container (nd_rsm nd)) (map (\<lambda>i. op_request (op_at log i)) (others es))"
    by simp_all
  have "mset hs = mset (nd_ran nd) + mset (map fst (nd_pending nd))" using assms(5) by (simp add: node_inv_def)
  then have "mset (nd_ran nd @ others es) + mset (map fst (nd_pending nd @ cs)) = mset (hs @ map le_index es)"
    unfolding map_append b(1) mset_append mset_others_own [symmetric] by (simp add: ac_simps)
  moreover have "\<exists>us vs. nd_ran nd @ others es = us @ i # vs \<and> op = answer L log us i" if "(i, op) \<in> set (nd_answers nd)" for i op
    using assms(5) that unfolding node_inv_def by fastforce
  moreover have "length cs = length (filter (\<lambda>e. le_done e \<noteq> None) es)" using arg_cong [OF b(1), of length] by (simp add: own_def)
  ultimately show ?thesis using assms(5) b Done x by (auto simp: node_apply_def node_inv_def serve_append)
qed

lemma run_closure:
  assumes "node_inv L log hs ms nd" "k < length (nd_pending nd)"
  shows "\<exists>nd'. node_closure L k nd = Done nd' \<and> node_inv L log hs ms nd' \<and> length (nd_pending nd') = length (nd_pending nd) - 1 \<and>
    r_raft_leader (nd_rsm nd') = r_raft_leader (nd_rsm nd)"
proof -
  let ?ps = "nd_pending nd"
  obtain i op where p: "?ps ! k = (i, op)" by fastforce
  have "(i, op) \<in> set ?ps" using nth_mem [OF assms(2)] p by simp
  then have op: "op = op_at log i" "waiting op" using assms(1) by (auto simp: node_inv_def)
  obtain st resp d where d: "deva_process L (serve L log (nd_ran nd)) (op_request op) None = (st, resp, d)" by (metis prod_cases3)
  have c: "r_container (nd_rsm nd) = serve L log (nd_ran nd)" using assms(1) by (simp add: node_inv_def)
  let ?nd = "nd\<lparr>nd_rsm := (nd_rsm nd)\<lparr>r_container := d\<rparr>, nd_pending := take k ?ps @ drop (Suc k) ?ps,
      nd_answers := nd_answers nd @ [(i, answered op st resp)], nd_ran := nd_ran nd @ [i]\<rparr>"
  have run: "node_closure L k nd = Done ?nd"
    using closure_run_waiting [OF op(2) d, of status_OK] p c by (simp add: node_closure_def)
  have ms: "add_mset i (mset (map fst (take k ?ps @ drop (Suc k) ?ps))) = mset (map fst ?ps)" using mset_drop_nth [OF assms(2)] p by simp
  have "mset (nd_ran nd @ [i]) + mset (map fst (take k ?ps @ drop (Suc k) ?ps)) = mset hs"
    "mset (map fst (nd_answers nd @ [(i, answered op st resp)])) + mset (map fst (take k ?ps @ drop (Suc k) ?ps)) = mset ms"
    using assms(1) ms [symmetric] unfolding node_inv_def by (auto simp: ac_simps)
  moreover have "d = serve L log (nd_ran nd @ [i])" using d op(1) by (simp add: serve_append)
  moreover have "set (take k ?ps @ drop (Suc k) ?ps) \<subseteq> set ?ps" by (auto dest: in_set_takeD in_set_dropD)
  moreover have "\<exists>us vs. nd_ran nd @ [i] = us @ j # vs \<and> op' = answer L log us j" if "(j, op') \<in> set (nd_answers nd @ [(i, answered op st resp)])" for j op'
  proof (cases "(j, op') \<in> set (nd_answers nd)")
    case True
    then show ?thesis using assms(1) unfolding node_inv_def by fastforce
  next
    case False
    then have "j = i" "op' = answer L log (nd_ran nd) i" using that d op(1) by (auto simp: answer_def)
    then show ?thesis by blast
  qed
  ultimately have "node_inv L log hs ms ?nd" using assms(1) unfolding node_inv_def by (auto simp del: set_append)
  then show ?thesis using run assms(2) by auto
qed

text \<open>A whole history.\<close>

definition run_ok :: "uuid_lib \<Rightarrow> raft_task list \<Rightarrow> int list \<Rightarrow> int list \<Rightarrow> node outcome \<Rightarrow> bool" where
  "run_ok L log hs ms r \<longleftrightarrow> (case r of Abort m \<Rightarrow> has_dir log | Done nd \<Rightarrow> node_inv L log hs ms nd)"

lemma run_inv:
  assumes "iobuf_library I" "pb_library K" "\<forall>t \<in> set log. proposed K t"
  shows "raft_hands log pos (length (nd_pending nd)) (r_raft_leader (nd_rsm nd)) cs \<Longrightarrow> node_inv L log hs ms nd \<Longrightarrow>
    run_ok L log (hs @ handed cs) (ms @ handed_own cs) (node_run L I K cs nd)"
proof (induction cs arbitrary: pos hs ms nd)
  case (Cons c cs)
  show ?case
  proof (cases c)
    case (CApply es)
    have run: "case node_apply L I K es nd of Abort m \<Rightarrow> has_dir log
      | Done nd' \<Rightarrow> node_inv L log (hs @ map le_index es) (ms @ own es) nd' \<and>
        length (nd_pending nd') = length (nd_pending nd) + length (filter (\<lambda>e. le_done e \<noteq> None) es) \<and> r_raft_leader (nd_rsm nd') = r_raft_leader (nd_rsm nd)"
      using Cons.prems CApply by (intro run_apply [OF assms, of pos]) simp_all
    show ?thesis
    proof (cases "node_apply L I K es nd")
      case (Done nd')
      with run Cons.IH [of "pos + length es" nd' "hs @ map le_index es" "ms @ own es"] Cons.prems(1) CApply show ?thesis by simp
    qed (use run CApply in \<open>simp add: run_ok_def\<close>)
  next
    case (CClosure k)
    then obtain nd' where "node_closure L k nd = Done nd'" "node_inv L log hs ms nd'" "length (nd_pending nd') = length (nd_pending nd) - 1"
      "r_raft_leader (nd_rsm nd') = r_raft_leader (nd_rsm nd)"
      using run_closure [OF Cons.prems(2), of k] Cons.prems(1) by auto
    with Cons.IH [of pos nd' hs ms] Cons.prems(1) CClosure show ?thesis by simp
  next
    case CSnapshotSave
    let ?nd = "nd\<lparr>nd_saved := nd_saved nd @ [rsm_on_snapshot_save (nd_rsm nd) []]\<rparr>"
    have "node_inv L log hs ms ?nd" using Cons.prems(2) by (auto simp: node_inv_def rsm_on_snapshot_save_def)
    with Cons.IH [of pos ?nd hs ms] Cons.prems(1) CSnapshotSave show ?thesis by simp
  next
    case (CSnapshotLoad s)
    then have "node_do L I K c nd = Done nd" using Cons.prems(1) by (simp add: rsm_on_snapshot_load_def rsm_is_leader_def)
    with Cons.IH [of s nd hs ms] Cons.prems CSnapshotLoad show ?thesis by auto
  next
    case (CLeaderStart tm)
    let ?nd = "nd\<lparr>nd_rsm := rsm_on_leader_start tm ((nd_rsm nd)\<lparr>r_raft_leader := True\<rparr>)\<rparr>"
    have "node_inv L log hs ms ?nd" using Cons.prems(2) by (auto simp: node_inv_def rsm_on_leader_start_def)
    with Cons.IH [of pos ?nd hs ms] Cons.prems(1) CLeaderStart show ?thesis by (simp add: rsm_on_leader_start_def)
  next
    case CLeaderStop
    let ?nd = "nd\<lparr>nd_rsm := rsm_on_leader_stop ((nd_rsm nd)\<lparr>r_raft_leader := False\<rparr>)\<rparr>"
    have "node_inv L log hs ms ?nd" using Cons.prems(2) by (auto simp: node_inv_def rsm_on_leader_stop_def)
    with Cons.IH [of pos ?nd hs ms] Cons.prems(1) CLeaderStop show ?thesis by (simp add: rsm_on_leader_stop_def)
  qed
qed (simp add: run_ok_def)

lemma node_new_sels [simp]: "nd_pending (node_new L) = []" "\<not> r_raft_leader (nd_rsm (node_new L))"
  by (simp_all add: node_new_def rsm_start_def rsm_new_def)

lemma node_new_inv: "node_inv L log [] [] (node_new L)"
  by (simp add: node_inv_def node_new_def rsm_start_def rsm_new_def serve_def)

lemma history_inv:
  assumes "iobuf_library I" "pb_library K" "\<forall>t \<in> set log. proposed K t" "raft_hands log 0 0 False cs"
  shows "run_ok L log (handed cs) (handed_own cs) (node_run L I K cs (node_new L))"
  using run_inv [OF assms(1-3), of 0 "node_new L" cs L "[]" "[]"] assms(4) node_new_inv [of L log] by simp

text \<open>The indices a node is handed increase.\<close>

lemma entries_index: "entries_from log pos es \<Longrightarrow> map le_index es = map int [Suc pos..<Suc (pos + length es)]"
proof (induction es arbitrary: pos)
  case (Cons e es)
  have "[Suc pos..<Suc (pos + length (e # es))] = Suc pos # [Suc (Suc pos)..<Suc (Suc pos + length es)]" by (simp add: upt_conv_Cons del: upt_Suc)
  then show ?case using Cons.IH [of "Suc pos"] Cons.prems by (simp add: entry_of_def del: upt_Suc)
qed simp

lemma entries_length: "entries_from log pos es \<Longrightarrow> pos \<le> length log \<Longrightarrow> pos + length es \<le> length log"
  by (induction es arbitrary: pos) fastforce+

lemma handed_range:
  "raft_hands log pos p ld cs \<Longrightarrow> pos \<le> length log \<Longrightarrow> distinct (handed cs) \<and> (\<forall>i \<in> set (handed cs). int pos < i \<and> i \<le> int (length log))"
proof (induction log pos p ld cs rule: raft_hands.induct)
  case (2 log pos p ld es cs)
  then have e: "entries_from log pos es" by simp
  note L = entries_length [OF e 2(3)]
  have ids: "distinct (map le_index es)" "\<forall>i \<in> set (map le_index es). int pos < i \<and> i \<le> int (pos + length es)"
    unfolding entries_index [OF e] by (auto simp: distinct_map)
  moreover have "distinct (handed cs) \<and> (\<forall>i \<in> set (handed cs). int (pos + length es) < i \<and> i \<le> int (length log))"
    using 2 L by simp
  ultimately show ?case using L by (fastforce simp del: set_map)
qed fastforce+

section \<open>Paths\<close>

text \<open>The path a request can create, with its inode.\<close>

definition new_path :: "file_type \<Rightarrow> create_request \<Rightarrow> string list \<times> uuid \<times> file_type" where
  "new_path t rq = (parse_components (c_str (path_parent (cr_path rq))) @ [path_filename (cr_path rq)], cr_id rq, t)"

fun created :: "deva_request \<Rightarrow> (string list \<times> uuid \<times> file_type) list" where
  "created (RCreateFile rq) = [new_path KFile rq]"
| "created (RCreateDir rq) = [new_path KDirectory rq]"
| "created _ = []"

definition log_requests :: "raft_task list \<Rightarrow> deva_request list" where
  "log_requests log = map (\<lambda>t. op_request (tk_op t)) log"

lemma handler_view:
  assumes "uuid_library L" "deva_inv L d" "ns_fresh L (d_namespace d) (cr_id rq)"
    and "create_handler L t d rq resp = (st, resp', d')" "deva_view L d' cs = Some v"
  shows "deva_view L d cs = Some v \<or> (cs, v) = new_path t rq"
proof -
  have inv: "ns_inv L (d_namespace d)" using assms(2) by (simp add: deva_inv_def)
  from assms(1) inv assms(3) show ?thesis
  proof (cases rule: deva_create_cases [where p = "cr_path rq" and t = t])
    case (1 st')
    then show ?thesis using assms(4,5) by (auto simp: create_handler_def)
  next
    case (2 ds dir n')
    have "d_namespace d' = n'" using assms(4) 2(1) by (auto simp: create_handler_def)
    then have v: "ns_view L n' cs = Some v" using assms(5) by simp
    have "deva_view L d cs = Some v \<or> cs = ds @ [path_filename (cr_path rq)] \<and> v = (cr_id rq, t)"
      using v unfolding 2(5) Let_def by (auto split: if_splits)
    then show ?thesis unfolding 2(3) new_path_def by blast
  qed
qed

lemma process_view:
  assumes "uuid_library L" "deva_inv L d" "\<forall>u\<in>set (req_ids rq). ns_fresh L (d_namespace d) u"
    and "deva_process L d rq None = (st, resp, d')" "deva_view L d' cs = Some v"
  shows "deva_view L d cs = Some v \<or> (cs, v) \<in> set (created rq)"
proof (cases rq)
  case (RCreateFile cr)
  then show ?thesis using handler_view [OF assms(1,2), of cr KFile None st resp d' cs v] assms(3-5) by (auto simp: create_handlers)
next
  case (RCreateDir cr)
  then show ?thesis using handler_view [OF assms(1,2), of cr KDirectory None st resp d' cs v] assms(3-5) by (auto simp: create_handlers)
qed (use assms(4,5) in \<open>auto simp: deva_RemoveFile_def deva_SealFile_def deva_CreateChunk_def
    deva_CheckInChunk_def deva_SealChunk_def deva_SealAndNewChunk_def\<close>)

lemma apply_view:
  assumes "uuid_library L" "deva_inv L d" "fresh_log L d rqs" "deva_view L (deva_apply L d rqs) cs = Some v"
  shows "deva_view L d cs = Some v \<or> (\<exists>rq \<in> set rqs. (cs, v) \<in> set (created rq))"
  using assms(2-4)
proof (induction rqs arbitrary: d)
  case (Cons rq rqs)
  obtain st resp d' where p: "deva_process L d rq None = (st, resp, d')" by (metis prod_cases3)
  have fr: "\<forall>u\<in>set (req_ids rq). ns_fresh L (d_namespace d) u" using Cons.prems(2) by (auto simp: fresh_log_def)
  have "fresh_log L d' rqs" using fresh_log_Cons [OF assms(1) Cons.prems(1,2), of None] p by simp
  with Cons.IH [of d'] process_inv(1) [OF assms(1) Cons.prems(1) fr p] process_view [OF assms(1) Cons.prems(1) fr p, of cs v] Cons.prems(3)
  show ?case by (auto simp: p)
qed simp

lemma distinct_concat_nth:
  assumes "distinct (concat xss)" "a < length xss" "b < length xss" "x \<in> set (xss ! a)" "x \<in> set (xss ! b)"
  shows "a = b"
  using assms
proof (induction xss arbitrary: a b)
  case (Cons xs xss)
  then show ?case by (cases a; cases b) (auto simp: disjoint_iff dest: nth_mem)
qed simp

lemma distinct_concat_sub:
  assumes "distinct (concat xss)" "distinct js" "\<forall>j \<in> set js. j < length xss"
  shows "distinct (concat (map ((!) xss) js))"
  using assms(2,3)
proof (induction js)
  case (Cons j js)
  have "distinct (xss ! j)" using assms(1) Cons.prems(2) nth_mem by (fastforce simp: distinct_concat_iff)
  moreover have "x \<notin> set (xss ! k)" if "x \<in> set (xss ! j)" "k \<in> set js" for x k
    using distinct_concat_nth [OF assms(1), of j k x] that Cons.prems by auto
  ultimately show ?case using Cons by auto
qed simp

text \<open>The requests a node has run are among those of the log, each at most once.\<close>

definition in_log :: "raft_task list \<Rightarrow> int list \<Rightarrow> bool" where
  "in_log log js \<longleftrightarrow> distinct js \<and> (\<forall>i \<in> set js. 0 < i \<and> i \<le> int (length log))"

lemma ran_in_log:
  assumes "node_inv L log (handed cs) ms nd" "raft_hands log 0 0 False cs"
  shows "in_log log (nd_ran nd)" "set (nd_ran nd) \<subseteq> set (handed cs)"
proof -
  have "mset (nd_ran nd @ map fst (nd_pending nd)) = mset (handed cs)" using assms(1) by (simp add: node_inv_def)
  then have "set (nd_ran nd @ map fst (nd_pending nd)) = set (handed cs)" "distinct (nd_ran nd @ map fst (nd_pending nd)) \<longleftrightarrow> distinct (handed cs)"
    using mset_eq_setD mset_eq_imp_distinct_iff by blast+
  then show "in_log log (nd_ran nd)" "set (nd_ran nd) \<subseteq> set (handed cs)" using handed_range [OF assms(2)] by (auto simp: in_log_def)
qed

lemma request_at: "0 < i \<Longrightarrow> i \<le> int (length log) \<Longrightarrow> op_request (op_at log i) = log_requests log ! nat (i - 1)"
  by (simp add: op_at_def log_requests_def)

lemma serve_requests: "in_log log js \<Longrightarrow> serve L log js = deva_apply L (deva_new L) (map (\<lambda>i. log_requests log ! nat (i - 1)) js)"
  unfolding serve_def in_log_def by (rule arg_cong [of _ _ "deva_apply L (deva_new L)"]) (simp add: request_at)

lemma fresh_ran:
  assumes "fresh_log L d (log_requests log)" "in_log log js"
  shows "fresh_log L d (map (\<lambda>i. log_requests log ! nat (i - 1)) js)"
proof -
  let ?rqs = "log_requests log" and ?js = "map (\<lambda>i. nat (i - 1)) js"
  have js: "distinct ?js" "\<forall>j \<in> set ?js. j < length (map req_ids ?rqs)"
    using assms(2) by (auto simp: in_log_def distinct_map inj_on_def log_requests_def nat_eq_iff)
  have ids: "map req_ids (map (\<lambda>i. ?rqs ! nat (i - 1)) js) = map ((!) (map req_ids ?rqs)) ?js"
    using js(2) by (simp add: o_def)
  have "distinct (concat (map ((!) (map req_ids ?rqs)) ?js))" using assms(1) js by (intro distinct_concat_sub) (auto simp: fresh_log_def)
  moreover have "set (concat (map ((!) (map req_ids ?rqs)) ?js)) \<subseteq> set (concat (map req_ids ?rqs))" using js(2) by (auto dest: nth_mem)
  ultimately show ?thesis using assms(1) unfolding fresh_log_def ids by blast
qed

lemma ran_view:
  assumes "uuid_library L" "fresh_log L (deva_new L) (log_requests log)" "in_log log js" "deva_view L (serve L log js) cs = Some v"
  shows "deva_view L (deva_new L) cs = Some v \<or> (\<exists>i \<in> set js. (cs, v) \<in> set (created (log_requests log ! nat (i - 1))))"
    "deva_view L (deva_new L) cs = Some v' \<Longrightarrow> v = v'"
proof -
  note F = fresh_ran [OF assms(2,3)] and N = deva_inv_new [OF assms(1)] and S = serve_requests [OF assms(3), of L]
  show "deva_view L (deva_new L) cs = Some v \<or> (\<exists>i \<in> set js. (cs, v) \<in> set (created (log_requests log ! nat (i - 1))))"
    using apply_view [OF assms(1) N F, of cs v] assms(4) S by auto
  show "v = v'" if "deva_view L (deva_new L) cs = Some v'"
    using apply_inv [OF assms(1) N F] that assms(4) S by (auto simp: map_le_def dom_def)
qed

text \<open>The suffix of a log with new UUIDs, after its prefix.\<close>

lemma fresh_log_append:
  assumes "uuid_library L" "deva_inv L d" "fresh_log L d (xs @ ys)"
  shows "fresh_log L (deva_apply L d xs) ys \<and> deva_inv L (deva_apply L d xs)"
  using assms(2,3)
proof (induction xs arbitrary: d)
  case (Cons x xs)
  obtain st resp d' where p: "deva_process L d x None = (st, resp, d')" by (metis prod_cases3)
  have "\<forall>u\<in>set (req_ids x). ns_fresh L (d_namespace d) u" using Cons.prems(2) by (auto simp: fresh_log_def)
  from process_inv(1) [OF assms(1) Cons.prems(1) this p] fresh_log_Cons [OF assms(1) Cons.prems(1), of x "xs @ ys" None] Cons.prems(2)
  show ?case using Cons.IH [of d'] by (simp add: p)
qed simp

text \<open>Runs in the order of the log: the later one has every path of the earlier one.\<close>

lemma serve_grows:
  assumes "uuid_library L" "fresh_log L (deva_new L) (log_requests log)" "m \<le> m'" "in_log log (map int [1..<Suc m'])"
  shows "deva_view L (serve L log (map int [1..<Suc m])) \<subseteq>\<^sub>m deva_view L (serve L log (map int [1..<Suc m']))"
proof -
  let ?xs = "map int [1..<Suc m]" and ?ys = "map int [Suc m..<Suc m']" and ?rq = "\<lambda>i. log_requests log ! nat (i - 1)"
  have eq: "map int [1..<Suc m'] = ?xs @ ?ys"
    using upt_add_eq_append [of 1 "Suc m" "m' - m"] assms(3) by (simp del: upt_Suc flip: map_append)
  have fr: "fresh_log L (deva_new L) (map ?rq ?xs @ map ?rq ?ys)" using fresh_ran [OF assms(2,4)] unfolding eq map_append .
  have "in_log log ?xs" using assms(4) unfolding eq by (auto simp: in_log_def simp del: upt_Suc)
  then have "serve L log ?xs = deva_apply L (deva_new L) (map ?rq ?xs)"
    "serve L log (map int [1..<Suc m']) = deva_apply L (serve L log ?xs) (map ?rq ?ys)"
    using serve_requests [OF assms(4), of L] serve_requests [of log ?xs L] unfolding eq map_append deva_apply_append by auto
  moreover have "fresh_log L (deva_apply L (deva_new L) (map ?rq ?xs)) (map ?rq ?ys) \<and> deva_inv L (deva_apply L (deva_new L) (map ?rq ?xs))"
    using fresh_log_append [OF assms(1) deva_inv_new [OF assms(1)] fr] .
  ultimately show ?thesis using apply_inv [OF assms(1)] by metis
qed

section \<open>Properties\<close>

text \<open>
  C8: a metadata server of a raft group refines one server that runs alone. Whatever calls the raft library makes, as far as it hands out the entries of the log
  one after the other, and in whatever order threads run the closures, with snapshots and changes of the leader: every entry the node was handed was run exactly once or its
  closure is still pending; the node has the state of a server that runs these entries alone, in the order in which the node ran them; every caller whose
  operation is no longer pending was answered exactly once, with the status and the response that this server gives at that point. The node aborts only if the log
  creates a directory.
\<close>

theorem group_refines_log:
  assumes "iobuf_library I" "pb_library K" "\<forall>t \<in> set log. proposed K t" "raft_hands log 0 0 False cs"
  shows "case node_run L I K cs (node_new L) of
      Abort m \<Rightarrow> \<exists>t \<in> set log. op_type_of (op_request (tk_op t)) = OpCreateDir
    | Done nd \<Rightarrow> distinct (handed cs) \<and> mset (nd_ran nd) + mset (map fst (nd_pending nd)) = mset (handed cs) \<and>
        r_container (nd_rsm nd) = serve L log (nd_ran nd) \<and> mset (map fst (nd_answers nd)) + mset (map fst (nd_pending nd)) = mset (handed_own cs) \<and>
        (\<forall>(i, op) \<in> set (nd_answers nd). \<exists>us vs. nd_ran nd = us @ i # vs \<and> op = answer L log us i)"
  using history_inv [OF assms, of L] handed_range [OF assms(4)]
  by (cases "node_run L I K cs (node_new L)") (simp_all add: run_ok_def node_inv_def)

text \<open>
  C9: two nodes of a group never disagree on a path that was created once. For any two histories of calls over one log whose requests have new UUIDs, with closures in any
  order and snapshots, a path that resolves on both nodes leads to the same inode on both, however far each of them has come, if no path is created twice in
  the log. If paths are created twice this holds as long as both nodes ran the entries from the beginning in the order of the log.
\<close>

theorem replicas_never_conflict:
  assumes "iobuf_library I" "pb_library K" "\<forall>t \<in> set log. proposed K t" "uuid_library L" "fresh_log L (deva_new L) (log_requests log)"
    and "raft_hands log 0 0 False cs1" "node_run L I K cs1 (node_new L) = Done nd1" "raft_hands log 0 0 False cs2" "node_run L I K cs2 (node_new L) = Done nd2"
    and "distinct (concat (map (map fst \<circ> created) (log_requests log))) \<or> nd_ran nd1 = map int [1..<Suc m1] \<and> nd_ran nd2 = map int [1..<Suc m2]"
    and "ns_view L (d_namespace (r_container (nd_rsm nd1))) path = Some v1" "ns_view L (d_namespace (r_container (nd_rsm nd2))) path = Some v2"
  shows "v1 = v2"
proof -
  have inv: "node_inv L log (handed cs1) (handed_own cs1) nd1" "node_inv L log (handed cs2) (handed_own cs2) nd2"
    using history_inv [OF assms(1-3,6), of L] history_inv [OF assms(1-3,8), of L] assms(7,9) by (simp_all add: run_ok_def)
  note in1 = ran_in_log(1) [OF inv(1) assms(6)] and in2 = ran_in_log(1) [OF inv(2) assms(8)]
  have v: "deva_view L (serve L log (nd_ran nd1)) path = Some v1" "deva_view L (serve L log (nd_ran nd2)) path = Some v2"
    using assms(11,12) inv by (simp_all add: node_inv_def)
  note V1 = ran_view [OF assms(4,5) in1 v(1)] and V2 = ran_view [OF assms(4,5) in2 v(2)]
  show ?thesis
    using assms(10)
  proof
    assume d: "distinct (concat (map (map fst \<circ> created) (log_requests log)))"
    show ?thesis
    proof (cases "deva_view L (deva_new L) path")
      case None
      obtain i j where ij: "i \<in> set (nd_ran nd1)" "(path, v1) \<in> set (created (log_requests log ! nat (i - 1)))"
        "j \<in> set (nd_ran nd2)" "(path, v2) \<in> set (created (log_requests log ! nat (j - 1)))" using V1(1) V2(1) None by auto
      have n: "nat (i - 1) < length (log_requests log)" "nat (j - 1) < length (log_requests log)"
        using in1 in2 ij(1,3) by (auto simp: in_log_def log_requests_def)
      have "path \<in> set (map (map fst \<circ> created) (log_requests log) ! nat (i - 1))" "path \<in> set (map (map fst \<circ> created) (log_requests log) ! nat (j - 1))"
        using ij(2,4) n by force+
      then have "nat (i - 1) = nat (j - 1)" using distinct_concat_nth [OF d, of "nat (i - 1)" "nat (j - 1)" path] n by simp
      then show ?thesis using ij(2,4) by (cases "log_requests log ! nat (j - 1)") (auto simp: new_path_def)
    qed (use V1(2) V2(2) in blast)
  next
    assume o: "nd_ran nd1 = map int [1..<Suc m1] \<and> nd_ran nd2 = map int [1..<Suc m2]"
    then have "deva_view L (serve L log (nd_ran nd1)) \<subseteq>\<^sub>m deva_view L (serve L log (nd_ran nd2)) \<or>
      deva_view L (serve L log (nd_ran nd2)) \<subseteq>\<^sub>m deva_view L (serve L log (nd_ran nd1))"
      using serve_grows [OF assms(4,5), of m1 m2] serve_grows [OF assms(4,5), of m2 m1] in1 in2 nle_le [of m1 m2] by auto
    then show ?thesis using v unfolding map_le_def by (metis domI option.inject)
  qed
qed

text \<open>
  C34: snapshots lose what they cover. Every snapshot that any node saves is without a file, and on a node that begins with a snapshot that covers the entry \<open>i\<close>,
  whatever the node is handed and runs afterwards, no path leads to the inode that the entry \<open>i\<close> created; so a path that leads to it on another
  node leads elsewhere or nowhere on this one.
\<close>

theorem snapshot_splits_group:
  assumes "iobuf_library I" "pb_library K" "\<forall>t \<in> set log. proposed K t" "uuid_library L" "fresh_log L (deva_new L) (log_requests log)"
    and "raft_hands log 0 0 False cs1" "node_run L I K cs1 (node_new L) = Done nd1"
    and "raft_hands log 0 0 False (CSnapshotLoad s # cs2)" "node_run L I K (CSnapshotLoad s # cs2) (node_new L) = Done nd2"
    and "0 < i" "i \<le> int s" "u \<in> set (req_ids (op_request (op_at log i)))"
  shows "(\<forall>fs \<in> set (nd_saved nd1). fs = []) \<and> (\<forall>path t. ns_view L (d_namespace (r_container (nd_rsm nd2))) path \<noteq> Some (u, t)) \<and>
    (\<forall>path t. ns_view L (d_namespace (r_container (nd_rsm nd1))) path = Some (u, t) \<longrightarrow>
       ns_view L (d_namespace (r_container (nd_rsm nd2))) path \<noteq> ns_view L (d_namespace (r_container (nd_rsm nd1))) path)"
proof -
  have inv: "node_inv L log (handed cs1) (handed_own cs1) nd1" "node_inv L log (handed (CSnapshotLoad s # cs2)) (handed_own (CSnapshotLoad s # cs2)) nd2"
    using history_inv [OF assms(1-3,6), of L] history_inv [OF assms(1-3,8), of L] assms(7,9) by (simp_all add: run_ok_def)
  note in2 = ran_in_log [OF inv(2) assms(8)]
  have after: "int s < j" if "j \<in> set (nd_ran nd2)" for j
    using that in2(2) handed_range [of log s 0 False cs2] assms(8) by auto
  let ?rqs = "log_requests log"
  have "i \<le> int (length log)" using assms(8,11) by simp
  then have i: "nat (i - 1) < length ?rqs" "u \<in> set (map req_ids ?rqs ! nat (i - 1))"
    using assms(10,12) request_at [OF assms(10)] by (auto simp: log_requests_def)
  have "ns_view L (d_namespace (r_container (nd_rsm nd2))) path \<noteq> Some (u, t)" for path t
  proof
    assume "ns_view L (d_namespace (r_container (nd_rsm nd2))) path = Some (u, t)"
    then have v: "deva_view L (serve L log (nd_ran nd2)) path = Some (u, t)" using inv(2) by (simp add: node_inv_def)
    have "ns_fresh L (d_namespace (deva_new L)) u" using assms(5) i by (auto simp: fresh_log_def)
    then have "deva_view L (deva_new L) path \<noteq> Some (u, t)"
      using ns_view_used(1) [of L "d_namespace (deva_new L)" path u t] deva_inv_new [OF assms(4)] by (auto simp: deva_inv_def)
    then obtain j where j: "j \<in> set (nd_ran nd2)" "(path, u, t) \<in> set (created (?rqs ! nat (j - 1)))"
      using ran_view(1) [OF assms(4,5) in2(1) v] by blast
    then have n: "nat (j - 1) < length ?rqs" using in2(1) by (auto simp: in_log_def log_requests_def)
    then have "u \<in> set (map req_ids ?rqs ! nat (j - 1))" using j(2) by (cases "?rqs ! nat (j - 1)") (auto simp: new_path_def)
    then have "nat (j - 1) = nat (i - 1)" using distinct_concat_nth [of "map req_ids ?rqs" "nat (j - 1)" "nat (i - 1)" u] i n assms(5) by (simp add: fresh_log_def)
    then show False using after [OF j(1)] assms(10,11) by simp
  qed
  then show ?thesis using inv(1) by (simp add: node_inv_def)
qed

section \<open>Concrete histories\<close>

definition ex_task :: "u64 \<Rightarrow> raft_task" where
  "ex_task k = \<lparr>tk_data = le_data (ex_entry (RCreateFile (ex_file k)) None), tk_op = ex_op k\<rparr>"

definition ex_le :: "nat \<Rightarrow> u64 \<Rightarrow> bool \<Rightarrow> log_entry" where
  "ex_le j k mine = \<lparr>le_index = int (Suc j), le_data = tk_data (ex_task k), le_done = (if mine then Some (ex_op k) else None)\<rparr>"

lemma ex_proposed: "proposed fixed_codec (ex_task k)"
proof -
  have "cop_task fixed_codec 7 [0, 0, 0, 0] (ex_op k) = Done (ex_task k)"
    by (simp add: cop_task_def ex_task_def ex_entry_def op_encode_def request_encode_def fixed_codec_def Let_def)
  moreover have "length (tk_data (ex_task k)) < 2 ^ 32" using ex_logged(1) [of k None] by (simp add: logged_def ex_task_def)
  ultimately show ?thesis unfolding proposed_def
    by (intro conjI exI [of _ "RCreateFile (ex_file k)"] exI [of _ 7] exI [of _ "[0, 0, 0, 0]"]) simp_all
qed

lemma ex_le_entry: "entry_of (ex_task k) j (ex_le j k mine)"
  by (simp add: entry_of_def ex_le_def) (simp add: ex_task_def)

lemma ex_decode: "op_decode byte_seq_lib fixed_codec (le_data (ex_le j k mine)) = Done (RCreateFile (ex_file k), [])"
  using logged_decode [OF byte_seq.iobuf_library_axioms fixed.pb_library_axioms ex_logged(1) [of k None]] by (simp add: ex_le_def ex_task_def)

lemma ex_closure: "closure_run L status_OK (ex_op k) d = Done (answered (ex_op k) (fst (deva_process L d (RCreateFile (ex_file k)) None))
    (fst (snd (deva_process L d (RCreateFile (ex_file k)) None))), snd (snd (deva_process L d (RCreateFile (ex_file k)) None)))"
proof -
  obtain st resp d' where "deva_process L d (RCreateFile (ex_file k)) None = (st, resp, d')" by (rule prod_cases3)
  moreover from this have "closure_run L status_OK (ex_op k) d = Done (answered (ex_op k) st resp, d')"
    using closure_run_waiting [OF waiting_new, of L d "RCreateFile (ex_file k)" st resp d' status_OK] by simp
  ultimately show ?thesis by simp
qed

lemma ex_le_sels [simp]: "le_index (ex_le j k mine) = int (Suc j)" "le_done (ex_le j k mine) = (if mine then Some (ex_op k) else None)"
  by (simp_all add: ex_le_def)

lemma ex_op_at: "op_at [ex_task 1, ex_task 2] 1 = ex_op 1" "op_at [ex_task 1, ex_task 2] 2 = ex_op 2" "op_at [ex_task 1] 1 = ex_op 1"
  by (simp_all add: op_at_def ex_task_def)

text \<open>A leader whose threads run two closures against the order of the log: the path leads to the inode of the second entry.\<close>

definition ex_reordered :: "callback list" where
  "ex_reordered = [CLeaderStart 1, CApply [ex_le 0 1 True, ex_le 1 2 True], CClosure 1, CClosure 0]"

lemma ex_served: "ns_view hex_lib (d_namespace (serve hex_lib [ex_task 1, ex_task 2] [2, 1])) [''a''] = Some (UUID 0 2, KFile)"
proof -
  have "serve hex_lib [ex_task 1, ex_task 2] [2, 1] = deva_apply hex_lib (deva_new hex_lib) [RCreateFile (ex_file 2), RCreateFile (ex_file 1)]"
    by (simp add: serve_def ex_op_at)
  moreover have "ns_view hex_lib (d_namespace (deva_apply hex_lib (deva_new hex_lib) [RCreateFile (ex_file 2), RCreateFile (ex_file 1)])) [''a''] =
      Some (UUID 0 2, KFile)" by code_simp
  ultimately show ?thesis by (simp only:)
qed

theorem group_refines_log_witness:
  "\<exists>nd. node_run hex_lib byte_seq_lib fixed_codec ex_reordered (node_new hex_lib) = Done nd \<and> nd_ran nd = [2, 1] \<and>
     ns_view hex_lib (d_namespace (r_container (nd_rsm nd))) [''a''] = Some (UUID 0 2, KFile)"
proof -
  have h: "raft_hands [ex_task 1, ex_task 2] 0 0 False ex_reordered" "\<forall>t \<in> set [ex_task 1, ex_task 2]. proposed fixed_codec t"
    using ex_le_entry ex_proposed by (simp_all add: ex_reordered_def)
  obtain nd where nd: "node_run hex_lib byte_seq_lib fixed_codec ex_reordered (node_new hex_lib) = Done nd" "nd_ran nd = [2, 1]"
    by (simp add: ex_reordered_def node_apply_def node_closure_def ex_closure others_def) (simp add: node_new_def)
  have "r_container (nd_rsm nd) = serve hex_lib [ex_task 1, ex_task 2] (nd_ran nd)"
    using group_refines_log [OF byte_seq.iobuf_library_axioms fixed.pb_library_axioms h(2,1), of hex_lib] nd(1) by simp
  with nd ex_served show ?thesis by simp
qed

text \<open>A leader and a follower of a log with one entry.\<close>

definition ex_leads :: "callback list" where
  "ex_leads = [CLeaderStart 1, CApply [ex_le 0 1 True], CClosure 0, CSnapshotSave]"

definition ex_follows :: "callback list" where
  "ex_follows = [CApply [ex_le 0 1 False]]"

abbreviation ex_one :: deva where
  "ex_one \<equiv> deva_apply hex_lib (deva_new hex_lib) [RCreateFile (ex_file 1)]"

lemma ex_hands: "raft_hands [ex_task 1] 0 0 False ex_leads" "raft_hands [ex_task 1] 0 0 False ex_follows"
    "raft_hands [ex_task 1] 0 0 False [CSnapshotLoad 1]" "\<forall>t \<in> set [ex_task 1]. proposed fixed_codec t"
  using ex_le_entry ex_proposed by (simp_all add: ex_leads_def ex_follows_def)

lemma ex_runs:
  "\<exists>nd. node_run hex_lib byte_seq_lib fixed_codec ex_leads (node_new hex_lib) = Done nd \<and> r_container (nd_rsm nd) = ex_one \<and> length (nd_saved nd) = 1"
  "\<exists>nd. node_run hex_lib byte_seq_lib fixed_codec ex_follows (node_new hex_lib) = Done nd \<and> r_container (nd_rsm nd) = ex_one"
  "\<exists>nd. node_run hex_lib byte_seq_lib fixed_codec [CSnapshotLoad 1] (node_new hex_lib) = Done nd \<and> r_container (nd_rsm nd) = deva_new hex_lib"
  by (simp_all add: ex_leads_def ex_follows_def node_apply_def node_closure_def ex_closure ex_decode cop_on_apply_decoded
      rsm_on_snapshot_load_def rsm_is_leader_def rsm_on_leader_start_def) (simp_all add: node_new_def rsm_start_def rsm_new_def)

lemma ex_one_view: "ns_view hex_lib (d_namespace ex_one) [''a''] = Some (UUID 0 1, KFile)"
  by code_simp

lemma ex_one_fresh: "fresh_log hex_lib (deva_new hex_lib) (log_requests [ex_task 1])"
  by (simp add: log_requests_def ex_task_def fresh_log_def ex_fresh_new ex_req_def)

theorem replicas_never_conflict_witness:
  "\<exists>nd1 nd2 v. node_run hex_lib byte_seq_lib fixed_codec ex_leads (node_new hex_lib) = Done nd1 \<and>
     node_run hex_lib byte_seq_lib fixed_codec ex_follows (node_new hex_lib) = Done nd2 \<and>
     ns_view hex_lib (d_namespace (r_container (nd_rsm nd1))) [''a''] = Some v \<and> ns_view hex_lib (d_namespace (r_container (nd_rsm nd2))) [''a''] = Some v"
proof -
  obtain nd1 nd2 where nd: "node_run hex_lib byte_seq_lib fixed_codec ex_leads (node_new hex_lib) = Done nd1" "r_container (nd_rsm nd1) = ex_one"
    "node_run hex_lib byte_seq_lib fixed_codec ex_follows (node_new hex_lib) = Done nd2" "r_container (nd_rsm nd2) = ex_one"
    using ex_runs(1,2) by blast
  then obtain v1 v2 where v: "ns_view hex_lib (d_namespace (r_container (nd_rsm nd1))) [''a''] = Some v1"
    "ns_view hex_lib (d_namespace (r_container (nd_rsm nd2))) [''a''] = Some v2" using ex_one_view by metis
  have "distinct (concat (map (map fst \<circ> created) (log_requests [ex_task 1])))" by (simp add: log_requests_def ex_task_def)
  with replicas_never_conflict [OF byte_seq.iobuf_library_axioms fixed.pb_library_axioms ex_hands(4) hexlib.uuid_library_axioms ex_one_fresh
      ex_hands(1) nd(1) ex_hands(2) nd(3) _ v] have "v1 = v2" by blast
  with nd(1,3) v show ?thesis by blast
qed

theorem snapshot_splits_group_witness:
  "\<exists>nd1 nd2. node_run hex_lib byte_seq_lib fixed_codec ex_leads (node_new hex_lib) = Done nd1 \<and> nd_saved nd1 = [[]] \<and>
     ns_view hex_lib (d_namespace (r_container (nd_rsm nd1))) [''a''] = Some (UUID 0 1, KFile) \<and>
     node_run hex_lib byte_seq_lib fixed_codec [CSnapshotLoad 1] (node_new hex_lib) = Done nd2 \<and>
     ns_view hex_lib (d_namespace (r_container (nd_rsm nd2))) [''a''] \<noteq> Some (UUID 0 1, KFile)"
proof -
  obtain nd1 nd2 where nd: "node_run hex_lib byte_seq_lib fixed_codec ex_leads (node_new hex_lib) = Done nd1" "r_container (nd_rsm nd1) = ex_one"
    "length (nd_saved nd1) = 1" "node_run hex_lib byte_seq_lib fixed_codec [CSnapshotLoad 1] (node_new hex_lib) = Done nd2" using ex_runs(1,3) by blast
  have u: "UUID 0 1 \<in> set (req_ids (op_request (op_at [ex_task 1] 1)))" by (simp add: ex_op_at ex_req_def)
  have "(\<forall>fs \<in> set (nd_saved nd1). fs = []) \<and> ns_view hex_lib (d_namespace (r_container (nd_rsm nd2))) [''a''] \<noteq> Some (UUID 0 1, KFile)"
    using snapshot_splits_group [OF byte_seq.iobuf_library_axioms fixed.pb_library_axioms ex_hands(4) hexlib.uuid_library_axioms ex_one_fresh
        ex_hands(1) nd(1) ex_hands(3) nd(4) _ _ u] by simp
  moreover from this nd(3) have "nd_saved nd1 = [[]]" by (cases "nd_saved nd1") auto
  ultimately show ?thesis using nd ex_one_view by metis
qed

end
