(* ===== verification/Local_Store.thy ===== *)
theory Local_Store
  imports Store "HOL-Library.Sublist"
begin

text \<open>
  The store on a local directory: \<^verbatim>\<open>src/manusya/local_store.h\<close> and \<^verbatim>\<open>src/manusya/local_store.cc\<close>.
  The system calls it makes are an argument of the model, the record \<open>posix\<close> over the state \<open>'w\<close> of
  the operating system; a call returns \<open>Inl errno\<close> or \<open>Inr\<close> its result. What the store relies on
  is the locale \<open>posix_dir\<close>. A \<^verbatim>\<open>LocalFileHandle\<close> is its file descriptor. The store satisfies the
  contract \<open>file_store\<close> for system calls whose writes are complete (\<open>posix_dir_full\<close>). A write may be short, which fails an
  assertion of \<^verbatim>\<open>append\<close>: a call that returns had a complete write or none, so it returns the same over \<open>px_whole X\<close>, the system calls
  in which a short write is an error, and these have complete writes.
\<close>

section \<open>System calls\<close>

text \<open>
  \<open>px_write\<close> is \<^verbatim>\<open>IOBuf::cut_into_file_descriptor\<close> and \<open>px_read\<close> is
  \<^verbatim>\<open>IOPortal::append_from_file_descriptor\<close>: one write or read at the position of the descriptor.
  \<open>px_fstat\<close> gives the size of the file, \<open>px_readdir\<close> the names of a directory and whether each
  is a regular file, or \<open>None\<close> when the directory cannot be opened.
\<close>

record 'w posix =
  px_mkdir :: "'w \<Rightarrow> string \<Rightarrow> nat \<Rightarrow> (int + unit) \<times> 'w"
  px_open :: "'w \<Rightarrow> string \<Rightarrow> u32 \<Rightarrow> nat \<Rightarrow> (int + int) \<times> 'w"
  px_close :: "'w \<Rightarrow> int \<Rightarrow> 'w"
  px_write :: "'w \<Rightarrow> int \<Rightarrow> iobuf \<Rightarrow> (int + nat) \<times> 'w"
  px_lseek :: "'w \<Rightarrow> int \<Rightarrow> int \<Rightarrow> (int + int) \<times> 'w"
  px_read :: "'w \<Rightarrow> int \<Rightarrow> u64 \<Rightarrow> (int + iobuf) \<times> 'w"
  px_fchmod :: "'w \<Rightarrow> int \<Rightarrow> nat \<Rightarrow> (int + unit) \<times> 'w"
  px_fstat :: "'w \<Rightarrow> int \<Rightarrow> int + int"
  px_unlink :: "'w \<Rightarrow> string \<Rightarrow> (int + unit) \<times> 'w"
  px_fsetxattr :: "'w \<Rightarrow> int \<Rightarrow> string \<Rightarrow> string \<Rightarrow> (int + unit) \<times> 'w"
  px_fgetxattr :: "'w \<Rightarrow> int \<Rightarrow> string \<Rightarrow> nat \<Rightarrow> int + string"
  px_flistxattr :: "'w \<Rightarrow> int \<Rightarrow> nat \<Rightarrow> int + string"
  px_readdir :: "'w \<Rightarrow> string \<Rightarrow> (string \<times> bool) list option"

section \<open>Definitions\<close>

definition LocalFileHandle_destroy :: "'w posix \<Rightarrow> 'w \<Rightarrow> int \<Rightarrow> 'w outcome" where
  "LocalFileHandle_destroy X w fd = obind (boost_assert (fd > 0) ''_fd > 0'') (\<lambda>_. Done (px_close X w fd))"

text \<open>The constructor: a failure other than \<^verbatim>\<open>EEXIST\<close> is only logged. The mode is \<^verbatim>\<open>0774\<close>.\<close>

definition local_new :: "'w posix \<Rightarrow> 'w \<Rightarrow> string option \<Rightarrow> 'w outcome" where
  "local_new X w data_path =
     (case data_path of None \<Rightarrow> Abort ''data_path != nullptr''
      | Some d \<Rightarrow> Done (snd (px_mkdir X w d 508)))"

definition local_path :: "string \<Rightarrow> string \<Rightarrow> string" where
  "local_path D path = D @ ''/'' @ path"

definition local_open ::
  "'w posix \<Rightarrow> string \<Rightarrow> 'w \<Rightarrow> string option \<Rightarrow> u32 \<Rightarrow> int option option \<Rightarrow> ('w, int option option) io" where
  "local_open X D w path flags fh =
     (case path of None \<Rightarrow> Done (Status EINVAL ''path is nullptr'', fh, w)
      | Some p \<Rightarrow>
        (case fh of None \<Rightarrow> Done (Status EINVAL ''fh is nullptr'', fh, w)
         | Some _ \<Rightarrow>
           (case px_open X w (local_path D p) flags 438 of
              (Inl e, w') \<Rightarrow> Done (Status e ''failed to open file'', fh, w')
            | (Inr fd, w') \<Rightarrow> Done (status_OK, Some (Some fd), w'))))"

definition local_append :: "'w posix \<Rightarrow> 'w \<Rightarrow> int option \<Rightarrow> u64 \<Rightarrow> iobuf \<Rightarrow> ('w, unit) io" where
  "local_append X w fh off buf =
     (case fh of None \<Rightarrow> Done (Status EINVAL ''fh is nullptr'', (), w)
      | Some fd \<Rightarrow>
        (case px_write X w fd buf of
           (Inl e, w') \<Rightarrow> Done (Status e ''failed to write to file'', (), w')
         | (Inr nw, w') \<Rightarrow> obind (boost_assert (nw = length buf) ''nw == buf_size'') (\<lambda>_. Done (status_OK, (), w'))))"

text \<open>The offset of \<^verbatim>\<open>lseek\<close> is the 64-bit offset read as a signed number.\<close>

definition local_read ::
  "'w posix \<Rightarrow> 'w \<Rightarrow> int option \<Rightarrow> u64 \<Rightarrow> u64 \<Rightarrow> iobuf option \<Rightarrow> ('w, iobuf option) io" where
  "local_read X w fh off n buf =
     (case fh of None \<Rightarrow> Done (Status EINVAL ''fh is nullptr'', buf, w)
      | Some fd \<Rightarrow>
        (case buf of None \<Rightarrow> Done (Status EINVAL ''buf is nullptr'', buf, w)
         | Some _ \<Rightarrow>
           (case px_lseek X w fd (sint off) of
              (Inl e, w1) \<Rightarrow> Done (Status e ''failed to lseek'', buf, w1)
            | (Inr _, w1) \<Rightarrow>
              (case px_read X w1 fd n of
                 (Inl e, w2) \<Rightarrow> Done (Status e ''failed to read from file'', buf, w2)
               | (Inr iop, w2) \<Rightarrow>
                 if (word_of_nat (length iop) :: u64) \<noteq> n then Done (Status EINVAL ''invalid size'', buf, w2)
                 else Done (status_OK, Some iop, w2)))))"

definition local_seal :: "'w posix \<Rightarrow> 'w \<Rightarrow> int option \<Rightarrow> ('w, unit) io" where
  "local_seal X w fh =
     (case fh of None \<Rightarrow> Done (Status EINVAL ''fh is nullptr'', (), w)
      | Some fd \<Rightarrow>
        (case px_fchmod X w fd 292 of
           (Inl e, w') \<Rightarrow> Done (Status e ''failed to fchmod'', (), w')
         | (Inr _, w') \<Rightarrow> Done (status_OK, (), w')))"

definition local_size :: "'w posix \<Rightarrow> 'w \<Rightarrow> int option \<Rightarrow> u64 option \<Rightarrow> ('w, u64 option) io" where
  "local_size X w fh out =
     (case fh of None \<Rightarrow> Done (Status EINVAL ''fh is nullptr'', out, w)
      | Some fd \<Rightarrow>
        (case out of None \<Rightarrow> Done (Status EINVAL ''size is nullptr'', out, w)
         | Some _ \<Rightarrow>
           (case px_fstat X w fd of
              Inl e \<Rightarrow> Done (Status e ''failed to fstat'', out, w)
            | Inr st_size \<Rightarrow> Done (status_OK, Some (word_of_int st_size), w))))"

definition local_remove :: "'w posix \<Rightarrow> string \<Rightarrow> 'w \<Rightarrow> string option \<Rightarrow> ('w, unit) io" where
  "local_remove X D w path =
     (case path of None \<Rightarrow> Done (Status EINVAL ''path is nullptr'', (), w)
      | Some p \<Rightarrow>
        (case px_unlink X w (local_path D p) of
           (Inl e, w') \<Rightarrow> Done (Status e ''failed to unlink'', (), w')
         | (Inr _, w') \<Rightarrow> Done (status_OK, (), w')))"

definition local_set_attr ::
  "'w posix \<Rightarrow> 'w \<Rightarrow> int option \<Rightarrow> string option \<Rightarrow> string option \<Rightarrow> ('w, unit) io" where
  "local_set_attr X w fh key val =
     (case fh of None \<Rightarrow> Done (Status EINVAL ''fh is nullptr'', (), w)
      | Some fd \<Rightarrow>
        (case key of None \<Rightarrow> Done (Status EINVAL ''key is nullptr'', (), w)
         | Some k \<Rightarrow>
           (case val of None \<Rightarrow> Done (Status EINVAL ''value is nullptr'', (), w)
            | Some v \<Rightarrow>
              (case px_fsetxattr X w fd k v of
                 (Inl e, w') \<Rightarrow> Done (Status e ''failed to fsetxattr'', (), w')
               | (Inr _, w') \<Rightarrow> Done (status_OK, (), w')))))"

definition local_get_attr ::
  "'w posix \<Rightarrow> 'w \<Rightarrow> int option \<Rightarrow> string option \<Rightarrow> string option \<Rightarrow> ('w, string option) io" where
  "local_get_attr X w fh key out =
     (case fh of None \<Rightarrow> Done (Status EINVAL ''fh is nullptr'', out, w)
      | Some fd \<Rightarrow>
        (case key of None \<Rightarrow> Done (Status EINVAL ''key is nullptr'', out, w)
         | Some k \<Rightarrow>
           (case out of None \<Rightarrow> Done (Status EINVAL ''value is nullptr'', out, w)
            | Some _ \<Rightarrow>
              (case px_fgetxattr X w fd k 1024 of
                 Inl e \<Rightarrow> Done (Status e ''failed to fgetxattr'', out, w)
               | Inr v \<Rightarrow> Done (status_OK, Some v, w)))))"

text \<open>
  The loop of \<^verbatim>\<open>list_attrs\<close> over the names in the buffer, each ended by a null character. The array
  \<^verbatim>\<open>key\<close> receives the value of the attribute, not its name, and \<^verbatim>\<open>get_attr\<close> is then called with that
  array as a C string; what follows the value in the uninitialised array is the argument \<open>junk\<close>.
\<close>

function local_attr_loop ::
  "'w posix \<Rightarrow> string \<Rightarrow> 'w \<Rightarrow> int \<Rightarrow> string \<Rightarrow> (string, string) omap \<Rightarrow> status \<times> (string, string) omap" where
  "local_attr_loop X junk w fd [] attrs = (status_OK, attrs)"
| "local_attr_loop X junk w fd (b # buf) attrs =
     (case px_fgetxattr X w fd (c_str (b # buf)) 1024 of
        Inl e \<Rightarrow> (Status e ''failed to fgetxattr'', attrs)
      | Inr key \<Rightarrow>
        (let k = c_str (key @ junk) in
         case px_fgetxattr X w fd k 1024 of
           Inl e \<Rightarrow> (Status e ''failed to fgetxattr'', attrs)
         | Inr val \<Rightarrow>
           local_attr_loop X junk w fd (drop (Suc (length (c_str (b # buf)))) (b # buf)) (om_set string_lt attrs k val)))"
  by pat_completeness auto
termination by (relation "measure (\<lambda>(X, junk, w, fd, buf, attrs). length buf)") auto

definition local_list_attrs ::
  "'w posix \<Rightarrow> string \<Rightarrow> 'w \<Rightarrow> int option \<Rightarrow> (string, string) omap option \<Rightarrow> ('w, (string, string) omap option) io" where
  "local_list_attrs X junk w fh out =
     (case fh of None \<Rightarrow> Done (Status EINVAL ''fh is nullptr'', out, w)
      | Some fd \<Rightarrow>
        (case out of None \<Rightarrow> Done (Status EINVAL ''attrs is nullptr'', out, w)
         | Some attrs \<Rightarrow>
           (case px_flistxattr X w fd 1024 of
              Inl e \<Rightarrow> Done (Status e ''failed to flistxattr'', out, w)
            | Inr buf \<Rightarrow>
              (case local_attr_loop X junk w fd buf attrs of (st, attrs') \<Rightarrow> Done (st, Some attrs', w)))))"

text \<open>The paths \<^verbatim>\<open>for_each\<close> hands to its callback; an exception of the callback does not stop the loop.\<close>

definition local_for_each :: "'w posix \<Rightarrow> string \<Rightarrow> 'w \<Rightarrow> string list" where
  "local_for_each X D w =
     (case px_readdir X w D of None \<Rightarrow> [] | Some entries \<Rightarrow> map fst (filter snd entries))"

definition local_vt :: "'w posix \<Rightarrow> string \<Rightarrow> string \<Rightarrow> ('w, int) store_vt" where
  "local_vt X junk D = \<lparr>vt_open = local_open X D, vt_append = local_append X, vt_read = local_read X,
     vt_seal = local_seal X, vt_size = local_size X, vt_remove = local_remove X D,
     vt_set_attr = local_set_attr X, vt_get_attr = local_get_attr X,
     vt_list_attrs = local_list_attrs X junk, vt_for_each = local_for_each X D\<rparr>"

lemma local_vt_simps [simp]:
  "vt_open (local_vt X junk D) = local_open X D" "vt_append (local_vt X junk D) = local_append X"
  "vt_read (local_vt X junk D) = local_read X" "vt_seal (local_vt X junk D) = local_seal X"
  "vt_size (local_vt X junk D) = local_size X" "vt_remove (local_vt X junk D) = local_remove X D"
  "vt_set_attr (local_vt X junk D) = local_set_attr X" "vt_get_attr (local_vt X junk D) = local_get_attr X"
  "vt_list_attrs (local_vt X junk D) = local_list_attrs X junk" "vt_for_each (local_vt X junk D) = local_for_each X D"
  by (simp_all add: local_vt_def)

lemmas local_ops = local_open_def local_append_def local_read_def local_seal_def local_size_def
  local_remove_def local_for_each_def

section \<open>The contract of the system calls\<close>

text \<open>
  \<open>data w p\<close> are the contents of the regular file \<open>p\<close> of the directory \<open>D\<close>; \<open>wfd w fd\<close> is the file
  that the descriptor is open for writing at its end on, and \<open>rfd w fd\<close> the file and the position of
  a descriptor open for reading. A call that fails leaves the files alone. A write may be short.
\<close>

locale posix_dir =
  fixes X :: "'w posix" and D :: string
    and winv :: "'w \<Rightarrow> bool"
    and data :: "'w \<Rightarrow> string \<Rightarrow> iobuf option"
    and wfd :: "'w \<Rightarrow> int \<Rightarrow> string option"
    and rfd :: "'w \<Rightarrow> int \<Rightarrow> (string \<times> nat) option"
  assumes open_new:
      "winv w \<Longrightarrow> data w p = None \<Longrightarrow> px_open X w (local_path D p) create_flags md = (ro, w') \<Longrightarrow> winv w' \<and>
       (case ro of Inl e \<Rightarrow> e \<noteq> 0 \<and> data w' = data w \<and> wfd w' = wfd w
        | Inr fd \<Rightarrow> data w' = (data w)(p \<mapsto> []) \<and> wfd w' fd = Some p \<and>
            (\<forall>h q. wfd w h = Some q \<longrightarrow> q \<noteq> p \<longrightarrow> wfd w' h = Some q))"
    and open_excl:
      "winv w \<Longrightarrow> data w p = Some bs \<Longrightarrow> px_open X w (local_path D p) create_flags md = (Inl EEXIST, w)"
    and open_read:
      "winv w \<Longrightarrow> data w p = Some bs \<Longrightarrow> px_open X w (local_path D p) O_RDONLY md = (ro, w') \<Longrightarrow> winv w' \<and>
       data w' = data w \<and> (\<forall>h q. wfd w h = Some q \<longrightarrow> wfd w' h = Some q) \<and>
       (case ro of Inl e \<Rightarrow> e \<noteq> 0 | Inr fd \<Rightarrow> \<exists>pos. rfd w' fd = Some (p, pos))"
    and write_law:
      "winv w \<Longrightarrow> wfd w fd = Some p \<Longrightarrow> data w p = Some bs \<Longrightarrow> px_write X w fd buf = (rw, w') \<Longrightarrow> winv w' \<and>
       wfd w' = wfd w \<and> (case rw of Inl e \<Rightarrow> e \<noteq> 0 \<and> data w' = data w
         | Inr n \<Rightarrow> n \<le> length buf \<and> data w' = (data w)(p \<mapsto> bs @ take n buf))"
    and lseek:
      "winv w \<Longrightarrow> rfd w fd = Some (p, pos) \<Longrightarrow> px_lseek X w fd off = (ro, w') \<Longrightarrow> winv w' \<and>
       data w' = data w \<and> wfd w' = wfd w \<and>
       (case ro of Inl e \<Rightarrow> e \<noteq> 0 | Inr _ \<Rightarrow> 0 \<le> off \<and> rfd w' fd = Some (p, nat off))"
    and read_law:
      "winv w \<Longrightarrow> rfd w fd = Some (p, pos) \<Longrightarrow> data w p = Some bs \<Longrightarrow> px_read X w fd n = (rd, w') \<Longrightarrow> winv w' \<and>
       data w' = data w \<and> wfd w' = wfd w \<and>
       (case rd of Inl e \<Rightarrow> e \<noteq> 0 | Inr b \<Rightarrow> prefix b (bytes_at pos (unat n) bs))"
    and fchmod:
      "winv w \<Longrightarrow> px_fchmod X w fd md = (ru, w') \<Longrightarrow> winv w' \<and> data w' = data w \<and> wfd w' = wfd w \<and>
       (case ru of Inl e \<Rightarrow> e \<noteq> 0 | Inr _ \<Rightarrow> True)"
    and fstat:
      "winv w \<Longrightarrow> wfd w fd = Some p \<Longrightarrow> data w p = Some bs \<Longrightarrow>
       (case px_fstat X w fd of Inl e \<Rightarrow> e \<noteq> 0 | Inr n \<Rightarrow> n = int (length bs))"
    and unlink:
      "winv w \<Longrightarrow> px_unlink X w (local_path D p) = (ru, w') \<Longrightarrow> winv w' \<and>
       (\<forall>h q. wfd w h = Some q \<longrightarrow> q \<noteq> p \<longrightarrow> wfd w' h = Some q) \<and>
       (case ru of Inl e \<Rightarrow> e \<noteq> 0 \<and> data w' = data w | Inr _ \<Rightarrow> data w' = (data w)(p := None))"
    and readdir:
      "winv w \<Longrightarrow> px_readdir X w D = Some entries \<Longrightarrow> (nm, True) \<in> set entries \<Longrightarrow> data w nm \<noteq> None"

lemma nat_sint_u64: "0 \<le> sint (x :: u64) \<Longrightarrow> nat (sint x) = unat x"
  by (transfer, drule signed_take_bit_nonnegative_iff [THEN iffD1]) (simp add: signed_take_bit_eq_take_bit_minus)

lemma full_prefix:
  assumes "prefix b xs" "length xs \<le> unat n" "word_of_nat (length b) = (n :: u64)"
  shows "b = xs"
proof -
  have "length b \<le> length xs" using assms(1) by (rule prefix_length_le)
  moreover from this have "length b < 2 ^ 64" using assms(2) unsigned_less [of n, where 'a = nat] by simp
  then have "unat n = length b" using assms(3) unat_of_nat_u64 by blast
  ultimately show ?thesis using assms(1,2) by (auto simp: prefix_def)
qed

locale posix_dir_full = posix_dir +
  assumes write_full: "px_write X w fd buf = (Inr n, w') \<Longrightarrow> n = length buf"
begin

lemma contract: "file_store (local_vt X junk D) winv data wfd (\<lambda>w h. map_option fst (rfd w h))"
proof (unfold_locales, goal_cases)
  case (1 w fd p bs off buf)
  obtain r w' where "px_write X w fd buf = (r, w')" by fastforce
  with write_law [OF 1 this] write_full [of w fd buf] show ?case
    by (cases r) (auto simp: local_append_def)
next
  case (2 w p fh)
  obtain r w' where "px_open X w (local_path D p) create_flags 438 = (r, w')" by fastforce
  with open_new [OF 2 this] show ?case by (cases r) (auto simp: local_open_def)
next
  case (3 w p bs fh)
  then show ?case using open_excl [OF 3] by (auto simp: local_open_def)
next
  case (4 w p bs fh)
  obtain r w' where "px_open X w (local_path D p) O_RDONLY 438 = (r, w')" by fastforce
  with open_read [OF 4 this] show ?case by (cases r) (auto simp: local_open_def)
next
  case (5 w fd p bs off n)
  then obtain pos where pos: "rfd w fd = Some (p, pos)" by auto
  obtain r1 w1 where sk: "px_lseek X w fd (sint off) = (r1, w1)" by fastforce
  obtain r2 w2 where rd: "px_read X w1 fd n = (r2, w2)" by fastforce
  note S = lseek [OF 5(1) pos sk]
  show ?case
  proof (cases r1)
    case (Inl e)
    then show ?thesis using S sk by (auto simp: local_read_def)
  next
    case (Inr x)
    then have w1: "winv w1" "rfd w1 fd = Some (p, unat off)" "data w1 p = Some bs" using S 5(3) nat_sint_u64 by auto
    show ?thesis using Inr S sk rd read_law [OF w1 rd]
      by (cases r2) (auto simp: local_read_def dest: full_prefix)
  qed
next
  case (6 w fd)
  obtain r w' where "px_fchmod X w fd 292 = (r, w')" by fastforce
  with fchmod [OF 6 this] show ?case by (cases r) (auto simp: local_seal_def)
next
  case (7 w fd p bs x)
  then show ?case using fstat [OF 7] by (auto simp: local_size_def split: sum.splits)
next
  case (8 w p)
  obtain r w' where "px_unlink X w (local_path D p) = (r, w')" by fastforce
  with unlink [OF 8 this] show ?case by (cases r) (auto simp: local_remove_def)
next
  case (9 w)
  from readdir [OF this] show ?case by (force simp: local_for_each_def split: option.splits)
qed

end

section \<open>Short writes\<close>

definition px_whole :: "'w posix \<Rightarrow> 'w posix" where
  "px_whole X = X\<lparr>px_write := (\<lambda>w fd buf.
     case px_write X w fd buf of (Inl e, w') \<Rightarrow> (Inl e, w') | (Inr n, w') \<Rightarrow> if n = length buf then (Inr n, w') else (Inl EIO, w))\<rparr>"

lemma px_whole_simps [simp]:
  "px_open (px_whole X) = px_open X" "px_lseek (px_whole X) = px_lseek X" "px_read (px_whole X) = px_read X"
  "px_fchmod (px_whole X) = px_fchmod X" "px_fstat (px_whole X) = px_fstat X" "px_unlink (px_whole X) = px_unlink X"
  "px_readdir (px_whole X) = px_readdir X"
  by (simp_all add: px_whole_def)

lemma local_whole [simp]:
  "local_open (px_whole X) = local_open X" "local_read (px_whole X) = local_read X" "local_seal (px_whole X) = local_seal X"
  "local_size (px_whole X) = local_size X" "local_remove (px_whole X) = local_remove X" "local_for_each (px_whole X) = local_for_each X"
  unfolding local_ops px_whole_simps by (rule refl)+

lemma local_append_whole: "local_append X w fh off buf = Done r \<Longrightarrow> local_append (px_whole X) w fh off buf = Done r"
  by (auto simp: local_append_def px_whole_def outcome_simps boost_assert_def split: option.splits sum.splits prod.splits if_splits)

context posix_dir
begin

lemma whole: "posix_dir_full (px_whole X) D winv data wfd rfd"
proof (unfold_locales, goal_cases)
  case (1 w p md ro w')
  then show ?case using open_new [of w p md ro w'] by simp
next
  case (2 w p bs md)
  then show ?case using open_excl [of w p bs md] by simp
next
  case (3 w p bs md ro w')
  then show ?case using open_read [of w p bs md ro w'] by simp
next
  case (4 w fd p bs buf rw w')
  obtain r1 w1 where "px_write X w fd buf = (r1, w1)" by fastforce
  with write_law [OF 4(1-3) this] 4 show ?case by (cases r1) (auto simp: px_whole_def errno_defs split: if_splits)
next
  case (5 w fd p pos off ro w')
  then show ?case using lseek [of w fd p pos off ro w'] by simp
next
  case (6 w fd p pos bs n rd w')
  then show ?case using read_law [of w fd p pos bs n rd w'] by simp
next
  case (7 w fd md ru w')
  then show ?case using fchmod [of w fd md ru w'] by simp
next
  case (8 w fd p bs)
  then show ?case using fstat [of w fd p bs] by simp
next
  case (9 w p ru w')
  then show ?case using unlink [of w p ru w'] by simp
next
  case (10 w entries n)
  then show ?case using readdir [of w entries n] by simp
next
  case (11 w fd buf n w')
  then show ?case by (auto simp: px_whole_def split: sum.splits prod.splits if_splits)
qed

end

section \<open>A file system that satisfies the contract\<close>

text \<open>
  One directory \<open>D\<close> without subdirectories: names to inodes, the contents and attributes of the inodes,
  and the table of open descriptors, each with the name it was opened by, its inode, whether it may
  write, and its position. Descriptors start at 3.
\<close>

record flat_fs =
  fl_dir :: "(string \<times> nat) list"
  fl_data :: "nat \<Rightarrow> iobuf"
  fl_next :: nat
  fl_fds :: "(string \<times> nat \<times> bool \<times> nat) list"

definition flat_name :: "string \<Rightarrow> string \<Rightarrow> string option" where
  "flat_name D path = (let p = drop (length D + 1) path in
     if path = local_path D p \<and> p \<noteq> [] \<and> CHR ''/'' \<notin> set p then Some p else None)"

definition flat_fd :: "flat_fs \<Rightarrow> int \<Rightarrow> (string \<times> nat \<times> bool \<times> nat) option" where
  "flat_fd w fd = (if 3 \<le> fd \<and> nat (fd - 3) < length (fl_fds w) then Some (fl_fds w ! nat (fd - 3)) else None)"

definition flat_open :: "string \<Rightarrow> flat_fs \<Rightarrow> string \<Rightarrow> u32 \<Rightarrow> nat \<Rightarrow> (int + int) \<times> flat_fs" where
  "flat_open D w path flags md =
     (let fd = int (length (fl_fds w)) + 3; wr = (flags AND O_RDWR \<noteq> 0) in
      case flat_name D path of None \<Rightarrow> (Inl ENOENT, w)
      | Some p \<Rightarrow>
        (case map_of (fl_dir w) p of
           Some i \<Rightarrow>
             if flags AND O_CREAT \<noteq> 0 \<and> flags AND O_EXCL \<noteq> 0 then (Inl EEXIST, w)
             else (Inr fd, w\<lparr>fl_fds := fl_fds w @ [(p, i, wr, 0)]\<rparr>)
         | None \<Rightarrow>
             if flags AND O_CREAT = 0 then (Inl ENOENT, w)
             else (Inr fd, w\<lparr>fl_dir := fl_dir w @ [(p, fl_next w)], fl_data := (fl_data w)(fl_next w := []),
               fl_next := Suc (fl_next w), fl_fds := fl_fds w @ [(p, fl_next w, wr, 0)]\<rparr>)))"

definition flat_write :: "flat_fs \<Rightarrow> int \<Rightarrow> iobuf \<Rightarrow> (int + nat) \<times> flat_fs" where
  "flat_write w fd buf =
     (case flat_fd w fd of Some (p, i, True, pos) \<Rightarrow>
        (Inr (length buf), w\<lparr>fl_data := (fl_data w)(i := take pos (fl_data w i) @ buf @ drop (pos + length buf) (fl_data w i)),
           fl_fds := (fl_fds w)[nat (fd - 3) := (p, i, True, pos + length buf)]\<rparr>)
      | _ \<Rightarrow> (Inl EINVAL, w))"

definition flat_lseek :: "flat_fs \<Rightarrow> int \<Rightarrow> int \<Rightarrow> (int + int) \<times> flat_fs" where
  "flat_lseek w fd off =
     (case flat_fd w fd of None \<Rightarrow> (Inl EINVAL, w)
      | Some (p, i, wr, pos) \<Rightarrow>
        if off < 0 then (Inl EINVAL, w) else (Inr off, w\<lparr>fl_fds := (fl_fds w)[nat (fd - 3) := (p, i, wr, nat off)]\<rparr>))"

definition flat_read :: "flat_fs \<Rightarrow> int \<Rightarrow> u64 \<Rightarrow> (int + iobuf) \<times> flat_fs" where
  "flat_read w fd n =
     (case flat_fd w fd of None \<Rightarrow> (Inl EINVAL, w)
      | Some (p, i, wr, pos) \<Rightarrow>
        let b = bytes_at pos (unat n) (fl_data w i) in
        (Inr b, w\<lparr>fl_fds := (fl_fds w)[nat (fd - 3) := (p, i, wr, pos + length b)]\<rparr>))"

definition flat_unlink :: "string \<Rightarrow> flat_fs \<Rightarrow> string \<Rightarrow> (int + unit) \<times> flat_fs" where
  "flat_unlink D w path =
     (case flat_name D path of None \<Rightarrow> (Inl ENOENT, w)
      | Some p \<Rightarrow> if map_of (fl_dir w) p = None then (Inl ENOENT, w)
                  else (Inr (), w\<lparr>fl_dir := filter (\<lambda>e. fst e \<noteq> p) (fl_dir w)\<rparr>))"

definition flat_posix :: "string \<Rightarrow> flat_fs posix" where
  "flat_posix D = \<lparr>px_mkdir = (\<lambda>w d md. (Inl EEXIST, w)), px_open = flat_open D, px_close = (\<lambda>w fd. w),
     px_write = flat_write, px_lseek = flat_lseek, px_read = flat_read,
     px_fchmod = (\<lambda>w fd md. (if flat_fd w fd = None then Inl EINVAL else Inr (), w)),
     px_fstat = (\<lambda>w fd. case flat_fd w fd of None \<Rightarrow> Inl EINVAL | Some (p, i, _) \<Rightarrow> Inr (int (length (fl_data w i)))),
     px_unlink = flat_unlink D, px_fsetxattr = (\<lambda>w fd k v. (Inl EPERM, w)), px_fgetxattr = (\<lambda>w fd k n. Inl ENOENT),
     px_flistxattr = (\<lambda>w fd n. Inr []),
     px_readdir = (\<lambda>w d. if d = D then Some (map (\<lambda>e. (fst e, True)) (fl_dir w)) else None)\<rparr>"

definition flat_inv :: "flat_fs \<Rightarrow> bool" where
  "flat_inv w \<longleftrightarrow> distinct (map fst (fl_dir w)) \<and> distinct (map snd (fl_dir w)) \<and>
     (\<forall>e\<in>set (fl_dir w). snd e < fl_next w \<and> fst e \<noteq> [] \<and> CHR ''/'' \<notin> set (fst e)) \<and>
     (\<forall>fd p i wr pos. flat_fd w fd = Some (p, i, wr, pos) \<longrightarrow> i < fl_next w) \<and>
     (\<forall>fd fd' p p' i pos pos'. flat_fd w fd = Some (p, i, True, pos) \<longrightarrow> flat_fd w fd' = Some (p', i, True, pos') \<longrightarrow> fd = fd')"

definition flat_data :: "flat_fs \<Rightarrow> string \<Rightarrow> iobuf option" where
  "flat_data w p = map_option (fl_data w) (map_of (fl_dir w) p)"

definition flat_wfd :: "flat_fs \<Rightarrow> int \<Rightarrow> string option" where
  "flat_wfd w fd = (case flat_fd w fd of Some (p, i, True, pos) \<Rightarrow>
     if map_of (fl_dir w) p = Some i \<and> pos = length (fl_data w i) then Some p else None | _ \<Rightarrow> None)"

definition flat_rfd :: "flat_fs \<Rightarrow> int \<Rightarrow> (string \<times> nat) option" where
  "flat_rfd w fd = (case flat_fd w fd of Some (p, i, False, pos) \<Rightarrow>
     if map_of (fl_dir w) p = Some i then Some (p, pos) else None | _ \<Rightarrow> None)"

lemma flat_name_local: "flat_name D (local_path D p) = (if p \<noteq> [] \<and> CHR ''/'' \<notin> set p then Some p else None)"
  by (simp add: flat_name_def local_path_def Let_def)

lemma flat_fd_new: "fl_fds w' = fl_fds w @ [e] \<Longrightarrow> flat_fd w' fd = (if fd = int (length (fl_fds w)) + 3 then Some e else flat_fd w fd)"
  by (auto simp: flat_fd_def nth_append)

lemma flat_fd_update:
  "flat_fd w fd = Some e \<Longrightarrow> fl_fds w' = (fl_fds w)[nat (fd - 3) := e'] \<Longrightarrow>
   flat_fd w' h = (if h = fd then Some e' else flat_fd w h)"
  by (auto simp: flat_fd_def nth_list_update split: if_splits)

lemma flat_fd_same: "fl_fds w' = fl_fds w \<Longrightarrow> flat_fd w' fd = flat_fd w fd"
  by (simp add: flat_fd_def)

lemma flat_wfd_iff: "flat_wfd w fd = Some p \<longleftrightarrow>
    (\<exists>i. flat_fd w fd = Some (p, i, True, length (fl_data w i)) \<and> map_of (fl_dir w) p = Some i)"
  by (auto simp: flat_wfd_def split: option.splits prod.splits bool.splits)

lemma flat_rfd_iff: "flat_rfd w fd = Some (p, pos) \<longleftrightarrow>
    (\<exists>i. flat_fd w fd = Some (p, i, False, pos) \<and> map_of (fl_dir w) p = Some i)"
  by (auto simp: flat_rfd_def split: option.splits prod.splits bool.splits)

lemma flat_invD:
  assumes "flat_inv w"
  shows "distinct (map fst (fl_dir w))" "distinct (map snd (fl_dir w))"
    "\<And>p i. map_of (fl_dir w) p = Some i \<Longrightarrow> i < fl_next w \<and> p \<noteq> [] \<and> CHR ''/'' \<notin> set p"
    "\<And>fd p i wr pos. flat_fd w fd = Some (p, i, wr, pos) \<Longrightarrow> i < fl_next w"
    "\<And>fd fd' p p' i pos pos'. flat_fd w fd = Some (p, i, True, pos) \<Longrightarrow> flat_fd w fd' = Some (p', i, True, pos') \<Longrightarrow> fd = fd'"
  using assms by (fastforce simp: flat_inv_def dest: map_of_SomeD)+

lemma flat_inode_inj:
  assumes "flat_inv w" "map_of (fl_dir w) p = Some i" "map_of (fl_dir w) q = Some i"
  shows "p = q"
  using flat_invD(2) [OF assms(1)] map_of_SomeD [OF assms(2)] map_of_SomeD [OF assms(3)]
  by (metis eq_snd_iff inj_onD distinct_map prod.inject)

lemma create_rdwr: "create_flags AND O_RDWR \<noteq> 0" "O_RDONLY AND O_RDWR = 0"
  by (simp_all add: create_flags_def errno_defs)

lemma flat_open_new:
  assumes "flat_inv w" "flat_data w p = None" "flat_open D w (local_path D p) create_flags md = (r, w')"
  shows "flat_inv w' \<and> (case r of Inl e \<Rightarrow> e \<noteq> 0 \<and> flat_data w' = flat_data w \<and> flat_wfd w' = flat_wfd w
    | Inr fd \<Rightarrow> flat_data w' = (flat_data w)(p \<mapsto> []) \<and> flat_wfd w' fd = Some p \<and>
        (\<forall>h q. flat_wfd w h = Some q \<longrightarrow> q \<noteq> p \<longrightarrow> flat_wfd w' h = Some q))"
proof (cases "p \<noteq> [] \<and> CHR ''/'' \<notin> set p")
  case False
  then show ?thesis using assms by (auto simp: flat_open_def flat_name_local Let_def)
next
  case True
  note I = flat_invD [OF assms(1)]
  let ?fd = "int (length (fl_fds w)) + 3" and ?e = "(p, fl_next w, True, 0)"
  have p: "map_of (fl_dir w) p = None" using assms(2) by (simp add: flat_data_def)
  have r: "r = Inr ?fd" and w': "w' = w\<lparr>fl_dir := fl_dir w @ [(p, fl_next w)], fl_data := (fl_data w)(fl_next w := []),
       fl_next := Suc (fl_next w), fl_fds := fl_fds w @ [?e]\<rparr>"
    using assms(3) True p by (auto simp: flat_open_def flat_name_local Let_def create_flags_bits create_rdwr)
  have fd: "flat_fd w' h = (if h = ?fd then Some ?e else flat_fd w h)" for h by (rule flat_fd_new) (simp add: w')
  have dir: "map_of (fl_dir w') q = (if q = p then Some (fl_next w) else map_of (fl_dir w) q)" for q
    using p by (auto simp: w' map_add_def split: option.splits)
  have B: "\<forall>e\<in>set (fl_dir w). snd e < fl_next w \<and> fst e \<noteq> [] \<and> CHR ''/'' \<notin> set (fst e)"
    using assms(1) unfolding flat_inv_def by (elim conjE)
  have N: "flat_fd w h \<noteq> Some (q, fl_next w, wr, pos)" for h q wr pos using I(4) by blast
  have "flat_inv w'"
    unfolding flat_inv_def fd
  proof (intro conjI)
    show "distinct (map fst (fl_dir w'))" using I(1) p by (auto simp: w' map_of_eq_None_iff)
    show "distinct (map snd (fl_dir w'))" using I(2) B by (auto simp: w')
    show "\<forall>e\<in>set (fl_dir w'). snd e < fl_next w' \<and> fst e \<noteq> [] \<and> CHR ''/'' \<notin> set (fst e)"
      using B True by (auto simp: w' less_Suc_eq)
  qed (use I(4,5) N in \<open>auto simp: w' less_Suc_eq split: if_splits\<close>)
  moreover have data: "fl_data w' = (fl_data w)(fl_next w := [])" by (simp add: w')
  moreover have "flat_data w' q = ((flat_data w)(p \<mapsto> [])) q" for q
    using I(3) [of q] p by (cases "map_of (fl_dir w) q") (auto simp: flat_data_def dir data)
  then have "flat_data w' = (flat_data w)(p \<mapsto> [])" by (rule ext)
  moreover have "flat_wfd w' h = Some q" if "flat_wfd w h = Some q" "q \<noteq> p" for h q
  proof -
    obtain i where i: "flat_fd w h = Some (q, i, True, length (fl_data w i))" "map_of (fl_dir w) q = Some i"
      using \<open>flat_wfd w h = Some q\<close> by (auto simp: flat_wfd_iff)
    moreover have "h \<noteq> ?fd" using i(1) by (auto simp: flat_fd_def split: if_splits)
    ultimately show ?thesis using I(3) [OF i(2)] that(2) by (auto simp: flat_wfd_iff fd dir data)
  qed
  ultimately show ?thesis using r by (simp add: flat_wfd_iff fd dir)
qed

lemma flat_inv_fds:
  assumes "flat_inv w" "fl_dir w' = fl_dir w" "fl_next w' = fl_next w"
    and "\<And>h q i wr pos. flat_fd w' h = Some (q, i, wr, pos) \<Longrightarrow> \<exists>q' pos'. flat_fd w h = Some (q', i, wr, pos') \<or> (i < fl_next w \<and> \<not> wr)"
  shows "flat_inv w'"
  using assms unfolding flat_inv_def by (elim conjE) (intro conjI; metis)

lemma flat_open_read:
  assumes "flat_inv w" "flat_data w p = Some bs" "flat_open D w (local_path D p) O_RDONLY md = (r, w')"
  shows "flat_inv w' \<and> flat_data w' = flat_data w \<and> (\<forall>h q. flat_wfd w h = Some q \<longrightarrow> flat_wfd w' h = Some q) \<and>
    (case r of Inl e \<Rightarrow> e \<noteq> 0 | Inr fd \<Rightarrow> \<exists>pos. flat_rfd w' fd = Some (p, pos))"
proof -
  note I = flat_invD [OF assms(1)]
  obtain i where i: "map_of (fl_dir w) p = Some i" using assms(2) by (auto simp: flat_data_def)
  let ?fd = "int (length (fl_fds w)) + 3" and ?e = "(p, i, False, 0)"
  have r: "r = Inr ?fd" and w': "w' = w\<lparr>fl_fds := fl_fds w @ [?e]\<rparr>"
    using assms(3) I(3) [OF i] i by (auto simp: flat_open_def flat_name_local Let_def rdonly_bits create_rdwr)
  have fd: "flat_fd w' h = (if h = ?fd then Some ?e else flat_fd w h)" for h by (rule flat_fd_new) (simp add: w')
  have "flat_inv w'" using I(3) [OF i] by (intro flat_inv_fds [OF assms(1)]) (auto simp: w' fd [unfolded w'] split: if_splits)
  moreover have "flat_data w' = flat_data w" by (simp add: w' flat_data_def fun_eq_iff)
  moreover have "flat_wfd w' h = Some q" if "flat_wfd w h = Some q" for h q
    using that fd [of h] by (auto simp: flat_wfd_iff w' flat_fd_def)
  ultimately show ?thesis using r i by (auto simp: flat_rfd_iff fd) (simp add: w')
qed

lemma flat_write_law:
  assumes "flat_inv w" "flat_wfd w fd = Some p" "flat_data w p = Some bs" "flat_write w fd buf = (r, w')"
  shows "flat_inv w' \<and> flat_wfd w' = flat_wfd w \<and> (case r of Inl e \<Rightarrow> e \<noteq> 0 \<and> flat_data w' = flat_data w
    | Inr n \<Rightarrow> n \<le> length buf \<and> flat_data w' = (flat_data w)(p \<mapsto> bs @ take n buf))"
proof -
  note I = flat_invD [OF assms(1)]
  obtain i where i: "flat_fd w fd = Some (p, i, True, length (fl_data w i))" "map_of (fl_dir w) p = Some i"
    using assms(2) by (auto simp: flat_wfd_iff)
  have bs: "bs = fl_data w i" using assms(3) i(2) by (simp add: flat_data_def)
  have r: "r = Inr (length buf)" and w': "w' = w\<lparr>fl_data := (fl_data w)(i := bs @ buf),
      fl_fds := (fl_fds w)[nat (fd - 3) := (p, i, True, length bs + length buf)]\<rparr>"
    using assms(4) i bs by (auto simp: flat_write_def)
  have fd: "flat_fd w' h = (if h = fd then Some (p, i, True, length bs + length buf) else flat_fd w h)" for h
    by (rule flat_fd_update [OF i(1)]) (simp add: w')
  have "flat_inv w'" using i(1) by (intro flat_inv_fds [OF assms(1)]) (auto simp: w' fd [unfolded w'] split: if_splits)
  moreover have "flat_data w' = (flat_data w)(p \<mapsto> bs @ buf)"
    using i(2) flat_inode_inj [OF assms(1)] by (fastforce simp: flat_data_def w' fun_eq_iff map_option_case split: option.splits)
  moreover have "flat_wfd w' h = Some q \<longleftrightarrow> flat_wfd w h = Some q" for h q
  proof (cases "h = fd")
    case True
    then show ?thesis using fd [of h] i bs by (auto simp: flat_wfd_iff w')
  next
    case False
    then have "j \<noteq> i" if "flat_fd w h = Some (q, j, True, n)" for j n using I(5) i(1) that by blast
    then show ?thesis using False by (auto simp: flat_wfd_iff fd) (auto simp: w')
  qed
  then have "flat_wfd w' = flat_wfd w" by (metis (no_types) ext not_None_eq)
  ultimately show ?thesis using r by simp
qed

text \<open>Moving the position of a descriptor that is open for reading.\<close>

lemma flat_move:
  assumes "flat_inv w" "flat_rfd w fd = Some (p, pos)" "flat_fd w fd = Some (p, i, False, pos)"
    and "w' = w\<lparr>fl_fds := (fl_fds w)[nat (fd - 3) := (p, i, False, pos')]\<rparr>"
  shows "flat_inv w'" "flat_data w' = flat_data w" "flat_wfd w' = flat_wfd w" "flat_rfd w' fd = Some (p, pos')"
proof -
  have fd: "flat_fd w' h = (if h = fd then Some (p, i, False, pos') else flat_fd w h)" for h
    by (rule flat_fd_update [OF assms(3)]) (simp add: assms(4))
  show "flat_inv w'" using assms(3) by (intro flat_inv_fds [OF assms(1)]) (auto simp: assms(4) fd [unfolded assms(4)] split: if_splits)
  show "flat_data w' = flat_data w" by (simp add: assms(4) flat_data_def fun_eq_iff)
  have "flat_wfd w' h = Some q \<longleftrightarrow> flat_wfd w h = Some q" for h q
    using fd [of h] assms(3) by (auto simp: flat_wfd_iff assms(4))
  then show "flat_wfd w' = flat_wfd w" by (metis (no_types) ext not_None_eq)
  show "flat_rfd w' fd = Some (p, pos')" using assms(2,3) fd [of fd] by (auto simp: flat_rfd_iff assms(4))
qed

lemma map_of_filter_key: "map_of (filter (\<lambda>e. fst e \<noteq> p) xs) q = (if q = p then None else map_of xs q)"
  by (induction xs) auto

lemma flat_unlink_law:
  assumes "flat_inv w" "flat_unlink D w (local_path D p) = (r, w')"
  shows "flat_inv w' \<and> (\<forall>h q. flat_wfd w h = Some q \<longrightarrow> q \<noteq> p \<longrightarrow> flat_wfd w' h = Some q) \<and>
    (case r of Inl e \<Rightarrow> e \<noteq> 0 \<and> flat_data w' = flat_data w | Inr _ \<Rightarrow> flat_data w' = (flat_data w)(p := None))"
proof (cases r)
  case (Inl e)
  then show ?thesis using assms by (auto simp: flat_unlink_def split: option.splits if_splits)
next
  case (Inr x)
  then have w': "w' = w\<lparr>fl_dir := filter (\<lambda>e. fst e \<noteq> p) (fl_dir w)\<rparr>"
    using assms(2) by (auto simp: flat_unlink_def flat_name_local split: option.splits if_splits)
  have dir: "map_of (fl_dir w') q = (if q = p then None else map_of (fl_dir w) q)" for q
    by (simp add: w' map_of_filter_key)
  have fd: "flat_fd w' h = flat_fd w h" for h by (rule flat_fd_same) (simp add: w')
  have data: "fl_data w' = fl_data w" by (simp add: w')
  have "flat_inv w'"
    using assms(1) unfolding flat_inv_def fd by (auto simp: w' distinct_map_filter)
  moreover have "flat_data w' = (flat_data w)(p := None)" by (auto simp: flat_data_def dir data fun_eq_iff)
  ultimately show ?thesis using Inr by (auto simp: flat_wfd_iff fd dir data)
qed

lemma flat_posix_simps [simp]:
  "px_open (flat_posix D) = flat_open D" "px_write (flat_posix D) = flat_write" "px_lseek (flat_posix D) = flat_lseek"
  "px_read (flat_posix D) = flat_read" "px_unlink (flat_posix D) = flat_unlink D"
  "px_fchmod (flat_posix D) w fd md = (if flat_fd w fd = None then Inl EINVAL else Inr (), w)"
  "px_fstat (flat_posix D) w fd = (case flat_fd w fd of None \<Rightarrow> Inl EINVAL | Some (p, i, _) \<Rightarrow> Inr (int (length (fl_data w i))))"
  "px_readdir (flat_posix D) w D = Some (map (\<lambda>e. (fst e, True)) (fl_dir w))"
  by (simp_all add: flat_posix_def)

lemma flat_posix_full: "posix_dir_full (flat_posix D) D flat_inv flat_data flat_wfd flat_rfd"
proof (unfold_locales, goal_cases)
  case (1 w p md r w')
  then show ?case unfolding flat_posix_simps by (rule flat_open_new)
next
  case (2 w p bs md)
  then obtain i where "map_of (fl_dir w) p = Some i" by (auto simp: flat_data_def)
  with flat_invD(3) [OF 2(1) this] show ?case by (simp add: flat_open_def flat_name_local Let_def create_flags_bits)
next
  case (3 w p bs md r w')
  then show ?case unfolding flat_posix_simps by (rule flat_open_read)
next
  case (4 w fd p bs buf r w')
  then show ?case unfolding flat_posix_simps by (rule flat_write_law)
next
  case (5 w fd p pos off r w')
  then obtain i where i: "flat_fd w fd = Some (p, i, False, pos)" by (auto simp: flat_rfd_iff)
  show ?case using 5 i flat_move [OF 5(1,2) i refl, of "nat off"] by (auto simp: flat_lseek_def split: if_splits)
next
  case (6 w fd p pos bs n r w')
  then obtain i where i: "flat_fd w fd = Some (p, i, False, pos)" "map_of (fl_dir w) p = Some i" by (auto simp: flat_rfd_iff)
  let ?b = "bytes_at pos (unat n) bs"
  have "bs = fl_data w i" using 6(3) i(2) by (simp add: flat_data_def)
  with 6(4) i(1) have "r = Inr ?b" "w' = w\<lparr>fl_fds := (fl_fds w)[nat (fd - 3) := (p, i, False, pos + length ?b)]\<rparr>"
    by (auto simp: flat_read_def Let_def)
  with flat_move [OF 6(1,2) i(1)] show ?case by simp
next
  case (7 w fd md r w')
  then show ?case by (auto split: if_splits)
next
  case (8 w fd p bs)
  then show ?case by (auto simp: flat_wfd_iff flat_data_def)
next
  case (9 w p r w')
  then show ?case unfolding flat_posix_simps by (rule flat_unlink_law)
next
  case (10 w entries n)
  then have "n \<in> fst ` set (fl_dir w)" by force
  then show ?case by (auto simp: flat_data_def dom_map_of_conv_image_fst [symmetric])
next
  case (11 w fd buf n w')
  then show ?case by (auto simp: flat_write_def split: option.splits prod.splits bool.splits)
qed

interpretation flatfs: posix_dir_full "flat_posix D" D flat_inv flat_data flat_wfd flat_rfd
  by (rule flat_posix_full)

end
