(* ===== verification/Bank.thy ===== *)
theory Bank
  imports Mem_Chunk
begin

text \<open>
  The table of chunks of a chunk server: \<^verbatim>\<open>src/manusya/bank.h\<close> and \<^verbatim>\<open>src/manusya/bank.cc\<close>. A
  \<^verbatim>\<open>ChunkPtr\<close> is an address of the heap \<open>b_heap\<close>; the map \<^verbatim>\<open>_chunks\<close> holds addresses, because a
  handler that looked a chunk up keeps its pointer after the chunk was removed from the map. The
  UUID that \<^verbatim>\<open>UUID::generate()\<close> returned is an argument of the operation that calls it.
\<close>

section \<open>Definitions\<close>

record ('s, 'h) bank =
  b_store :: 's
  b_chunks :: "(uuid, nat) omap"
  b_heap :: "nat \<Rightarrow> 'h chunk option"
  b_next :: nat

definition new_bank :: "'s \<Rightarrow> ('s, 'h) bank" where
  "new_bank s = \<lparr>b_store = s, b_chunks = [], b_heap = (\<lambda>_. None), b_next = 0\<rparr>"

text \<open>A new chunk object, and \<^verbatim>\<open>_chunks[uuid] = chunk\<close>.\<close>

definition bank_add :: "uuid_lib \<Rightarrow> ('s, 'h) bank \<Rightarrow> uuid \<Rightarrow> 'h chunk \<Rightarrow> nat \<times> ('s, 'h) bank" where
  "bank_add L b u c =
     (b_next b, b\<lparr>b_chunks := om_set (u_lt L) (b_chunks b) u (b_next b),
        b_heap := (b_heap b)(b_next b \<mapsto> c), b_next := Suc (b_next b)\<rparr>)"

definition bank_create_chunk ::
  "uuid_lib \<Rightarrow> ('s, 'h) store_vt \<Rightarrow> ('s, 'h) bank \<Rightarrow> uuid \<Rightarrow> nat option option \<Rightarrow>
   (status \<times> nat option option \<times> ('s, 'h) bank) outcome" where
  "bank_create_chunk L V b gen out =
     (case out of None \<Rightarrow> Done (Status EINVAL ''chunk is nullptr'', out, b)
      | Some _ \<Rightarrow>
        obind (chunk_create L V (Some (b_store b)) gen (Some None)) (\<lambda>(st, chunk, so).
        let b1 = (case so of Some s \<Rightarrow> b\<lparr>b_store := s\<rparr> | None \<Rightarrow> b) in
        if \<not> st_ok st then Done (st, out, b1)
        else case chunk of Some (Some c) \<Rightarrow>
               (case bank_add L b1 (c_uuid c) c of (a, b2) \<Rightarrow> Done (status_OK, Some (Some a), b2))
             | _ \<Rightarrow> Abort ''null ChunkPtr''))"

definition bank_get_chunk ::
  "uuid_lib \<Rightarrow> ('s, 'h) bank \<Rightarrow> uuid \<Rightarrow> nat option option \<Rightarrow> (status \<times> nat option option) outcome" where
  "bank_get_chunk L b u out =
     (case om_find (u_lt L) (b_chunks b) u of None \<Rightarrow> Done (Status ENOENT ''Chunk not found'', out)
      | Some a \<Rightarrow>
        (case out of None \<Rightarrow> Abort ''null ChunkPtr pointer'' | Some _ \<Rightarrow> Done (status_OK, Some (Some a))))"

definition bank_remove_chunk ::
  "uuid_lib \<Rightarrow> ('s, 'h) store_vt \<Rightarrow> ('s, 'h) bank \<Rightarrow> uuid \<Rightarrow> (status \<times> ('s, 'h) bank) outcome" where
  "bank_remove_chunk L V b u =
     (case om_find (u_lt L) (b_chunks b) u of None \<Rightarrow> Done (Status ENOENT ''Chunk not found'', b)
      | Some _ \<Rightarrow>
        let b1 = b\<lparr>b_chunks := om_erase (u_lt L) (b_chunks b) u\<rparr> in
        obind (vt_remove V (b_store b1) (Some (u_str L u))) (\<lambda>(_, _, s).
        Done (status_OK, b1\<lparr>b_store := s\<rparr>)))"

text \<open>
  The loop of \<^verbatim>\<open>list_chunk\<close>, with its 32-bit counter: the UUIDs that are handed to the callback. An
  exception of the callback is caught, so it does not stop the loop.
\<close>

fun list_loop :: "u32 \<Rightarrow> u32 \<Rightarrow> (uuid, nat) omap \<Rightarrow> uuid list" where
  "list_loop i limit [] = []"
| "list_loop i limit (e # es) = (if i < limit then fst e # list_loop (i + 1) limit es else [])"

definition bank_list_chunk :: "uuid_lib \<Rightarrow> ('s, 'h) bank \<Rightarrow> uuid \<Rightarrow> u32 \<Rightarrow> uuid list" where
  "bank_list_chunk L b start limit = list_loop 0 limit (om_lower_bound (u_lt L) (b_chunks b) start)"

text \<open>The callback of \<^verbatim>\<open>load\<close>: the status of \<^verbatim>\<open>query_and_seal\<close> is ignored.\<close>

definition bank_load_one ::
  "uuid_lib \<Rightarrow> ('s, 'h) store_vt \<Rightarrow> string \<Rightarrow> ('s, 'h) bank \<Rightarrow> ('s, 'h) bank outcome" where
  "bank_load_one L V path b =
     (let uuid = from_str_or_die L path in
      obind (chunk_create_uuid L V (Some (b_store b)) uuid (Some None)) (\<lambda>(st, chunk, so).
      let b1 = (case so of Some s \<Rightarrow> b\<lparr>b_store := s\<rparr> | None \<Rightarrow> b) in
      if \<not> st_ok st then Done b1
      else case chunk of Some (Some c) \<Rightarrow>
             obind (chunk_query_and_seal V (b_store b1) c (Some 0)) (\<lambda>(_, _, s, c').
             Done (snd (bank_add L (b1\<lparr>b_store := s\<rparr>) uuid c')))
           | _ \<Rightarrow> Abort ''null ChunkPtr''))"

fun bank_load_all ::
  "uuid_lib \<Rightarrow> ('s, 'h) store_vt \<Rightarrow> string list \<Rightarrow> ('s, 'h) bank \<Rightarrow> ('s, 'h) bank outcome" where
  "bank_load_all L V [] b = Done b"
| "bank_load_all L V (p # ps) b = obind (bank_load_one L V p b) (bank_load_all L V ps)"

text \<open>
  The callbacks run one after the other over the paths. \<^verbatim>\<open>MemStore::for_each\<close> runs them under the mutex of the store, which the
  callback does not need as long as \<^verbatim>\<open>open\<close> fails: \<^verbatim>\<open>MemStore::open\<close> takes no lock.
\<close>

definition bank_load :: "uuid_lib \<Rightarrow> ('s, 'h) store_vt \<Rightarrow> ('s, 'h) bank \<Rightarrow> (status \<times> ('s, 'h) bank) outcome" where
  "bank_load L V b =
     obind (bank_load_all L V (vt_for_each V (b_store b)) b) (\<lambda>b'. Done (status_OK, b'))"

section \<open>Chunk operations through a pointer\<close>

text \<open>A member function of the chunk at address \<open>a\<close>, over the shared store.\<close>

definition bank_put :: "('s, 'h) bank \<Rightarrow> nat \<Rightarrow> 's \<Rightarrow> 'h chunk \<Rightarrow> ('s, 'h) bank" where
  "bank_put b a s c = b\<lparr>b_store := s, b_heap := (b_heap b)(a \<mapsto> c)\<rparr>"

definition deref :: "('s, 'h) bank \<Rightarrow> nat \<Rightarrow> 'h chunk outcome" where
  "deref b a = (case b_heap b a of None \<Rightarrow> Abort ''dangling ChunkPtr'' | Some c \<Rightarrow> Done c)"

definition at_append ::
  "('s, 'h) store_vt \<Rightarrow> ('s, 'h) bank \<Rightarrow> nat \<Rightarrow> iobuf \<Rightarrow> u64 \<Rightarrow> (append_result \<times> ('s, 'h) bank) outcome" where
  "at_append V b a buf off =
     obind (deref b a) (\<lambda>c. obind (chunk_append V (b_store b) c buf off) (\<lambda>(r, s, c').
     Done (r, bank_put b a s c')))"

definition at_timeout :: "('s, 'h) bank \<Rightarrow> nat \<Rightarrow> nat \<Rightarrow> ('s, 'h) bank outcome" where
  "at_timeout b a i =
     obind (deref b a) (\<lambda>c. obind (chunk_timeout c i) (\<lambda>c'. Done (bank_put b a (b_store b) c')))"

definition at_seal ::
  "('s, 'h) store_vt \<Rightarrow> ('s, 'h) bank \<Rightarrow> nat \<Rightarrow> u64 option \<Rightarrow> (status \<times> u64 option \<times> ('s, 'h) bank) outcome" where
  "at_seal V b a len =
     obind (deref b a) (\<lambda>c. obind (chunk_query_and_seal V (b_store b) c len) (\<lambda>(st, len', s, c').
     Done (st, len', bank_put b a s c')))"

definition at_read ::
  "uuid_lib \<Rightarrow> ('s, 'h) store_vt \<Rightarrow> ('s, 'h) bank \<Rightarrow> nat \<Rightarrow> u64 \<Rightarrow> u64 \<Rightarrow> iobuf option \<Rightarrow>
   (status \<times> iobuf option \<times> ('s, 'h) bank) outcome" where
  "at_read L V b a off n buf =
     obind (deref b a) (\<lambda>c. obind (chunk_read L V (b_store b) c off n buf) (\<lambda>(st, buf', s).
     Done (st, buf', bank_put b a s c)))"

end
