(* ===== verification/Local_Chunk.thy ===== *)
theory Local_Chunk
  imports Local_Store Bank
begin

text \<open>
  Chunks and the table of chunks over the local store. The contract \<open>file_store\<close> holds for
  \<^verbatim>\<open>LocalStore\<close> (see \<open>Local_Store\<close>), so the lemmas on chunks hold here too: what a client was told
  is durable, and a read returns it. Restarting a chunk server is \<^verbatim>\<open>Bank::load\<close> over the files of
  the previous process.
\<close>

section \<open>Lemmas\<close>

context file_store
begin

lemma read_durable:
  assumes "sinv s0" "chunk_reachable L V s0 u (s, c)"
    and "chunk_append V s c buf off = Done (Returned st, s1, c1)" "st_ok st"
    and "chunk_run L V (s1, c1) (s2, c2)" "files s2 (u_str L u) = Some bs2" "length bs2 < 2 ^ 64"
    and "chunk_read L V s2 c2 off (word_of_nat (length buf)) (Some []) = Done (st2, b, s3)" "st_ok st2"
  shows "b = Some buf"
proof -
  note D = append_durable [OF assms(1-7)]
  have n: "unat (word_of_nat (length buf) :: u64) = length buf"
    using D(2) assms(7) by (intro unat_of_nat_u64) simp
  show ?thesis using read_ok [OF D(1), of off "word_of_nat (length buf)"] assms(8,9) D(2,3) by (auto simp: n)
qed

lemma load_one_exists:
  assumes "sinv (b_store b)" "files (b_store b) path = Some bs" "u_str L (from_str_or_die L path) = path"
  shows "bank_load_one L V path b = Done b"
proof -
  obtain st where "chunk_create_uuid L V (Some (b_store b)) (from_str_or_die L path) (Some None) =
      Done (st, Some None, Some (b_store b))" "error_code st = EEXIST"
    using create_uuid_exists [OF assms(1), of L "from_str_or_die L path" bs None] assms(2,3) by auto
  then show ?thesis by (simp add: bank_load_one_def st_ok_def)
qed

lemma load_nothing:
  assumes "sinv (b_store b)"
    and "\<And>path. files (b_store b) path \<noteq> None \<Longrightarrow> u_str L (from_str_or_die L path) = path"
  shows "bank_load L V b = Done (status_OK, b)"
proof -
  have "bank_load_all L V ps b = Done b" if "set ps \<subseteq> dom (files (b_store b))" for ps
    using that
  proof (induction ps)
    case (Cons p ps)
    then obtain bs where "files (b_store b) p = Some bs" by auto
    with load_one_exists [OF assms(1) this] assms(2) [of p] Cons show ?case by simp
  qed simp
  then show ?thesis using for_each_spec [OF assms(1)] by (simp add: bank_load_def)
qed

end

text \<open>
  What a chunk does over a local store whose writes may be short, if it returns, is what it does over \<open>px_whole\<close>.
\<close>

lemma obind_le:
  assumes "obind m f = Done r" "\<And>x. m = Done x \<Longrightarrow> m' = Done x" "\<And>x. f x = Done r \<Longrightarrow> f' x = Done r"
  shows "obind m' f' = Done r"
  using assms by (cases m) auto

lemma fh_append_whole:
  "fh_append (local_vt X junk D) w fh off buf = Done r \<Longrightarrow> fh_append (local_vt (px_whole X) junk D) w fh off buf = Done r"
  by (cases fh) (simp_all add: fh_append_def local_append_whole)

lemma drain_whole:
  "drain (local_vt X junk D) w c q = Done r \<Longrightarrow> drain (local_vt (px_whole X) junk D) w c q = Done r"
proof (induction q arbitrary: w c)
  case (Cons i q)
  show ?case
  proof (cases "c_reqs c i")
    case (Some rq)
    consider "rq_offset rq < c_size c" | "rq_offset rq = c_size c" | "c_size c < rq_offset rq" by force
    then show ?thesis
    proof cases
      case 1
      with Some Cons.prems show ?thesis by (auto simp: outcome_simps intro: Cons.IH)
    next
      case 2
      with Some Cons.prems show ?thesis
        by (auto simp: Let_def split del: if_split elim!: obind_le intro: fh_append_whole Cons.IH)
    next
      case 3
      then have "\<not> rq_offset rq < c_size c" "rq_offset rq \<noteq> c_size c" by auto
      with Some Cons.prems show ?thesis by simp
    qed
  qed (use Cons.prems in simp)
qed simp

lemma append_whole:
  "chunk_append (local_vt X junk D) w c buf off = Done r \<Longrightarrow> chunk_append (local_vt (px_whole X) junk D) w c buf off = Done r"
  by (auto simp: chunk_append_def Let_def split: if_splits elim!: obind_le intro: fh_append_whole drain_whole)

lemma other_whole:
  "chunk_query_and_seal (local_vt (px_whole X) junk D) = chunk_query_and_seal (local_vt X junk D)"
  "chunk_read L (local_vt (px_whole X) junk D) = chunk_read L (local_vt X junk D)"
  "chunk_create L (local_vt (px_whole X) junk D) = chunk_create L (local_vt X junk D)"
  "chunk_create_uuid L (local_vt (px_whole X) junk D) = chunk_create_uuid L (local_vt X junk D)"
  unfolding chunk_query_and_seal_def chunk_read_def chunk_create_def chunk_create_uuid_def fh_seal_def fh_size_def fh_read_def
    local_vt_simps local_whole by (rule refl)+

lemma run_whole: "chunk_run L (local_vt X junk D) x y \<Longrightarrow> chunk_run L (local_vt (px_whole X) junk D) x y"
proof (induction rule: chunk_run.induct)
  case (run_step x y z)
  from run_step.hyps(2) have "chunk_step L (local_vt (px_whole X) junk D) y z"
    by cases (auto dest: append_whole intro: chunk_step.intros simp: other_whole)
  with run_step.IH show ?case by (rule chunk_run.run_step)
qed (rule chunk_run.run_refl)

lemma reachable_whole:
  "chunk_reachable L (local_vt X junk D) w u x \<Longrightarrow> chunk_reachable L (local_vt (px_whole X) junk D) w u x"
  unfolding chunk_reachable_def other_whole by (blast intro: run_whole)

lemma load_whole: "bank_load L (local_vt (px_whole X) junk D) b = bank_load L (local_vt X junk D) b"
proof -
  have "bank_load_one L (local_vt (px_whole X) junk D) p = bank_load_one L (local_vt X junk D) p" for p
    unfolding bank_load_one_def other_whole by (rule refl)
  then have "bank_load_all L (local_vt (px_whole X) junk D) ps = bank_load_all L (local_vt X junk D) ps" for ps
    by (induction ps) (rule ext, simp)+
  then show ?thesis by (simp add: bank_load_def)
qed

text \<open>The concrete run of the witnesses: a directory, and a chunk that is written to twice.\<close>

abbreviation ex_dir :: "(flat_fs, int) store_vt" where
  "ex_dir \<equiv> local_vt (flat_posix ''d'') [] ''d''"

definition ex_flat :: "iobuf \<Rightarrow> (string \<times> nat \<times> bool \<times> nat) list \<Rightarrow> flat_fs" where
  "ex_flat bs fds = \<lparr>fl_dir = [(u_str hex_lib ex_u, 0)], fl_data = (\<lambda>_. [])(0 := bs), fl_next = 1,
     fl_fds = (u_str hex_lib ex_u, 0, True, length bs) # fds\<rparr>"

definition ex_flat_empty :: flat_fs where
  "ex_flat_empty = \<lparr>fl_dir = [], fl_data = (\<lambda>_. []), fl_next = 0, fl_fds = []\<rparr>"

definition ex_lchunk :: "u64 \<Rightarrow> int chunk" where
  "ex_lchunk n = (new_chunk ex_u)\<lparr>c_fh := Some 3, c_state := KOpen, c_size := n\<rparr>"

lemma ex_u_name: "u_str hex_lib ex_u \<noteq> []" "CHR ''/'' \<notin> set (u_str hex_lib ex_u)"
  by code_simp+

lemma ex_flat_inv: "flat_inv ex_flat_empty"
  by (simp add: flat_inv_def ex_flat_empty_def flat_fd_def)

lemma ex_flat_create: "chunk_reachable hex_lib ex_dir ex_flat_empty ex_u (ex_flat [] [], ex_lchunk 0)"
  unfolding chunk_reachable_def
  by (intro exI [of _ status_OK] exI [of _ "ex_lchunk 0"] exI [of _ "ex_flat [] []"] conjI chunk_run.run_refl)
    (simp add: chunk_create_def local_open_def flat_open_def flat_name_local Let_def create_flags_bits create_rdwr
      ex_flat_empty_def ex_flat_def ex_lchunk_def ex_u_name new_chunk_def fun_eq_iff)

lemma ex_flat_append: "chunk_append ex_dir (ex_flat [] []) (ex_lchunk 0) [1, 2] 0 = Done (Returned status_OK, ex_flat [1, 2] [], ex_lchunk 2)"
  by (simp add: chunk_append_def fh_append_def local_append_def flat_write_def flat_fd_def ex_flat_def ex_lchunk_def new_chunk_def)

lemma ex_flat_files: "flat_data (ex_flat bs fds) (u_str hex_lib ex_u) = Some bs"
  by (simp add: flat_data_def ex_flat_def)

lemma ex_flat_read: "\<exists>w b. chunk_read hex_lib ex_dir (ex_flat [1, 2] []) (ex_lchunk 2) 0 2 (Some []) = Done (status_OK, b, w)"
  by (simp add: chunk_read_def local_open_def flat_open_def flat_name_local Let_def rdonly_bits create_rdwr ex_u_name
      fh_read_def local_read_def flat_lseek_def flat_read_def flat_fd_def ex_flat_def ex_lchunk_def new_chunk_def)

lemma ex_flat_written: "flat_inv (ex_flat [1, 2] [])"
  using file_store.append_durable(1) [OF flatfs.contract ex_flat_inv ex_flat_create ex_flat_append st_ok_OK chunk_run.run_refl
      ex_flat_files] file_store.chunk_onD(1) [OF flatfs.contract] by fastforce

lemmas flat_posix_dir = posix_dir_full.axioms(1) [OF flat_posix_full]

section \<open>Properties\<close>



text \<open>
  A chunk server that restarts over its directory loads nothing: every file it finds is a
  chunk of the previous process, which \<^verbatim>\<open>Chunk::create\<close> opens with \<^verbatim>\<open>O_EXCL\<close>, so every one is refused and
  \<^verbatim>\<open>Bank::load\<close> reports success with the bank unchanged.
\<close>

theorem bank_load_local:
  assumes "posix_dir X D winv data wfd rfd" "uuid_library L" "winv (b_store b)"
    and "\<forall>path. data (b_store b) path \<noteq> None \<longrightarrow> (\<exists>u. path = u_str L u)"
  shows "bank_load L (local_vt X junk D) b = Done (status_OK, b)"
  unfolding load_whole [symmetric, of L X]
  by (rule file_store.load_nothing [OF posix_dir_full.contract [OF posix_dir.whole [OF assms(1)]] assms(3)])
    (use assms(4) in \<open>auto simp: from_str_or_die_def uuid_library.parse_str [OF assms(2)]\<close>)

theorem bank_load_local_witness:
  "flat_data (ex_flat [1, 2] []) (u_str hex_lib ex_u) = Some [1, 2] \<and>
   bank_load hex_lib ex_dir (new_bank (ex_flat [1, 2] [])) = Done (status_OK, new_bank (ex_flat [1, 2] []))"
proof -
  note ex_flat_written
  moreover have "\<exists>u. path = u_str hex_lib u" if "flat_data (ex_flat [1, 2] []) path \<noteq> None" for path
    using that by (auto simp: flat_data_def ex_flat_def split: if_splits)
  moreover have "b_store (new_bank (ex_flat [1, 2] [])) = ex_flat [1, 2] []" by (simp add: new_bank_def)
  ultimately show ?thesis
    using bank_load_local [OF flat_posix_dir hexlib.uuid_library_axioms, of "new_bank (ex_flat [1, 2] [])"] ex_flat_files
    by metis
qed

text \<open>
  \<^verbatim>\<open>Bank::load\<close> over a memory store loads nothing either: each of its files exists, so it cannot be created.
\<close>

theorem bank_load_memory:
  assumes "iobuf_library I" "uuid_library L" "mem_inv (b_store b)" "\<forall>path. mem_files (b_store b) path \<noteq> None \<longrightarrow> (\<exists>u. path = u_str L u)"
  shows "bank_load L (mem_vt I) b = Done (status_OK, b)"
  by (rule file_store.load_nothing [OF mem_vt_contract [OF assms(1)] assms(3)])
    (use assms(4) in \<open>auto simp: from_str_or_die_def uuid_library.parse_str [OF assms(2)]\<close>)

end
