(* ===== verification/Rpc.thy ===== *)
theory Rpc
  imports Prelude
begin

text \<open>
  What the RPC services share: a reply is the header of the response message (\<^verbatim>\<open>Header\<close> of
  \<^verbatim>\<open>protocols/pain/proto/common.proto\<close>), the field the handler fills in, the attachment of the
  response and the error that \<^verbatim>\<open>cntl->SetFailed\<close> recorded.
\<close>

section \<open>Messages\<close>

record header =
  hd_status :: u32
  hd_message :: string

record 'r reply =
  rp_header :: header
  rp_failed :: "(int \<times> string) option"
  rp_body :: 'r
  rp_attachment :: iobuf

definition new_reply :: "'r \<Rightarrow> 'r reply" where
  "new_reply r = \<lparr>rp_header = \<lparr>hd_status = 0, hd_message = []\<rparr>, rp_failed = None, rp_body = r, rp_attachment = []\<rparr>"

definition set_header :: "int \<Rightarrow> string \<Rightarrow> 'r reply \<Rightarrow> 'r reply" where
  "set_header code msg r = r\<lparr>rp_header := \<lparr>hd_status = word_of_int code, hd_message = msg\<rparr>\<rparr>"

definition set_failed :: "int \<Rightarrow> string \<Rightarrow> 'r reply \<Rightarrow> 'r reply" where
  "set_failed code msg r = r\<lparr>rp_failed := Some (code, msg)\<rparr>"

definition reply_ok :: "'r reply \<Rightarrow> bool" where
  "reply_ok r \<longleftrightarrow> hd_status (rp_header r) = 0 \<and> rp_failed r = None"

end
