(* ===== verification/Manusya.thy ===== *)
theory Manusya
  imports Bank Rpc
begin

text \<open>
  The RPC service of a chunk server: \<^verbatim>\<open>src/manusya/manusya_service_impl.cc\<close>, with the messages of
  \<^verbatim>\<open>protocols/pain/proto/manusya.proto\<close>. A reply is the header of the response message, the field
  the handler fills in, the attachment of the response and the error that \<^verbatim>\<open>cntl->SetFailed\<close>
  recorded. A handler holds no lock between looking a chunk up and calling it, so the states the
  server can reach are those of \<open>server_step\<close>, whose steps are the locked regions; the handlers
  themselves are the sequential compositions. An append that has to wait suspends its handler.
\<close>

datatype 'r served = Replied 'r | Suspended nat nat

section \<open>Handlers\<close>

definition CreateChunk ::
  "uuid_lib \<Rightarrow> ('s, 'h) store_vt \<Rightarrow> ('s, 'h) bank \<Rightarrow> uuid \<Rightarrow> (uuid reply \<times> ('s, 'h) bank) outcome" where
  "CreateChunk L V b gen =
     obind (bank_create_chunk L V b gen (Some None)) (\<lambda>(st, chunk, b').
     if \<not> st_ok st then Done (set_header (error_code st) (error_str st) (new_reply (UUID 0 0)), b')
     else case chunk of Some (Some a) \<Rightarrow>
            obind (deref b' a) (\<lambda>c. Done (new_reply (UUID (uuid_high (c_uuid c)) (uuid_low (c_uuid c))), b'))
          | _ \<Rightarrow> Abort ''null ChunkPtr'')"

text \<open>The lookup that five of the handlers begin with.\<close>

definition with_chunk ::
  "uuid_lib \<Rightarrow> ('s, 'h) bank \<Rightarrow> uuid \<Rightarrow> 'x outcome \<Rightarrow> (nat \<Rightarrow> 'x outcome) \<Rightarrow> 'x outcome" where
  "with_chunk L b u missing k =
     obind (bank_get_chunk L b u (Some None)) (\<lambda>(st, chunk).
     if \<not> st_ok st then missing
     else case chunk of Some (Some a) \<Rightarrow> k a | _ \<Rightarrow> Abort ''null ChunkPtr'')"

text \<open>\<^verbatim>\<open>AppendChunk\<close> after \<^verbatim>\<open>Chunk::append\<close> returned \<open>st\<close>: the reply holds the size at that time.\<close>

definition append_reply :: "('s, 'h) bank \<Rightarrow> nat \<Rightarrow> status \<Rightarrow> u64 reply outcome" where
  "append_reply b a st =
     (if \<not> st_ok st then Done (set_header (error_code st) (error_str st) (new_reply 0))
      else obind (deref b a) (\<lambda>c. Done (new_reply (c_size c))))"

definition AppendChunk ::
  "uuid_lib \<Rightarrow> ('s, 'h) store_vt \<Rightarrow> ('s, 'h) bank \<Rightarrow> uuid \<Rightarrow> iobuf \<Rightarrow> u64 \<Rightarrow>
   (u64 reply served \<times> ('s, 'h) bank) outcome" where
  "AppendChunk L V b uuid attachment offset =
     with_chunk L b uuid (Done (Replied (set_header ENOENT ''Chunk not found'' (new_reply 0)), b)) (\<lambda>a.
     obind (at_append V b a attachment offset) (\<lambda>(r, b').
     case r of Returned st \<Rightarrow> obind (append_reply b' a st) (\<lambda>rp. Done (Replied rp, b'))
     | Waiting i \<Rightarrow> Done (Suspended a i, b')))"

definition AppendChunk_resume :: "('s, 'h) bank \<Rightarrow> nat \<Rightarrow> nat \<Rightarrow> u64 reply option outcome" where
  "AppendChunk_resume b a i =
     obind (deref b a) (\<lambda>c. obind (chunk_append_finish c i) (\<lambda>g.
     case g of Blocks \<Rightarrow> Done None
     | Returns st \<Rightarrow> obind (append_reply b a st) (\<lambda>rp. Done (Some rp))
     | Throws e \<Rightarrow> Abort e))"

definition ListChunk :: "uuid_lib \<Rightarrow> ('s, 'h) bank \<Rightarrow> uuid \<Rightarrow> u32 \<Rightarrow> uuid list reply" where
  "ListChunk L b start limit =
     new_reply (map (\<lambda>u. UUID (uuid_high u) (uuid_low u)) (bank_list_chunk L b start limit))"

definition ReadChunk ::
  "uuid_lib \<Rightarrow> ('s, 'h) store_vt \<Rightarrow> ('s, 'h) bank \<Rightarrow> uuid \<Rightarrow> u64 \<Rightarrow> u32 \<Rightarrow>
   (unit reply \<times> ('s, 'h) bank) outcome" where
  "ReadChunk L V b uuid offset len =
     with_chunk L b uuid (Done (set_header ENOENT ''Chunk not found'' (new_reply ()), b)) (\<lambda>a.
     obind (at_read L V b a offset (ucast len) (Some [])) (\<lambda>(st, buf, b').
     let r = (new_reply ())\<lparr>rp_attachment := (case buf of Some x \<Rightarrow> x | None \<Rightarrow> [])\<rparr> in
     if \<not> st_ok st then Done (set_failed (error_code st) (error_str st) r, b') else Done (r, b')))"

definition QueryAndSealChunk ::
  "uuid_lib \<Rightarrow> ('s, 'h) store_vt \<Rightarrow> ('s, 'h) bank \<Rightarrow> uuid \<Rightarrow> (u64 reply \<times> ('s, 'h) bank) outcome" where
  "QueryAndSealChunk L V b uuid =
     with_chunk L b uuid (Done (set_failed ENOENT ''Chunk not found'' (new_reply 0), b)) (\<lambda>a.
     obind (at_seal V b a (Some 0)) (\<lambda>(st, len, b').
     if \<not> st_ok st then Done (set_header (error_code st) (error_str st) (new_reply 0), b')
     else Done (new_reply (case len of Some n \<Rightarrow> n | None \<Rightarrow> 0), b')))"

definition RemoveChunk ::
  "uuid_lib \<Rightarrow> ('s, 'h) store_vt \<Rightarrow> ('s, 'h) bank \<Rightarrow> uuid \<Rightarrow> (unit reply \<times> ('s, 'h) bank) outcome" where
  "RemoveChunk L V b uuid =
     obind (bank_remove_chunk L V b uuid) (\<lambda>(st, b').
     Done (if \<not> st_ok st then set_header (error_code st) (error_str st) (new_reply ()) else new_reply (), b'))"

text \<open>The body of the reply of \<^verbatim>\<open>QueryChunk\<close> is the size and the seal flag.\<close>

definition QueryChunk ::
  "uuid_lib \<Rightarrow> ('s, 'h) bank \<Rightarrow> uuid \<Rightarrow> (u64 \<times> bool) reply outcome" where
  "QueryChunk L b uuid =
     with_chunk L b uuid (Done (set_header ENOENT ''Chunk not found'' (new_reply (0, False)))) (\<lambda>a.
     obind (deref b a) (\<lambda>c. Done (new_reply (c_size c, c_state c = KSealed))))"

section \<open>The steps of the server\<close>

text \<open>
  The locked regions, in any order and on any chunk whose pointer a handler may still hold. The
  only assumption is on \<^verbatim>\<open>UUID::generate\<close>: it never returns the UUID of a chunk that was created
  before.
\<close>

inductive server_step :: "uuid_lib \<Rightarrow> ('s, 'h) store_vt \<Rightarrow> ('s, 'h) bank \<Rightarrow> ('s, 'h) bank \<Rightarrow> bool"
  for L V where
  sv_create: "\<forall>a c. b_heap b a = Some c \<longrightarrow> c_uuid c \<noteq> gen \<Longrightarrow>
    bank_create_chunk L V b gen (Some None) = Done (st, p, b') \<Longrightarrow> server_step L V b b'"
| sv_remove: "bank_remove_chunk L V b u = Done (st, b') \<Longrightarrow> server_step L V b b'"
| sv_append: "at_append V b a buf off = Done (r, b') \<Longrightarrow> server_step L V b b'"
| sv_timeout: "b_heap b a = Some c \<Longrightarrow> c_reqs c i \<noteq> None \<Longrightarrow> at_timeout b a i = Done b' \<Longrightarrow> server_step L V b b'"
| sv_seal: "at_seal V b a len = Done (st, len', b') \<Longrightarrow> server_step L V b b'"
| sv_read: "at_read L V b a off n (Some []) = Done (st, buf', b') \<Longrightarrow> server_step L V b b'"

inductive server_run :: "uuid_lib \<Rightarrow> ('s, 'h) store_vt \<Rightarrow> ('s, 'h) bank \<Rightarrow> ('s, 'h) bank \<Rightarrow> bool"
  for L V where
  srun_refl: "server_run L V b b"
| srun_step: "server_run L V b b1 \<Longrightarrow> server_step L V b1 b2 \<Longrightarrow> server_run L V b b2"

section \<open>The invariant of the server\<close>

text \<open>What holds of every chunk object, also after its file was removed.\<close>

definition chunk_weak :: "uuid_lib \<Rightarrow> mem_handle chunk \<Rightarrow> bool" where
  "chunk_weak L c \<longleftrightarrow> c_fh c = Some (u_str L (c_uuid c)) \<and> (\<forall>i\<in>set (c_queue c). c_reqs c i \<noteq> None)"

definition server_inv :: "uuid_lib \<Rightarrow> (mem_store, mem_handle) bank \<Rightarrow> bool" where
  "server_inv L b \<longleftrightarrow> om_sorted (u_lt L) (b_chunks b) \<and> mem_inv (b_store b) \<and>
     (\<forall>a. b_next b \<le> a \<longrightarrow> b_heap b a = None) \<and>
     (\<forall>a c. b_heap b a = Some c \<longrightarrow> chunk_weak L c) \<and>
     (\<forall>a c a' c'. b_heap b a = Some c \<longrightarrow> b_heap b a' = Some c' \<longrightarrow> c_uuid c = c_uuid c' \<longrightarrow> a = a') \<and>
     (\<forall>u a. om_find (u_lt L) (b_chunks b) u = Some a \<longrightarrow>
        (\<exists>c bs. b_heap b a = Some c \<and> c_uuid c = u \<and> mem_on L (b_store b) c bs))"

section \<open>Lemmas on one chunk\<close>

lemma settle_total: "\<exists>rq'. settle st rq = Done rq'"
  by (cases "rq_promise rq") (auto simp: settle_def)

lemma mem_append_handle:
  assumes "mem_inv s"
  shows "\<exists>s'. fh_append (mem_vt I) s (Some p) off buf = Done (status_OK, (), s') \<and> mem_inv s' \<and>
    (\<forall>q. q \<noteq> p \<longrightarrow> mem_files s' q = mem_files s q)"
  using assms by (auto simp: fh_append_def mem_append_def mem_files_def str.om_find_set str.om_sorted_set
      mem_inv_sortedD om_index_def split: option.splits)

text \<open>What an operation of a chunk keeps of the chunk and of the store.\<close>

definition weak_post :: "uuid_lib \<Rightarrow> mem_store \<Rightarrow> mem_handle chunk \<Rightarrow> mem_store \<Rightarrow> mem_handle chunk \<Rightarrow> bool" where
  "weak_post L s c s' c' \<longleftrightarrow> mem_inv s' \<and> chunk_weak L c' \<and> c_uuid c' = c_uuid c \<and>
     (\<forall>q. q \<noteq> u_str L (c_uuid c) \<longrightarrow> mem_files s' q = mem_files s q)"

lemma weak_post_refl: "mem_inv s \<Longrightarrow> chunk_weak L c \<Longrightarrow> weak_post L s c s c"
  by (simp add: weak_post_def)

lemma weak_drain:
  assumes "mem_inv s" "c_fh c = Some (u_str L (c_uuid c))" "\<forall>i\<in>set q. c_reqs c i \<noteq> None"
  shows "\<exists>s' c'. drain (mem_vt I) s c q = Done (s', c') \<and> weak_post L s c s' c'"
  using assms
proof (induction q arbitrary: s c)
  case Nil
  then show ?case by (simp add: weak_post_def chunk_weak_def)
next
  case (Cons i q)
  then obtain rq where rq: "c_reqs c i = Some rq" by auto
  have IH: "\<exists>s2 c2. drain (mem_vt I) s1 (put_rq c1 i rq') q = Done (s2, c2) \<and> weak_post L s c s2 c2"
    if "mem_inv s1" "\<forall>p. p \<noteq> u_str L (c_uuid c) \<longrightarrow> mem_files s1 p = mem_files s p"
      "c_uuid c1 = c_uuid c" "c_fh c1 = c_fh c" "c_reqs c1 = c_reqs c" for s1 c1 rq'
    using Cons.IH [of s1 "put_rq c1 i rq'"] Cons.prems that by (auto simp: weak_post_def)
  obtain s1 where ap: "fh_append (mem_vt I) s (Some (u_str L (c_uuid c))) (rq_offset rq) (rq_buf rq) =
      Done (status_OK, (), s1)" "mem_inv s1" "\<forall>p. p \<noteq> u_str L (c_uuid c) \<longrightarrow> mem_files s1 p = mem_files s p"
    using mem_append_handle [OF Cons.prems(1)] by blast
  obtain r1 where "settle (invalid_offset (rq_offset rq) (rq_buf rq) (c_size c)) rq = Done r1"
    using settle_total by blast
  moreover obtain r2 where "settle status_OK rq = Done r2" using settle_total by blast
  ultimately show ?case
    using rq ap Cons.prems IH [of s c r1]
      IH [of s1 "c\<lparr>c_size := c_size c + word_of_nat (length (rq_buf rq))\<rparr>" r2]
    by (auto simp: weak_post_def chunk_weak_def)
qed

lemma weak_append:
  assumes "mem_inv s" "chunk_weak L c"
  shows "\<exists>r s' c'. chunk_append (mem_vt I) s c buf off = Done (r, s', c') \<and> weak_post L s c s' c'"
proof -
  consider "c_state c = KSealed \<or> off < c_size c" | "c_state c \<noteq> KSealed" "c_size c < off"
    | "c_state c \<noteq> KSealed" "off = c_size c" by fastforce
  then show ?thesis
  proof cases
    case 1
    then show ?thesis using weak_post_refl [OF assms] by (auto simp: chunk_append_def)
  next
    case 2
    then show ?thesis
      using assms set_queue_insert by (fastforce simp: chunk_append_def Let_def weak_post_def chunk_weak_def)
  next
    case 3
    obtain s1 where ap: "fh_append (mem_vt I) s (Some (u_str L (c_uuid c))) off buf = Done (status_OK, (), s1)"
      "mem_inv s1" "\<forall>p. p \<noteq> u_str L (c_uuid c) \<longrightarrow> mem_files s1 p = mem_files s p"
      using mem_append_handle [OF assms(1)] by blast
    let ?c = "c\<lparr>c_size := c_size c + word_of_nat (length buf)\<rparr>"
    obtain s2 c2 where "drain (mem_vt I) s1 ?c (c_queue c) = Done (s2, c2)" "weak_post L s1 ?c s2 c2"
      using weak_drain [OF ap(2), of ?c L "c_queue c" I] assms(2) by (auto simp: chunk_weak_def)
    with 3 ap assms(2) show ?thesis by (auto simp: chunk_append_def chunk_weak_def weak_post_def)
  qed
qed

lemma weak_timeout:
  assumes "mem_inv s" "chunk_weak L c" "chunk_timeout c i = Done c'"
  shows "weak_post L s c s c'"
  using assms by (auto simp: chunk_timeout_def weak_post_def chunk_weak_def Let_def outcome_simps
      split: option.splits if_splits)

lemma mem_index_frame:
  "mem_inv s \<Longrightarrow> om_index string_lt (m_files s) p [] = (v, m) \<Longrightarrow>
    om_sorted string_lt m \<and> (\<forall>q. q \<noteq> p \<longrightarrow> om_find string_lt m q = mem_files s q)"
  by (auto simp: om_index_def mem_files_def str.om_find_set str.om_sorted_set mem_inv_sortedD split: option.splits)

lemma weak_seal:
  assumes "mem_inv s" "chunk_weak L c"
  shows "\<exists>st len' s' c'. chunk_query_and_seal (mem_vt I) s c len = Done (st, len', s', c') \<and> weak_post L s c s' c'"
proof (cases len)
  case None
  then show ?thesis using weak_post_refl [OF assms] by (simp add: chunk_query_and_seal_def)
next
  case (Some x)
  obtain v m where "om_index string_lt (m_files s) (u_str L (c_uuid c)) [] = (v, m)" by fastforce
  with Some mem_index_frame [OF assms(1) this] assms show ?thesis
    by (auto simp: chunk_query_and_seal_def fh_seal_def fh_size_def mem_seal_def mem_size_def
        weak_post_def chunk_weak_def mem_files_def)
qed

lemma weak_read:
  assumes "mem_inv s" "chunk_weak L c"
  shows "\<exists>st b' s'. chunk_read L (mem_vt I) s c off n (Some []) = Done (st, Some b', s') \<and> weak_post L s c s' c"
proof -
  obtain v m where "om_index string_lt (m_files s) (u_str L (c_uuid c)) [] = (v, m)" by fastforce
  with mem_index_frame [OF assms(1) this] assms weak_post_refl [OF assms] show ?thesis
    by (auto simp: chunk_read_def fh_read_def mem_open_def mem_read_def rdonly_bits
        weak_post_def chunk_weak_def mem_files_def)
qed

lemma weak_step:
  assumes "chunk_step L (mem_vt I) (s, c) (s', c')" "mem_inv s" "chunk_weak L c"
  shows "weak_post L s c s' c'"
  using assms(1)
proof cases
  case (step_append buf off r)
  then show ?thesis using weak_append [OF assms(2,3), of I buf off] by auto
next
  case (step_timeout i)
  then show ?thesis using weak_timeout [OF assms(2,3)] by auto
next
  case (step_seal len st len')
  then show ?thesis using weak_seal [OF assms(2,3), of I len] by auto
next
  case (step_read off n st buf')
  then show ?thesis using weak_read [OF assms(2,3), of I off n] by auto
qed

lemma mem_on_frame:
  "mem_on L s c bs \<Longrightarrow> mem_inv s' \<Longrightarrow> mem_files s' (u_str L (c_uuid c)) = mem_files s (u_str L (c_uuid c)) \<Longrightarrow>
   mem_on L s' c bs"
  using file_store.chunk_on_def [OF memstore.file_store_axioms] by (simp add: mem_hpath_def)

lemma mem_on_weak: "mem_on L s c bs \<Longrightarrow> chunk_weak L c"
  using mem_onD(3,4) by (fastforce simp: chunk_weak_def chunk_ok_def pending_def)

section \<open>Lemmas on the server\<close>

text \<open>The four steps through a pointer are steps of the chunk it points to.\<close>

definition pointer_step :: "uuid_lib \<Rightarrow> ('s, 'h) store_vt \<Rightarrow> ('s, 'h) bank \<Rightarrow> ('s, 'h) bank \<Rightarrow> bool" where
  "pointer_step L V b b' \<longleftrightarrow> (\<exists>a c s' c'. b_heap b a = Some c \<and> chunk_step L V (b_store b, c) (s', c') \<and>
     b' = bank_put b a s' c')"

lemma deref_Done [outcome_simps]: "deref b a = Done c \<longleftrightarrow> b_heap b a = Some c"
  by (auto simp: deref_def split: option.splits)

lemma pointer_stepI:
  "b_heap b a = Some c \<Longrightarrow> chunk_step L V (b_store b, c) (s', c') \<Longrightarrow> pointer_step L V b (bank_put b a s' c')"
  unfolding pointer_step_def by blast

lemma pointer_steps:
  "at_append V b a buf off = Done (r, b') \<Longrightarrow> pointer_step L V b b'"
  "b_heap b a = Some c \<Longrightarrow> c_reqs c i \<noteq> None \<Longrightarrow> at_timeout b a i = Done b' \<Longrightarrow> pointer_step L V b b'"
  "at_seal V b a len = Done (st, len', b') \<Longrightarrow> pointer_step L V b b'"
  "at_read L V b a off n (Some []) = Done (st, buf', b') \<Longrightarrow> pointer_step L V b b'"
  by (auto simp: at_append_def at_timeout_def at_seal_def at_read_def outcome_simps split: prod.splits
      intro!: pointer_stepI intro: chunk_step.intros)

lemma server_step_kinds:
  assumes "server_step L V b b'"
  obtains gen st p where "\<forall>a c. b_heap b a = Some c \<longrightarrow> c_uuid c \<noteq> gen"
      "bank_create_chunk L V b gen (Some None) = Done (st, p, b')"
  | u st where "bank_remove_chunk L V b u = Done (st, b')"
  | "pointer_step L V b b'"
  using assms by cases (auto intro: pointer_steps)

text \<open>What every step keeps: pointers stay valid, a chunk that was removed is never registered
  again, and the file of a registered chunk only grows.\<close>

definition server_le :: "uuid_lib \<Rightarrow> (mem_store, mem_handle) bank \<Rightarrow> (mem_store, mem_handle) bank \<Rightarrow> bool" where
  "server_le L b b' \<longleftrightarrow>
     (\<forall>a c. b_heap b a = Some c \<longrightarrow> (\<exists>c'. b_heap b' a = Some c' \<and> c_uuid c' = c_uuid c)) \<and>
     (\<forall>u a. om_find (u_lt L) (b_chunks b') u = Some a \<longrightarrow> b_heap b a \<noteq> None \<longrightarrow>
        om_find (u_lt L) (b_chunks b) u = Some a) \<and>
     (\<forall>u a c bs. om_find (u_lt L) (b_chunks b) u = Some a \<longrightarrow> om_find (u_lt L) (b_chunks b') u = Some a \<longrightarrow>
        b_heap b a = Some c \<longrightarrow> mem_on L (b_store b) c bs \<longrightarrow>
        (\<exists>c' ys. b_heap b' a = Some c' \<and> mem_on L (b_store b') c' (bs @ ys)))"

lemma server_leI:
  assumes "\<And>a c. b_heap b a = Some c \<Longrightarrow> \<exists>c'. b_heap b' a = Some c' \<and> c_uuid c' = c_uuid c"
    and "\<And>u a c. om_find (u_lt L) (b_chunks b') u = Some a \<Longrightarrow> b_heap b a = Some c \<Longrightarrow>
      om_find (u_lt L) (b_chunks b) u = Some a"
    and "\<And>u a c bs. om_find (u_lt L) (b_chunks b) u = Some a \<Longrightarrow> om_find (u_lt L) (b_chunks b') u = Some a \<Longrightarrow>
      b_heap b a = Some c \<Longrightarrow> mem_on L (b_store b) c bs \<Longrightarrow>
      \<exists>c' ys. b_heap b' a = Some c' \<and> mem_on L (b_store b') c' (bs @ ys)"
  shows "server_le L b b'"
  using assms unfolding server_le_def by blast

lemma server_leD:
  assumes "server_le L b b'"
  shows "b_heap b a = Some c \<Longrightarrow> \<exists>c'. b_heap b' a = Some c' \<and> c_uuid c' = c_uuid c"
    "om_find (u_lt L) (b_chunks b') u = Some a \<Longrightarrow> b_heap b a = Some c \<Longrightarrow> om_find (u_lt L) (b_chunks b) u = Some a"
    "om_find (u_lt L) (b_chunks b) u = Some a \<Longrightarrow> om_find (u_lt L) (b_chunks b') u = Some a \<Longrightarrow>
      b_heap b a = Some c \<Longrightarrow> mem_on L (b_store b) c bs \<Longrightarrow>
      \<exists>c' ys. b_heap b' a = Some c' \<and> mem_on L (b_store b') c' (bs @ ys)"
  using assms unfolding server_le_def by blast+

lemma server_le_refl: "server_le L b b"
  by (rule server_leI) (blast | metis append_Nil2)+

lemma server_le_trans:
  assumes "server_le L b1 b2" "server_le L b2 b3"
  shows "server_le L b1 b3"
proof (rule server_leI)
  fix a c assume "b_heap b1 a = Some c"
  then show "\<exists>c'. b_heap b3 a = Some c' \<and> c_uuid c' = c_uuid c"
    using server_leD(1) [OF assms(1)] server_leD(1) [OF assms(2)] by metis
next
  fix u a c assume "om_find (u_lt L) (b_chunks b3) u = Some a" "b_heap b1 a = Some c"
  then show "om_find (u_lt L) (b_chunks b1) u = Some a"
    using server_leD(1,2) [OF assms(1)] server_leD(2) [OF assms(2)] by blast
next
  fix u a c bs
  assume *: "om_find (u_lt L) (b_chunks b1) u = Some a" "om_find (u_lt L) (b_chunks b3) u = Some a"
    "b_heap b1 a = Some c" "mem_on L (b_store b1) c bs"
  have "om_find (u_lt L) (b_chunks b2) u = Some a"
    using * server_leD(1) [OF assms(1)] server_leD(2) [OF assms(2)] by blast
  moreover from server_leD(3) [OF assms(1) *(1) this *(3,4)]
  obtain c2 ys where "b_heap b2 a = Some c2" "mem_on L (b_store b2) c2 (bs @ ys)" by blast
  ultimately show "\<exists>c' ys. b_heap b3 a = Some c' \<and> mem_on L (b_store b3) c' (bs @ ys)"
    using server_leD(3) [OF assms(2) _ *(2)] by (metis append_assoc)
qed

lemma server_invD:
  assumes "server_inv L b"
  shows "om_sorted (u_lt L) (b_chunks b)" "mem_inv (b_store b)" "b_next b \<le> a \<Longrightarrow> b_heap b a = None"
    "b_heap b a = Some c \<Longrightarrow> chunk_weak L c"
    "b_heap b a = Some c \<Longrightarrow> b_heap b a' = Some c' \<Longrightarrow> c_uuid c = c_uuid c' \<Longrightarrow> a = a'"
  using assms by (auto simp: server_inv_def)

lemma server_inv_registered:
  assumes "server_inv L b" "om_find (u_lt L) (b_chunks b) u = Some a"
  obtains c bs where "b_heap b a = Some c" "c_uuid c = u" "mem_on L (b_store b) c bs"
  using assms unfolding server_inv_def by blast

lemma server_invI:
  assumes "om_sorted (u_lt L) (b_chunks b)" "mem_inv (b_store b)" "\<And>a. b_next b \<le> a \<Longrightarrow> b_heap b a = None"
    and "\<And>a c. b_heap b a = Some c \<Longrightarrow> chunk_weak L c"
    and "\<And>a c a' c'. b_heap b a = Some c \<Longrightarrow> b_heap b a' = Some c' \<Longrightarrow> c_uuid c = c_uuid c' \<Longrightarrow> a = a'"
    and "\<And>u a. om_find (u_lt L) (b_chunks b) u = Some a \<Longrightarrow>
      \<exists>c bs. b_heap b a = Some c \<and> c_uuid c = u \<and> mem_on L (b_store b) c bs"
  shows "server_inv L b"
  using assms unfolding server_inv_def by blast

lemma server_inv_new: "mem_inv s \<Longrightarrow> server_inv L (new_bank s)"
  by (simp add: server_inv_def new_bank_def om_sorted_def)

text \<open>
  How a step changes the chunks: \<open>grows L b b'\<close> says that every chunk object that had its file
  still has it, with more bytes at its end.
\<close>

definition grows :: "uuid_lib \<Rightarrow> (mem_store, mem_handle) bank \<Rightarrow> (mem_store, mem_handle) bank \<Rightarrow> (uuid \<Rightarrow> bool) \<Rightarrow> bool" where
  "grows L b b' P \<longleftrightarrow> (\<forall>a c bs. b_heap b a = Some c \<longrightarrow> P (c_uuid c) \<longrightarrow> mem_on L (b_store b) c bs \<longrightarrow>
     (\<exists>c' ys. b_heap b' a = Some c' \<and> c_uuid c' = c_uuid c \<and> mem_on L (b_store b') c' (bs @ ys)))"

lemma growsD:
  "grows L b b' P \<Longrightarrow> b_heap b a = Some c \<Longrightarrow> P (c_uuid c) \<Longrightarrow> mem_on L (b_store b) c bs \<Longrightarrow>
   \<exists>c' ys. b_heap b' a = Some c' \<and> c_uuid c' = c_uuid c \<and> mem_on L (b_store b') c' (bs @ ys)"
  unfolding grows_def by blast

lemma grows_registered:
  assumes "server_inv L b" "grows L b b' P" "om_find (u_lt L) (b_chunks b) u = Some a" "P u"
  shows "\<exists>c bs. b_heap b' a = Some c \<and> c_uuid c = u \<and> mem_on L (b_store b') c bs"
    "b_heap b a = Some c \<Longrightarrow> mem_on L (b_store b) c bs \<Longrightarrow>
     \<exists>c' ys. b_heap b' a = Some c' \<and> mem_on L (b_store b') c' (bs @ ys)"
proof -
  obtain d ds where d: "b_heap b a = Some d" "c_uuid d = u" "mem_on L (b_store b) d ds"
    using server_inv_registered [OF assms(1,3)] .
  show "\<exists>c bs. b_heap b' a = Some c \<and> c_uuid c = u \<and> mem_on L (b_store b') c bs"
    using growsD [OF assms(2) d(1) _ d(3)] d(2) assms(4) by blast
  assume c: "b_heap b a = Some c" "mem_on L (b_store b) c bs"
  with d have "c_uuid c = u" by simp
  then show "\<exists>c' ys. b_heap b' a = Some c' \<and> mem_on L (b_store b') c' (bs @ ys)"
    using growsD [OF assms(2) c(1) _ c(2)] assms(4) by blast
qed

lemma grows_frame:
  assumes "mem_inv (b_store b')" "\<And>a c. b_heap b a = Some c \<Longrightarrow> b_heap b' a = Some c"
    and "\<And>a c bs. b_heap b a = Some c \<Longrightarrow> P (c_uuid c) \<Longrightarrow> mem_files (b_store b) (u_str L (c_uuid c)) = Some bs \<Longrightarrow>
      mem_files (b_store b') (u_str L (c_uuid c)) = Some bs"
  shows "grows L b b' P"
  unfolding grows_def
proof (intro allI impI)
  fix a c bs assume c: "b_heap b a = Some c" "P (c_uuid c)" "mem_on L (b_store b) c bs"
  then have "mem_on L (b_store b') c bs"
    using mem_on_frame [OF c(3) assms(1)] assms(3) mem_onD(2) [OF c(3)] by simp
  then show "\<exists>c' ys. b_heap b' a = Some c' \<and> c_uuid c' = c_uuid c \<and> mem_on L (b_store b') c' (bs @ ys)"
    using assms(2) c(1) by (intro exI [of _ c] exI [of _ "[]"]) simp
qed

lemma pointer_step_ok:
  assumes "uuid_library L" "iobuf_library I" "server_inv L b" "pointer_step L (mem_vt I) b b'"
  shows "server_inv L b'" "server_le L b b'"
proof -
  obtain a c s' c' where st: "b_heap b a = Some c" "chunk_step L (mem_vt I) (b_store b, c) (s', c')"
    and b': "b' = bank_put b a s' c'" using assms(4) by (auto simp: pointer_step_def)
  note D = server_invD [OF assms(3)]
  have w: "weak_post L (b_store b) c s' c'" using weak_step st D(2,4) by blast
  have F [simp]: "b_chunks b' = b_chunks b" "b_store b' = s'" "b_next b' = b_next b"
    "b_heap b' = (b_heap b)(a \<mapsto> c')" by (simp_all add: b' bank_put_def)
  have uuid: "c_uuid c' = c_uuid c" using w by (simp add: weak_post_def)
  have at: "\<exists>ys. mem_on L s' c' (bs @ ys)" if "mem_on L (b_store b) c bs" for bs
    using mem_post [OF assms(2) chunk_run_step [OF st(2)] that] by metis
  have other: "mem_on L s' d bs" if "b_heap b e = Some d" "e \<noteq> a" "mem_on L (b_store b) d bs" for e d bs
    using mem_on_frame [OF that(3)] w D(5) [OF that(1) st(1)] that(2) uuid_library.u_str_inj [OF assms(1)]
    by (auto simp: weak_post_def)
  have g: "grows L b b' (\<lambda>_. True)"
    unfolding grows_def
  proof (intro allI impI)
    fix e d bs assume d: "b_heap b e = Some d" "mem_on L (b_store b) d bs"
    show "\<exists>d' ys. b_heap b' e = Some d' \<and> c_uuid d' = c_uuid d \<and> mem_on L (b_store b') d' (bs @ ys)"
    proof (cases "e = a")
      case True
      then show ?thesis using d st(1) at [of bs] uuid by auto
    next
      case False
      then show ?thesis using d other [OF d(1) False d(2)] by (intro exI [of _ d] exI [of _ "[]"]) simp
    qed
  qed
  have uuids: "\<exists>d. b_heap b e = Some d \<and> c_uuid d' = c_uuid d" if "b_heap b' e = Some d'" for e d'
    using that st(1) uuid by (auto split: if_splits)
  show "server_inv L b'"
  proof (rule server_invI)
    show "\<And>e. b_next b' \<le> e \<Longrightarrow> b_heap b' e = None" using D(3) st(1) by fastforce
    show "\<And>e d. b_heap b' e = Some d \<Longrightarrow> chunk_weak L d"
      using D(4) w by (auto simp: weak_post_def split: if_splits)
    show "\<And>e d e' d'. b_heap b' e = Some d \<Longrightarrow> b_heap b' e' = Some d' \<Longrightarrow> c_uuid d = c_uuid d' \<Longrightarrow> e = e'"
      using uuids D(5) by metis
    show "\<And>u e. om_find (u_lt L) (b_chunks b') u = Some e \<Longrightarrow>
        \<exists>d bs. b_heap b' e = Some d \<and> c_uuid d = u \<and> mem_on L (b_store b') d bs"
      using grows_registered(1) [OF assms(3) g] F(1) by metis
  qed (use D(1) w in \<open>auto simp: weak_post_def\<close>)
  show "server_le L b b'"
    by (rule server_leI) (use grows_registered(2) [OF assms(3) g] st(1) uuid in auto)
qed

text \<open>A step that only changes the store, or also drops registrations.\<close>

lemma store_step_ok:
  assumes "server_inv L b" "mem_inv s'" "om_sorted (u_lt L) m" "grows L b (b\<lparr>b_chunks := m, b_store := s'\<rparr>) P"
    and "\<And>u a. om_find (u_lt L) m u = Some a \<Longrightarrow> om_find (u_lt L) (b_chunks b) u = Some a \<and> P u"
  shows "server_inv L (b\<lparr>b_chunks := m, b_store := s'\<rparr>)" "server_le L b (b\<lparr>b_chunks := m, b_store := s'\<rparr>)"
proof -
  note D = server_invD [OF assms(1)] and R = grows_registered [OF assms(1,4)]
  show "server_inv L (b\<lparr>b_chunks := m, b_store := s'\<rparr>)"
    by (rule server_invI) (use D assms(2,3,5) R(1) in auto)
  show "server_le L b (b\<lparr>b_chunks := m, b_store := s'\<rparr>)"
    by (rule server_leI) (use assms(5) R(2) in \<open>simp_all, blast+\<close>)
qed

lemma add_step_ok:
  assumes "uuid_library L" "server_inv L b" "mem_inv s'" "mem_on L s' c []"
    and "\<forall>a d. b_heap b a = Some d \<longrightarrow> c_uuid d \<noteq> c_uuid c"
    and b': "b' = snd (bank_add L (b\<lparr>b_store := s'\<rparr>) (c_uuid c) c)" and g: "grows L b b' (\<lambda>_. True)"
  shows "server_inv L b'" "server_le L b b'"
proof -
  note D = server_invD [OF assms(2)] and R = grows_registered [OF assms(2) g]
  have F [simp]: "b_chunks b' = om_set (u_lt L) (b_chunks b) (c_uuid c) (b_next b)" "b_store b' = s'"
    "b_heap b' = (b_heap b)(b_next b \<mapsto> c)" "b_next b' = Suc (b_next b)"
    by (simp_all add: b' bank_add_def)
  note set = comparator.om_find_set [OF uuid_library.axioms(1) [OF assms(1)]]
  have free: "b_heap b (b_next b) = None" using D(3) by simp
  have old: "\<exists>d. b_heap b a = Some d \<and> c_uuid d = u" if "om_find (u_lt L) (b_chunks b) u = Some a" for u a
    using server_inv_registered [OF assms(2) that] by blast
  show "server_inv L b'"
  proof (rule server_invI)
    show "om_sorted (u_lt L) (b_chunks b')"
      using comparator.om_sorted_set [OF uuid_library.axioms(1) [OF assms(1)] D(1)] by simp
    show "\<And>a d. b_heap b' a = Some d \<Longrightarrow> chunk_weak L d"
      using D(4) mem_on_weak [OF assms(4)] by (auto split: if_splits)
    show "\<And>a d a' d'. b_heap b' a = Some d \<Longrightarrow> b_heap b' a' = Some d' \<Longrightarrow> c_uuid d = c_uuid d' \<Longrightarrow> a = a'"
      unfolding F using D(5) assms(5) by (metis fun_upd_apply option.inject)
    show "\<And>u a. om_find (u_lt L) (b_chunks b') u = Some a \<Longrightarrow>
        \<exists>d bs. b_heap b' a = Some d \<and> c_uuid d = u \<and> mem_on L (b_store b') d bs"
    proof -
      fix u a assume "om_find (u_lt L) (b_chunks b') u = Some a"
      then have "(if u = c_uuid c then Some (b_next b) else om_find (u_lt L) (b_chunks b) u) = Some a"
        by (simp only: F set)
      then consider "u = c_uuid c" "a = b_next b" | "om_find (u_lt L) (b_chunks b) u = Some a"
        by (metis option.inject)
      then show "\<exists>d bs. b_heap b' a = Some d \<and> c_uuid d = u \<and> mem_on L (b_store b') d bs"
      proof cases
        case 1
        then show ?thesis using assms(4) by auto
      next
        case 2
        then show ?thesis using R(1) by blast
      qed
    qed
  qed (use D(3) assms(3) in auto)
  show "server_le L b b'"
  proof (rule server_leI)
    show "\<And>a d. b_heap b a = Some d \<Longrightarrow> \<exists>d'. b_heap b' a = Some d' \<and> c_uuid d' = c_uuid d"
      using free by auto
    show "\<And>u a d. om_find (u_lt L) (b_chunks b') u = Some a \<Longrightarrow> b_heap b a = Some d \<Longrightarrow>
        om_find (u_lt L) (b_chunks b) u = Some a" using free by (auto simp: set split: if_splits)
  qed (use R(2) in simp)
qed

lemma create_step_ok:
  assumes "uuid_library L" "iobuf_library I" "server_inv L b"
    and "\<forall>a c. b_heap b a = Some c \<longrightarrow> c_uuid c \<noteq> gen"
    and "bank_create_chunk L (mem_vt I) b gen (Some None) = Done (st, p, b')"
  shows "server_inv L b'" "server_le L b b'"
proof -
  note D = server_invD [OF assms(3)]
  obtain st' out s' where cr: "chunk_create L (mem_vt I) (Some (b_store b)) gen (Some None) = Done (st', out, Some s')"
    and inv: "mem_inv s'" and res: "if st_ok st' then mem_files (b_store b) (u_str L gen) = None \<and>
        mem_files s' = (mem_files (b_store b))(u_str L gen \<mapsto> []) \<and>
        (\<exists>c. out = Some (Some c) \<and> c_uuid c = gen \<and> c_state c = KOpen \<and> mem_on L s' c [])
      else out = Some None \<and> mem_files s' = mem_files (b_store b)"
    using file_store.create_ok [OF mem_vt_contract [OF assms(2)] D(2)] by metis
  have "server_inv L b' \<and> server_le L b b'"
  proof (cases "st_ok st'")
    case True
    with res obtain c where c: "out = Some (Some c)" "c_uuid c = gen" "mem_on L s' c []" by auto
    have b': "b' = snd (bank_add L (b\<lparr>b_store := s'\<rparr>) (c_uuid c) c)"
      using assms(5) cr True c by (auto simp: bank_create_chunk_def Let_def split: prod.splits)
    have "grows L b b' (\<lambda>_. True)"
      by (rule grows_frame) (use True res inv D(3) in \<open>auto simp: b' bank_add_def\<close>)
    then show ?thesis using add_step_ok [OF assms(1,3) inv c(3) _ b'] assms(4) c(2) by simp
  next
    case False
    have b': "b' = b\<lparr>b_chunks := b_chunks b, b_store := s'\<rparr>"
      using assms(5) cr False by (auto simp: bank_create_chunk_def Let_def)
    have "grows L b b' (\<lambda>_. True)" by (rule grows_frame) (use False res inv in \<open>auto simp: b'\<close>)
    then show ?thesis using store_step_ok [OF assms(3) inv D(1)] b' by simp
  qed
  then show "server_inv L b'" "server_le L b b'" by auto
qed

lemma remove_step_ok:
  assumes "uuid_library L" "iobuf_library I" "server_inv L b"
    and "bank_remove_chunk L (mem_vt I) b u = Done (st, b')"
  shows "server_inv L b'" "server_le L b b'"
proof -
  note D = server_invD [OF assms(3)]
  note cmp = uuid_library.axioms(1) [OF assms(1)]
  have "server_inv L b' \<and> server_le L b b'"
  proof (cases "om_find (u_lt L) (b_chunks b) u")
    case None
    then show ?thesis using assms(3,4) server_le_refl by (auto simp: bank_remove_chunk_def)
  next
    case (Some a)
    let ?m = "om_erase (u_lt L) (b_chunks b) u"
    obtain st' s' where rm: "mem_remove (b_store b) (Some (u_str L u)) = Done (st', (), s')" "mem_inv s'"
      "mem_files s' = (mem_files (b_store b))(u_str L u := None)"
      using D(2) by (auto simp: mem_remove_def mem_files_def str.om_find_erase str.om_sorted_erase mem_inv_sortedD fun_eq_iff)
    have b': "b' = b\<lparr>b_chunks := ?m, b_store := s'\<rparr>"
      using assms(4) Some rm(1) by (auto simp: bank_remove_chunk_def Let_def)
    have "grows L b b' (\<lambda>v. v \<noteq> u)"
      by (rule grows_frame) (use rm uuid_library.u_str_inj [OF assms(1)] in \<open>auto simp: b'\<close>)
    moreover have "\<And>v a. om_find (u_lt L) ?m v = Some a \<Longrightarrow> om_find (u_lt L) (b_chunks b) v = Some a \<and> v \<noteq> u"
      by (simp add: comparator.om_find_erase [OF cmp D(1)] split: if_splits)
    ultimately show ?thesis
      using store_step_ok [OF assms(3) rm(2) comparator.om_sorted_erase [OF cmp D(1)]] b' by blast
  qed
  then show "server_inv L b'" "server_le L b b'" by auto
qed

lemma server_step_ok:
  assumes "uuid_library L" "iobuf_library I" "server_inv L b" "server_step L (mem_vt I) b b'"
  shows "server_inv L b'" "server_le L b b'"
  using assms(4) create_step_ok [OF assms(1-3)] remove_step_ok [OF assms(1-3)] pointer_step_ok [OF assms(1-3)]
  by (auto elim!: server_step_kinds)

lemma server_run_ok:
  assumes "uuid_library L" "iobuf_library I" "server_inv L b" "server_run L (mem_vt I) b b'"
  shows "server_inv L b' \<and> server_le L b b'"
  using assms(4,3)
proof (induction rule: server_run.induct)
  case (srun_refl b)
  then show ?case using server_le_refl by blast
next
  case (srun_step b b1 b2)
  then show ?case using server_step_ok [OF assms(1,2)] server_le_trans by blast
qed

lemma registered_query:
  "with_chunk L b u miss k = (case om_find (u_lt L) (b_chunks b) u of None \<Rightarrow> miss | Some a \<Rightarrow> k a)"
  by (auto simp: with_chunk_def bank_get_chunk_def split: option.splits)

text \<open>The statuses of an append to the memory store.\<close>

lemma mem_append_status:
  assumes "chunk_weak L c" "mem_inv s" "chunk_append (mem_vt I) s c buf off = Done (Returned st, s', c')"
  shows "st_ok st \<or> error_code st = EPERM \<or> error_code st = EINVAL"
proof -
  obtain s1 where "fh_append (mem_vt I) s (c_fh c) off buf = Done (status_OK, (), s1)"
    using mem_append_handle [OF assms(2)] assms(1) by (metis chunk_weak_def)
  then show ?thesis
    using assms(3) by (auto simp: chunk_append_def invalid_offset_def Let_def outcome_simps split: if_splits prod.splits)
qed

lemma append_reply_ok:
  assumes "append_reply b a st = Done r" "reply_ok r" "st_ok st \<or> error_code st = EPERM \<or> error_code st = EINVAL"
  shows "st_ok st"
  using assms by (auto simp: append_reply_def reply_ok_def set_header_def new_reply_def errno_defs split: if_splits)

lemma case_append_result_Done:
  "(case r of Returned st \<Rightarrow> f st | Waiting i \<Rightarrow> g i) = Done y \<longleftrightarrow>
   (\<exists>st. r = Returned st \<and> f st = Done y) \<or> (\<exists>i. r = Waiting i \<and> g i = Done y)"
  by (cases r) auto

lemma append_served:
  assumes "uuid_library L" "iobuf_library I" "server_inv L b"
    and "AppendChunk L (mem_vt I) b u buf off = Done (Replied r, b1)" "reply_ok r"
  obtains a c bs zs c1 where "om_find (u_lt L) (b_chunks b1) u = Some a" "b_heap b1 a = Some c1" "c_uuid c1 = u"
    "mem_on L (b_store b1) c1 (bs @ buf @ zs)" "off = word_of_nat (length bs)" "server_inv L b1"
proof -
  obtain a st where a: "om_find (u_lt L) (b_chunks b) u = Some a" and
    ap: "at_append (mem_vt I) b a buf off = Done (Returned st, b1)" "append_reply b1 a st = Done r"
    using assms(4,5) by (auto simp: AppendChunk_def registered_query reply_ok_def set_header_def new_reply_def errno_defs
        outcome_simps case_append_result_Done split: option.splits prod.splits)
  obtain c bs where c: "b_heap b a = Some c" "c_uuid c = u" "mem_on L (b_store b) c bs"
    using server_inv_registered [OF assms(3) a] .
  obtain s1 c1 where c1: "chunk_append (mem_vt I) (b_store b) c buf off = Done (Returned st, s1, c1)" "b1 = bank_put b a s1 c1"
    using ap(1) c(1) by (auto simp: at_append_def outcome_simps split: prod.splits)
  have "st_ok st"
    using append_reply_ok [OF ap(2) assms(5)] mem_append_status [OF mem_on_weak [OF c(3)] mem_onD(1) [OF c(3)] c1(1)] .
  then obtain zs where off: "off = c_size c" and on1: "mem_on L s1 c1 (bs @ buf @ zs)" "c_uuid c1 = u"
    using mem_append_ok [OF assms(2) c(3) c1(1)] c(2) by metis
  have "server_inv L b1"
    using server_step_ok(1) [OF assms(1-3) server_step.sv_append [OF ap(1)]] .
  with that [of a c1 bs zs] on1 a off mem_onD(3) [OF c(3)] show ?thesis
    by (simp add: c1(2) bank_put_def chunk_ok_def)
qed

lemma run_keeps_file:
  assumes "uuid_library L" "iobuf_library I" "server_inv L b1" "server_run L (mem_vt I) b1 b2"
    and "om_find (u_lt L) (b_chunks b1) u = Some a" "b_heap b1 a = Some c1" "c_uuid c1 = u"
    and "om_find (u_lt L) (b_chunks b2) u \<noteq> None" "mem_on L (b_store b1) c1 bs"
  obtains c2 ys where "om_find (u_lt L) (b_chunks b2) u = Some a" "b_heap b2 a = Some c2" "c_uuid c2 = u"
    "mem_on L (b_store b2) c2 (bs @ ys)"
proof -
  from server_run_ok [OF assms(1-4)] have inv2: "server_inv L b2" and le: "server_le L b1 b2" by auto
  obtain a2 where a2: "om_find (u_lt L) (b_chunks b2) u = Some a2" using assms(8) by blast
  have "a2 = a"
    using server_inv_registered [OF inv2 a2] server_leD(1) [OF le assms(6)] server_invD(5) [OF inv2] assms(7) by metis
  with server_leD(3) [OF le assms(5) _ assms(6,9)] a2 server_leD(1) [OF le assms(6)] assms(7) that
  show ?thesis by fastforce
qed

text \<open>What was acknowledged is read back.\<close>

lemma read_acknowledged:
  assumes "uuid_library L" "iobuf_library I" "server_inv L b"
    and "AppendChunk L (mem_vt I) b u buf off = Done (Replied r, b1)" "reply_ok r" "length buf < 2 ^ 32"
    and "server_run L (mem_vt I) b1 b2" "om_find (u_lt L) (b_chunks b2) u \<noteq> None"
    and "\<forall>bs. mem_files (b_store b2) (u_str L u) = Some bs \<longrightarrow> length bs < 2 ^ 64"
  shows "ReadChunk L (mem_vt I) b2 u off (word_of_nat (length buf)) =
    Done ((new_reply ())\<lparr>rp_attachment := buf\<rparr>, b2)"
proof -
  obtain a c bs zs c1 where h1: "om_find (u_lt L) (b_chunks b1) u = Some a" "b_heap b1 a = Some c1" "c_uuid c1 = u"
    and on1: "mem_on L (b_store b1) c1 (bs @ buf @ zs)" and off: "off = word_of_nat (length bs)" and inv1: "server_inv L b1"
    using append_served [OF assms(1-3) assms(4,5)] .
  obtain c2 ys where c2: "om_find (u_lt L) (b_chunks b2) u = Some a" "b_heap b2 a = Some c2" "c_uuid c2 = u"
    "mem_on L (b_store b2) c2 ((bs @ buf @ zs) @ ys)"
    using run_keeps_file [OF assms(1,2) inv1 assms(7) h1 assms(8) on1] .
  have len: "length ((bs @ buf @ zs) @ ys) < 2 ^ 64" using assms(9) mem_onD(2) [OF c2(4)] c2(3) by blast
  let ?n = "ucast (word_of_nat (length buf) :: u32) :: u64"
  have n: "unat ?n = length buf" using assms(6) by (rule unat_u32_u64)
  have o: "unat off = length bs" using off len by (simp add: unat_of_nat_u64)
  have "chunk_read L (mem_vt I) (b_store b2) c2 off ?n (Some []) = Done (status_OK, Some buf, b_store b2)"
    using mem_read_ok [OF assms(2) c2(4) len, of off ?n] len by (simp add: n o)
  then show ?thesis
    using c2(1,2) by (simp add: ReadChunk_def registered_query at_read_def deref_def bank_put_def fun_upd_idem)
qed

text \<open>Runs one after the other, and a chunk that is registered before and after is registered in between.\<close>

lemma server_run_trans:
  assumes "server_run L V a b" "server_run L V b c"
  shows "server_run L V a c"
  using assms(2,1) by (induction rule: server_run.induct) (auto intro: server_run.srun_step)

lemma handler_runs:
  "AppendChunk L V b u buf off = Done (x, b') \<Longrightarrow> server_run L V b b'"
  "ReadChunk L V b u off n = Done (rp, b') \<Longrightarrow> server_run L V b b'"
  by (auto simp: AppendChunk_def ReadChunk_def registered_query outcome_simps case_append_result_Done Let_def
      split: option.splits prod.splits if_splits
      intro: server_run.srun_refl server_run.srun_step [OF server_run.srun_refl] server_step.sv_append server_step.sv_read)

lemma registered_between:
  assumes "uuid_library L" "iobuf_library I" "server_inv L b1" "om_find (u_lt L) (b_chunks b1) u = Some a"
    and "server_run L (mem_vt I) b1 b2" "server_run L (mem_vt I) b2 b3" "om_find (u_lt L) (b_chunks b3) u \<noteq> None"
  shows "om_find (u_lt L) (b_chunks b2) u = Some a"
    "mem_files (b_store b3) (u_str L u) = Some bs3 \<Longrightarrow> \<exists>bs2. mem_files (b_store b2) (u_str L u) = Some bs2 \<and> length bs2 \<le> length bs3"
proof -
  obtain c where c: "b_heap b1 a = Some c" "c_uuid c = u" using server_inv_registered [OF assms(3,4)] .
  from server_run_ok [OF assms(1-3,5)] have i2: "server_inv L b2" and le: "server_le L b1 b2" by auto
  from server_run_ok [OF assms(1,2) i2 assms(6)] have i3: "server_inv L b3" and le': "server_le L b2 b3" by auto
  obtain c2 where c2: "b_heap b2 a = Some c2" "c_uuid c2 = u" using server_leD(1) [OF le c(1)] c(2) by auto
  obtain a3 where a3: "om_find (u_lt L) (b_chunks b3) u = Some a3" using assms(7) by blast
  have "a3 = a"
    using server_inv_registered [OF i3 a3] server_leD(1) [OF le' c2(1)] server_invD(5) [OF i3] c2(2) by metis
  then show r2: "om_find (u_lt L) (b_chunks b2) u = Some a" using server_leD(2) [OF le' a3] c2(1) by simp
  assume f3: "mem_files (b_store b3) (u_str L u) = Some bs3"
  obtain d bs2 where d: "b_heap b2 a = Some d" "c_uuid d = u" "mem_on L (b_store b2) d bs2"
    using server_inv_registered [OF i2 r2] .
  obtain c3 ys where "c_uuid c3 = u" "mem_on L (b_store b3) c3 (bs2 @ ys)"
    using run_keeps_file [OF assms(1,2) i2 assms(6) r2 d(1,2) assms(7) d(3)] .
  then show "\<exists>bs2. mem_files (b_store b2) (u_str L u) = Some bs2 \<and> length bs2 \<le> length bs3"
    using mem_onD(2) [OF d(3)] mem_onD(2) f3 d(2) by fastforce
qed

lemma list_loop_take:
  "unat i + length es < 2 ^ 32 \<or> unat i \<le> unat limit \<Longrightarrow> list_loop i limit es = take (unat limit - unat i) (map fst es)"
proof (induction i limit es rule: list_loop.induct)
  case (1 i limit)
  then show ?case by simp
next
  case (2 i limit e es)
  show ?case
  proof (cases "i < limit")
    case True
    then have "unat i < unat limit" by (simp add: word_less_nat_alt)
    moreover have "unat limit < 2 ^ 32" using unsigned_less [of limit] by simp
    ultimately have suc: "unat (i + 1) = Suc (unat i)" "Suc (unat i) \<le> unat limit"
      by (simp_all add: unat_word_ariths)
    then show ?thesis using True 2 by (simp add: Suc_diff_Suc [symmetric] del: list_loop.simps(1))
  next
    case False
    then show ?thesis by (simp add: word_less_nat_alt not_less)
  qed
qed

section \<open>A concrete run of the server\<close>

text \<open>On the empty memory store: one chunk is created, and two bytes are appended to it.\<close>

abbreviation sv_run :: "(mem_store, mem_handle) bank \<Rightarrow> (mem_store, mem_handle) bank \<Rightarrow> bool" where
  "sv_run \<equiv> server_run hex_lib ex_V"

definition ex_bank :: "iobuf \<Rightarrow> (mem_store, mem_handle) bank" where
  "ex_bank bs = \<lparr>b_store = ex_store bs, b_chunks = [(ex_u, 0)],
     b_heap = (\<lambda>_. None)(0 \<mapsto> ex_chunk\<lparr>c_size := word_of_nat (length bs)\<rparr>), b_next = 1\<rparr>"

lemma ex_create: "bank_create_chunk hex_lib ex_V (new_bank mem_empty) ex_u (Some None) =
    Done (status_OK, Some (Some 0), ex_bank [])"
  by (simp add: bank_create_chunk_def chunk_create_def mem_open_def mem_empty_def create_flags_bits
      new_bank_def bank_add_def ex_bank_def ex_defs new_chunk_def)

lemma ex_lt_irrefl [simp]: "\<not> u_lt hex_lib u u"
  by (rule hexlib.cmp.lt_irrefl)

lemma ex_find [simp]: "om_find (u_lt hex_lib) (b_chunks (ex_bank bs)) ex_u = Some 0"
  by (simp add: ex_bank_def)

lemma ex_run_create: "sv_run (new_bank mem_empty) (ex_bank [])"
  by (rule server_run.srun_step [OF server_run.srun_refl], rule server_step.sv_create [OF _ ex_create])
    (simp add: new_bank_def)

lemma ex_append: "AppendChunk hex_lib ex_V (ex_bank []) ex_u [1, 2] 0 = Done (Replied (new_reply 2), ex_bank [1, 2])"
  by (simp add: AppendChunk_def registered_query at_append_def deref_def ex_bank_def chunk_append_def
      fh_append_def mem_append_def om_index_def str.lt_irrefl new_chunk_def append_reply_def bank_put_def ex_defs)

lemma ex_query: "QueryChunk hex_lib (ex_bank bs) ex_u = Done (new_reply (word_of_nat (length bs), False))"
  by (simp add: QueryChunk_def registered_query deref_def ex_bank_def ex_defs new_chunk_def)

lemmas ex_server = hexlib.uuid_library_axioms byte_seq.iobuf_library_axioms

section \<open>Properties\<close>

text \<open>
  In every state a server can reach, \<^verbatim>\<open>QueryChunk\<close> of a registered chunk answers with the
  length of the file of exactly that chunk, whatever was done to the other chunks.
\<close>

theorem query_chunk_length:
  assumes "uuid_library L" "iobuf_library I" "server_run L (mem_vt I) (new_bank mem_empty) b"
    and "om_find (u_lt L) (b_chunks b) u = Some a"
  shows "\<exists>bs sealed. mem_files (b_store b) (u_str L u) = Some bs \<and>
    QueryChunk L b u = Done (new_reply (word_of_nat (length bs), sealed))"
proof -
  have inv: "server_inv L b"
    using server_run_ok [OF assms(1,2) server_inv_new [OF mem_inv_empty] assms(3)] by blast
  from server_inv_registered [OF inv assms(4)] obtain c bs where
    c: "b_heap b a = Some c" "c_uuid c = u" "mem_on L (b_store b) c bs" .
  then show ?thesis
    using mem_onD [OF c(3)] assms(4) by (auto simp: QueryChunk_def registered_query deref_def chunk_ok_def)
qed

theorem query_chunk_length_witness:
  "sv_run (new_bank mem_empty) (ex_bank []) \<and> (\<exists>bs sealed. mem_files (b_store (ex_bank [])) (u_str hex_lib ex_u) = Some bs \<and>
     QueryChunk hex_lib (ex_bank []) ex_u = Done (new_reply (word_of_nat (length bs), sealed)))"
  using query_chunk_length [OF ex_server ex_run_create ex_find] ex_run_create by blast

text \<open>
  C1: what the server acknowledged it returns: after \<^verbatim>\<open>AppendChunk\<close> replied without an error,
  in every later state in which the chunk is still registered, \<^verbatim>\<open>ReadChunk\<close> at the same offset and
  length replies with exactly the appended bytes, whatever other requests were served in between.
\<close>

theorem append_then_read:
  assumes "uuid_library L" "iobuf_library I" "server_run L (mem_vt I) (new_bank mem_empty) b"
    and "AppendChunk L (mem_vt I) b u buf off = Done (Replied r, b1)" "reply_ok r" "length buf < 2 ^ 32"
    and "server_run L (mem_vt I) b1 b2" "om_find (u_lt L) (b_chunks b2) u \<noteq> None"
    and "\<forall>bs. mem_files (b_store b2) (u_str L u) = Some bs \<longrightarrow> length bs < 2 ^ 64"
  shows "ReadChunk L (mem_vt I) b2 u off (word_of_nat (length buf)) =
    Done ((new_reply ())\<lparr>rp_attachment := buf\<rparr>, b2)"
proof -
  have "server_inv L b"
    using server_run_ok [OF assms(1,2) server_inv_new [OF mem_inv_empty] assms(3)] by blast
  then show ?thesis using read_acknowledged [OF assms(1,2) _ assms(4-9)] by blast
qed

theorem append_then_read_witness:
  "AppendChunk hex_lib ex_V (ex_bank []) ex_u [1, 2] 0 = Done (Replied (new_reply 2), ex_bank [1, 2]) \<and>
   ReadChunk hex_lib ex_V (ex_bank [1, 2]) ex_u 0 2 = Done ((new_reply ())\<lparr>rp_attachment := [1, 2]\<rparr>, ex_bank [1, 2])"
  using append_then_read [OF ex_server ex_run_create ex_append _ _ server_run.srun_refl] ex_append
  by (simp add: reply_ok_def new_reply_def ex_bank_def)

text \<open>
  C30: in every state that a chunk server over the memory store reaches, \<^verbatim>\<open>ListChunk\<close> returns the registered chunks from \<open>start\<close> on, in increasing order and at
  most \<open>limit\<close> of them: it returns as many as there are up to the limit, and whatever it leaves
  out is larger than everything it returns.
\<close>

theorem list_chunk_page:
  assumes "uuid_library L" "iobuf_library I" "server_run L (mem_vt I) (new_bank mem_empty) b"
    and "us = rp_body (ListChunk L b start limit)" "C = {u. om_find (u_lt L) (b_chunks b) u \<noteq> None \<and> \<not> u_lt L u start}"
  shows "sorted_wrt (u_lt L) us \<and> set us \<subseteq> C \<and> length us = min (unat limit) (card C) \<and>
    (\<forall>u\<in>set us. \<forall>v\<in>C - set us. u_lt L u v)"
proof -
  note cmp = uuid_library.axioms(1) [OF assms(1)]
  have so: "om_sorted (u_lt L) (b_chunks b)"
    using server_run_ok [OF assms(1,2) server_inv_new [OF mem_inv_empty] assms(3)] server_invD(1) by blast
  let ?ys = "map fst (filter (\<lambda>e. \<not> u_lt L (fst e) start) (b_chunks b))"
  have us: "us = take (unat limit) ?ys"
    by (simp add: assms(4) ListChunk_def new_reply_def bank_list_chunk_def comparator.om_lower_bound_filter [OF cmp so]
        list_loop_take)
  have sys: "sorted_wrt (u_lt L) ?ys"
    using so sorted_wrt_filter [of "u_lt L" "map fst (b_chunks b)"] by (simp add: om_sorted_def filter_map o_def)
  have C: "set ?ys = C"
    using comparator.om_find_None_iff [OF cmp so] by (auto simp: assms(5))
  show ?thesis using comparator.take_sorted_page [OF cmp sys, of "unat limit"] unfolding C us .
qed

theorem list_chunk_page_witness:
  "sv_run (new_bank mem_empty) (ex_bank []) \<and> set (rp_body (ListChunk hex_lib (ex_bank []) ex_u 5)) \<subseteq>
     {u. om_find (u_lt hex_lib) (b_chunks (ex_bank [])) u \<noteq> None \<and> \<not> u_lt hex_lib u ex_u}"
  using list_chunk_page [OF ex_server ex_run_create refl refl] ex_run_create by blast

text \<open>
  Once \<^verbatim>\<open>RemoveChunk\<close> replied without an error, the chunk is gone for good: in every later
  state, appending, reading, sealing, querying and removing it all answer that it was not found.
\<close>

theorem remove_chunk_final:
  assumes "uuid_library L" "iobuf_library I" "server_run L (mem_vt I) (new_bank mem_empty) b"
    and "RemoveChunk L (mem_vt I) b u = Done (r, b1)" "reply_ok r" "server_run L (mem_vt I) b1 b2"
  shows "AppendChunk L (mem_vt I) b2 u buf off = Done (Replied (set_header ENOENT ''Chunk not found'' (new_reply 0)), b2) \<and>
    ReadChunk L (mem_vt I) b2 u off n = Done (set_header ENOENT ''Chunk not found'' (new_reply ()), b2) \<and>
    QueryAndSealChunk L (mem_vt I) b2 u = Done (set_failed ENOENT ''Chunk not found'' (new_reply 0), b2) \<and>
    QueryChunk L b2 u = Done (set_header ENOENT ''Chunk not found'' (new_reply (0, False))) \<and>
    RemoveChunk L (mem_vt I) b2 u = Done (set_header ENOENT ''Chunk not found'' (new_reply ()), b2)"
proof -
  have inv: "server_inv L b"
    using server_run_ok [OF assms(1,2) server_inv_new [OF mem_inv_empty] assms(3)] by blast
  obtain st where rm: "bank_remove_chunk L (mem_vt I) b u = Done (st, b1)"
    using assms(4) by (auto simp: RemoveChunk_def outcome_simps split: prod.splits)
  obtain a where a: "om_find (u_lt L) (b_chunks b) u = Some a"
    using assms(4,5) by (auto simp: RemoveChunk_def bank_remove_chunk_def reply_ok_def set_header_def errno_defs
        split: option.splits)
  obtain c where c: "b_heap b a = Some c" "c_uuid c = u" using server_inv_registered [OF inv a] .
  note cmp = uuid_library.axioms(1) [OF assms(1)]
  have b1: "b_heap b1 a = Some c" "om_find (u_lt L) (b_chunks b1) u = None"
    using rm a c(1) by (auto simp: bank_remove_chunk_def outcome_simps Let_def mem_remove_def
        comparator.om_find_erase [OF cmp server_invD(1) [OF inv]])
  have inv1: "server_inv L b1" using remove_step_ok(1) [OF assms(1,2) inv rm] .
  from server_run_ok [OF assms(1,2) inv1 assms(6)] have inv2: "server_inv L b2" and le: "server_le L b1 b2" by auto
  have "om_find (u_lt L) (b_chunks b2) u = None"
  proof (rule ccontr)
    assume "om_find (u_lt L) (b_chunks b2) u \<noteq> None"
    then obtain a2 where a2: "om_find (u_lt L) (b_chunks b2) u = Some a2" by blast
    have "a2 = a"
      using server_inv_registered [OF inv2 a2] server_leD(1) [OF le b1(1)] server_invD(5) [OF inv2] c(2) by metis
    then show False using server_leD(2) [OF le a2] b1 by simp
  qed
  then show ?thesis
    by (simp add: AppendChunk_def ReadChunk_def QueryAndSealChunk_def QueryChunk_def RemoveChunk_def
        registered_query bank_remove_chunk_def)
qed

theorem remove_chunk_final_witness:
  "\<exists>b1. RemoveChunk hex_lib ex_V (ex_bank []) ex_u = Done (new_reply (), b1) \<and>
     QueryChunk hex_lib b1 ex_u = Done (set_header ENOENT ''Chunk not found'' (new_reply (0, False)))"
proof -
  obtain b1 where b1: "RemoveChunk hex_lib ex_V (ex_bank []) ex_u = Done (new_reply (), b1)"
    by (simp add: RemoveChunk_def bank_remove_chunk_def mem_remove_def Let_def)
  then show ?thesis
    using remove_chunk_final [OF ex_server ex_run_create b1 _ server_run.srun_refl] by (simp add: reply_ok_def new_reply_def)
qed

text \<open>
  With a UUID that was not used before, \<^verbatim>\<open>CreateChunk\<close> succeeds and answers with it; the
  new chunk is empty and open, and what the server answers about the other chunks does not change.
\<close>

theorem create_chunk_fresh:
  assumes "uuid_library L" "iobuf_library I" "server_run L (mem_vt I) (new_bank mem_empty) b"
    and "\<forall>a c. b_heap b a = Some c \<longrightarrow> c_uuid c \<noteq> gen" "mem_files (b_store b) (u_str L gen) = None"
  shows "\<exists>b1. CreateChunk L (mem_vt I) b gen = Done (new_reply gen, b1) \<and> server_step L (mem_vt I) b b1 \<and>
    mem_files (b_store b1) (u_str L gen) = Some [] \<and> QueryChunk L b1 gen = Done (new_reply (0, False)) \<and>
    (\<forall>u. u \<noteq> gen \<longrightarrow> QueryChunk L b1 u = QueryChunk L b u)"
proof -
  have inv: "server_inv L b"
    using server_run_ok [OF assms(1,2) server_inv_new [OF mem_inv_empty] assms(3)] by blast
  let ?s = "b_store b\<lparr>m_files := om_set string_lt (m_files (b_store b)) (u_str L gen) []\<rparr>"
  let ?c = "(new_chunk gen)\<lparr>c_fh := Some (u_str L gen), c_state := KOpen\<rparr>"
  let ?b1 = "snd (bank_add L (b\<lparr>b_store := ?s\<rparr>) gen ?c)"
  have cr: "bank_create_chunk L (mem_vt I) b gen (Some None) = Done (status_OK, Some (Some (b_next b)), ?b1)"
    using assms(5) by (simp add: bank_create_chunk_def chunk_create_def mem_open_def mem_files_def create_flags_bits
        bank_add_def new_chunk_def)
  note set = comparator.om_find_set [OF uuid_library.axioms(1) [OF assms(1)]]
  have old: "b_heap ?b1 a = b_heap b a" if "om_find (u_lt L) (b_chunks b) u = Some a" for u a
  proof -
    have "b_heap b a \<noteq> None" using server_inv_registered [OF inv that] by blast
    then show ?thesis using server_invD(3) [OF inv, of "b_next b"] by (auto simp: bank_add_def)
  qed
  have "QueryChunk L ?b1 gen = Done (new_reply (0, False))"
    by (simp add: QueryChunk_def registered_query bank_add_def set deref_def new_chunk_def)
  moreover have "\<forall>u. u \<noteq> gen \<longrightarrow> QueryChunk L ?b1 u = QueryChunk L b u"
    using old by (simp add: QueryChunk_def registered_query bank_add_def set deref_def split: option.splits)
  moreover have "CreateChunk L (mem_vt I) b gen = Done (new_reply gen, ?b1)"
    by (simp add: CreateChunk_def cr) (simp add: deref_def bank_add_def new_chunk_def)
  moreover have "mem_files (b_store ?b1) (u_str L gen) = Some []" by (simp add: bank_add_def)
  ultimately show ?thesis using server_step.sv_create [OF assms(4) cr] by (intro exI [of _ ?b1]) simp
qed

theorem create_chunk_fresh_witness:
  "\<exists>b1. CreateChunk hex_lib ex_V (new_bank mem_empty) ex_u = Done (new_reply ex_u, b1) \<and>
     QueryChunk hex_lib b1 ex_u = Done (new_reply (0, False))"
  using create_chunk_fresh [OF ex_server server_run.srun_refl, of ex_u]
  by (auto simp: new_bank_def mem_empty_def mem_files_def)

end
