(* ===== verification/Deva_Service.thy ===== *)
theory Deva_Service
  imports Rsm Rpc
begin

text \<open>
  The RPC service of a metadata server: \<^verbatim>\<open>src/deva/deva_service_impl.cc\<close>, with the messages of
  \<^verbatim>\<open>protocols/pain/proto/deva.proto\<close>. A handler builds a request for the state machine, sends it
  over the bridge and waits; its result is \<open>None\<close> while it waits. The UUID that was generated, the
  three times that were read and the result of the raft library are arguments. The body of a reply is the
  file info of the response.
\<close>

section \<open>Definitions\<close>

definition OPEN_READ :: u32 where "OPEN_READ = 1"
definition OPEN_APPEND :: u32 where "OPEN_APPEND = 2"
definition OPEN_CREATE :: u32 where "OPEN_CREATE = 4"

text \<open>What the handlers take from their environment.\<close>

record service_env =
  ev_uuid_lib :: uuid_lib
  ev_codec :: pb_codec
  ev_now :: u64
  ev_pad :: iobuf
  ev_raft :: raft_result
  ev_uuid :: uuid
  ev_times :: "u64 \<times> u64 \<times> u64"

definition build_create_request :: "service_env \<Rightarrow> string \<Rightarrow> u32 \<Rightarrow> create_request" where
  "build_create_request E path mode =
     (case ev_times E of (a, m, c) \<Rightarrow>
        \<lparr>cr_path = path, cr_id = UUID (uuid_high (ev_uuid E)) (uuid_low (ev_uuid E)), cr_atime = a, cr_mtime = m,
         cr_ctime = c, cr_mode = mode, cr_uid = 0, cr_gid = 0\<rparr>)"

definition send_bridge :: "service_env \<Rightarrow> rsm \<Rightarrow> deva_request \<Rightarrow> (status got \<times> file_info option \<times> rsm) outcome" where
  "send_bridge E r rq = bridge (ev_uuid_lib E) (ev_codec E) (ev_now E) (ev_pad E) (ev_raft E) r rq"

text \<open>0666 and 0777, as the numbers they are.\<close>

definition OpenFile ::
  "service_env \<Rightarrow> rsm \<Rightarrow> string \<Rightarrow> u32 \<Rightarrow> (file_info option reply option \<times> rsm) outcome" where
  "OpenFile E r path flags =
     (if flags AND OPEN_CREATE \<noteq> 0 then
        obind (send_bridge E r (RCreateFile (build_create_request E path 438))) (\<lambda>(g, resp, r').
        case g of
          Blocks \<Rightarrow> Done (None, r')
        | Throws e \<Rightarrow> Abort e
        | Returns st \<Rightarrow>
            if \<not> st_ok st then Done (Some (set_header (error_code st) (error_str st) (new_reply None)), r')
            else Done (Some (set_header 0 ''ok'' (set_header 0 ''ok'' (new_reply resp))), r'))
      else Done (Some (set_header 0 ''ok'' (new_reply None)), r))"

definition Mkdir :: "service_env \<Rightarrow> rsm \<Rightarrow> string \<Rightarrow> (file_info option reply option \<times> rsm) outcome" where
  "Mkdir E r path =
     obind (send_bridge E r (RCreateDir (build_create_request E path 511))) (\<lambda>(g, resp, r').
     case g of
       Blocks \<Rightarrow> Done (None, r')
     | Throws e \<Rightarrow> Abort e
     | Returns st \<Rightarrow>
         if \<not> st_ok st then Done (Some (set_header (error_code st) (error_str st) (new_reply None)), r')
         else Done (Some (new_reply None), r'))"

text \<open>The handlers that only create their span: an empty reply, whatever the request.\<close>

definition CloseFile :: "rsm \<Rightarrow> unit reply \<times> rsm" where
  "CloseFile r = (new_reply (), r)"

definition RemoveFile :: "rsm \<Rightarrow> unit reply \<times> rsm" where
  "RemoveFile r = (new_reply (), r)"

definition SealFile :: "rsm \<Rightarrow> unit reply \<times> rsm" where
  "SealFile r = (new_reply (), r)"

definition NewChunk :: "rsm \<Rightarrow> unit reply \<times> rsm" where
  "NewChunk r = (new_reply (), r)"

definition CheckInChunk :: "rsm \<Rightarrow> unit reply \<times> rsm" where
  "CheckInChunk r = (new_reply (), r)"

definition SealChunk :: "rsm \<Rightarrow> unit reply \<times> rsm" where
  "SealChunk r = (new_reply (), r)"

definition SealAndNewChunk :: "rsm \<Rightarrow> unit reply \<times> rsm" where
  "SealAndNewChunk r = (new_reply (), r)"

text \<open>
  \<^verbatim>\<open>default_rsm\<close>: the replicated state machine every request goes to, and the URIs its raft node
  keeps its log, its vote and its snapshots at. \<open>addr_ok\<close> and \<open>conf_ok\<close> say whether the two flags
  could be parsed.
\<close>

definition default_rsm :: "uuid_lib \<Rightarrow> bool \<Rightarrow> bool \<Rightarrow> string \<Rightarrow> (rsm \<times> string \<times> string \<times> string) outcome" where
  "default_rsm L addr_ok conf_ok data_path =
     (let grp = ''default''; prefix = ''local://'' @ data_path in
      obind (boost_assert addr_ok ''invalid xbs-meta address'') (\<lambda>_.
      obind (boost_assert conf_ok ''Fail to parse configuration'') (\<lambda>_.
      Done (rsm_new grp (deva_new L), prefix @ ''/'' @ grp @ ''/log'', prefix @ ''/'' @ grp @ ''/raft_meta'',
            prefix @ ''/'' @ grp @ ''/snapshot''))))"

section \<open>Lemmas\<close>

lemma build_create_request_sel [simp]:
  "cr_path (build_create_request E path mode) = path" "cr_id (build_create_request E path mode) = ev_uuid E"
  "cr_mode (build_create_request E path mode) = mode"
  by (auto simp: build_create_request_def split: prod.splits)

text \<open>A committed creation at a new path below a directory, through the bridge.\<close>

lemma committed_create:
  assumes "uuid_library (ev_uuid_lib E)" "fresh_log (ev_uuid_lib E) (deva_new (ev_uuid_lib E)) rqs"
    and "r_container r = deva_apply (ev_uuid_lib E) (deva_new (ev_uuid_lib E)) rqs" "r_started r" "ev_raft E = Committed i"
    and "ns_fresh (ev_uuid_lib E) (d_namespace (r_container r)) (ev_uuid E)"
    and "path \<noteq> []" "hd path = CHR ''/''" "last path \<noteq> CHR ''/''" "CHR 0x00 \<notin> set path"
    and "deva_view (ev_uuid_lib E) (r_container r) (butlast (parse_components path)) = Some (dir, KDirectory)"
    and "deva_view (ev_uuid_lib E) (r_container r) (parse_components path) = None"
    and "rq = build_create_request E path mode" "drq = (case t of KFile \<Rightarrow> RCreateFile rq | KDirectory \<Rightarrow> RCreateDir rq)"
    and "op_encode (ev_codec E) (ev_now E) (ev_pad E) drq [] = Done b"
  obtains r' where "send_bridge E r drq = Done (Returns status_OK, Some (make_file_info rq (proto_type t)), r')"
    "deva_view (ev_uuid_lib E) (r_container r') =
       (deva_view (ev_uuid_lib E) (r_container r))(parse_components path \<mapsto> (ev_uuid E, t))"
proof -
  have inv: "ns_inv (ev_uuid_lib E) (d_namespace (r_container r))"
    using apply_inv [OF assms(1) deva_inv_new [OF assms(1)] assms(2)] assms(3) by (simp add: deva_inv_def)
  have "ns_fresh (ev_uuid_lib E) (d_namespace (r_container r)) (cr_id rq)" "cr_path rq = path" using assms(6,13) by simp_all
  from create_on_path [OF assms(1) inv this assms(7-11), of t] assms(12,13) obtain d' where
    "create_handler (ev_uuid_lib E) t (r_container r) rq None = (status_OK, Some (make_file_info rq (proto_type t)), d')"
    "deva_view (ev_uuid_lib E) d' = (deva_view (ev_uuid_lib E) (r_container r))(parse_components path \<mapsto> (ev_uuid E, t))" by auto
  with that [of "r\<lparr>r_container := d'\<rparr>"] assms(4,5,14,15) show ?thesis
    by (cases t) (auto simp: send_bridge_def bridge_eq create_handlers)
qed

section \<open>Properties\<close>

text \<open>
  A client that opens a new file for creation in an existing directory gets a reply without an error
  that describes an empty file with the generated UUID and mode 0666, and from then on the path leads to
  it, once the raft library has committed the operation.
\<close>

lemma open_file_creates:
  assumes "uuid_library (ev_uuid_lib E)" "fresh_log (ev_uuid_lib E) (deva_new (ev_uuid_lib E)) rqs"
    and "r_container r = deva_apply (ev_uuid_lib E) (deva_new (ev_uuid_lib E)) rqs" "r_started r" "ev_raft E = Committed i"
    and "ns_fresh (ev_uuid_lib E) (d_namespace (r_container r)) (ev_uuid E)"
    and "path \<noteq> []" "hd path = CHR ''/''" "last path \<noteq> CHR ''/''" "CHR 0x00 \<notin> set path"
    and "ns_view (ev_uuid_lib E) (d_namespace (r_container r)) (butlast (parse_components path)) = Some (dir, KDirectory)"
    and "ns_view (ev_uuid_lib E) (d_namespace (r_container r)) (parse_components path) = None"
    and "op_encode (ev_codec E) (ev_now E) (ev_pad E) (RCreateFile (build_create_request E path 438)) [] = Done b"
    and "flags AND OPEN_CREATE \<noteq> 0"
  shows "\<exists>rp info r'. OpenFile E r path flags = Done (Some rp, r') \<and> reply_ok rp \<and> rp_body rp = Some info \<and>
    fi_id info = ev_uuid E \<and> fi_type info = FILE_TYPE_FILE \<and> fi_size info = 0 \<and> fi_mode info = 438 \<and>
    ns_view (ev_uuid_lib E) (d_namespace (r_container r')) =
      (ns_view (ev_uuid_lib E) (d_namespace (r_container r)))(parse_components path \<mapsto> (ev_uuid E, KFile))"
proof -
  let ?rq = "build_create_request E path 438"
  have drq: "RCreateFile ?rq = (case KFile of KFile \<Rightarrow> RCreateFile ?rq | KDirectory \<Rightarrow> RCreateDir ?rq)" by simp
  obtain r' where "send_bridge E r (RCreateFile ?rq) = Done (Returns status_OK, Some (make_file_info ?rq FILE_TYPE_FILE), r')"
    "deva_view (ev_uuid_lib E) (r_container r') = (deva_view (ev_uuid_lib E) (r_container r))(parse_components path \<mapsto> (ev_uuid E, KFile))"
    using committed_create [OF assms(1-12) refl drq assms(13)] by auto
  with assms(14) show ?thesis
    by (simp add: OpenFile_def set_header_def new_reply_def reply_ok_def make_file_info_def)
qed

definition ex_senv :: "raft_result \<Rightarrow> service_env" where
  "ex_senv res = \<lparr>ev_uuid_lib = hex_lib, ev_codec = fixed_codec, ev_now = 7, ev_pad = [0, 0, 0, 0], ev_raft = res,
     ev_uuid = UUID 0 1, ev_times = (1, 2, 3)\<rparr>"

definition ex_rsm :: rsm where
  "ex_rsm = (rsm_new ''default'' (deva_new hex_lib))\<lparr>r_started := True\<rparr>"

lemma ex_service:
  "ev_uuid_lib (ex_senv res) = hex_lib" "ev_codec (ex_senv res) = fixed_codec" "ev_raft (ex_senv res) = res"
  "ev_uuid (ex_senv res) = UUID 0 1" "r_container ex_rsm = deva_new hex_lib" "r_started ex_rsm"
  by (simp_all add: ex_senv_def ex_rsm_def rsm_new_def)

lemma ex_root: "n_root (d_namespace (deva_new hex_lib)) = UUID 0 0"
  by (simp add: deva_new_def ns_new_def hex_root Let_def)

text \<open>A creation whose parent is not a directory is refused in the header of the reply.\<close>

lemma open_file_refused:
  assumes "uuid_library (ev_uuid_lib E)" "fresh_log (ev_uuid_lib E) (deva_new (ev_uuid_lib E)) rqs"
    and "r_container r = deva_apply (ev_uuid_lib E) (deva_new (ev_uuid_lib E)) rqs" "r_started r" "ev_raft E = Committed i"
    and "dir = c_str (path_parent path)"
    and "dir = [] \<or> hd dir \<noteq> CHR ''/'' \<or>
      (\<nexists>u. ns_view (ev_uuid_lib E) (d_namespace (r_container r)) (parse_components dir) = Some (u, KDirectory))"
    and "op_encode (ev_codec E) (ev_now E) (ev_pad E) (RCreateFile (build_create_request E path 438)) [] = Done b"
    and "flags AND OPEN_CREATE \<noteq> 0"
  shows "\<exists>rp. OpenFile E r path flags = Done (Some rp, r) \<and> rp_failed rp = None \<and> rp_body rp = None \<and>
    (hd_status (rp_header rp) = word_of_int ENOENT \<or> hd_status (rp_header rp) = word_of_int EINVAL)"
proof -
  let ?rq = "build_create_request E path 438"
  have p: "cr_path ?rq = path" by simp
  from refused_create [OF assms(1-3), of dir "cr_path ?rq" "cr_id ?rq" KFile] assms(6,7) obtain st where
    st: "error_code st = ENOENT \<or> error_code st = EINVAL" "deva_create (ev_uuid_lib E) (r_container r) (cr_path ?rq) (cr_id ?rq) KFile = (st, r_container r)"
    by (auto simp: p)
  have "deva_process (ev_uuid_lib E) (r_container r) (RCreateFile ?rq) None = (st, None, r_container r)"
    using refused_process [OF st] by simp
  then have "send_bridge E r (RCreateFile ?rq) = Done (Returns st, None, r)"
    using assms(4,5,8) by (simp add: send_bridge_def bridge_eq)
  with st(1) assms(9) show ?thesis
    by (auto simp: OpenFile_def st_ok_def set_header_def new_reply_def)
qed

text \<open>
  Opening a path without the creation flag is not implemented: whatever the path, the reply is
  a success without a file info, and nothing changes.
\<close>

theorem open_without_create:
  "OpenFile E r path (OPEN_READ OR OPEN_APPEND) = Done (Some (set_header 0 ''ok'' (new_reply None)), r) \<and>
   OpenFile E r path OPEN_READ = Done (Some (set_header 0 ''ok'' (new_reply None)), r) \<and>
   reply_ok (set_header 0 ''ok'' (new_reply (None :: file_info option)))"
  by (simp add: OpenFile_def OPEN_READ_def OPEN_APPEND_def OPEN_CREATE_def reply_ok_def set_header_def new_reply_def)

text \<open>
  A client that makes a new directory in an existing one gets a reply without an error, and from then
  on the path leads to an empty directory with the generated UUID, once the raft library has committed the
  operation; the file info of the reply is left out, though the message has a field for it.
\<close>

theorem mkdir_creates:
  assumes "uuid_library (ev_uuid_lib E)" "fresh_log (ev_uuid_lib E) (deva_new (ev_uuid_lib E)) rqs"
    and "r_container r = deva_apply (ev_uuid_lib E) (deva_new (ev_uuid_lib E)) rqs" "r_started r" "ev_raft E = Committed i"
    and "ns_fresh (ev_uuid_lib E) (d_namespace (r_container r)) (ev_uuid E)"
    and "path \<noteq> []" "hd path = CHR ''/''" "last path \<noteq> CHR ''/''" "CHR 0x00 \<notin> set path"
    and "ns_view (ev_uuid_lib E) (d_namespace (r_container r)) (butlast (parse_components path)) = Some (dir, KDirectory)"
    and "ns_view (ev_uuid_lib E) (d_namespace (r_container r)) (parse_components path) = None"
    and "op_encode (ev_codec E) (ev_now E) (ev_pad E) (RCreateDir (build_create_request E path 511)) [] = Done b"
  shows "\<exists>rp r'. Mkdir E r path = Done (Some rp, r') \<and> reply_ok rp \<and> rp_body rp = None \<and>
    ns_view (ev_uuid_lib E) (d_namespace (r_container r')) =
      (ns_view (ev_uuid_lib E) (d_namespace (r_container r)))(parse_components path \<mapsto> (ev_uuid E, KDirectory))"
proof -
  let ?rq = "build_create_request E path 511"
  have drq: "RCreateDir ?rq = (case KDirectory of KFile \<Rightarrow> RCreateFile ?rq | KDirectory \<Rightarrow> RCreateDir ?rq)" by simp
  obtain r' where "send_bridge E r (RCreateDir ?rq) = Done (Returns status_OK, Some (make_file_info ?rq FILE_TYPE_DIRECTORY), r')"
    "deva_view (ev_uuid_lib E) (r_container r') = (deva_view (ev_uuid_lib E) (r_container r))(parse_components path \<mapsto> (ev_uuid E, KDirectory))"
    using committed_create [OF assms(1-12) refl drq assms(13)] by auto
  then show ?thesis by (simp add: Mkdir_def new_reply_def reply_ok_def)
qed

theorem mkdir_creates_witness:
  "\<exists>rp r'. Mkdir (ex_senv (Committed 1)) ex_rsm ''/a'' = Done (Some rp, r') \<and> reply_ok rp \<and> rp_body rp = None \<and>
     ns_view hex_lib (d_namespace (r_container r')) [''a''] = Some (UUID 0 1, KDirectory)"
proof -
  obtain b where "op_encode fixed_codec (ev_now (ex_senv (Committed 1))) (ev_pad (ex_senv (Committed 1)))
      (RCreateDir (build_create_request (ex_senv (Committed 1)) ''/a'' 511)) [] = Done b"
    by (simp add: op_encode_def request_encode_def fixed_codec_def Let_def)
  then show ?thesis
    using mkdir_creates [of "ex_senv (Committed 1)" "[]" ex_rsm 1 "''/a''" "UUID 0 0" b]
    by (auto simp: ex_service hexlib.uuid_library_axioms fresh_log_def ex_fresh_new ex_parent ex_root)
qed

end
