(* ===== verification/Hash_Store.thy ===== *)
theory Hash_Store
  imports Prelude "HOL-Library.Sublist"
begin

text \<open>
  The key-value store of the topology server: \<^verbatim>\<open>src/common/store.h\<close>, \<^verbatim>\<open>src/common/rocksdb_store.cc\<close>
  and the scope guard of \<^verbatim>\<open>include/pain/base/scope_exit.h\<close> it uses. RocksDB and the file system of
  the raft library are external: their operations are the fields of \<open>rocks\<close>, over a state
  \<open>'w\<close> of the world. What the code relies on is the locale \<open>rocks_db\<close>: a database is a map from
  keys to values at a path, an iterator walks over it in key order until it reaches the end or fails, a checkpoint copies it, and an
  operation that fails changes nothing. What is left of a database when its process has ended is the locale \<open>rocks_durable\<close>: the code writes
  without the write-ahead log, and then only closing the database is sure to save what was written.
\<close>

section \<open>The external database and file system\<close>

datatype rstatus = ROk | RNotFound | RErr string

record write_options =
  wo_disableWAL :: bool
  wo_sync :: bool

text \<open>\<open>rk_seek\<close> gives the entries an iterator runs through and its status at the end; \<open>rk_exit\<close> is what the end of the process does.\<close>

record 'w rocks =
  rk_put :: "'w \<Rightarrow> string \<Rightarrow> write_options \<Rightarrow> string \<Rightarrow> string \<Rightarrow> rstatus \<times> 'w"
  rk_get :: "'w \<Rightarrow> string \<Rightarrow> string \<Rightarrow> rstatus \<times> string"
  rk_delete :: "'w \<Rightarrow> string \<Rightarrow> write_options \<Rightarrow> string \<Rightarrow> rstatus \<times> 'w"
  rk_seek :: "'w \<Rightarrow> string \<Rightarrow> string \<Rightarrow> rstatus \<times> (string \<times> string) list"
  rk_open :: "'w \<Rightarrow> string \<Rightarrow> bool \<Rightarrow> rstatus \<times> 'w"
  rk_close :: "'w \<Rightarrow> string \<Rightarrow> rstatus \<times> 'w"
  rk_flush :: "'w \<Rightarrow> string \<Rightarrow> rstatus \<times> 'w"
  rk_open_read_only :: "'w \<Rightarrow> string \<Rightarrow> rstatus"
  rk_checkpoint_object :: "'w \<Rightarrow> string \<Rightarrow> rstatus"
  rk_create_checkpoint :: "'w \<Rightarrow> string \<Rightarrow> string \<Rightarrow> rstatus \<times> 'w"
  fs_directory_exists :: "'w \<Rightarrow> string \<Rightarrow> bool"
  fs_create_directory :: "'w \<Rightarrow> string \<Rightarrow> bool \<times> 'w"
  fs_path_exists :: "'w \<Rightarrow> string \<Rightarrow> bool"
  fs_delete_file :: "'w \<Rightarrow> string \<Rightarrow> bool \<times> 'w"
  fs_rename :: "'w \<Rightarrow> string \<Rightarrow> string \<Rightarrow> bool \<times> 'w"
  fs_directory_reader :: "'w \<Rightarrow> string \<Rightarrow> string list option"
  rk_exit :: "'w \<Rightarrow> 'w"

text \<open>\<open>data w p\<close> is the content of the database at the path \<open>p\<close>.\<close>

locale rocks_db =
  fixes R :: "'w rocks" and data :: "'w \<Rightarrow> string \<Rightarrow> (string \<Rightarrow> string option) option"
  assumes put: "data w p = Some m \<Longrightarrow> rk_put R w p wo k v = (st, w') \<Longrightarrow>
      data w' = (if st = ROk then (data w)(p \<mapsto> m(k \<mapsto> v)) else data w)"
    and get: "data w p = Some m \<Longrightarrow> rk_get R w p k = (ROk, v) \<Longrightarrow> m k = Some v"
    and get_absent: "data w p = Some m \<Longrightarrow> rk_get R w p k = (RNotFound, v) \<Longrightarrow> m k = None"
    and del: "data w p = Some m \<Longrightarrow> rk_delete R w p wo k = (st, w') \<Longrightarrow>
      data w' = (if st = ROk then (data w)(p \<mapsto> m(k := None)) else data w)"
    and seek: "data w p = Some m \<Longrightarrow> rk_seek R w p s = (st, es) \<Longrightarrow> sorted_wrt string_lt (map fst es) \<and>
      set es \<subseteq> {(k, v). m k = Some v \<and> \<not> string_lt k s} \<and> (st = ROk \<longrightarrow> set es = {(k, v). m k = Some v \<and> \<not> string_lt k s})"
    and open_keeps: "rk_open R w p create = (st, w') \<Longrightarrow> data w p = Some m \<Longrightarrow> data w' = data w"
    and close_keeps: "rk_close R w p = (st, w') \<Longrightarrow> data w' = data w"
    and flush_keeps: "rk_flush R w p = (st, w') \<Longrightarrow> data w' = data w"
    and checkpoint: "rk_create_checkpoint R w p q = (st, w') \<Longrightarrow>
      data w' = (if st = ROk then (data w)(q := data w p) else data w)"
    and delete_file: "fs_delete_file R w p = (b, w') \<Longrightarrow> data w' = (if b then (data w)(p := None) else data w)"
    and rename: "fs_rename R w p q = (b, w') \<Longrightarrow> data w' = (if b then (data w)(p := None, q := data w p) else data w)"
    and read_only: "rk_open_read_only R w p = ROk \<Longrightarrow> data w p \<noteq> None"

text \<open>
  \<open>disk w p\<close> is what is left of the database at \<open>p\<close> when the process ends now. A database is flushed when it is closed (unless the option
  \<^verbatim>\<open>avoid_flush_during_shutdown\<close> is set, which the code leaves at its default); nothing is promised for a write without the log before that.
\<close>

locale rocks_durable = rocks_db R data for R :: "'w rocks" and data +
  fixes disk :: "'w \<Rightarrow> string \<Rightarrow> (string \<Rightarrow> string option) option"
  assumes exit: "data (rk_exit R w) = disk w"
    and close_flushes: "rk_close R w p = (ROk, w') \<Longrightarrow> disk w' p = data w p"
    and put_logged: "data w p = Some m \<Longrightarrow> disk w p = data w p \<Longrightarrow> \<not> wo_disableWAL wo \<Longrightarrow> rk_put R w p wo k v = (ROk, w') \<Longrightarrow> disk w' p = data w' p"

section \<open>Definitions\<close>

text \<open>The object: the path and whether \<^verbatim>\<open>_db\<close> is set.\<close>

record rocksdb_store =
  rs_path :: string
  rs_open :: bool

definition EIO_of :: "rstatus \<Rightarrow> status" where
  "EIO_of st = (case st of RErr msg \<Rightarrow> Status EIO msg | RNotFound \<Rightarrow> Status EIO ''NotFound: '' | ROk \<Rightarrow> status_OK)"

definition rocksdb_open :: "'w rocks \<Rightarrow> 'w \<Rightarrow> string option \<Rightarrow> (status \<times> rocksdb_store option \<times> 'w) outcome" where
  "rocksdb_open R w data_path =
     (case data_path of None \<Rightarrow> Abort ''data_path != nullptr''
      | Some path \<Rightarrow>
        (let (created, w1) = (if \<not> fs_directory_exists R w path then fs_create_directory R w path else (True, w)) in
         if \<not> created then Done (Status EIO (''create dir '' @ path @ '' failed''), None, w1)
         else case rk_open R w1 path True of (st, w2) \<Rightarrow>
                if st \<noteq> ROk then Done (EIO_of st, None, w2)
                else Done (status_OK, Some \<lparr>rs_path = path, rs_open = True\<rparr>, w2)))"

definition open_or_die :: "'w rocks \<Rightarrow> 'w \<Rightarrow> rocksdb_store \<Rightarrow> (rocksdb_store \<times> 'w) outcome" where
  "open_or_die R w s =
     (case rk_open R w (rs_path s) False of (st, w') \<Rightarrow>
        (case st of RErr msg \<Rightarrow> Abort msg | RNotFound \<Rightarrow> Abort ''NotFound: '' | ROk \<Rightarrow> Done (s\<lparr>rs_open := True\<rparr>, w')))"

definition rocksdb_close :: "'w rocks \<Rightarrow> 'w \<Rightarrow> rocksdb_store \<Rightarrow> status \<times> rocksdb_store \<times> 'w" where
  "rocksdb_close R w s =
     (if \<not> rs_open s then (status_OK, s, w)
      else case rk_close R w (rs_path s) of (st, w') \<Rightarrow>
             if st \<noteq> ROk then (EIO_of st, s, w') else (status_OK, s\<lparr>rs_open := False\<rparr>, w'))"

text \<open>The destructor: the store is closed, and an error is only logged.\<close>

definition rocksdb_destroy :: "'w rocks \<Rightarrow> 'w \<Rightarrow> rocksdb_store \<Rightarrow> 'w" where
  "rocksdb_destroy R w s = (case rocksdb_close R w s of (_, _, w') \<Rightarrow> w')"

definition check_point ::
  "'w rocks \<Rightarrow> 'w \<Rightarrow> rocksdb_store \<Rightarrow> string \<Rightarrow> string list \<Rightarrow> (status \<times> string list \<times> 'w) outcome" where
  "check_point R w s to files =
     (case rk_flush R w (rs_path s) of (st, w1) \<Rightarrow>
        if st \<noteq> ROk then Done (EIO_of st, files, w1)
        else if rk_checkpoint_object R w1 (rs_path s) \<noteq> ROk
        then Done (EIO_of (rk_checkpoint_object R w1 (rs_path s)), files, w1)
        else case rk_create_checkpoint R w1 (rs_path s) to of (st, w2) \<Rightarrow>
               if st \<noteq> ROk then Done (EIO_of st, files, w2)
               else case fs_directory_reader R w2 to of
                      None \<Rightarrow> Abort ''fail to open cpt dir''
                    | Some names \<Rightarrow> Done (status_OK, map (\<lambda>n. ''cpt/'' @ n) names, w2))"

text \<open>
  A scope guard: \<open>scope_exit armed f\<close> is what its destructor does, and \<^verbatim>\<open>release\<close> disarms it.
\<close>

definition scope_exit :: "bool \<Rightarrow> ('w \<Rightarrow> 'w outcome) \<Rightarrow> 'w \<Rightarrow> 'w outcome" where
  "scope_exit armed f w = (if armed then f w else Done w)"

text \<open>
  The two guards of \<^verbatim>\<open>recover\<close>, which run in the reverse order of their declaration: the directory is
  renamed back first, then the database is opened again.
\<close>

definition rollback_dir :: "'w rocks \<Rightarrow> string \<Rightarrow> string \<Rightarrow> 'w \<Rightarrow> 'w outcome" where
  "rollback_dir R bak path w =
     (case fs_rename R w bak path of (b, w') \<Rightarrow> if \<not> b then Abort ''rollbak rename failed'' else Done w')"

definition rollback_open ::
  "'w rocks \<Rightarrow> rocksdb_store \<Rightarrow> status \<Rightarrow> 'w \<Rightarrow> (status \<times> rocksdb_store \<times> 'w) outcome" where
  "rollback_open R s st w = obind (open_or_die R w s) (\<lambda>(s', w'). Done (st, s', w'))"

text \<open>\<^verbatim>\<open>fs->path_exists(bak_path) && !fs->delete_file(bak_path, true)\<close>, negated.\<close>

definition drop_bak :: "'w rocks \<Rightarrow> 'w \<Rightarrow> string \<Rightarrow> bool \<times> 'w" where
  "drop_bak R w bak = (if fs_path_exists R w bak then fs_delete_file R w bak else (True, w))"

definition recover ::
  "'w rocks \<Rightarrow> 'w \<Rightarrow> rocksdb_store \<Rightarrow> string \<Rightarrow> (status \<times> rocksdb_store \<times> 'w) outcome" where
  "recover R w s from =
     (case rocksdb_close R w s of (st, s1, w1) \<Rightarrow>
        if \<not> st_ok st then Done (st, s1, w1)
        else
          let path = rs_path s1; bak = path @ ''.bak'';
              (bak_gone, w2) = drop_bak R w1 bak;
              fail = (\<lambda>st w. obind (scope_exit True (rollback_dir R bak path) w) (rollback_open R s1 st))
          in if \<not> bak_gone then rollback_open R s1 (Status EIO ''remove bak dir failed'') w2
             else case fs_rename R w2 path bak of (moved, w3) \<Rightarrow>
                    if \<not> moved then rollback_open R s1 (Status EIO ''rename failed'') w3
                    else if rk_open_read_only R w3 from \<noteq> ROk then fail (EIO_of (rk_open_read_only R w3 from)) w3
                    else if rk_checkpoint_object R w3 from \<noteq> ROk then fail (EIO_of (rk_checkpoint_object R w3 from)) w3
                    else case rk_create_checkpoint R w3 from path of (st, w4) \<Rightarrow>
                           if st \<noteq> ROk then fail (EIO_of st) w4
                           else case fs_delete_file R w4 bak of (_, w5) \<Rightarrow>
                                  obind (open_or_die R w5 s1) (\<lambda>(s2, w6). Done (status_OK, s2, w6)))"

definition make_key :: "string \<Rightarrow> string \<Rightarrow> string" where
  "make_key key field = key @ ''_'' @ field"

text \<open>The options of every write: without the write-ahead log, and not synchronised.\<close>

definition write_opts :: write_options where
  "write_opts = \<lparr>wo_disableWAL = True, wo_sync = False\<rparr>"

definition hset :: "'w rocks \<Rightarrow> 'w \<Rightarrow> rocksdb_store \<Rightarrow> string \<Rightarrow> string \<Rightarrow> string \<Rightarrow> status \<times> 'w" where
  "hset R w s key field val =
     (case rk_put R w (rs_path s) write_opts (make_key key field) val of (st, w') \<Rightarrow>
        if st \<noteq> ROk then (EIO_of st, w') else (status_OK, w'))"

definition hget :: "'w rocks \<Rightarrow> 'w \<Rightarrow> rocksdb_store \<Rightarrow> string \<Rightarrow> string \<Rightarrow> status \<times> string" where
  "hget R w s key field =
     (case rk_get R w (rs_path s) (make_key key field) of (st, v) \<Rightarrow>
        if st \<noteq> ROk then (EIO_of st, v) else (status_OK, v))"

definition hdel :: "'w rocks \<Rightarrow> 'w \<Rightarrow> rocksdb_store \<Rightarrow> string \<Rightarrow> string \<Rightarrow> status \<times> 'w" where
  "hdel R w s key field =
     (case rk_delete R w (rs_path s) write_opts (make_key key field) of (st, w') \<Rightarrow>
        if st \<noteq> ROk then (EIO_of st, w') else (status_OK, w'))"

text \<open>
  The iterator of \<^verbatim>\<open>hgetall\<close>, as the entries it stops at: it starts at the first key that is not smaller
  than the argument and is valid as long as the key has the argument as a prefix. The status of the iterator is never looked at.
\<close>

fun iter_run :: "string \<Rightarrow> (string \<times> string) list \<Rightarrow> (string \<times> string) list" where
  "iter_run pre [] = []"
| "iter_run pre (e # es) = (if prefix pre (fst e) then e # iter_run pre es else [])"

definition hgetall :: "'w rocks \<Rightarrow> 'w \<Rightarrow> rocksdb_store \<Rightarrow> string \<Rightarrow> (string \<times> string) list" where
  "hgetall R w s key = iter_run key (snd (rk_seek R w (rs_path s) key))"

definition hlen :: "'w rocks \<Rightarrow> 'w \<Rightarrow> rocksdb_store \<Rightarrow> string \<Rightarrow> status \<times> nat" where
  "hlen R w s key = (status_OK, foldl (\<lambda>n _. Suc n) 0 (hgetall R w s key))"

definition hexists :: "'w rocks \<Rightarrow> 'w \<Rightarrow> rocksdb_store \<Rightarrow> string \<Rightarrow> string \<Rightarrow> bool" where
  "hexists R w s key field = st_ok (fst (hget R w s key field))"

section \<open>Lemmas\<close>

lemma EIO_of_ok: "st_ok (EIO_of st) \<longleftrightarrow> st = ROk"
  by (cases st) (simp_all add: EIO_of_def)

lemma EIO_of_Err [simp]: "EIO_of (RErr m) = Status EIO m" "EIO_of RNotFound = Status EIO ''NotFound: ''"
  by (simp_all add: EIO_of_def)

text \<open>The keys with a given prefix are consecutive in the order of the iterator.\<close>

lemma prefix_ge: "\<not> string_lt (pre @ zs) pre"
  unfolding string_lt_def by (induction pre) auto

lemma prefix_between:
  assumes "\<not> string_lt a pre" "string_lt a b" "prefix pre b"
  shows "prefix pre a"
  using assms unfolding string_lt_def
proof (induction pre arbitrary: a b)
  case (Cons c pre)
  obtain b' where b: "b = c # b'" "prefix pre b'" using Cons.prems(3) by (cases b) auto
  with Cons show ?case by (cases a) auto
qed simp

lemma iter_run_prefixes:
  assumes "sorted_wrt string_lt (map fst es)" "\<forall>e\<in>set es. \<not> string_lt (fst e) pre"
  shows "iter_run pre es = filter (\<lambda>e. prefix pre (fst e)) es"
  using assms
proof (induction es)
  case (Cons e es)
  show ?case
  proof (cases "prefix pre (fst e)")
    case False
    have "\<not> prefix pre (fst x)" if "x \<in> set es" for x
      using prefix_between [of "fst e" pre "fst x"] Cons.prems that False by auto
    with False show ?thesis by (simp add: filter_empty_conv)
  qed (use Cons in auto)
qed simp

lemma hlen_length: "snd (hlen R w s key) = length (hgetall R w s key)"
proof -
  have "foldl (\<lambda>n _. Suc n) k xs = k + length xs" for k and xs :: "(string \<times> string) list"
    by (induction xs arbitrary: k) auto
  then show ?thesis by (simp add: hlen_def)
qed

context rocks_db
begin

lemma hset_data:
  assumes "data w (rs_path s) = Some m" "hset R w s key field v = (st, w')"
  shows "data w' = (if st_ok st then (data w)(rs_path s \<mapsto> m(make_key key field \<mapsto> v)) else data w)"
proof -
  obtain rst w1 where "rk_put R w (rs_path s) write_opts (make_key key field) v = (rst, w1)" by fastforce
  with put [OF assms(1) this] assms(2) show ?thesis by (auto simp: hset_def EIO_of_ok split: if_splits)
qed

lemma hget_data:
  assumes "data w (rs_path s) = Some m" "hget R w s key field = (st, v)" "st_ok st"
  shows "m (make_key key field) = Some v"
proof -
  obtain rst v1 where "rk_get R w (rs_path s) (make_key key field) = (rst, v1)" by fastforce
  with get [OF assms(1)] assms(2,3) show ?thesis by (auto simp: hget_def EIO_of_ok split: if_splits)
qed

lemma hgetall_data:
  assumes "data w (rs_path s) = Some m"
  shows "sorted_wrt string_lt (map fst (hgetall R w s key))" "set (hgetall R w s key) \<subseteq> {(k, v). m k = Some v \<and> prefix key k}"
    "fst (rk_seek R w (rs_path s) key) = ROk \<Longrightarrow> set (hgetall R w s key) = {(k, v). m k = Some v \<and> prefix key k}"
proof -
  obtain st es where es: "rk_seek R w (rs_path s) key = (st, es)" by fastforce
  note S = seek [OF assms es]
  have f: "hgetall R w s key = filter (\<lambda>e. prefix key (fst e)) es"
    unfolding hgetall_def es snd_conv using S by (intro iter_run_prefixes) auto
  have "sorted_wrt string_lt (map fst (filter (\<lambda>e. prefix key (fst e)) es))"
    using S sorted_wrt_filter [of string_lt "map fst es" "prefix key"] by (simp add: filter_map o_def)
  then show "sorted_wrt string_lt (map fst (hgetall R w s key))" by (simp add: f)
  show "set (hgetall R w s key) \<subseteq> {(k, v). m k = Some v \<and> prefix key k}" using S by (auto simp: f)
  show "set (hgetall R w s key) = {(k, v). m k = Some v \<and> prefix key k}" if "fst (rk_seek R w (rs_path s) key) = ROk"
    using S that es prefix_ge by (auto simp: f elim: prefixE)
qed

lemma destroy_closed: "\<not> rs_open s \<Longrightarrow> rocksdb_destroy R w s = w"
  by (simp add: rocksdb_destroy_def rocksdb_close_def)

lemma open_or_die_data:
  assumes "open_or_die R w s = Done (s', w')" "data w (rs_path s) = Some m"
  shows "data w' = data w" "s' = s\<lparr>rs_open := True\<rparr>"
proof -
  obtain st w1 where "rk_open R w (rs_path s) False = (st, w1)" by fastforce
  then show "data w' = data w" "s' = s\<lparr>rs_open := True\<rparr>"
    using assms open_keeps by (auto simp: open_or_die_def split: rstatus.splits)
qed

text \<open>What a failed recovery does: the directory is moved back and the database is opened again.\<close>

lemma rollback_data:
  assumes "obind (scope_exit True (rollback_dir R bak (rs_path s)) w) (rollback_open R s st) = Done (st', s', w')"
    and "data w bak = Some m" "bak \<noteq> rs_path s"
  shows "st' = st" "s' = s\<lparr>rs_open := True\<rparr>" "data w' = (data w)(bak := None, rs_path s \<mapsto> m)"
proof -
  obtain b w1 where ren: "fs_rename R w bak (rs_path s) = (b, w1)" by fastforce
  with assms(1) have b: "b" by (auto simp: scope_exit_def rollback_dir_def split: if_splits)
  with rename [OF ren] assms(2) have d1: "data w1 = (data w)(bak := None, rs_path s \<mapsto> m)" by simp
  have "open_or_die R w1 s = Done (s', w')" "st' = st"
    using assms(1) ren b by (auto simp: scope_exit_def rollback_dir_def rollback_open_def outcome_simps)
  with open_or_die_data [OF this(1)] d1 show "st' = st" "s' = s\<lparr>rs_open := True\<rparr>"
    "data w' = (data w)(bak := None, rs_path s \<mapsto> m)" by simp_all
qed

lemma close_data:
  assumes "rocksdb_close R w s = (st, s', w')"
  shows "data w' = data w" "rs_path s' = rs_path s" "\<not> st_ok st \<Longrightarrow> s' = s"
proof -
  obtain rst w1 where cl: "rk_close R w (rs_path s) = (rst, w1)" by fastforce
  from close_keeps [OF cl] show "data w' = data w" "rs_path s' = rs_path s" "\<not> st_ok st \<Longrightarrow> s' = s"
    using assms cl by (auto simp: rocksdb_close_def EIO_of_ok split: if_splits)
qed

text \<open>The ways through \<^verbatim>\<open>recover\<close> once the database is closed: before the directory is moved, after it, and to the end.\<close>

lemma recover_ways:
  assumes "recover R w s from = Done (st, s', w')" "rocksdb_close R w s = (st1, s1, w1)" "st_ok st1" "rs_path s1 = p"
    and "drop_bak R w1 (p @ ''.bak'') = (gone, w2)" "fs_rename R w2 p (p @ ''.bak'') = (moved, w3)"
    and "rk_create_checkpoint R w3 from p = (cst, w4)" "fs_delete_file R w4 (p @ ''.bak'') = (ok5, w5)"
  obtains err v where "\<not> moved \<or> v = w2" "v = w2 \<or> v = w3" "\<not> st_ok err" "rollback_open R s1 err v = Done (st, s', w')"
  | err v where "moved" "data v = data w3" "\<not> st_ok err"
      "obind (scope_exit True (rollback_dir R (p @ ''.bak'') p) v) (rollback_open R s1 err) = Done (st, s', w')"
  | "moved" "cst = ROk" "obind (open_or_die R w5 s1) (\<lambda>(s2, w6). Done (status_OK, s2, w6)) = Done (st, s', w')"
proof -
  let ?fail = "\<lambda>st w. obind (scope_exit True (rollback_dir R (p @ ''.bak'') p) w) (rollback_open R s1 st)"
  have step: "recover R w s from =
      (if \<not> gone then rollback_open R s1 (Status EIO ''remove bak dir failed'') w2
       else if \<not> moved then rollback_open R s1 (Status EIO ''rename failed'') w3
       else if rk_open_read_only R w3 from \<noteq> ROk then ?fail (EIO_of (rk_open_read_only R w3 from)) w3
       else if rk_checkpoint_object R w3 from \<noteq> ROk then ?fail (EIO_of (rk_checkpoint_object R w3 from)) w3
       else if cst \<noteq> ROk then ?fail (EIO_of cst) w4
       else obind (open_or_die R w5 s1) (\<lambda>(s2, w6). Done (status_OK, s2, w6)))"
    using assms(2-8) by (simp add: recover_def Let_def)
  have io: "\<not> st_ok (Status EIO m)" for m by (simp add: st_ok_def)
  consider "\<not> gone" | "gone" "\<not> moved" | err v where "moved" "data v = data w3" "\<not> st_ok err" "recover R w s from = ?fail err v"
    | "moved" "cst = ROk" "recover R w s from = obind (open_or_die R w5 s1) (\<lambda>(s2, w6). Done (status_OK, s2, w6))"
    using step checkpoint [OF assms(7)] EIO_of_ok by (simp split: if_splits) blast+
  then show thesis
  proof cases
    case 1
    then show thesis using that(1) [OF _ _ io, of w2 "''remove bak dir failed''"] step assms(1) by simp
  next
    case 2
    then show thesis using that(1) [OF _ _ io, of w3 "''rename failed''"] step assms(1) by simp
  qed (use that(2,3) assms(1) in auto)
qed

text \<open>Both ways of failing leave the database with what it held before.\<close>

lemma reopened_data:
  assumes "rollback_open R s1 err v = Done (st, s', w')" "data v (rs_path s1) = Some m"
  shows "data w' = data v" "s' = s1\<lparr>rs_open := True\<rparr>" "st = err"
  using assms open_or_die_data [of v s1] by (auto simp: rollback_open_def outcome_simps)

text \<open>
  \<^verbatim>\<open>recover\<close>: on success the database holds what the one at \<open>from\<close> holds, on failure what it
  held before, and it is open again in both cases.
\<close>

lemma recover_data:
  assumes rec: "recover R w s from = Done (st, s', w')"
    and d: "data w (rs_path s) = Some m" "data w from = Some mf"
    and neq: "from \<noteq> rs_path s" "from \<noteq> rs_path s @ ''.bak''"
  shows "data w' (rs_path s) = Some (if st_ok st then mf else m) \<and> data w' from = Some mf \<and>
    rs_path s' = rs_path s \<and> (rs_open s \<longrightarrow> rs_open s')"
proof -
  let ?p = "rs_path s" and ?bak = "rs_path s @ ''.bak''"
  obtain st1 s1 w1 where cl: "rocksdb_close R w s = (st1, s1, w1)" by (metis prod_cases3)
  note C = close_data [OF cl]
  obtain gone w2 where g: "drop_bak R w1 ?bak = (gone, w2)" by fastforce
  have d2: "data w2 ?p = Some m" "data w2 from = Some mf"
    using g delete_file [of w1 ?bak gone w2] C(1) d neq by (auto simp: drop_bak_def split: if_splits)
  obtain moved w3 where r: "fs_rename R w2 ?p ?bak = (moved, w3)" by fastforce
  have d3: "data w3 = (if moved then (data w2)(?p := None, ?bak \<mapsto> m) else data w2)"
    using rename [OF r] d2(1) by simp
  obtain cst w4 where c: "rk_create_checkpoint R w3 from ?p = (cst, w4)" by fastforce
  obtain ok5 w5 where e: "fs_delete_file R w4 ?bak = (ok5, w5)" by fastforce
  show ?thesis
  proof (cases "st_ok st1")
    case False
    then show ?thesis using rec cl C d by (simp add: recover_def)
  next
    case True
    from rec cl True C(2) g r c e show ?thesis
    proof (rule recover_ways)
      fix err v assume v: "\<not> moved \<or> v = w2" "v = w2 \<or> v = w3" "\<not> st_ok err" "rollback_open R s1 err v = Done (st, s', w')"
      then have "data v = data w2" using d3 by auto
      then show ?thesis using reopened_data [OF v(4), of m] v(3) d2 C(2) by simp
    next
      fix err v assume v: "moved" "data v = data w3" "\<not> st_ok err"
        "obind (scope_exit True (rollback_dir R ?bak ?p) v) (rollback_open R s1 err) = Done (st, s', w')"
      then show ?thesis using rollback_data [of ?bak s1 v err st s' w' m] d3 d2 C(2) neq by auto
    next
      assume v: "moved" "cst = ROk" "obind (open_or_die R w5 s1) (\<lambda>(s2, w6). Done (status_OK, s2, w6)) = Done (st, s', w')"
      then have "data w5 ?p = Some mf" "data w5 from = Some mf"
        using delete_file [OF e] checkpoint [OF c] d3 d2 neq by (auto split: if_splits)
      moreover have "open_or_die R w5 s1 = Done (s', w')" "st = status_OK" using v by (auto simp: outcome_simps)
      ultimately show ?thesis using open_or_die_data [of w5 s1 s' w' mf] C(2) by simp
    qed
  qed
qed

end

section \<open>A database in memory\<close>

text \<open>Databases as sorted lists, by path: every law of \<open>rocks_db\<close> holds.\<close>

type_synonym mem_dbs = "string \<Rightarrow> (string, string) omap option"

definition mem_rocks :: "mem_dbs rocks" where
  "mem_rocks = \<lparr>
     rk_put = (\<lambda>w p wo k v. case w p of None \<Rightarrow> (RErr ''closed'', w) | Some m \<Rightarrow> (ROk, w(p \<mapsto> om_set string_lt m k v))),
     rk_get = (\<lambda>w p k. case w p of None \<Rightarrow> (RErr ''closed'', []) | Some m \<Rightarrow>
        (case om_find string_lt m k of None \<Rightarrow> (RNotFound, []) | Some v \<Rightarrow> (ROk, v))),
     rk_delete = (\<lambda>w p wo k. case w p of None \<Rightarrow> (RErr ''closed'', w) | Some m \<Rightarrow> (ROk, w(p \<mapsto> om_erase string_lt m k))),
     rk_seek = (\<lambda>w p s. case w p of None \<Rightarrow> (RErr ''closed'', []) | Some m \<Rightarrow> (ROk, om_lower_bound string_lt m s)),
     rk_open = (\<lambda>w p create. case w p of None \<Rightarrow> if create then (ROk, w(p \<mapsto> [])) else (RErr ''missing'', w) | Some m \<Rightarrow> (ROk, w)),
     rk_close = (\<lambda>w p. (ROk, w)), rk_flush = (\<lambda>w p. (ROk, w)),
     rk_open_read_only = (\<lambda>w p. case w p of None \<Rightarrow> RErr ''missing'' | Some m \<Rightarrow> if om_sorted string_lt m then ROk else RErr ''corrupt''),
     rk_checkpoint_object = (\<lambda>w p. ROk), rk_create_checkpoint = (\<lambda>w p q. (ROk, w(q := w p))),
     fs_directory_exists = (\<lambda>w p. w p \<noteq> None), fs_create_directory = (\<lambda>w p. (True, w)),
     fs_path_exists = (\<lambda>w p. w p \<noteq> None), fs_delete_file = (\<lambda>w p. (True, w(p := None))),
     fs_rename = (\<lambda>w p q. (True, w(p := None, q := w p))), fs_directory_reader = (\<lambda>w p. Some [''MANIFEST'']), rk_exit = (\<lambda>w. w)\<rparr>"

lemma mem_rocks_simps [simp]:
  "rk_put mem_rocks w p wo k v = (case w p of None \<Rightarrow> (RErr ''closed'', w) | Some m \<Rightarrow> (ROk, w(p \<mapsto> om_set string_lt m k v)))"
  "rk_get mem_rocks w p k = (case w p of None \<Rightarrow> (RErr ''closed'', []) | Some m \<Rightarrow>
     (case om_find string_lt m k of None \<Rightarrow> (RNotFound, []) | Some v \<Rightarrow> (ROk, v)))"
  "rk_delete mem_rocks w p wo k = (case w p of None \<Rightarrow> (RErr ''closed'', w) | Some m \<Rightarrow> (ROk, w(p \<mapsto> om_erase string_lt m k)))"
  "rk_seek mem_rocks w p s = (case w p of None \<Rightarrow> (RErr ''closed'', []) | Some m \<Rightarrow> (ROk, om_lower_bound string_lt m s))"
  "rk_open mem_rocks w p create = (case w p of None \<Rightarrow> if create then (ROk, w(p \<mapsto> [])) else (RErr ''missing'', w) | Some m \<Rightarrow> (ROk, w))"
  "rk_close mem_rocks w p = (ROk, w)" "rk_flush mem_rocks w p = (ROk, w)"
  "rk_open_read_only mem_rocks w p = (case w p of None \<Rightarrow> RErr ''missing'' | Some m \<Rightarrow> if om_sorted string_lt m then ROk else RErr ''corrupt'')"
  "rk_checkpoint_object mem_rocks w p = ROk" "rk_create_checkpoint mem_rocks w p q = (ROk, w(q := w p))"
  "fs_directory_exists mem_rocks w p \<longleftrightarrow> w p \<noteq> None" "fs_create_directory mem_rocks w p = (True, w)"
  "fs_path_exists mem_rocks w p \<longleftrightarrow> w p \<noteq> None" "fs_delete_file mem_rocks w p = (True, w(p := None))"
  "fs_rename mem_rocks w p q = (True, w(p := None, q := w p))" "fs_directory_reader mem_rocks w p = Some [''MANIFEST'']" "rk_exit mem_rocks w = w"
  by (simp_all add: mem_rocks_def)

definition mem_data :: "mem_dbs \<Rightarrow> string \<Rightarrow> (string \<Rightarrow> string option) option" where
  "mem_data w p = (case w p of None \<Rightarrow> None | Some m \<Rightarrow> if om_sorted string_lt m then Some (om_find string_lt m) else None)"

lemma mem_data_Some: "mem_data w p = Some m \<longleftrightarrow> (\<exists>x. w p = Some x \<and> om_sorted string_lt x \<and> m = om_find string_lt x)"
  by (auto simp: mem_data_def split: option.splits)

lemma mem_data_upd: "mem_data (w(p \<mapsto> x)) = (mem_data w)(p := if om_sorted string_lt x then Some (om_find string_lt x) else None)"
  by (auto simp: mem_data_def fun_eq_iff)

lemma mem_data_move: "mem_data (w(p := None)) = (mem_data w)(p := None)" "mem_data (w(q := w p)) = (mem_data w)(q := mem_data w p)"
  "mem_data (w(p := None, q := w p)) = (mem_data w)(p := None, q := mem_data w p)"
  by (auto simp: mem_data_def fun_eq_iff)

interpretation memdb: rocks_db mem_rocks mem_data
proof (unfold_locales, goal_cases)
  case (1 w p m wo k v st w')
  then obtain x where x: "w p = Some x" "om_sorted string_lt x" "m = om_find string_lt x" by (auto simp: mem_data_Some)
  have "om_find string_lt (om_set string_lt x k v) = (om_find string_lt x)(k \<mapsto> v)" by (auto simp: str.om_find_set)
  with 1 x show ?case by (auto simp: mem_data_upd str.om_sorted_set)
next
  case (2 w p m k v)
  then show ?case by (auto simp: mem_data_Some split: option.splits)
next
  case (3 w p m k v)
  then show ?case by (auto simp: mem_data_Some split: option.splits)
next
  case (4 w p m wo k st w')
  then obtain x where x: "w p = Some x" "om_sorted string_lt x" "m = om_find string_lt x" by (auto simp: mem_data_Some)
  then have "om_find string_lt (om_erase string_lt x k) = (om_find string_lt x)(k := None)" by (auto simp: str.om_find_erase)
  with 4 x show ?case by (auto simp: mem_data_upd str.om_sorted_erase)
next
  case (5 w p m s st es)
  then obtain x where x: "w p = Some x" "om_sorted string_lt x" "m = om_find string_lt x" by (auto simp: mem_data_Some)
  then have "distinct (map fst x)" using str.sorted_wrt_distinct by (simp add: om_sorted_def)
  with x 5 show ?case
    by (auto simp: str.om_lower_bound_filter str.om_find_eq_map_of om_sorted_def sorted_wrt_map
        intro: sorted_wrt_filter)
next
  case (6 w p create st w' m)
  then show ?case by (auto simp: mem_data_Some)
next
  case (7 w p st w')
  then show ?case by auto
next
  case (8 w p st w')
  then show ?case by auto
next
  case (9 w p q st w')
  then show ?case by (auto simp: mem_data_move)
next
  case (10 w p b w')
  then show ?case by (auto simp: mem_data_move)
next
  case (11 w p q b w')
  then show ?case by (auto simp: mem_data_move)
next
  case (12 w p)
  then show ?case by (auto simp: mem_data_def split: option.splits if_splits)
qed

text \<open>
  The same databases with what is on the disk: a write without the log stays in memory until the database is closed, flushed or
  copied.
\<close>

definition lift_db :: "'r \<times> mem_dbs \<Rightarrow> (mem_dbs \<Rightarrow> mem_dbs \<Rightarrow> mem_dbs) \<Rightarrow> mem_dbs \<Rightarrow> 'r \<times> mem_dbs \<times> mem_dbs" where
  "lift_db x f d = (case x of (r, w) \<Rightarrow> (r, w, f w d))"

definition wal_rocks :: "(mem_dbs \<times> mem_dbs) rocks" where
  "wal_rocks = \<lparr>
     rk_put = (\<lambda>(w, d) p wo k v. lift_db (rk_put mem_rocks w p wo k v) (\<lambda>w' d. if wo_disableWAL wo then d else d(p := w' p)) d),
     rk_get = (\<lambda>(w, d). rk_get mem_rocks w),
     rk_delete = (\<lambda>(w, d) p wo k. lift_db (rk_delete mem_rocks w p wo k) (\<lambda>w' d. if wo_disableWAL wo then d else d(p := w' p)) d),
     rk_seek = (\<lambda>(w, d). rk_seek mem_rocks w),
     rk_open = (\<lambda>(w, d) p create. lift_db (rk_open mem_rocks w p create) (\<lambda>w' d. d(p := w' p)) d),
     rk_close = (\<lambda>(w, d) p. lift_db (rk_close mem_rocks w p) (\<lambda>w' d. d(p := w' p)) d),
     rk_flush = (\<lambda>(w, d) p. lift_db (rk_flush mem_rocks w p) (\<lambda>w' d. d(p := w' p)) d),
     rk_open_read_only = (\<lambda>(w, d). rk_open_read_only mem_rocks w), rk_checkpoint_object = (\<lambda>(w, d). rk_checkpoint_object mem_rocks w),
     rk_create_checkpoint = (\<lambda>(w, d) p q. lift_db (rk_create_checkpoint mem_rocks w p q) (\<lambda>w' d. d(q := w' q)) d),
     fs_directory_exists = (\<lambda>(w, d). fs_directory_exists mem_rocks w),
     fs_create_directory = (\<lambda>(w, d) p. lift_db (fs_create_directory mem_rocks w p) (\<lambda>w' d. d) d),
     fs_path_exists = (\<lambda>(w, d). fs_path_exists mem_rocks w),
     fs_delete_file = (\<lambda>(w, d) p. lift_db (fs_delete_file mem_rocks w p) (\<lambda>w' d. d(p := None)) d),
     fs_rename = (\<lambda>(w, d) p q. lift_db (fs_rename mem_rocks w p q) (\<lambda>w' d. d(p := None, q := w' q)) d),
     fs_directory_reader = (\<lambda>(w, d). fs_directory_reader mem_rocks w), rk_exit = (\<lambda>(w, d). (d, d))\<rparr>"

lemma lift_db_eq: "lift_db x f d = (r, w') \<longleftrightarrow> (\<exists>w. x = (r, w) \<and> w' = (w, f w d))"
  by (auto simp: lift_db_def split: prod.splits)

interpretation waldb: rocks_durable wal_rocks "\<lambda>(w, d). mem_data w" "\<lambda>(w, d). mem_data d"
proof (unfold_locales, goal_cases)
  case (1 w p m wo k v st w')
  then show ?case using memdb.put by (auto simp: wal_rocks_def lift_db_eq simp del: mem_rocks_simps split: prod.splits)
next
  case (2 w p m k v)
  then show ?case using memdb.get by (auto simp: wal_rocks_def simp del: mem_rocks_simps split: prod.splits)
next
  case (3 w p m k v)
  then show ?case using memdb.get_absent by (auto simp: wal_rocks_def simp del: mem_rocks_simps split: prod.splits)
next
  case (4 w p m wo k st w')
  then show ?case using memdb.del by (auto simp: wal_rocks_def lift_db_eq simp del: mem_rocks_simps split: prod.splits)
next
  case (5 w p m s st es)
  then show ?case using memdb.seek by (simp add: wal_rocks_def del: mem_rocks_simps split: prod.splits)
next
  case (6 w p create st w' m)
  then show ?case using memdb.open_keeps by (auto simp: wal_rocks_def lift_db_eq simp del: mem_rocks_simps split: prod.splits)
next
  case (7 w p st w')
  then show ?case by (auto simp: wal_rocks_def lift_db_eq split: prod.splits)
next
  case (8 w p st w')
  then show ?case by (auto simp: wal_rocks_def lift_db_eq split: prod.splits)
next
  case (9 w p q st w')
  then show ?case using memdb.checkpoint by (auto simp: wal_rocks_def lift_db_eq simp del: mem_rocks_simps split: prod.splits)
next
  case (10 w p b w')
  then show ?case using memdb.delete_file by (auto simp: wal_rocks_def lift_db_eq simp del: mem_rocks_simps split: prod.splits)
next
  case (11 w p q b w')
  then show ?case using memdb.rename by (auto simp: wal_rocks_def lift_db_eq simp del: mem_rocks_simps split: prod.splits)
next
  case (12 w p)
  then show ?case using memdb.read_only by (auto simp: wal_rocks_def simp del: mem_rocks_simps split: prod.splits)
next
  case (13 w)
  then show ?case by (simp add: wal_rocks_def split: prod.splits)
next
  case (14 w p w')
  then show ?case by (auto simp: wal_rocks_def lift_db_eq mem_data_def split: prod.splits)
next
  case (15 w p m wo k v w')
  then show ?case by (auto simp: wal_rocks_def lift_db_eq mem_data_def split: prod.splits)
qed

section \<open>Properties\<close>

text \<open>
  After a successful \<^verbatim>\<open>hset\<close>, a \<^verbatim>\<open>hget\<close> that succeeds returns the value that was set when its key and
  field are joined to the same string, and otherwise what it would have returned before. Two different
  pairs of key and field can be joined to the same string, and then they share one value.
\<close>

theorem hset_then_hget:
  assumes "rocks_db R data" "data w (rs_path s) = Some m" "hset R w s key field v = (st, w')" "st_ok st"
    and "hget R w' s key' field' = (st', v')" "st_ok st'"
  shows "if key @ ''_'' @ field = key' @ ''_'' @ field' then v' = v else m (key' @ ''_'' @ field') = Some v'"
proof -
  have d': "data w' (rs_path s) = Some (m(make_key key field \<mapsto> v))"
    using rocks_db.hset_data [OF assms(1-3)] assms(4) by simp
  then show ?thesis
    using rocks_db.hget_data [OF assms(1) d' assms(5,6)] by (auto simp: make_key_def split: if_splits)
qed

definition ex_dbs :: mem_dbs where
  "ex_dbs = (\<lambda>_. None)(''d'' \<mapsto> [])"

definition ex_rocks :: rocksdb_store where
  "ex_rocks = \<lparr>rs_path = ''d'', rs_open = True\<rparr>"

lemma ex_dbs_data: "mem_data ex_dbs (rs_path ex_rocks) = Some (\<lambda>_. None)"
  by (simp add: mem_data_def ex_dbs_def ex_rocks_def om_sorted_def fun_eq_iff)

theorem hset_then_hget_witness:
  "\<exists>w'. hset mem_rocks ex_dbs ex_rocks ''a'' ''b_c'' ''x'' = (status_OK, w') \<and>
     hget mem_rocks w' ex_rocks ''a_b'' ''c'' = (status_OK, ''x'')"
proof -
  obtain w' where w': "hset mem_rocks ex_dbs ex_rocks ''a'' ''b_c'' ''x'' = (status_OK, w')" "w' ''d'' = Some [(''a_b_c'', ''x'')]"
    by (simp add: hset_def ex_dbs_def ex_rocks_def make_key_def)
  then obtain v where v: "hget mem_rocks w' ex_rocks ''a_b'' ''c'' = (status_OK, v)"
    by (simp add: hget_def ex_rocks_def make_key_def str.lt_irrefl)
  with hset_then_hget [OF memdb.rocks_db_axioms ex_dbs_data w'(1) _ v] w'(1) show ?thesis by simp
qed

text \<open>
  \<^verbatim>\<open>hgetall\<close> walks in order over entries whose stored key begins with the argument, which
  are the fields of that key and also those of every longer key that begins with it; when the iterator does not fail it walks over all of them, and
  \<^verbatim>\<open>hlen\<close> counts them.
\<close>

theorem hgetall_by_prefix:
  assumes "rocks_db R data" "data w (rs_path s) = Some m"
  shows "sorted_wrt string_lt (map fst (hgetall R w s key)) \<and> set (hgetall R w s key) \<subseteq> {(k, v). m k = Some v \<and> prefix key k} \<and>
    (fst (rk_seek R w (rs_path s) key) = ROk \<longrightarrow> set (hgetall R w s key) = {(k, v). m k = Some v \<and> prefix key k} \<and>
      hlen R w s key = (status_OK, card {k. m k \<noteq> None \<and> prefix key k}))"
proof -
  note A = rocks_db.hgetall_data [OF assms, of key]
  have "hlen R w s key = (status_OK, card {k. m k \<noteq> None \<and> prefix key k})" if "fst (rk_seek R w (rs_path s) key) = ROk"
  proof -
    have "distinct (map fst (hgetall R w s key))" using str.sorted_wrt_distinct A(1) by blast
    then have "length (hgetall R w s key) = card (fst ` set (hgetall R w s key))"
      using distinct_card by fastforce
    also have "fst ` set (hgetall R w s key) = {k. m k \<noteq> None \<and> prefix key k}" using A(3) [OF that] by force
    finally have "snd (hlen R w s key) = card {k. m k \<noteq> None \<and> prefix key k}" by (simp add: hlen_length)
    moreover have "fst (hlen R w s key) = status_OK" by (simp add: hlen_def)
    ultimately show ?thesis by (metis prod.collapse)
  qed
  with A show ?thesis by blast
qed

theorem hgetall_by_prefix_witness:
  "hlen mem_rocks ex_dbs ex_rocks ''a'' = (status_OK, 0)"
  using hgetall_by_prefix [OF memdb.rocks_db_axioms, of ex_dbs ex_rocks "\<lambda>_. None" "''a''"] ex_dbs_data by (simp add: ex_dbs_def ex_rocks_def)

text \<open>
  C24: recovery from a checkpoint is all or nothing: when it returns, the database at the path of the store
  holds what the checkpoint holds if it reported success, and what it held before otherwise; a store
  that was open is open again. (A rollback that fails itself aborts the process.)
\<close>

theorem recover_all_or_nothing:
  assumes "rocks_db R data" "recover R w s from = Done (st, s', w')"
    and "data w (rs_path s) = Some m" "data w from = Some mf" "from \<noteq> rs_path s" "from \<noteq> rs_path s @ ''.bak''"
  shows "data w' (rs_path s) = Some (if st_ok st then mf else m) \<and> data w' from = Some mf \<and>
    rs_path s' = rs_path s \<and> (rs_open s \<longrightarrow> rs_open s')"
  using rocks_db.recover_data [OF assms] .

theorem recover_all_or_nothing_witness:
  "\<exists>s' w'. recover mem_rocks (ex_dbs(''cpt'' \<mapsto> [(''k'', ''v'')])) ex_rocks ''cpt'' = Done (status_OK, s', w') \<and> rs_open s' \<and>
     mem_data w' ''d'' = Some (om_find string_lt [(''k'', ''v'')])"
proof -
  let ?w = "ex_dbs(''cpt'' \<mapsto> [(''k'', ''v'')])"
  have d: "mem_data ?w (rs_path ex_rocks) = Some (\<lambda>_. None)" "mem_data ?w ''cpt'' = Some (om_find string_lt [(''k'', ''v'')])"
    by (simp_all add: mem_data_def ex_dbs_def ex_rocks_def om_sorted_def fun_eq_iff)
  obtain s' w' where r: "recover mem_rocks ?w ex_rocks ''cpt'' = Done (status_OK, s', w')"
    by (simp add: recover_def rocksdb_close_def drop_bak_def open_or_die_def ex_dbs_def ex_rocks_def om_sorted_def)
      (simp add: Let_def)
  show ?thesis
    using recover_all_or_nothing [OF memdb.rocks_db_axioms r, of "\<lambda>_. None" "om_find string_lt [(''k'', ''v'')]"] r d
    by (auto simp: ex_rocks_def)
qed

end
