(* ===== verification/Asura.thy ===== *)
theory Asura
  imports Hash_Store Op
begin

text \<open>
  The topology service: \<^verbatim>\<open>src/asura/asura_service_impl.cc\<close>, with the messages of
  \<^verbatim>\<open>protocols/pain/proto/asura.proto\<close>. Servers are kept in the key-value store, serialised, under their
  UUID. Serialisation belongs to the external protobuf library: it is the argument \<open>codec\<close>, with the law
  that parsing gives back what was serialised.
\<close>

section \<open>Messages\<close>

record deva_server =
  dv_id :: uuid
  dv_ip :: string
  dv_port :: u32

record manusya_server =
  mn_id :: uuid
  mn_ip :: string
  mn_port :: u32
  mn_pool_id :: uuid

record register_result =
  rr_id :: uuid
  rr_code :: int
  rr_message :: string

record 'a codec =
  cd_ser :: "'a \<Rightarrow> string"
  cd_parse :: "string \<Rightarrow> 'a"

locale codec_library =
  fixes K :: "'a codec"
  assumes parse_ser: "cd_parse K (cd_ser K x) = x"

section \<open>Handlers\<close>

definition ASURA_DEVA :: string where
  "ASURA_DEVA = ''asura_deva''"

definition ASURA_MANUSYA :: string where
  "ASURA_MANUSYA = ''asura_manusya''"

definition existed_message :: "uuid_lib \<Rightarrow> uuid \<Rightarrow> string \<Rightarrow> u32 \<Rightarrow> string" where
  "existed_message L u ip port = u_str L u @ '' existed. ip:'' @ ip @ '', port:'' @ dec_str (unat port)"

text \<open>The body of the loop of \<^verbatim>\<open>RegisterDeva\<close>.\<close>

definition register_deva_one ::
  "uuid_lib \<Rightarrow> 'w rocks \<Rightarrow> deva_server codec \<Rightarrow> rocksdb_store \<Rightarrow> 'w \<Rightarrow> deva_server \<Rightarrow> register_result \<times> 'w" where
  "register_deva_one L R K s w sv =
     (let uuid = UUID (uuid_high (dv_id sv)) (uuid_low (dv_id sv));
          result = \<lparr>rr_id = dv_id sv, rr_code = 0, rr_message = ''ok''\<rparr>
      in if hexists R w s ASURA_DEVA (u_str L uuid)
         then (result\<lparr>rr_code := EEXIST, rr_message := existed_message L uuid (dv_ip sv) (dv_port sv)\<rparr>, w)
         else case hset R w s ASURA_DEVA (u_str L uuid) (cd_ser K sv) of (st, w') \<Rightarrow>
                (if \<not> st_ok st then result\<lparr>rr_code := error_code st, rr_message := error_str st\<rparr> else result, w'))"

fun RegisterDeva ::
  "uuid_lib \<Rightarrow> 'w rocks \<Rightarrow> deva_server codec \<Rightarrow> rocksdb_store \<Rightarrow> 'w \<Rightarrow> deva_server list \<Rightarrow> register_result list \<times> 'w" where
  "RegisterDeva L R K s w [] = ([], w)"
| "RegisterDeva L R K s w (sv # svs) =
     (case register_deva_one L R K s w sv of (r, w1) \<Rightarrow>
        (case RegisterDeva L R K s w1 svs of (rs, w2) \<Rightarrow> (r # rs, w2)))"

text \<open>The body of the loop of \<^verbatim>\<open>RegisterManusya\<close>, with its test the other way round.\<close>

definition register_manusya_one ::
  "uuid_lib \<Rightarrow> 'w rocks \<Rightarrow> manusya_server codec \<Rightarrow> rocksdb_store \<Rightarrow> 'w \<Rightarrow> manusya_server \<Rightarrow> register_result \<times> 'w" where
  "register_manusya_one L R K s w sv =
     (let uuid = UUID (uuid_high (mn_id sv)) (uuid_low (mn_id sv));
          result = \<lparr>rr_id = mn_id sv, rr_code = 0, rr_message = ''ok''\<rparr>
      in if \<not> hexists R w s ASURA_MANUSYA (u_str L uuid)
         then (result\<lparr>rr_code := EEXIST, rr_message := existed_message L uuid (mn_ip sv) (mn_port sv)\<rparr>, w)
         else case hset R w s ASURA_MANUSYA (u_str L uuid) (cd_ser K sv) of (st, w') \<Rightarrow>
                (if \<not> st_ok st then result\<lparr>rr_code := error_code st, rr_message := error_str st\<rparr> else result, w'))"

fun RegisterManusya ::
  "uuid_lib \<Rightarrow> 'w rocks \<Rightarrow> manusya_server codec \<Rightarrow> rocksdb_store \<Rightarrow> 'w \<Rightarrow> manusya_server list \<Rightarrow> register_result list \<times> 'w" where
  "RegisterManusya L R K s w [] = ([], w)"
| "RegisterManusya L R K s w (sv # svs) =
     (case register_manusya_one L R K s w sv of (r, w1) \<Rightarrow>
        (case RegisterManusya L R K s w1 svs of (rs, w2) \<Rightarrow> (r # rs, w2)))"

definition ListDeva :: "'w rocks \<Rightarrow> deva_server codec \<Rightarrow> rocksdb_store \<Rightarrow> 'w \<Rightarrow> deva_server list" where
  "ListDeva R K s w = map (\<lambda>e. cd_parse K (snd e)) (hgetall R w s ASURA_DEVA)"

definition ListManusya :: "'w rocks \<Rightarrow> manusya_server codec \<Rightarrow> rocksdb_store \<Rightarrow> 'w \<Rightarrow> manusya_server list" where
  "ListManusya R K s w = map (\<lambda>e. cd_parse K (snd e)) (hgetall R w s ASURA_MANUSYA)"

section \<open>The registered metadata servers\<close>

text \<open>The servers a store knows, by UUID, and the form of the entries they are kept in.\<close>

definition deva_table :: "uuid_lib \<Rightarrow> deva_server codec \<Rightarrow> (string \<Rightarrow> string option) \<Rightarrow> uuid \<Rightarrow> deva_server option" where
  "deva_table L K m u = map_option (cd_parse K) (m (make_key ASURA_DEVA (u_str L u)))"

definition deva_entries :: "uuid_lib \<Rightarrow> deva_server codec \<Rightarrow> (string \<Rightarrow> string option) \<Rightarrow> bool" where
  "deva_entries L K m \<longleftrightarrow> (\<forall>k v. m k = Some v \<longrightarrow> prefix ASURA_DEVA k \<longrightarrow>
     (\<exists>sv. k = make_key ASURA_DEVA (u_str L (dv_id sv)) \<and> v = cd_ser K sv))"

text \<open>The abstract operation: a server whose result is success is in the table afterwards, and nothing else changes.\<close>

fun registered :: "(uuid \<Rightarrow> deva_server option) \<Rightarrow> deva_server \<times> register_result \<Rightarrow> (uuid \<Rightarrow> deva_server option)" where
  "registered t (sv, r) = (if rr_code r = 0 then t(dv_id sv \<mapsto> sv) else t)"

text \<open>The results a table allows: refused only if known, and a known one is not overwritten unless a read of the database failed.\<close>

definition result_ok :: "bool \<Rightarrow> (uuid \<Rightarrow> deva_server option) \<Rightarrow> deva_server \<Rightarrow> register_result \<Rightarrow> bool" where
  "result_ok reads t sv r \<longleftrightarrow> rr_id r = dv_id sv \<and> (rr_code r = EEXIST \<longrightarrow> t (dv_id sv) \<noteq> None) \<and>
     (reads \<longrightarrow> t (dv_id sv) \<noteq> None \<longrightarrow> rr_code r = EEXIST) \<and> rr_code r \<in> {0, EEXIST, EIO}"

fun results_ok :: "bool \<Rightarrow> (uuid \<Rightarrow> deva_server option) \<Rightarrow> deva_server list \<Rightarrow> register_result list \<Rightarrow> bool" where
  "results_ok reads t [] rs \<longleftrightarrow> rs = []"
| "results_ok reads t (sv # svs) rs \<longleftrightarrow>
     (case rs of [] \<Rightarrow> False | r # rs' \<Rightarrow> result_ok reads t sv r \<and> results_ok reads (registered t (sv, r)) svs rs')"

text \<open>No read of the database at \<open>p\<close> fails: every one finds the key or reports that it is not there.\<close>

definition reads_ok :: "'w rocks \<Rightarrow> string \<Rightarrow> bool" where
  "reads_ok R p \<longleftrightarrow> (\<forall>w k. fst (rk_get R w p k) \<in> {ROk, RNotFound})"

lemma make_key_inj: "uuid_library L \<Longrightarrow> make_key k (u_str L u) = make_key k (u_str L v) \<longleftrightarrow> u = v"
  by (simp add: make_key_def uuid_library.u_str_inj)

context rocks_db
begin

lemma hexists_present:
  assumes "data w (rs_path s) = Some m" "hexists R w s key field"
  shows "m (make_key key field) \<noteq> None"
proof -
  obtain st v where "rk_get R w (rs_path s) (make_key key field) = (st, v)" by fastforce
  with get [OF assms(1)] assms(2) show ?thesis by (cases st) (auto simp: hexists_def hget_def)
qed

lemma hexists_reads:
  assumes "data w (rs_path s) = Some m" "reads_ok R (rs_path s)"
  shows "hexists R w s key field \<longleftrightarrow> m (make_key key field) \<noteq> None"
proof -
  obtain st v where g: "rk_get R w (rs_path s) (make_key key field) = (st, v)" by fastforce
  have "fst (rk_get R w (rs_path s) (make_key key field)) \<in> {ROk, RNotFound}" using assms(2) unfolding reads_ok_def by blast
  then have "st = ROk \<or> st = RNotFound" by (simp add: g)
  with g get_absent [OF assms(1)] get [OF assms(1)] show ?thesis by (auto simp: hexists_def hget_def)
qed

lemma register_one_spec:
  assumes "uuid_library L" "codec_library K" "data w (rs_path s) = Some m" "deva_entries L K m"
    and "register_deva_one L R K s w sv = (r, w')"
  obtains m' where "data w' (rs_path s) = Some m'" "deva_entries L K m'"
    "deva_table L K m' = registered (deva_table L K m) (sv, r)" "result_ok (reads_ok R (rs_path s)) (deva_table L K m) sv r"
proof (cases "hexists R w s ASURA_DEVA (u_str L (dv_id sv))")
  case True
  then have "w' = w" "rr_code r = EEXIST" "rr_id r = dv_id sv" using assms(5) by (auto simp: register_deva_one_def Let_def)
  with that [of m] assms(3,4) hexists_present [OF assms(3) True] show ?thesis
    by (simp add: result_ok_def deva_table_def errno_defs)
next
  case False
  let ?k = "make_key ASURA_DEVA (u_str L (dv_id sv))"
  obtain st w1 where h: "hset R w s ASURA_DEVA (u_str L (dv_id sv)) (cd_ser K sv) = (st, w1)" by fastforce
  then have w': "w' = w1" "rr_id r = dv_id sv" "rr_code r = (if st_ok st then 0 else error_code st)" "st_ok st \<or> error_code st = EIO"
    using assms(5) False
    by (auto simp: register_deva_one_def Let_def hset_def EIO_of_def errno_defs split: prod.splits if_splits rstatus.splits)
  have d: "data w' (rs_path s) = Some (if st_ok st then m(?k \<mapsto> cd_ser K sv) else m)"
    using hset_data [OF assms(3) h] assms(3) by (simp add: w'(1))
  have "deva_table L K (m(?k \<mapsto> cd_ser K sv)) = (deva_table L K m)(dv_id sv \<mapsto> sv)"
    using codec_library.parse_ser [OF assms(2)] make_key_inj [OF assms(1)] by (auto simp: deva_table_def fun_eq_iff)
  moreover have "deva_entries L K (m(?k \<mapsto> cd_ser K sv))" using assms(4) by (auto simp: deva_entries_def)
  moreover have "reads_ok R (rs_path s) \<Longrightarrow> deva_table L K m (dv_id sv) = None"
    using hexists_reads [OF assms(3)] False by (simp add: deva_table_def)
  ultimately show ?thesis using that [OF d] w' assms(4) by (auto simp: result_ok_def errno_defs)
qed

lemma register_spec:
  assumes "uuid_library L" "codec_library K" "data w (rs_path s) = Some m" "deva_entries L K m"
    and "RegisterDeva L R K s w svs = (rs, w')"
  shows "\<exists>m'. data w' (rs_path s) = Some m' \<and> deva_entries L K m' \<and>
    deva_table L K m' = foldl registered (deva_table L K m) (zip svs rs) \<and> results_ok (reads_ok R (rs_path s)) (deva_table L K m) svs rs"
  using assms(3-5)
proof (induction svs arbitrary: w m rs)
  case (Cons sv svs)
  obtain r w1 where r: "register_deva_one L R K s w sv = (r, w1)" by fastforce
  obtain rs2 where rs2: "RegisterDeva L R K s w1 svs = (rs2, w')" "rs = r # rs2"
    using Cons.prems(3) r by (auto split: prod.splits)
  obtain m1 where "data w1 (rs_path s) = Some m1" "deva_entries L K m1"
    "deva_table L K m1 = registered (deva_table L K m) (sv, r)" "result_ok (reads_ok R (rs_path s)) (deva_table L K m) sv r"
    using register_one_spec [OF assms(1,2) Cons.prems(1,2) r] .
  with Cons.IH [OF this(1,2) rs2(1)] rs2(2) show ?case by simp
qed auto

lemma list_spec:
  assumes "data w (rs_path s) = Some m" "deva_entries L K m"
  shows "set (ListDeva R K s w) \<subseteq> ran (deva_table L K m)"
    "fst (rk_seek R w (rs_path s) ASURA_DEVA) = ROk \<Longrightarrow> set (ListDeva R K s w) = ran (deva_table L K m)"
proof -
  note all = hgetall_data [OF assms(1), of ASURA_DEVA]
  have "x \<in> ran (deva_table L K m)" if "x \<in> set (ListDeva R K s w)" for x
  proof -
    from that all(2) obtain k v where kv: "m k = Some v" "prefix ASURA_DEVA k" "x = cd_parse K v"
      unfolding ListDeva_def set_map by auto
    have "\<exists>sv :: deva_server. k = make_key ASURA_DEVA (u_str L (dv_id sv)) \<and> v = cd_ser K sv"
      using assms(2) kv(1,2) unfolding deva_entries_def by simp
    then obtain sv :: deva_server where "k = make_key ASURA_DEVA (u_str L (dv_id sv))" by (elim exE conjE)
    with kv have "deva_table L K m (dv_id sv) = Some x" by (simp add: deva_table_def)
    then show ?thesis by (rule ranI)
  qed
  then show sub: "set (ListDeva R K s w) \<subseteq> ran (deva_table L K m)" by blast
  show "set (ListDeva R K s w) = ran (deva_table L K m)" if iter_ok: "fst (rk_seek R w (rs_path s) ASURA_DEVA) = ROk"
  proof -
    have "x \<in> set (ListDeva R K s w)" if x: "x \<in> ran (deva_table L K m)" for x
    proof -
      from x obtain u v where "m (make_key ASURA_DEVA (u_str L u)) = Some v" "x = cd_parse K v"
        by (auto simp: ran_def deva_table_def)
      then show ?thesis using all(3) [OF iter_ok] by (force simp: ListDeva_def make_key_def)
    qed
    with sub show ?thesis by blast
  qed
qed

end

lemma results_ok_ids: "results_ok b t svs rs \<Longrightarrow> map rr_id rs = map dv_id svs"
  by (induction b t svs rs rule: results_ok.induct) (auto simp: result_ok_def split: list.splits)

lemma no_deva_entries:
  assumes "\<forall>k. m k \<noteq> None \<longrightarrow> \<not> prefix ASURA_DEVA k"
  shows "deva_entries L K m" "deva_table L K m = (\<lambda>_. None)"
proof -
  show "deva_entries L K m" using assms by (auto simp: deva_entries_def)
  have "prefix ASURA_DEVA (make_key ASURA_DEVA (u_str L u))" for u by (simp add: make_key_def)
  then have "m (make_key ASURA_DEVA (u_str L u)) = None" for u using assms by blast
  then show "deva_table L K m = (\<lambda>_. None)" by (simp add: deva_table_def fun_eq_iff)
qed

section \<open>A codec that satisfies the law\<close>

definition chars_of :: "iobuf \<Rightarrow> string" where
  "chars_of b = map (\<lambda>x. char_of (unat x)) b"

definition bytes_of :: "string \<Rightarrow> iobuf" where
  "bytes_of t = map (\<lambda>c. word_of_nat (of_char c)) t"

definition fixed_deva_codec :: "deva_server codec" where
  "fixed_deva_codec = \<lparr>
     cd_ser = (\<lambda>sv. chars_of (le_bytes 8 (unat (uuid_high (dv_id sv))) @ le_bytes 8 (unat (uuid_low (dv_id sv))) @
       le_bytes 4 (unat (dv_port sv))) @ dv_ip sv),
     cd_parse = (\<lambda>t. let b = bytes_of (take 20 t) in
       \<lparr>dv_id = UUID (word_of_nat (le_nat (bytes_at 0 8 b))) (word_of_nat (le_nat (bytes_at 8 8 b))),
        dv_ip = drop 20 t, dv_port = word_of_nat (le_nat (bytes_at 16 4 b))\<rparr>)\<rparr>"

definition fixed_manusya_codec :: "manusya_server codec" where
  "fixed_manusya_codec = \<lparr>
     cd_ser = (\<lambda>sv. chars_of (le_bytes 8 (unat (uuid_high (mn_id sv))) @ le_bytes 8 (unat (uuid_low (mn_id sv))) @
       le_bytes 8 (unat (uuid_high (mn_pool_id sv))) @ le_bytes 8 (unat (uuid_low (mn_pool_id sv))) @
       le_bytes 4 (unat (mn_port sv))) @ mn_ip sv),
     cd_parse = (\<lambda>t. let b = bytes_of (take 36 t) in
       \<lparr>mn_id = UUID (word_of_nat (le_nat (bytes_at 0 8 b))) (word_of_nat (le_nat (bytes_at 8 8 b))),
        mn_ip = drop 36 t, mn_port = word_of_nat (le_nat (bytes_at 32 4 b)),
        mn_pool_id = UUID (word_of_nat (le_nat (bytes_at 16 8 b))) (word_of_nat (le_nat (bytes_at 24 8 b)))\<rparr>)\<rparr>"

lemma bytes_of_chars_of [simp]: "bytes_of (chars_of b) = b"
  by (simp add: bytes_of_def chars_of_def o_def)

lemma length_chars_of [simp]: "length (chars_of b) = length b"
  by (simp add: chars_of_def)

interpretation fixed_deva: codec_library fixed_deva_codec
proof
  fix sv :: deva_server
  show "cd_parse fixed_deva_codec (cd_ser fixed_deva_codec sv) = sv"
    by (simp add: fixed_deva_codec_def Let_def)
qed

interpretation fixed_manusya: codec_library fixed_manusya_codec
proof
  fix sv :: manusya_server
  show "cd_parse fixed_manusya_codec (cd_ser fixed_manusya_codec sv) = sv"
    by (simp add: fixed_manusya_codec_def Let_def)
qed

section \<open>Properties\<close>

text \<open>
  C22: registering metadata servers refines updates of a table by UUID, whatever the database answers: for every request on every table, each result is success, a refusal or
  an error of the database; the servers with result success, and no others, are in the table afterwards; a server is refused only if its UUID is in the table, and as
  long as no read of the database fails a server whose UUID is in the table is refused and the old one stays. \<^verbatim>\<open>ListDeva\<close> then
  lists only servers of the table, and all of them if its iterator does not fail.
\<close>

theorem register_deva_lists:
  assumes "rocks_db R data" "uuid_library L" "codec_library K"
    and "data w (rs_path s) = Some m" "deva_entries L K m" "RegisterDeva L R K s w svs = (rs, w')"
  shows "\<exists>m'. data w' (rs_path s) = Some m' \<and> deva_entries L K m' \<and>
    deva_table L K m' = foldl registered (deva_table L K m) (zip svs rs) \<and> results_ok (reads_ok R (rs_path s)) (deva_table L K m) svs rs \<and>
    set (ListDeva R K s w') \<subseteq> ran (deva_table L K m') \<and>
    (fst (rk_seek R w' (rs_path s) ASURA_DEVA) = ROk \<longrightarrow> set (ListDeva R K s w') = ran (deva_table L K m'))"
proof -
  from rocks_db.register_spec [OF assms] obtain m' where m': "data w' (rs_path s) = Some m'" "deva_entries L K m'"
    "deva_table L K m' = foldl registered (deva_table L K m) (zip svs rs)" "results_ok (reads_ok R (rs_path s)) (deva_table L K m) svs rs" by blast
  with rocks_db.list_spec [OF assms(1) m'(1,2)] show ?thesis by blast
qed

text \<open>The second of two servers with the same UUID is refused.\<close>

theorem register_deva_lists_witness:
  "\<exists>w'. RegisterDeva hex_lib mem_rocks fixed_deva_codec ex_rocks ex_dbs
      [\<lparr>dv_id = UUID 0 1, dv_ip = ''10.0.0.1'', dv_port = 8001\<rparr>, \<lparr>dv_id = UUID 0 1, dv_ip = ''10.0.0.2'', dv_port = 8001\<rparr>] =
      ([\<lparr>rr_id = UUID 0 1, rr_code = 0, rr_message = ''ok''\<rparr>,
        \<lparr>rr_id = UUID 0 1, rr_code = EEXIST,
         rr_message = existed_message hex_lib (UUID 0 1) ''10.0.0.2'' 8001\<rparr>], w') \<and>
     set (ListDeva mem_rocks fixed_deva_codec ex_rocks w') = {\<lparr>dv_id = UUID 0 1, dv_ip = ''10.0.0.1'', dv_port = 8001\<rparr>}"
proof -
  let ?a = "\<lparr>dv_id = UUID 0 1, dv_ip = ''10.0.0.1'', dv_port = 8001\<rparr>"
  let ?b = "\<lparr>dv_id = UUID 0 1, dv_ip = ''10.0.0.2'', dv_port = 8001\<rparr>"
  obtain w' where w': "RegisterDeva hex_lib mem_rocks fixed_deva_codec ex_rocks ex_dbs [?a, ?b] =
      ([\<lparr>rr_id = UUID 0 1, rr_code = 0, rr_message = ''ok''\<rparr>,
        \<lparr>rr_id = UUID 0 1, rr_code = EEXIST, rr_message = existed_message hex_lib (UUID 0 1) ''10.0.0.2'' 8001\<rparr>], w')"
    "fst (rk_seek mem_rocks w' (rs_path ex_rocks) ASURA_DEVA) = ROk"
    by (simp add: register_deva_one_def Let_def hexists_def hget_def hset_def ex_dbs_def ex_rocks_def make_key_def str.lt_irrefl)
  note empty = no_deva_entries [of "\<lambda>_. None" hex_lib fixed_deva_codec, simplified]
  have "ran [UUID 0 1 \<mapsto> ?a] = {?a}" by simp
  then show ?thesis
    using register_deva_lists [OF memdb.rocks_db_axioms hexlib.uuid_library_axioms fixed_deva.codec_library_axioms
        ex_dbs_data empty(1) w'(1)] w' by (auto simp: empty(2) errno_defs)
qed

text \<open>
  Chunk servers cannot be registered: the test whether a server is known is inverted, so on a
  store without chunk servers \<^verbatim>\<open>RegisterManusya\<close> answers \<^verbatim>\<open>EEXIST\<close> for every one of them and stores nothing.
\<close>

theorem register_manusya_refuses:
  assumes "rocks_db R data" "data w (rs_path s) = Some m" "\<forall>k. m k \<noteq> None \<longrightarrow> \<not> prefix ASURA_MANUSYA k"
    and "RegisterManusya L R K s w svs = (rs, w')"
  shows "map rr_code rs = replicate (length svs) EEXIST \<and> w' = w \<and> ListManusya R K s w' = []"
proof -
  have "\<not> hexists R w s ASURA_MANUSYA f" for f
  proof -
    have "prefix ASURA_MANUSYA (make_key ASURA_MANUSYA f)" by (simp add: make_key_def)
    then have "m (make_key ASURA_MANUSYA f) = None" using assms(3) by blast
    then show ?thesis using rocks_db.hexists_present [OF assms(1,2)] by blast
  qed
  then have "map rr_code rs = replicate (length svs) EEXIST \<and> w' = w"
    using assms(4) by (induction svs arbitrary: rs) (auto simp: register_manusya_one_def Let_def split: prod.splits)
  moreover have "{(k, v). m k = Some v \<and> prefix ASURA_MANUSYA k} = {}" using assms(3) by auto
  then have "set (hgetall R w s ASURA_MANUSYA) = {}" using rocks_db.hgetall_data(2) [OF assms(1,2), of ASURA_MANUSYA]
    by (simp only: subset_empty)
  ultimately show ?thesis by (simp add: ListManusya_def)
qed

theorem register_manusya_refuses_witness:
  "\<exists>rs w'. RegisterManusya hex_lib mem_rocks fixed_manusya_codec ex_rocks ex_dbs
      [\<lparr>mn_id = UUID 0 1, mn_ip = ''10.0.0.1'', mn_port = 8003, mn_pool_id = UUID 0 0\<rparr>] = (rs, w') \<and>
     map rr_code rs = [EEXIST] \<and> ListManusya mem_rocks fixed_manusya_codec ex_rocks w' = []"
proof -
  obtain rs w' where "RegisterManusya hex_lib mem_rocks fixed_manusya_codec ex_rocks ex_dbs
      [\<lparr>mn_id = UUID 0 1, mn_ip = ''10.0.0.1'', mn_port = 8003, mn_pool_id = UUID 0 0\<rparr>] = (rs, w')" by fastforce
  with register_manusya_refuses [OF memdb.rocks_db_axioms ex_dbs_data _ this]
  show ?thesis by (intro exI [of _ rs] exI [of _ w'] conjI) (auto simp del: RegisterManusya.simps)
qed

end
