(* ===== verification/Rpc_Client.thy ===== *)
theory Rpc_Client
  imports Rpc
begin

text \<open>
  The client side of the metadata RPCs: \<^verbatim>\<open>src/deva/sdk/rpc_client.h\<close> and \<^verbatim>\<open>rpc_client.cc\<close>. The route
  table (\<^verbatim>\<open>braft::rtb\<close>) and the channels belong to external libraries: they are the argument \<open>rtb\<close> over the
  state \<open>'w\<close> of the client and of what it talks to. An empty \<^verbatim>\<open>PeerId\<close> is \<open>None\<close>. The RPC itself is the
  argument \<open>call\<close>: what the peer replies, and the state afterwards. The loop may run forever, so
  \<open>call_rpc\<close> is a partial function whose value is \<open>None\<close> when it does not return.
\<close>

section \<open>Definitions\<close>

definition EREMCHG :: u32 where [errno_defs]: "EREMCHG = 78"
definition ECONNREFUSED :: int where [errno_defs]: "ECONNREFUSED = 111"

record ('w, 'p) rtb =
  rt_select :: "'w \<Rightarrow> string \<Rightarrow> 'p option"
  rt_refresh :: "'w \<Rightarrow> string \<Rightarrow> status \<times> 'w"
  rt_update :: "'w \<Rightarrow> string \<Rightarrow> 'p option \<Rightarrow> 'w"
  rt_peer :: "string \<Rightarrow> 'p option"
  rt_show :: "'p \<Rightarrow> string"
  ch_init :: "'w \<Rightarrow> 'p \<Rightarrow> bool"

text \<open>\<open>channel\<close> says whether the pointer to the channel is not null.\<close>

definition init_channel :: "('w, 'p) rtb \<Rightarrow> 'w \<Rightarrow> string \<Rightarrow> 'p \<Rightarrow> bool \<Rightarrow> status \<times> 'w" where
  "init_channel R w grp leader channel =
     (if \<not> channel then (Status EINVAL ''Channel is nullptr'', w)
      else if \<not> ch_init R w leader then
        (Status ECONNREFUSED (''Fail to init channel to '' @ rt_show R leader), rt_update R w grp None)
      else (status_OK, w))"

text \<open>
  \<open>resp\<close> is the response object, which keeps what the last call left in it; \<open>d\<close> is the body of an
  empty response.
\<close>

partial_function (option) call_rpc ::
  "('w, 'p) rtb \<Rightarrow> string \<Rightarrow> ('w \<Rightarrow> 'p \<Rightarrow> 'r reply \<times> 'w) \<Rightarrow> 'r \<Rightarrow> 'r reply \<Rightarrow> 'w \<Rightarrow> (status \<times> 'r reply \<times> 'w) option" where
  "call_rpc R grp call d resp w =
     (case rt_select R w grp of
        None \<Rightarrow>
          (case rt_refresh R w grp of (st, w1) \<Rightarrow>
             if \<not> st_ok st then Some (st, resp, w1) else call_rpc R grp call d resp w1)
      | Some leader \<Rightarrow>
          (case init_channel R w grp leader True of (st, w1) \<Rightarrow>
             if \<not> st_ok st then Some (st, resp, w1)
             else (case call w1 leader of (rp, w2) \<Rightarrow>
               (case rp_failed rp of
                  Some (code, text) \<Rightarrow> Some (Status code text, new_reply d, rt_update R w2 ''deva'' None)
                | None \<Rightarrow>
                  if hd_status (rp_header rp) \<noteq> EREMCHG then Some (status_OK, rp, w2)
                  else if hd_message (rp_header rp) = [] then call_rpc R grp call d rp (rt_update R w2 ''deva'' None)
                  else call_rpc R grp call d rp (rt_update R w2 ''deva'' (rt_peer R (hd_message (rp_header rp))))))))"

section \<open>The contract of the route table\<close>

locale route_table =
  fixes R :: "('w, 'p) rtb"
  assumes update_same: "rt_select R (rt_update R w g p) g = p"
    and update_other: "g \<noteq> g' \<Longrightarrow> rt_select R (rt_update R w g p) g' = rt_select R w g'"
begin

text \<open>One round of the loop, when the leader is known.\<close>

lemma round_answer:
  assumes "rt_select R w grp = Some p" "ch_init R w p" "call w p = (rp, w2)" "rp_failed rp = None"
    and "hd_status (rp_header rp) \<noteq> EREMCHG"
  shows "call_rpc R grp call d resp w = Some (status_OK, rp, w2)"
  using assms by (subst call_rpc.simps) (simp add: init_channel_def)

lemma round_redirect:
  assumes "rt_select R w grp = Some p" "ch_init R w p" "call w p = (rp, w2)" "rp_failed rp = None"
    and "hd_status (rp_header rp) = EREMCHG" "msg = hd_message (rp_header rp)"
  shows "call_rpc R grp call d resp w =
    call_rpc R grp call d rp (rt_update R w2 ''deva'' (if msg = [] then None else rt_peer R msg))"
  using assms by (subst call_rpc.simps) (simp add: init_channel_def)

lemma redirect_followed:
  assumes "rt_select R w ''deva'' = Some p" "ch_init R w p" "call w p = (rp, w2)" "rp_failed rp = None"
    and "hd_status (rp_header rp) = EREMCHG" "hd_message (rp_header rp) \<noteq> []"
    and "rt_peer R (hd_message (rp_header rp)) = Some q" "ch_init R (rt_update R w2 ''deva'' (Some q)) q"
    and "call (rt_update R w2 ''deva'' (Some q)) q = (rp', w3)" "rp_failed rp' = None"
    and "hd_status (rp_header rp') \<noteq> EREMCHG"
  shows "call_rpc R ''deva'' call d resp w = Some (status_OK, rp', w3)"
  using round_redirect [of w "''deva''" p call rp w2, OF assms(1-5) refl]
    round_answer [of "rt_update R w2 ''deva'' (Some q)" "''deva''" q call rp' w3, OF update_same assms(8-11)]
    assms(6,7) by simp

end

text \<open>A loop that never leaves the states in which the known leader redirects.\<close>

lemma redirect_loops:
  assumes "call_rpc R grp call d resp w = Some x" "route_table R" "grp \<noteq> ''deva''"
    and "\<forall>w. rt_select R w grp = Some p \<longrightarrow> ch_init R w p \<and> (\<exists>rp w2. call w p = (rp, w2) \<and> rp_failed rp = None \<and>
      hd_status (rp_header rp) = EREMCHG \<and> rt_select R w2 grp = Some p)"
    and "rt_select R w grp = Some p"
  shows False
  using assms
proof (induction rule: call_rpc.raw_induct [rotated, consumes 1, case_names step])
  case (step F R grp call d resp w x)
  from step.prems(3,4) obtain rp w2 where c: "ch_init R w p" "call w p = (rp, w2)" "rp_failed rp = None"
    "hd_status (rp_header rp) = EREMCHG" "rt_select R w2 grp = Some p" by blast
  have sel: "rt_select R (rt_update R w2 ''deva'' q) grp = Some p" for q
    using route_table.update_other [OF step.prems(1)] step.prems(2) c(5) by simp
  have never: "F R grp call d rp (rt_update R w2 ''deva'' q) \<noteq> Some y" for q y
    using step.IH [of R grp call d rp "rt_update R w2 ''deva'' q" y] step.prems(1-3) sel by blast
  show False using step.hyps never c step.prems(4) by (auto simp: init_channel_def split: if_splits)
qed

end
