(* ===== verification/Servers.thy ===== *)
theory Servers
  imports Local_Chunk Manusya Deva_Service Asura Rpc_Client
begin

text \<open>
  The processes: \<^verbatim>\<open>src/manusya/main.cc\<close>, \<^verbatim>\<open>src/deva/main.cc\<close>, \<^verbatim>\<open>src/asura/main.cc\<close>, and the cluster of metadata servers
  the tests run in one process, \<^verbatim>\<open>src/deva/mock\<close>. What the RPC library and the raft library answer to the calls of the
  start-up is the argument \<open>boot\<close>. A process either ends with an exit code or serves requests, with the state its
  handlers work on. Logging, tracing and the order of the end are in the theory \<open>Processes\<close>.
\<close>

section \<open>Starting and stopping a server\<close>

record boot =
  bt_add_service :: bool
  bt_add_raft :: bool
  bt_start :: bool
  bt_addr_ok :: bool
  bt_conf_ok :: bool
  bt_node_init :: bool

datatype 'x process = Exited int | Serving 'x

definition manusya_main :: "uuid_lib \<Rightarrow> ('s, 'h) store_vt \<Rightarrow> boot \<Rightarrow> ('s, 'h) bank \<Rightarrow> ('s, 'h) bank process outcome" where
  "manusya_main L V B b =
     obind (bank_load L V b) (\<lambda>(st, b').
     Done (if \<not> st_ok st then Exited (-1)
           else if \<not> bt_add_service B then Exited (-1)
           else if \<not> bt_start B then Exited (-1)
           else Serving b'))"

text \<open>The result of \<^verbatim>\<open>rsm->start()\<close> is not looked at.\<close>

definition deva_main :: "uuid_lib \<Rightarrow> boot \<Rightarrow> string \<Rightarrow> rsm process outcome" where
  "deva_main L B data_path =
     (if \<not> bt_add_service B then Done (Exited (-1))
      else if \<not> bt_add_raft B then Done (Exited (-1))
      else if \<not> bt_start B then Done (Exited (-1))
      else obind (default_rsm L (bt_addr_ok B) (bt_conf_ok B) data_path) (\<lambda>(r, _).
           case rsm_start (bt_node_init B) r of (_, r') \<Rightarrow> Done (Serving r')))"

definition asura_main :: "'w rocks \<Rightarrow> boot \<Rightarrow> string \<Rightarrow> 'w \<Rightarrow> (rocksdb_store process \<times> 'w) outcome" where
  "asura_main R B data_path w =
     obind (rocksdb_open R w (Some (data_path @ ''/topology''))) (\<lambda>(st, store, w').
     if \<not> st_ok st then Done (Exited (-1), w')
     else case store of None \<Rightarrow> Abort ''null RocksdbStorePtr''
          | Some s \<Rightarrow>
            if \<not> bt_add_service B then Done (Exited (-1), rk_exit R (rocksdb_destroy R w' s))
            else if \<not> bt_start B then Done (Exited (-1), rk_exit R (rocksdb_destroy R w' s))
            else Done (Serving s, w'))"

text \<open>
  What \<^verbatim>\<open>main\<close> does when it is asked to quit: it closes the store, whatever \<^verbatim>\<open>close\<close> returns, and when the last pointer to the store goes, its destructor
  closes it if it is still open; then the process ends.
\<close>

definition asura_quit :: "'w rocks \<Rightarrow> rocksdb_store \<Rightarrow> 'w \<Rightarrow> int \<times> 'w" where
  "asura_quit R s w = (case rocksdb_close R w s of (_, s', w') \<Rightarrow> (0, rk_exit R (rocksdb_destroy R w' s')))"

section \<open>The cluster of the tests\<close>

record machine =
  dm_address :: string
  dm_serving :: bool
  dm_rsm :: rsm

definition machine_new :: "uuid_lib \<Rightarrow> boot \<Rightarrow> string \<Rightarrow> string \<Rightarrow> machine outcome" where
  "machine_new L B grp address =
     obind (boost_assert (bt_conf_ok B) ''Fail to parse configuration'') (\<lambda>_.
     obind (boost_assert (bt_addr_ok B) ''Fail to parse address'') (\<lambda>_.
     Done \<lparr>dm_address = address, dm_serving = False, dm_rsm = rsm_new grp (deva_new L)\<rparr>))"

definition machine_start :: "boot \<Rightarrow> machine \<Rightarrow> status \<times> machine" where
  "machine_start B x =
     (if \<not> bt_add_service B then (Status EINVAL ''Fail to add service'', x)
      else if \<not> bt_add_raft B then (Status EINVAL ''Fail to add raft service'', x)
      else if \<not> bt_start B then (Status EINVAL ''Fail to start EchoServer'', x)
      else (status_OK, x\<lparr>dm_serving := True, dm_rsm := snd (rsm_start (bt_node_init B) (dm_rsm x))\<rparr>))"

definition machine_stop :: "machine \<Rightarrow> machine" where
  "machine_stop x = x\<lparr>dm_serving := False\<rparr>"

record mock_deva =
  mk_group :: string
  mk_data_paths :: "string list"
  mk_node_addrs :: "string list"
  mk_machines :: "machine option list"

text \<open>The constructor; \<open>tmp\<close> is the directory that \<^verbatim>\<open>make_temp_dir_or_die\<close> created, if it could. The configuration it
  hands to the route table of the raft library (\<^verbatim>\<open>update_configuration\<close>) is left out.\<close>

definition mock_new :: "string option \<Rightarrow> mock_deva outcome" where
  "mock_new tmp =
     (case tmp of None \<Rightarrow> Abort ''Failed to create temp directory''
      | Some dir \<Rightarrow>
        let addrs = [''127.0.0.1:8200'', ''127.0.0.1:8201'', ''127.0.0.1:8202'']; n = length addrs in
        Done \<lparr>mk_group = ''test_group'', mk_data_paths = map (\<lambda>i. dir @ ''/'' @ dec_str i) [0..<n], mk_node_addrs = addrs,
              mk_machines = replicate n None\<rparr>)"

text \<open>\<open>Bs\<close> has the answers of the libraries by the index of the node.\<close>

definition mock_start_one :: "uuid_lib \<Rightarrow> (nat \<Rightarrow> boot) \<Rightarrow> nat \<Rightarrow> mock_deva \<Rightarrow> (status \<times> mock_deva) outcome" where
  "mock_start_one L Bs index x =
     (if index < length (mk_machines x) \<and> index < length (mk_node_addrs x) then
        obind (machine_new L (Bs index) (mk_group x) (mk_node_addrs x ! index)) (\<lambda>d.
        case machine_start (Bs index) d of (st, d') \<Rightarrow> Done (st, x\<lparr>mk_machines := (mk_machines x)[index := Some d']\<rparr>))
      else Abort ''index out of range'')"

fun mock_start_loop :: "uuid_lib \<Rightarrow> (nat \<Rightarrow> boot) \<Rightarrow> nat \<Rightarrow> nat \<Rightarrow> mock_deva \<Rightarrow> (status \<times> mock_deva) outcome" where
  "mock_start_loop L Bs i 0 x = Done (status_OK, x)"
| "mock_start_loop L Bs i (Suc n) x =
     obind (mock_start_one L Bs i x) (\<lambda>(st, x').
     if \<not> st_ok st then Done (st, x') else mock_start_loop L Bs (Suc i) n x')"

definition mock_start :: "uuid_lib \<Rightarrow> (nat \<Rightarrow> boot) \<Rightarrow> mock_deva \<Rightarrow> (status \<times> mock_deva) outcome" where
  "mock_start L Bs x = mock_start_loop L Bs 0 (length (mk_machines x)) x"

definition mock_stop_one :: "nat \<Rightarrow> mock_deva \<Rightarrow> mock_deva outcome" where
  "mock_stop_one index x =
     (if index < length (mk_machines x) then
        Done (case mk_machines x ! index of None \<Rightarrow> x | Some d \<Rightarrow> x\<lparr>mk_machines := (mk_machines x)[index := None]\<rparr>)
      else Abort ''index out of range'')"

fun mock_stop_loop :: "nat \<Rightarrow> nat \<Rightarrow> mock_deva \<Rightarrow> mock_deva outcome" where
  "mock_stop_loop i 0 x = Done x"
| "mock_stop_loop i (Suc n) x = obind (mock_stop_one i x) (\<lambda>x'. mock_stop_loop (Suc i) n x')"

definition mock_stop :: "mock_deva \<Rightarrow> mock_deva outcome" where
  "mock_stop x = mock_stop_loop 0 (length (mk_machines x)) x"

text \<open>\<open>slp\<close> is what half a second of sleeping does to the world.\<close>

fun wait_loop :: "('w, 'p) rtb \<Rightarrow> ('w \<Rightarrow> 'w) \<Rightarrow> string \<Rightarrow> nat \<Rightarrow> string \<Rightarrow> 'w \<Rightarrow> status \<times> string \<times> 'w" where
  "wait_loop R slp grp 0 addr w = (Status ENODEV ''No leader'', addr, w)"
| "wait_loop R slp grp (Suc n) addr w =
     (case rt_refresh R w grp of (st, w1) \<Rightarrow>
        if \<not> st_ok st then wait_loop R slp grp n addr (slp w1)
        else (case rt_select R w1 grp of
                None \<Rightarrow> wait_loop R slp grp n addr (slp w1)
              | Some leader \<Rightarrow> (status_OK, rt_show R leader, w1)))"

definition wait_for_leader :: "('w, 'p) rtb \<Rightarrow> ('w \<Rightarrow> 'w) \<Rightarrow> mock_deva \<Rightarrow> string \<Rightarrow> int \<Rightarrow> 'w \<Rightarrow> status \<times> string \<times> 'w" where
  "wait_for_leader R slp x addr timeout_ms w = wait_loop R slp (mk_group x) (nat (timeout_ms div 500)) addr w"

section \<open>Lemmas\<close>

text \<open>One round of the loop: what it finds, and the world in which the next one begins.\<close>

definition leader_seen :: "('w, 'p) rtb \<Rightarrow> string \<Rightarrow> 'w \<Rightarrow> 'p option" where
  "leader_seen R grp w = (case rt_refresh R w grp of (st, w1) \<Rightarrow> if st_ok st then rt_select R w1 grp else None)"

definition next_round :: "('w, 'p) rtb \<Rightarrow> ('w \<Rightarrow> 'w) \<Rightarrow> string \<Rightarrow> 'w \<Rightarrow> 'w" where
  "next_round R slp grp w = slp (snd (rt_refresh R w grp))"

lemma wait_loop_Suc:
  "wait_loop R slp grp (Suc n) addr w =
     (case leader_seen R grp w of None \<Rightarrow> wait_loop R slp grp n addr (next_round R slp grp w)
      | Some leader \<Rightarrow> (status_OK, rt_show R leader, snd (rt_refresh R w grp)))"
  by (auto simp: leader_seen_def next_round_def split: prod.splits option.splits)

declare wait_loop.simps(2) [simp del]

lemma wait_loop_none:
  assumes "\<forall>i<n. leader_seen R grp ((next_round R slp grp ^^ i) w) = None"
  shows "wait_loop R slp grp n addr w = (Status ENODEV ''No leader'', addr, (next_round R slp grp ^^ n) w)"
  using assms
proof (induction n arbitrary: w)
  case (Suc n)
  have "leader_seen R grp w = None" using Suc.prems by force
  moreover have "\<forall>i<n. leader_seen R grp ((next_round R slp grp ^^ i) (next_round R slp grp w)) = None"
    using Suc.prems by (auto simp: funpow_swap1 [symmetric] dest: spec [of _ "Suc _"])
  ultimately show ?case using Suc.IH by (simp add: wait_loop_Suc funpow_swap1)
qed simp

lemma wait_loop_first:
  assumes "k < n" "leader_seen R grp ((next_round R slp grp ^^ k) w) = Some leader"
    and "\<forall>i<k. leader_seen R grp ((next_round R slp grp ^^ i) w) = None"
  shows "wait_loop R slp grp n addr w = (status_OK, rt_show R leader, snd (rt_refresh R ((next_round R slp grp ^^ k) w) grp))"
  using assms
proof (induction k arbitrary: n w)
  case 0
  then show ?case by (cases n) (simp_all add: wait_loop_Suc)
next
  case (Suc k)
  then obtain m where n: "n = Suc m" "k < m" by (cases n) auto
  have "leader_seen R grp w = None" using Suc.prems(3) by force
  moreover have "\<forall>i<k. leader_seen R grp ((next_round R slp grp ^^ i) (next_round R slp grp w)) = None"
    using Suc.prems(3) by (auto simp: funpow_swap1 [symmetric] dest: spec [of _ "Suc _"])
  ultimately show ?case
    using Suc.IH [OF n(2), of "next_round R slp grp w"] Suc.prems(2) n(1) by (simp add: wait_loop_Suc funpow_swap1)
qed

text \<open>A node whose raft library was not initialised drops every task.\<close>

lemma unstarted_blocks:
  assumes "\<not> r_started r" "op_encode (ev_codec E) (ev_now E) (ev_pad E) rq [] = Done b"
  shows "send_bridge E r rq = Done (Blocks, None, r)"
  using assms by (simp add: send_bridge_def bridge_unstarted)

text \<open>A database lives in a directory: opening it again does not create one.\<close>

locale rocks_dir = rocks_durable R data disk for R :: "'w rocks" and data disk +
  assumes directory: "data w p \<noteq> None \<Longrightarrow> fs_directory_exists R w p"
begin

lemma open_again:
  assumes "asura_main R B data_path w = Done (Serving s, w')" "data w (data_path @ ''/topology'') = Some m"
  shows "rs_path s = data_path @ ''/topology''" "data w' = data w"
proof -
  obtain st w2 where op: "rk_open R w (data_path @ ''/topology'') True = (st, w2)" by fastforce
  have "fs_directory_exists R w (data_path @ ''/topology'')" using directory assms(2) by simp
  then show "rs_path s = data_path @ ''/topology''" "data w' = data w"
    using assms op open_keeps [OF op assms(2)]
    by (auto simp: asura_main_def rocksdb_open_def outcome_simps EIO_of_ok split: if_splits option.splits)
qed

lemma served:
  assumes "asura_main R B data_path w = Done (Serving s, w')"
  shows "rs_path s = data_path @ ''/topology''" "rs_open s"
  using assms by (auto simp: asura_main_def rocksdb_open_def outcome_simps Let_def EIO_of_ok split: if_splits option.splits prod.splits)

lemma quit_keeps:
  assumes "rs_open s" "asura_quit R s w = (code, w')" "fst (rk_close R w (rs_path s)) = ROk"
  shows "data w' (rs_path s) = data w (rs_path s)"
proof -
  obtain w1 where cl: "rk_close R w (rs_path s) = (ROk, w1)" using assms(3) by (cases "rk_close R w (rs_path s)") simp
  then have "w' = rk_exit R w1" using assms(1,2) by (auto simp: asura_quit_def rocksdb_close_def destroy_closed)
  then show ?thesis using exit close_flushes [OF cl] by simp
qed

end

interpretation waldb_dir: rocks_dir wal_rocks "\<lambda>(w, d). mem_data w" "\<lambda>(w, d). mem_data d"
  by unfold_locales (auto simp: wal_rocks_def mem_data_def split: option.splits prod.splits)

text \<open>The topology server of the witnesses.\<close>

definition ex_boot :: boot where
  "ex_boot = \<lparr>bt_add_service = True, bt_add_raft = True, bt_start = True, bt_addr_ok = True, bt_conf_ok = True, bt_node_init = True\<rparr>"

definition ex_topology :: rocksdb_store where
  "ex_topology = \<lparr>rs_path = ''d/topology'', rs_open = True\<rparr>"

definition ex_dv :: deva_server where
  "ex_dv = \<lparr>dv_id = UUID 0 1, dv_ip = ''10.0.0.1'', dv_port = 8001\<rparr>"

section \<open>Properties\<close>

text \<open>
  C23: what was registered survives a restart of the topology server that was asked to quit: when closing the database succeeded, and the server is
  started again on the same directory, it lists exactly the table it had, with every server whose registration was answered with success, if the
  iterator does not fail. Writes are not logged, so this rests on the database being closed.
\<close>

theorem asura_restart_keeps:
  assumes "rocks_dir R data disk" "uuid_library L" "codec_library K"
    and "asura_main R B data_path w = Done (Serving s, w1)" "data w1 (rs_path s) = Some m" "deva_entries L K m"
    and "RegisterDeva L R K s w1 svs = (rs, w2)" "fst (rk_close R w2 (rs_path s)) = ROk" "asura_quit R s w2 = (code, w3)"
    and "asura_main R B' data_path w3 = Done (Serving s', w4)" "fst (rk_seek R w4 (rs_path s') ASURA_DEVA) = ROk"
  shows "set (ListDeva R K s' w4) = ran (foldl registered (deva_table L K m) (zip svs rs))"
proof -
  note db = rocks_durable.axioms(1) [OF rocks_dir.axioms(1) [OF assms(1)]] and sv = rocks_dir.served [OF assms(1,4)]
  from rocks_db.register_spec [OF db, OF assms(2,3,5-7)] obtain m' where
    m': "data w2 (rs_path s) = Some m'" "deva_entries L K m'" "deva_table L K m' = foldl registered (deva_table L K m) (zip svs rs)" by blast
  have d3: "data w3 (data_path @ ''/topology'') = Some m'" using rocks_dir.quit_keeps [OF assms(1), OF sv(2) assms(9,8)] m'(1) sv(1) by simp
  have "data w4 (rs_path s') = Some m'" using rocks_dir.open_again [OF assms(1), OF assms(10) d3] d3 by simp
  from rocks_db.list_spec(2) [OF db, OF this m'(2) assms(11)] m'(3) show ?thesis by simp
qed

text \<open>The run of the witness, and of the same server when it is killed instead of asked to quit.\<close>

definition ex_wal_start :: "mem_dbs \<times> mem_dbs" where
  "ex_wal_start = ([''d/topology'' \<mapsto> []], [''d/topology'' \<mapsto> []])"

definition ex_wal_registered :: "mem_dbs \<times> mem_dbs" where
  "ex_wal_registered = ([''d/topology'' \<mapsto> [(make_key ASURA_DEVA (u_str hex_lib (UUID 0 1)), cd_ser fixed_deva_codec ex_dv)]], [''d/topology'' \<mapsto> []])"

definition ex_ok_result :: register_result where
  "ex_ok_result = \<lparr>rr_id = UUID 0 1, rr_code = 0, rr_message = ''ok''\<rparr>"

lemma ex_wal_main: "asura_main wal_rocks ex_boot ''d'' (\<lambda>_. None, \<lambda>_. None) = Done (Serving ex_topology, ex_wal_start)"
  by (simp add: asura_main_def rocksdb_open_def ex_boot_def ex_topology_def wal_rocks_def lift_db_def ex_wal_start_def)

lemma ex_wal_register: "RegisterDeva hex_lib wal_rocks fixed_deva_codec ex_topology ex_wal_start [ex_dv] = ([ex_ok_result], ex_wal_registered)"
  by (simp add: register_deva_one_def Let_def hexists_def hget_def hset_def ex_topology_def wal_rocks_def lift_db_def ex_wal_start_def
      ex_wal_registered_def write_opts_def ex_dv_def ex_ok_result_def)

theorem asura_restart_keeps_witness:
  "\<exists>w4. asura_main wal_rocks ex_boot ''d'' (snd (asura_quit wal_rocks ex_topology ex_wal_registered)) = Done (Serving ex_topology, w4) \<and>
     set (ListDeva wal_rocks fixed_deva_codec ex_topology w4) = {ex_dv}"
proof -
  obtain w3 where q: "asura_quit wal_rocks ex_topology ex_wal_registered = (0, w3)" "w3 = (fst ex_wal_registered, fst ex_wal_registered)"
    by (simp add: asura_quit_def rocksdb_close_def rocksdb_destroy_def wal_rocks_def lift_db_def ex_topology_def ex_wal_registered_def)
  have m3: "asura_main wal_rocks ex_boot ''d'' w3 = Done (Serving ex_topology, w3)" "fst (rk_seek wal_rocks w3 (rs_path ex_topology) ASURA_DEVA) = ROk"
    "fst (rk_close wal_rocks ex_wal_registered (rs_path ex_topology)) = ROk"
    by (simp_all add: q(2) asura_main_def rocksdb_open_def ex_boot_def ex_topology_def wal_rocks_def lift_db_def ex_wal_registered_def)
  have d1: "(case ex_wal_start of (w, d) \<Rightarrow> mem_data w) (rs_path ex_topology) = Some (\<lambda>_. None)"
    by (simp add: mem_data_def ex_wal_start_def ex_topology_def fun_eq_iff)
  note empty = no_deva_entries [of "\<lambda>_. None" hex_lib fixed_deva_codec, simplified]
  have "ran [UUID 0 1 \<mapsto> ex_dv] = {ex_dv}" by simp
  then have "set (ListDeva wal_rocks fixed_deva_codec ex_topology w3) = {ex_dv}"
    using asura_restart_keeps [OF waldb_dir.rocks_dir_axioms hexlib.uuid_library_axioms fixed_deva.codec_library_axioms
        ex_wal_main d1 empty(1) ex_wal_register m3(3) q(1) m3(1,2)] by (simp add: empty(2) ex_ok_result_def ex_dv_def)
  with q(1) m3(1) show ?thesis by auto
qed

text \<open>
  A topology server that is killed can lose what it has answered with success: over this database, which keeps what a write without the log may lose, it
  lists no server after the restart.
\<close>

lemma asura_kill_loses:
  "asura_main wal_rocks ex_boot ''d'' (rk_exit wal_rocks ex_wal_registered) = Done (Serving ex_topology, ex_wal_start) \<and>
   ListDeva wal_rocks fixed_deva_codec ex_topology ex_wal_start = []"
  by (simp add: asura_main_def rocksdb_open_def ex_boot_def ex_topology_def wal_rocks_def lift_db_def ex_wal_registered_def ex_wal_start_def
      ListDeva_def hgetall_def om_lower_bound_def)

text \<open>
  A metadata server whose raft node cannot be initialised serves requests all the same, and then never
  answers one that creates a file or a directory.
\<close>

theorem deva_serves_unstarted:
  assumes "bt_add_service B" "bt_add_raft B" "bt_start B" "bt_addr_ok B" "bt_conf_ok B" "\<not> bt_node_init B"
    and "\<forall>rq. \<exists>b. op_encode (ev_codec E) (ev_now E) (ev_pad E) rq [] = Done b" "flags AND OPEN_CREATE \<noteq> 0"
  shows "\<exists>r. deva_main L B data_path = Done (Serving r) \<and> OpenFile E r path flags = Done (None, r) \<and>
    Mkdir E r path = Done (None, r)"
proof -
  let ?r = "rsm_new ''default'' (deva_new L)"
  have "deva_main L B data_path = Done (Serving ?r)" using assms(1-6) by (simp add: deva_main_def default_rsm_def rsm_start_def Let_def)
  moreover have "send_bridge E ?r rq = Done (Blocks, None, ?r)" for rq
    using unstarted_blocks [of ?r E rq] assms(7) by (auto simp: rsm_new_def)
  ultimately show ?thesis using assms(8) by (simp add: OpenFile_def Mkdir_def)
qed

theorem deva_serves_unstarted_witness:
  "\<exists>r. deva_main hex_lib \<lparr>bt_add_service = True, bt_add_raft = True, bt_start = True, bt_addr_ok = True, bt_conf_ok = True,
      bt_node_init = False\<rparr> ''data'' = Done (Serving r) \<and> OpenFile (ex_senv InFlight) r ''/f'' OPEN_CREATE = Done (None, r)"
proof -
  have "\<exists>b. op_encode (ev_codec (ex_senv InFlight)) (ev_now (ex_senv InFlight)) (ev_pad (ex_senv InFlight)) rq [] = Done b" for rq
    by (cases rq) (simp_all add: op_encode_def request_encode_def fixed_codec_def ex_senv_def Let_def)
  then have enc: "\<forall>rq. \<exists>b. op_encode (ev_codec (ex_senv InFlight)) (ev_now (ex_senv InFlight)) (ev_pad (ex_senv InFlight)) rq [] = Done b" ..
  from deva_serves_unstarted [OF _ _ _ _ _ _ enc, of "\<lparr>bt_add_service = True, bt_add_raft = True, bt_start = True,
      bt_addr_ok = True, bt_conf_ok = True, bt_node_init = False\<rparr>" OPEN_CREATE hex_lib "''data''" "''/f''"]
  show ?thesis by (auto simp: OPEN_CREATE_def)
qed

text \<open>
  C36: a chunk server over the local store forgets its chunks when it is restarted on a directory that has only files of chunks: its service is added and its server started as before and it
  starts without an error, but for a chunk whose file is in its directory it answers that the chunk was not found.
\<close>

theorem manusya_restart_forgets:
  assumes "posix_dir X D winv data wfd rfd" "uuid_library L" "winv w" "bt_add_service B" "bt_start B"
    and "\<forall>path. data w path \<noteq> None \<longrightarrow> (\<exists>u. path = u_str L u)" "data w (u_str L u) = Some bs"
  shows "\<exists>b. manusya_main L (local_vt X junk D) B (new_bank w) = Done (Serving b) \<and> data (b_store b) (u_str L u) = Some bs \<and>
    QueryChunk L b u = Done (set_header ENOENT ''Chunk not found'' (new_reply (0, False)))"
proof -
  have "bank_load L (local_vt X junk D) (new_bank w) = Done (status_OK, new_bank w)"
    using bank_load_local [OF assms(1,2), of "new_bank w"] assms(3,6) by (simp add: new_bank_def)
  then show ?thesis
    using assms(4,5,7) by (intro exI [of _ "new_bank w"]) (simp add: manusya_main_def QueryChunk_def registered_query new_bank_def)
qed

theorem manusya_restart_forgets_witness:
  "flat_data (ex_flat [1, 2] []) (u_str hex_lib ex_u) = Some [1, 2] \<and>
   (\<exists>b. manusya_main hex_lib ex_dir ex_boot (new_bank (ex_flat [1, 2] [])) = Done (Serving b) \<and>
     QueryChunk hex_lib b ex_u = Done (set_header ENOENT ''Chunk not found'' (new_reply (0, False))))"
proof -
  have "\<forall>path. flat_data (ex_flat [1, 2] []) path \<noteq> None \<longrightarrow> (\<exists>u. path = u_str hex_lib u)"
    by (auto simp: flat_data_def ex_flat_def split: if_splits)
  from manusya_restart_forgets [OF flat_posix_dir hexlib.uuid_library_axioms ex_flat_written _ _ this ex_flat_files, of ex_boot "''d''" "[]"]
  show ?thesis using ex_flat_files by (auto simp: ex_boot_def)
qed

text \<open>
  Waiting for a leader always ends: after at most \<open>timeout_ms / 500\<close> rounds it returns the first leader that a round
  found, or \<^verbatim>\<open>ENODEV\<close> when none of them found one.
\<close>

theorem wait_for_leader_bounded:
  assumes "n = nat (timeout_ms div 500)" "seen = (\<lambda>i. leader_seen R (mk_group x) ((next_round R slp (mk_group x) ^^ i) w))"
  shows "((\<forall>i<n. seen i = None) \<longrightarrow>
      wait_for_leader R slp x addr timeout_ms w = (Status ENODEV ''No leader'', addr, (next_round R slp (mk_group x) ^^ n) w)) \<and>
    (\<forall>k<n. \<forall>leader. seen k = Some leader \<longrightarrow> (\<forall>i<k. seen i = None) \<longrightarrow>
      wait_for_leader R slp x addr timeout_ms w =
        (status_OK, rt_show R leader, snd (rt_refresh R ((next_round R slp (mk_group x) ^^ k) w) (mk_group x))))"
  unfolding assms wait_for_leader_def using wait_loop_none wait_loop_first by (metis (no_types))

theorem wait_for_leader_bounded_witness:
  "wait_for_leader \<lparr>rt_select = (\<lambda>w g. if w < 2 then None else Some w), rt_refresh = (\<lambda>w g. (status_OK, w)),
       rt_update = (\<lambda>w g p. w), rt_peer = (\<lambda>s. None), rt_show = (\<lambda>p. ''leader''), ch_init = (\<lambda>w p. True)\<rparr>
     Suc \<lparr>mk_group = ''g'', mk_data_paths = [], mk_node_addrs = [], mk_machines = []\<rparr> [] 1500 (0 :: nat) =
   (status_OK, ''leader'', 2)"
proof -
  let ?R = "\<lparr>rt_select = (\<lambda>w g. if w < 2 then None else Some w), rt_refresh = (\<lambda>w g. (status_OK, w)), rt_update = (\<lambda>w g p. w),
      rt_peer = (\<lambda>s. None), rt_show = (\<lambda>p. ''leader''), ch_init = (\<lambda>w p. True)\<rparr> :: (nat, nat) rtb"
  let ?x = "\<lparr>mk_group = ''g'', mk_data_paths = [], mk_node_addrs = [], mk_machines = []\<rparr> :: mock_deva"
  have rounds: "(next_round ?R Suc ''g'' ^^ i) w = w + i" for i w by (induction i) (simp_all add: next_round_def)
  have "\<forall>i<2. leader_seen ?R ''g'' i = None" "leader_seen ?R ''g'' 2 = Some 2" by (simp_all add: leader_seen_def)
  then show ?thesis
    using wait_for_leader_bounded [OF refl refl, of 1500 ?R ?x Suc 0 "[]"] rounds [of _ 0] by fastforce
qed

end
