(* ===== verification/Sad.thy ===== *)
theory Sad
  imports Manusya Asura Deva_Service
begin

text \<open>
  The command line client: \<^verbatim>\<open>src/sad\<close>. A command checks its arguments, opens a channel to the host, calls one RPC
  and prints the response; its status decides the exit code of the process. The parsed command line is the
  value of type \<open>parser\<close> that \<^verbatim>\<open>argparse\<close> leaves behind: the arguments of a parser and the subcommand that was
  used, with the parser of that. The network is the argument \<open>sad_env\<close>: whether a channel can be initialised, and
  what a call of a stub leaves in the controller and in the response. What a command prints is the list of the
  values it prints; how they look as JSON is the subject of the theory \<open>Sad_Print\<close>. Trace identifiers and the log are left out.
\<close>

section \<open>Command lines and output\<close>

record args =
  ag_host :: string
  ag_chunk_id :: string
  ag_data :: string
  ag_offset :: u64
  ag_start :: string
  ag_limit :: u32
  ag_length :: u32
  ag_output :: string
  ag_ip :: string
  ag_port :: u32
  ag_pool :: string
  ag_path :: string
  ag_create :: bool

datatype parser = Parser (pa_args: args) (pa_sub: "(string \<times> parser) option")

text \<open>The declared default values, over the three default hosts; an argument that is required has none.\<close>

definition default_args :: "string \<Rightarrow> args" where
  "default_args host = \<lparr>ag_host = host, ag_chunk_id = [], ag_data = [], ag_offset = 0, ag_start = nil_uuid_str, ag_limit = 10,
     ag_length = 1024, ag_output = ''-'', ag_ip = [], ag_port = 0, ag_pool = [], ag_path = [], ag_create = False\<rparr>"

definition manusya_host :: string where "manusya_host = ''127.0.0.1:8003''"
definition deva_host :: string where "deva_host = ''127.0.0.1:8001''"
definition asura_host :: string where "asura_host = ''127.0.0.1:8201''"

text \<open>\<^verbatim>\<open>is_subcommand_used\<close>, together with \<^verbatim>\<open>at<ArgumentParser>\<close>.\<close>

definition sub_parser :: "parser \<Rightarrow> string \<Rightarrow> parser option" where
  "sub_parser p name = (case pa_sub p of None \<Rightarrow> None | Some (n, q) \<Rightarrow> if n = name then Some q else None)"

text \<open>
  What a command prints: a status; the error code and text of the controller with the header and the fields of
  the response; and the attachment, to the standard output or to a file.
\<close>

datatype sad_body =
    BNone | BChunk uuid | BOffset u64 | BSize u64 | BChunks "uuid list" | BQuery u64 bool
  | BResults "register_result list" | BDevas "deva_server list" | BManusyas "manusya_server list" | BFile "file_info option"

datatype sad_out =
    PrintStatus int string
  | PrintReply int string header sad_body
  | PrintData iobuf
  | WriteFile string iobuf

record 'w sad_env =
  se_uuid_lib :: uuid_lib
  se_generate :: uuid
  se_init :: "'w \<Rightarrow> string \<Rightarrow> bool"
  st_CreateChunk :: "'w \<Rightarrow> string \<Rightarrow> uuid reply \<times> 'w"
  st_AppendChunk :: "'w \<Rightarrow> string \<Rightarrow> uuid \<Rightarrow> iobuf \<Rightarrow> u64 \<Rightarrow> u64 reply \<times> 'w"
  st_ListChunk :: "'w \<Rightarrow> string \<Rightarrow> uuid \<Rightarrow> u32 \<Rightarrow> uuid list reply \<times> 'w"
  st_ReadChunk :: "'w \<Rightarrow> string \<Rightarrow> uuid \<Rightarrow> u64 \<Rightarrow> u32 \<Rightarrow> unit reply \<times> 'w"
  st_QueryAndSealChunk :: "'w \<Rightarrow> string \<Rightarrow> uuid \<Rightarrow> u64 reply \<times> 'w"
  st_RemoveChunk :: "'w \<Rightarrow> string \<Rightarrow> uuid \<Rightarrow> unit reply \<times> 'w"
  st_QueryChunk :: "'w \<Rightarrow> string \<Rightarrow> uuid \<Rightarrow> (u64 \<times> bool) reply \<times> 'w"
  st_OpenFile :: "'w \<Rightarrow> string \<Rightarrow> string \<Rightarrow> u32 \<Rightarrow> file_info option reply \<times> 'w"
  st_RegisterDeva :: "'w \<Rightarrow> string \<Rightarrow> deva_server list \<Rightarrow> register_result list reply \<times> 'w"
  st_ListDeva :: "'w \<Rightarrow> string \<Rightarrow> deva_server list reply \<times> 'w"
  st_RegisterManusya :: "'w \<Rightarrow> string \<Rightarrow> manusya_server list \<Rightarrow> register_result list reply \<times> 'w"
  st_ListManusya :: "'w \<Rightarrow> string \<Rightarrow> manusya_server list reply \<times> 'w"

type_synonym 'w command = "args \<Rightarrow> 'w \<Rightarrow> status \<times> sad_out list \<times> 'w"

section \<open>Commands\<close>

text \<open>What every command does: the channel, then the call, then \<^verbatim>\<open>cntl.Failed()\<close> and \<^verbatim>\<open>print\<close>.\<close>

definition with_channel ::
  "'w sad_env \<Rightarrow> args \<Rightarrow> 'w \<Rightarrow> ('w \<Rightarrow> 'r reply \<times> 'w) \<Rightarrow> ('r reply \<Rightarrow> sad_out list) \<Rightarrow> status \<times> sad_out list \<times> 'w" where
  "with_channel E a w call out =
     (if \<not> se_init E w (ag_host a) then (Status EAGAIN ''Fail to initialize channel'', [], w)
      else case call w of (rp, w') \<Rightarrow>
             (case rp_failed rp of Some (code, text) \<Rightarrow> (Status code text, [], w') | None \<Rightarrow> (status_OK, out rp, w')))"

definition print_reply :: "'r reply \<Rightarrow> sad_body \<Rightarrow> sad_out" where
  "print_reply rp body = PrintReply 0 [] (rp_header rp) body"

definition str_bytes :: "string \<Rightarrow> iobuf" where
  "str_bytes s = map of_char s"

definition create_chunk :: "'w sad_env \<Rightarrow> 'w command" where
  "create_chunk E a w =
     with_channel E a w (\<lambda>w. st_CreateChunk E w (ag_host a))
       (\<lambda>rp. [print_reply rp (BChunk (rp_body rp))])"

definition append_chunk :: "'w sad_env \<Rightarrow> 'w command" where
  "append_chunk E a w =
     (if \<not> uuid_valid (ag_chunk_id a) then (Status EINVAL ''Invalid chunk id'', [], w)
      else with_channel E a w
             (\<lambda>w. let uuid = from_str_or_die (se_uuid_lib E) (ag_chunk_id a)
                  in st_AppendChunk E w (ag_host a) (UUID (uuid_high uuid) (uuid_low uuid)) (str_bytes (ag_data a)) (ag_offset a))
             (\<lambda>rp. [print_reply rp (BOffset (rp_body rp))]))"

definition list_chunk :: "'w sad_env \<Rightarrow> 'w command" where
  "list_chunk E a w =
     (if \<not> uuid_valid (ag_start a) then (Status EINVAL ''Invalid start id'', [], w)
      else with_channel E a w
             (\<lambda>w. let uuid = from_str_or_die (se_uuid_lib E) (ag_start a)
                  in st_ListChunk E w (ag_host a) (UUID (uuid_high uuid) (uuid_low uuid)) (ag_limit a))
             (\<lambda>rp. [print_reply rp (BChunks (rp_body rp))]))"

definition read_chunk :: "'w sad_env \<Rightarrow> 'w command" where
  "read_chunk E a w =
     (if \<not> uuid_valid (ag_chunk_id a) then (Status EINVAL ''Invalid chunk id'', [], w)
      else with_channel E a w
             (\<lambda>w. let uuid = from_str_or_die (se_uuid_lib E) (ag_chunk_id a)
                  in st_ReadChunk E w (ag_host a) (UUID (uuid_high uuid) (uuid_low uuid)) (ag_offset a) (ag_length a))
             (\<lambda>rp. [print_reply rp BNone,
                if ag_output a = ''-'' then PrintData (rp_attachment rp) else WriteFile (ag_output a) (rp_attachment rp)]))"

definition seal_chunk :: "'w sad_env \<Rightarrow> 'w command" where
  "seal_chunk E a w =
     (if \<not> uuid_valid (ag_chunk_id a) then (Status EINVAL ''Invalid chunk id'', [], w)
      else with_channel E a w
             (\<lambda>w. let uuid = from_str_or_die (se_uuid_lib E) (ag_chunk_id a)
                  in st_QueryAndSealChunk E w (ag_host a) (UUID (uuid_high uuid) (uuid_low uuid)))
             (\<lambda>rp. [print_reply rp (BSize (rp_body rp))]))"

definition remove_chunk :: "'w sad_env \<Rightarrow> 'w command" where
  "remove_chunk E a w =
     (if \<not> uuid_valid (ag_chunk_id a) then (Status EINVAL ''Invalid chunk id'', [], w)
      else with_channel E a w
             (\<lambda>w. let uuid = from_str_or_die (se_uuid_lib E) (ag_chunk_id a)
                  in st_RemoveChunk E w (ag_host a) (UUID (uuid_high uuid) (uuid_low uuid)))
             (\<lambda>rp. [print_reply rp BNone]))"

definition query_chunk :: "'w sad_env \<Rightarrow> 'w command" where
  "query_chunk E a w =
     (if \<not> uuid_valid (ag_chunk_id a) then (Status EINVAL ''Invalid chunk id'', [], w)
      else with_channel E a w
             (\<lambda>w. let uuid = from_str_or_die (se_uuid_lib E) (ag_chunk_id a)
                  in st_QueryChunk E w (ag_host a) (UUID (uuid_high uuid) (uuid_low uuid)))
             (\<lambda>rp. [print_reply rp (case rp_body rp of (n, sealed) \<Rightarrow> BQuery n sealed)]))"

definition open_file :: "'w sad_env \<Rightarrow> 'w command" where
  "open_file E a w =
     with_channel E a w (\<lambda>w. st_OpenFile E w (ag_host a) (ag_path a) (if ag_create a then OPEN_CREATE OR OPEN_APPEND else 0))
       (\<lambda>rp. [print_reply rp (BFile (rp_body rp))])"

definition register_deva :: "'w sad_env \<Rightarrow> 'w command" where
  "register_deva E a w =
     with_channel E a w
       (\<lambda>w. let uid = se_generate E
            in st_RegisterDeva E w (ag_host a)
                 [\<lparr>dv_id = UUID (uuid_high uid) (uuid_low uid), dv_ip = ag_ip a, dv_port = ag_port a\<rparr>])
       (\<lambda>rp. [print_reply rp (BResults (rp_body rp))])"

definition list_deva :: "'w sad_env \<Rightarrow> 'w command" where
  "list_deva E a w = with_channel E a w (\<lambda>w. st_ListDeva E w (ag_host a)) (\<lambda>rp. [print_reply rp (BDevas (rp_body rp))])"

definition register_manusya :: "'w sad_env \<Rightarrow> 'w command" where
  "register_manusya E a w =
     (if \<not> uuid_valid (ag_pool a) then (Status EINVAL ''Invalid pool id'', [], w)
      else let pool_id = from_str_or_die (se_uuid_lib E) (ag_pool a)
           in with_channel E a w
                (\<lambda>w. let uid = se_generate E
                     in st_RegisterManusya E w (ag_host a)
                          [\<lparr>mn_id = UUID (uuid_high uid) (uuid_low uid), mn_ip = ag_ip a, mn_port = ag_port a,
                            mn_pool_id = UUID (uuid_high pool_id) (uuid_low pool_id)\<rparr>])
                (\<lambda>rp. [print_reply rp (BResults (rp_body rp))]))"

definition list_manusya :: "'w sad_env \<Rightarrow> 'w command" where
  "list_manusya E a w =
     with_channel E a w (\<lambda>w. st_ListManusya E w (ag_host a)) (\<lambda>rp. [print_reply rp (BManusyas (rp_body rp))])"

section \<open>The dispatch of commands\<close>

text \<open>\<^verbatim>\<open>format_command\<close>, and the same loop in \<^verbatim>\<open>add\<close>.\<close>

fun format_loop :: "string \<Rightarrow> string \<Rightarrow> string" where
  "format_loop [] normalized_name = normalized_name"
| "format_loop (c # cs) normalized_name =
     format_loop cs (normalized_name @ [if c = CHR ''_'' then CHR ''-'' else c])"

definition format_command :: "string \<Rightarrow> string" where
  "format_command name = format_loop name []"

definition add_command :: "(string, 'f) omap \<Rightarrow> string \<Rightarrow> 'f \<Rightarrow> (string, 'f) omap" where
  "add_command subcommands name func = om_set string_lt subcommands (format_loop name []) func"

text \<open>\<^verbatim>\<open>execute\<close> of a server: the loop over the map; without a subcommand it ends the process with \<^verbatim>\<open>std::exit(1)\<close>.\<close>

fun execute_loop :: "(string, args \<Rightarrow> 'x) omap \<Rightarrow> parser \<Rightarrow> 'x option" where
  "execute_loop [] p = None"
| "execute_loop ((name, func) # m) p =
     (case sub_parser p name of Some q \<Rightarrow> Some (func (pa_args q)) | None \<Rightarrow> execute_loop m p)"

text \<open>The commands in the order in which their static initialisers register them.\<close>

definition manusya_commands :: "'w sad_env \<Rightarrow> (string \<times> 'w command) list" where
  "manusya_commands E = [(''create_chunk'', create_chunk E), (''append_chunk'', append_chunk E), (''list_chunk'', list_chunk E),
     (''read_chunk'', read_chunk E), (''seal_chunk'', seal_chunk E), (''remove_chunk'', remove_chunk E), (''query_chunk'', query_chunk E)]"

definition deva_commands :: "'w sad_env \<Rightarrow> (string \<times> 'w command) list" where
  "deva_commands E = [(''open'', open_file E)]"

definition asura_commands :: "'w sad_env \<Rightarrow> (string \<times> 'w command) list" where
  "asura_commands E = [(''register_deva'', register_deva E), (''list_deva'', list_deva E),
     (''register_manusya'', register_manusya E), (''list_manusya'', list_manusya E)]"

definition subcommands :: "(string \<times> 'f) list \<Rightarrow> (string, 'f) omap" where
  "subcommands tab = foldl (\<lambda>m (name, func). add_command m name func) [] tab"

definition manusya_execute :: "'w sad_env \<Rightarrow> parser \<Rightarrow> ('w \<Rightarrow> status \<times> sad_out list \<times> 'w) option" where
  "manusya_execute E p = execute_loop (subcommands (manusya_commands E)) p"

definition deva_execute :: "'w sad_env \<Rightarrow> parser \<Rightarrow> ('w \<Rightarrow> status \<times> sad_out list \<times> 'w) option" where
  "deva_execute E p = execute_loop (subcommands (deva_commands E)) p"

definition asura_execute :: "'w sad_env \<Rightarrow> parser \<Rightarrow> ('w \<Rightarrow> status \<times> sad_out list \<times> 'w) option" where
  "asura_execute E p = execute_loop (subcommands (asura_commands E)) p"

definition execute :: "'w sad_env \<Rightarrow> parser \<Rightarrow> ('w \<Rightarrow> status \<times> sad_out list \<times> 'w) option" where
  "execute E p =
     (case sub_parser p ''manusya'' of Some q \<Rightarrow> manusya_execute E q
      | None \<Rightarrow>
        (case sub_parser p ''deva'' of Some q \<Rightarrow> deva_execute E q
         | None \<Rightarrow>
           (case sub_parser p ''asura'' of Some q \<Rightarrow> asura_execute E q
            | None \<Rightarrow> None)))"

lemmas execute_defs = execute_def manusya_execute_def deva_execute_def asura_execute_def

text \<open>\<^verbatim>\<open>main\<close>: the exit code. The command line is absent when parsing it threw an exception.\<close>

definition sad_main :: "'w sad_env \<Rightarrow> parser option \<Rightarrow> 'w \<Rightarrow> int \<times> sad_out list \<times> 'w" where
  "sad_main E cmdline w =
     (case cmdline of None \<Rightarrow> (1, [], w)
      | Some p \<Rightarrow>
        (case execute E p of None \<Rightarrow> (1, [], w)
         | Some run \<Rightarrow>
           (case run w of (st, out, w') \<Rightarrow>
              if \<not> st_ok st then (1, out @ [PrintStatus (error_code st) (error_str st)], w') else (0, out, w'))))"

definition command_line :: "string \<Rightarrow> string \<Rightarrow> args \<Rightarrow> parser" where
  "command_line server name a = Parser (default_args []) (Some (server, Parser a (Some (name, Parser a None))))"

section \<open>Lemmas on the dispatch\<close>

lemma format_loop_map: "format_loop s acc = acc @ map (\<lambda>c. if c = CHR ''_'' then CHR ''-'' else c) s"
  by (induction s arbitrary: acc) auto

lemma execute_loop_map_of:
  "execute_loop m p = (case pa_sub p of None \<Rightarrow> None | Some (n, q) \<Rightarrow> map_option (\<lambda>f. f (pa_args q)) (map_of m n))"
  by (induction m p rule: execute_loop.induct) (auto simp: sub_parser_def split: option.splits)

lemma subcommands_fold:
  assumes "om_sorted string_lt m"
  shows "om_sorted string_lt (foldl (\<lambda>m (name, func). add_command m name func) m tab)"
    "om_find string_lt (foldl (\<lambda>m (name, func). add_command m name func) m tab) n =
      (case map_of (rev (map (map_prod format_command (\<lambda>f. f)) tab)) n of Some f \<Rightarrow> Some f | None \<Rightarrow> om_find string_lt m n)"
  using assms
  by (induction tab arbitrary: m)
    (auto simp: add_command_def str.om_sorted_set str.om_find_set format_command_def map_add_def split: option.splits)

lemma subcommands_find: "map_of (subcommands tab) n = map_of (rev (map (map_prod format_command (\<lambda>f. f)) tab)) n"
  using subcommands_fold [OF str.om_sorted_Nil, of tab] str.om_find_eq_map_of [of "subcommands tab"]
  by (simp add: subcommands_def split: option.splits)

lemma subcommands_distinct:
  assumes "distinct (map (format_command \<circ> fst) tab)"
  shows "map_of (subcommands tab) n = map_of (map (map_prod format_command (\<lambda>f. f)) tab) n"
proof -
  let ?t = "map (map_prod format_command (\<lambda>f. f)) tab"
  have "distinct (map fst ?t)" using assms by (simp add: comp_def)
  then show ?thesis
    unfolding subcommands_find by (metis distinct_map distinct_rev map_of_inject_set rev_map set_rev)
qed

lemma tables_distinct:
  "distinct (map (format_command \<circ> fst) (manusya_commands E))"
  "distinct (map (format_command \<circ> fst) (asura_commands E))"
  "distinct (map (format_command \<circ> fst) (deva_commands E))"
  by (simp_all add: manusya_commands_def asura_commands_def deva_commands_def format_command_def format_loop_map)

lemma execute_command:
  "execute E (command_line ''manusya'' n a) = map_option (\<lambda>f. f a) (map_of (map (map_prod format_command (\<lambda>f. f)) (manusya_commands E)) n)"
  "execute E (command_line ''deva'' n a) = map_option (\<lambda>f. f a) (map_of (map (map_prod format_command (\<lambda>f. f)) (deva_commands E)) n)"
  "execute E (command_line ''asura'' n a) = map_option (\<lambda>f. f a) (map_of (map (map_prod format_command (\<lambda>f. f)) (asura_commands E)) n)"
  by (simp_all add: execute_defs command_line_def sub_parser_def execute_loop_map_of subcommands_distinct tables_distinct)

text \<open>
  The option \<^verbatim>\<open>--host\<close> is an argument of the parser of a server and, through \<^verbatim>\<open>add_parents\<close>, of the parsers of its commands. A
  command looks only at its own parser: a host given before the name of the command is accepted and ignored.
\<close>

lemma outer_host_ignored:
  "execute E (Parser a0 (Some (server, Parser a1 (Some (name, q))))) = execute E (Parser a0 (Some (server, Parser a2 (Some (name, q)))))"
  by (simp add: execute_defs sub_parser_def execute_loop_map_of)

section \<open>Commands against a chunk server\<close>

text \<open>
  What connects the client to a chunk server with the bank \<open>srv w\<close>: a call that did not fail delivers what the handler
  replied in some state between the beginning and the end of the call, in which other clients may be served as
  well; an append that was suspended delivers what it replied when it was resumed.
\<close>

locale manusya_connection =
  fixes E :: "'w sad_env" and V :: "('s, 'h) store_vt" and host :: string and srv :: "'w \<Rightarrow> ('s, 'h) bank"
  assumes append_call: "st_AppendChunk E w host u buf off = (rp, w') \<Longrightarrow> rp_failed rp = None \<Longrightarrow>
      \<exists>b0 b1. server_run (se_uuid_lib E) V (srv w) b0 \<and> server_run (se_uuid_lib E) V b1 (srv w') \<and>
        (AppendChunk (se_uuid_lib E) V b0 u buf off = Done (Replied rp, b1) \<or>
         (\<exists>a i b2. AppendChunk (se_uuid_lib E) V b0 u buf off = Done (Suspended a i, b2) \<and>
            server_run (se_uuid_lib E) V b2 b1 \<and> AppendChunk_resume b1 a i = Done (Some rp)))"
    and read_call: "st_ReadChunk E w host u off n = (rp2, w') \<Longrightarrow> rp_failed rp2 = None \<Longrightarrow>
      \<exists>b0 b1. server_run (se_uuid_lib E) V (srv w) b0 \<and> ReadChunk (se_uuid_lib E) V b0 u off n = Done (rp2, b1) \<and>
        server_run (se_uuid_lib E) V b1 (srv w')"
    and query_call: "st_QueryChunk E w host u = (rp3, w') \<Longrightarrow> rp_failed rp3 = None \<Longrightarrow>
      \<exists>b0. server_run (se_uuid_lib E) V (srv w) b0 \<and> QueryChunk (se_uuid_lib E) b0 u = Done rp3 \<and>
        server_run (se_uuid_lib E) V b0 (srv w')"
begin

lemma append_command:
  assumes "sad_main E (Some (command_line ''manusya'' ''append-chunk'' a)) w = (0, [PrintReply 0 [] h body], w')" "ag_host a = host"
    and "from_str_or_die (se_uuid_lib E) (ag_chunk_id a) = u"
  shows "\<exists>rp b0 b1. rp_failed rp = None \<and> rp_header rp = h \<and>
    server_run (se_uuid_lib E) V (srv w) b0 \<and> server_run (se_uuid_lib E) V b1 (srv w') \<and>
    (AppendChunk (se_uuid_lib E) V b0 u (str_bytes (ag_data a)) (ag_offset a) = Done (Replied rp, b1) \<or>
     (\<exists>x i b2. AppendChunk (se_uuid_lib E) V b0 u (str_bytes (ag_data a)) (ag_offset a) = Done (Suspended x i, b2) \<and>
        server_run (se_uuid_lib E) V b2 b1 \<and> AppendChunk_resume b1 x i = Done (Some rp)))"
proof -
  obtain rp where "st_AppendChunk E w host u (str_bytes (ag_data a)) (ag_offset a) = (rp, w')" "rp_failed rp = None" "rp_header rp = h"
    using assms by (auto simp: sad_main_def execute_command manusya_commands_def format_command_def format_loop_map append_chunk_def
        with_channel_def print_reply_def Let_def split: if_splits option.splits prod.splits)
  with append_call show ?thesis by blast
qed

lemma read_command:
  assumes "sad_main E (Some (command_line ''manusya'' ''read-chunk'' a)) w = (0, PrintReply 0 [] h body # out, w')" "ag_host a = host"
    and "from_str_or_die (se_uuid_lib E) (ag_chunk_id a) = u" "ag_output a = ''-''"
  shows "\<exists>rp b0 b1. rp_failed rp = None \<and> rp_header rp = h \<and> out = [PrintData (rp_attachment rp)] \<and>
    server_run (se_uuid_lib E) V (srv w) b0 \<and> ReadChunk (se_uuid_lib E) V b0 u (ag_offset a) (ag_length a) = Done (rp, b1) \<and>
    server_run (se_uuid_lib E) V b1 (srv w')"
proof -
  obtain rp where "st_ReadChunk E w host u (ag_offset a) (ag_length a) = (rp, w')" "rp_failed rp = None" "rp_header rp = h"
    "out = [PrintData (rp_attachment rp)]"
    using assms by (auto simp: sad_main_def execute_command manusya_commands_def format_command_def format_loop_map read_chunk_def
        with_channel_def print_reply_def Let_def split: if_splits option.splits prod.splits)
  with read_call show ?thesis by blast
qed

end

text \<open>An append whose offset is not beyond the end of the file does not wait.\<close>

lemma append_not_suspended:
  assumes "server_inv L b" "om_find (u_lt L) (b_chunks b) u = Some a" "mem_files (b_store b) (u_str L u) = Some bs"
    and "unat off \<le> length bs" "length bs < 2 ^ 64"
  shows "AppendChunk L V b u buf off \<noteq> Done (Suspended x i, b')"
proof
  assume ap: "AppendChunk L V b u buf off = Done (Suspended x i, b')"
  obtain c bs' where c: "b_heap b a = Some c" "c_uuid c = u" "mem_on L (b_store b) c bs'"
    using server_inv_registered [OF assms(1,2)] .
  then have "c_size c = word_of_nat (length bs)" using mem_onD(2,3) [OF c(3)] assms(3) by (simp add: chunk_ok_def)
  then have "\<not> c_size c < off" using assms(4,5) by (simp add: word_less_nat_alt unat_of_nat_u64)
  with ap c(1) assms(2) show False
    by (auto simp: AppendChunk_def registered_query at_append_def deref_def chunk_append_def outcome_simps case_append_result_Done
        Let_def split: if_splits prod.splits)
qed

text \<open>
  The states of the server around the two calls: the append is served in \<open>b0\<close>, the read in \<open>r0\<close>, and in the
  end the chunk is still registered.
\<close>

lemma served_append_then_read:
  assumes "uuid_library L" "iobuf_library I" "server_inv L b" "om_find (u_lt L) (b_chunks b) u = Some a"
    and "mem_files (b_store b) (u_str L u) = Some bs0" "unat off \<le> length bs0" "server_run L (mem_vt I) b b0"
    and "AppendChunk L (mem_vt I) b0 u buf off = Done (Replied rp, b1) \<or>
      (\<exists>x i b2. AppendChunk L (mem_vt I) b0 u buf off = Done (Suspended x i, b2) \<and>
         server_run L (mem_vt I) b2 b1 \<and> AppendChunk_resume b1 x i = Done (Some rp))"
    and "reply_ok rp" "length buf < 2 ^ 32" "server_run L (mem_vt I) b1 r0" "server_run L (mem_vt I) r0 b3"
    and "om_find (u_lt L) (b_chunks b3) u \<noteq> None" "mem_files (b_store b3) (u_str L u) = Some bs3" "length bs3 < 2 ^ 64"
  shows "ReadChunk L (mem_vt I) r0 u off (word_of_nat (length buf)) = Done ((new_reply ())\<lparr>rp_attachment := buf\<rparr>, r0)"
proof -
  note between = registered_between [OF assms(1-4)]
  have "server_run L (mem_vt I) b0 b1" using assms(8) handler_runs(1) server_run_trans by metis
  then have runs: "server_run L (mem_vt I) b0 r0" "server_run L (mem_vt I) b0 b3" using assms(11,12) server_run_trans by blast+
  have reg: "om_find (u_lt L) (b_chunks b0) u = Some a" "om_find (u_lt L) (b_chunks r0) u = Some a"
    using between(1) [OF _ _ assms(13)] assms(7,12) runs server_run_trans by blast+
  obtain bs where bs: "mem_files (b_store b0) (u_str L u) = Some bs" "length bs \<le> length bs3"
    using between(2) [OF assms(7) runs(2) assms(13,14)] by blast
  obtain bs' where "mem_files (b_store b) (u_str L u) = Some bs'" "length bs' \<le> length bs"
    using between(2) [OF server_run.srun_refl assms(7) _ bs(1)] reg(1) by auto
  then have len: "unat off \<le> length bs" "length bs < 2 ^ 64" using assms(5,6,15) bs(2) by auto
  have inv0: "server_inv L b0" using server_run_ok [OF assms(1-3,7)] by blast
  have now: "AppendChunk L (mem_vt I) b0 u buf off = Done (Replied rp, b1)"
    using assms(8) append_not_suspended [OF inv0 reg(1) bs(1) len] by blast
  have "\<forall>z. mem_files (b_store r0) (u_str L u) = Some z \<longrightarrow> length z < 2 ^ 64"
    using between(2) [OF server_run_trans [OF assms(7) runs(1)] assms(12-14)] assms(15) by auto
  with reg(2) show ?thesis by (intro read_acknowledged [OF assms(1,2) inv0 now assms(9-11)]) simp_all
qed

text \<open>
  The network the witnesses run on: one chunk server and nobody else. A handler that does not answer ends
  the call with a timeout (1008, \<^verbatim>\<open>ERPCTIMEDOUT\<close>), and the other services are down (112, \<^verbatim>\<open>EHOSTDOWN\<close>).
\<close>

definition answer :: "'r \<Rightarrow> 'w \<Rightarrow> ('r reply \<times> 'w) outcome \<Rightarrow> 'r reply \<times> 'w" where
  "answer r w x = (case x of Done y \<Rightarrow> y | Abort m \<Rightarrow> (set_failed 1008 ''Reached timeout'' (new_reply r), w))"

definition down :: "'r \<Rightarrow> 'r reply" where
  "down r = set_failed 112 ''Host is down'' (new_reply r)"

definition bank_env :: "uuid_lib \<Rightarrow> ('s, 'h) store_vt \<Rightarrow> uuid \<Rightarrow> ('s, 'h) bank sad_env" where
  "bank_env L V gen = \<lparr>se_uuid_lib = L, se_generate = gen, se_init = (\<lambda>_ _. True),
     st_CreateChunk = (\<lambda>b _. answer (UUID 0 0) b (CreateChunk L V b gen)),
     st_AppendChunk = (\<lambda>b _ u buf off. case AppendChunk L V b u buf off of Done (Replied rp, b') \<Rightarrow> (rp, b')
        | _ \<Rightarrow> (set_failed 1008 ''Reached timeout'' (new_reply 0), b)),
     st_ListChunk = (\<lambda>b _ u n. (ListChunk L b u n, b)),
     st_ReadChunk = (\<lambda>b _ u off n. answer () b (ReadChunk L V b u off n)),
     st_QueryAndSealChunk = (\<lambda>b _ u. answer 0 b (QueryAndSealChunk L V b u)),
     st_RemoveChunk = (\<lambda>b _ u. answer () b (RemoveChunk L V b u)),
     st_QueryChunk = (\<lambda>b _ u. answer (0, False) b (obind (QueryChunk L b u) (\<lambda>rp. Done (rp, b)))),
     st_OpenFile = (\<lambda>b _ _ _. (down None, b)), st_RegisterDeva = (\<lambda>b _ _. (down [], b)), st_ListDeva = (\<lambda>b _. (down [], b)),
     st_RegisterManusya = (\<lambda>b _ _. (down [], b)), st_ListManusya = (\<lambda>b _. (down [], b))\<rparr>"

lemma bank_env_calls:
  "se_uuid_lib (bank_env L V gen) = L"
  "rp_failed rp = None \<Longrightarrow> st_AppendChunk (bank_env L V gen) b h u buf off = (rp, b') \<Longrightarrow> AppendChunk L V b u buf off = Done (Replied rp, b')"
  "rp_failed rp2 = None \<Longrightarrow> st_ReadChunk (bank_env L V gen) b h u off n = (rp2, b') \<Longrightarrow> ReadChunk L V b u off n = Done (rp2, b')"
  "rp_failed rp3 = None \<Longrightarrow> st_QueryChunk (bank_env L V gen) b h u = (rp3, b') \<Longrightarrow> QueryChunk L b u = Done rp3 \<and> b' = b"
  by (auto simp: bank_env_def answer_def set_failed_def outcome_simps split: outcome.splits prod.splits served.splits)

interpretation onehost: manusya_connection "bank_env L V gen" V host "\<lambda>b. b"
proof
  fix w :: "('a, 'b) bank" and u buf off n rp rp2 rp3 w'
  show "\<exists>b0 b1. server_run (se_uuid_lib (bank_env L V gen)) V w b0 \<and> server_run (se_uuid_lib (bank_env L V gen)) V b1 w' \<and>
      (AppendChunk (se_uuid_lib (bank_env L V gen)) V b0 u buf off = Done (Replied rp, b1) \<or>
       (\<exists>a i b2. AppendChunk (se_uuid_lib (bank_env L V gen)) V b0 u buf off = Done (Suspended a i, b2) \<and>
          server_run (se_uuid_lib (bank_env L V gen)) V b2 b1 \<and> AppendChunk_resume b1 a i = Done (Some rp)))"
    if "st_AppendChunk (bank_env L V gen) w host u buf off = (rp, w')" "rp_failed rp = None"
    using bank_env_calls(2) [OF that(2,1)] server_run.srun_refl unfolding bank_env_calls(1) by blast
  show "\<exists>b0 b1. server_run (se_uuid_lib (bank_env L V gen)) V w b0 \<and>
      ReadChunk (se_uuid_lib (bank_env L V gen)) V b0 u off n = Done (rp2, b1) \<and> server_run (se_uuid_lib (bank_env L V gen)) V b1 w'"
    if "st_ReadChunk (bank_env L V gen) w host u off n = (rp2, w')" "rp_failed rp2 = None"
    using bank_env_calls(3) [OF that(2,1)] server_run.srun_refl unfolding bank_env_calls(1) by blast
  show "\<exists>b0. server_run (se_uuid_lib (bank_env L V gen)) V w b0 \<and> QueryChunk (se_uuid_lib (bank_env L V gen)) b0 u = Done rp3 \<and>
      server_run (se_uuid_lib (bank_env L V gen)) V b0 w'"
    if "st_QueryChunk (bank_env L V gen) w host u = (rp3, w')" "rp_failed rp3 = None"
    using bank_env_calls(4) [OF that(2,1)] server_run.srun_refl unfolding bank_env_calls(1) by blast
qed

definition ex_sad :: "(mem_store, mem_handle) bank sad_env" where
  "ex_sad = bank_env hex_lib ex_V ex_u"

definition ex_append_args :: args where
  "ex_append_args = (default_args manusya_host)\<lparr>ag_chunk_id := u_str hex_lib ex_u, ag_data := [CHR 0x01, CHR 0x02]\<rparr>"

definition ex_read_args :: args where
  "ex_read_args = (default_args manusya_host)\<lparr>ag_chunk_id := u_str hex_lib ex_u, ag_length := 2\<rparr>"

lemma ex_sad_connected: "manusya_connection ex_sad ex_V manusya_host (\<lambda>b. b)"
  unfolding ex_sad_def by (rule onehost.manusya_connection_axioms)

lemma ex_sad_simps:
  "se_uuid_lib ex_sad = hex_lib" "ag_host ex_append_args = manusya_host" "ag_host ex_read_args = manusya_host"
  "ag_chunk_id ex_append_args = u_str hex_lib ex_u" "ag_chunk_id ex_read_args = u_str hex_lib ex_u" "ag_offset ex_append_args = 0"
  "ag_offset ex_read_args = 0" "ag_length ex_read_args = 2" "ag_data ex_append_args = [CHR 0x01, CHR 0x02]"
  "ag_output ex_read_args = ''-''" "str_bytes [CHR 0x01, CHR 0x02] = [1, 2]" "se_init ex_sad w h"
  by (simp_all add: ex_sad_def bank_env_calls(1) ex_append_args_def ex_read_args_def default_args_def str_bytes_def bank_env_def)

lemma ex_store_bank [simp]: "b_store (ex_bank bs) = ex_store bs"
  by (simp add: ex_bank_def)

lemma ex_sad_append:
  "sad_main ex_sad (Some (command_line ''manusya'' ''append-chunk'' ex_append_args)) (ex_bank []) =
     (0, [PrintReply 0 [] \<lparr>hd_status = 0, hd_message = []\<rparr> (BOffset 2)], ex_bank [1, 2])"
  using ex_append hexlib.parse_str hexlib.valid_str
  by (simp add: sad_main_def execute_command manusya_commands_def format_command_def format_loop_map append_chunk_def with_channel_def
      print_reply_def Let_def from_str_or_die_def ex_sad_simps new_reply_def)
    (simp add: ex_sad_def bank_env_def new_reply_def)

lemma ex_sad_read:
  "\<exists>out. sad_main ex_sad (Some (command_line ''manusya'' ''read-chunk'' ex_read_args)) (ex_bank [1, 2]) =
     (0, PrintReply 0 [] \<lparr>hd_status = 0, hd_message = []\<rparr> BNone # out, ex_bank [1, 2])"
proof -
  have "server_inv hex_lib (ex_bank [])"
    using server_run_ok [OF ex_server server_inv_new [OF mem_inv_empty] ex_run_create] by blast
  from read_acknowledged [OF ex_server this ex_append _ _ server_run.srun_refl]
  have "ReadChunk hex_lib ex_V (ex_bank [1, 2]) ex_u 0 2 = Done ((new_reply ())\<lparr>rp_attachment := [1, 2]\<rparr>, ex_bank [1, 2])"
    by (simp add: reply_ok_def new_reply_def ex_store_bank)
  then show ?thesis
    using hexlib.parse_str hexlib.valid_str
    by (simp add: sad_main_def execute_command manusya_commands_def format_command_def format_loop_map read_chunk_def with_channel_def
        print_reply_def Let_def from_str_or_die_def ex_sad_simps new_reply_def)
      (simp add: ex_sad_def bank_env_def new_reply_def answer_def)
qed

section \<open>Properties\<close>

text \<open>
  The command line \<^verbatim>\<open>sad <server> <command>\<close> runs exactly the function that is registered for the
  command, whose name has dashes where the function has underscores; on every other command line the process ends
  with exit code 1 and nothing is sent.
\<close>

theorem sad_dispatch:
  "execute E (command_line server name a) =
     (if server = ''manusya'' then
        map_option (\<lambda>f. f a) (map_of [(''create-chunk'', create_chunk E), (''append-chunk'', append_chunk E),
          (''list-chunk'', list_chunk E), (''read-chunk'', read_chunk E), (''seal-chunk'', seal_chunk E),
          (''remove-chunk'', remove_chunk E), (''query-chunk'', query_chunk E)] name)
      else if server = ''deva'' then map_option (\<lambda>f. f a) (map_of [(''open'', open_file E)] name)
      else if server = ''asura'' then
        map_option (\<lambda>f. f a) (map_of [(''register-deva'', register_deva E), (''list-deva'', list_deva E),
          (''register-manusya'', register_manusya E), (''list-manusya'', list_manusya E)] name)
      else None)"
proof -
  have "execute E (command_line server name a) = None" if "server \<notin> {''manusya'', ''deva'', ''asura''}"
    using that by (simp add: execute_def command_line_def sub_parser_def)
  then show ?thesis
    by (auto simp: execute_command manusya_commands_def deva_commands_def asura_commands_def format_command_def format_loop_map)
qed

text \<open>
  C10: over the memory store, what \<^verbatim>\<open>sad manusya append-chunk\<close> reported as appended, \<^verbatim>\<open>sad manusya read-chunk\<close> prints. If an append of less than 4 GiB to a
  registered chunk, at an offset that is not beyond its end, printed a response with status 0, then a later read of the same range to the standard output
  whose exit code is 0 prints exactly the data of the append, whatever other clients did before and between the two commands, as long as the
  chunk was not removed and is shorter than \<open>2 ^ 64\<close> bytes.
\<close>

theorem sad_append_then_read:
  assumes "uuid_library (se_uuid_lib E)" "iobuf_library I" "manusya_connection E (mem_vt I) host srv"
    and "server_run (se_uuid_lib E) (mem_vt I) (new_bank mem_empty) (srv w)"
    and "om_find (u_lt (se_uuid_lib E)) (b_chunks (srv w)) u \<noteq> None"
    and "mem_files (b_store (srv w)) (u_str (se_uuid_lib E) u) = Some bs" "unat (ag_offset x) \<le> length bs"
    and "sad_main E (Some (command_line ''manusya'' ''append-chunk'' x)) w = (0, [PrintReply 0 [] h body], w1)" "hd_status h = 0"
    and "server_run (se_uuid_lib E) (mem_vt I) (srv w1) (srv w2)"
    and "sad_main E (Some (command_line ''manusya'' ''read-chunk'' y)) w2 = (0, PrintReply 0 [] h' body' # out, w3)"
    and "ag_host x = host" "ag_host y = host" "ag_chunk_id x = u_str (se_uuid_lib E) u" "ag_chunk_id y = u_str (se_uuid_lib E) u"
    and "ag_offset y = ag_offset x" "ag_length y = word_of_nat (length (ag_data x))" "length (ag_data x) < 2 ^ 32" "ag_output y = ''-''"
    and "om_find (u_lt (se_uuid_lib E)) (b_chunks (srv w3)) u \<noteq> None"
    and "mem_files (b_store (srv w3)) (u_str (se_uuid_lib E) u) = Some bsn" "length bsn < 2 ^ 64"
  shows "out = [PrintData (str_bytes (ag_data x))]"
proof -
  let ?L = "se_uuid_lib E" and ?run = "server_run (se_uuid_lib E) (mem_vt I)" and ?buf = "str_bytes (ag_data x)"
  have u: "from_str_or_die ?L (ag_chunk_id x) = u" "from_str_or_die ?L (ag_chunk_id y) = u"
    using uuid_library.parse_str [OF assms(1)] assms(14,15) by (simp_all add: from_str_or_die_def)
  obtain rp b0 b1 where ap: "rp_failed rp = None" "rp_header rp = h" "?run (srv w) b0" "?run b1 (srv w1)"
    "AppendChunk ?L (mem_vt I) b0 u ?buf (ag_offset x) = Done (Replied rp, b1) \<or>
     (\<exists>a i b2. AppendChunk ?L (mem_vt I) b0 u ?buf (ag_offset x) = Done (Suspended a i, b2) \<and>
        ?run b2 b1 \<and> AppendChunk_resume b1 a i = Done (Some rp))"
    using manusya_connection.append_command [OF assms(3,8,12) u(1)] by blast
  obtain rp' r0 r1 where rd: "out = [PrintData (rp_attachment rp')]" "?run (srv w2) r0" "?run r1 (srv w3)"
    "ReadChunk ?L (mem_vt I) r0 u (ag_offset x) (word_of_nat (length ?buf)) = Done (rp', r1)"
    using manusya_connection.read_command [OF assms(3,11,13) u(2) assms(19)] assms(16,17) by (auto simp: str_bytes_def)
  have inv: "server_inv ?L (srv w)"
    using server_run_ok [OF assms(1,2) server_inv_new [OF mem_inv_empty] assms(4)] by blast
  obtain a where a: "om_find (u_lt ?L) (b_chunks (srv w)) u = Some a" using assms(5) by blast
  have ok: "reply_ok rp" "length ?buf < 2 ^ 32" using ap(1,2) assms(9,18) by (simp_all add: reply_ok_def str_bytes_def)
  have runs: "?run b1 r0" "?run r0 (srv w3)"
    using server_run_trans [OF server_run_trans [OF ap(4) assms(10)] rd(2)] server_run_trans [OF handler_runs(2) [OF rd(4)] rd(3)] by auto
  from served_append_then_read [OF assms(1,2) inv a assms(6,7) ap(3,5) ok runs assms(20-22)] rd(1,4) show ?thesis by auto
qed

text \<open>The two commands on a server with one empty chunk: two bytes are appended and read.\<close>

theorem sad_append_then_read_witness:
  "sad_main ex_sad (Some (command_line ''manusya'' ''append-chunk'' ex_append_args)) (ex_bank []) =
     (0, [PrintReply 0 [] \<lparr>hd_status = 0, hd_message = []\<rparr> (BOffset 2)], ex_bank [1, 2]) \<and>
   sad_main ex_sad (Some (command_line ''manusya'' ''read-chunk'' ex_read_args)) (ex_bank [1, 2]) =
     (0, [PrintReply 0 [] \<lparr>hd_status = 0, hd_message = []\<rparr> BNone, PrintData [1, 2]], ex_bank [1, 2])"
proof -
  obtain w3 out where rd: "sad_main ex_sad (Some (command_line ''manusya'' ''read-chunk'' ex_read_args)) (ex_bank [1, 2]) =
      (0, PrintReply 0 [] \<lparr>hd_status = 0, hd_message = []\<rparr> BNone # out, w3)" "w3 = ex_bank [1, 2]"
    using ex_sad_read by blast
  have "out = [PrintData (str_bytes (ag_data ex_append_args))]"
    using sad_append_then_read [OF _ _ ex_sad_connected _ _ _ _ ex_sad_append _ server_run.srun_refl rd(1),
        where u = ex_u and bs = "[]" and bsn = "[1, 2]"] ex_server ex_run_create
    by (simp add: rd(2) ex_sad_simps)
  with rd ex_sad_append show ?thesis by (simp add: ex_sad_simps)
qed

text \<open>
  The exit code does not tell whether a command succeeded. For a chunk that the server does not have,
  appending, reading, removing and querying print a response with the status \<^verbatim>\<open>ENOENT\<close> and still end with exit code 0
  (reading also prints an empty attachment), while sealing prints the status and ends with exit code 1. The chunk server
  reports the first four in the header of the response, which the client does not look at, and the last one as a failed call.
\<close>

theorem sad_missing_chunk:
  assumes "uuid_library L" "om_find (u_lt L) (b_chunks b) u = None" "ag_chunk_id a = u_str L u" "ag_output a = ''-''"
    and "missing = \<lparr>hd_status = 2, hd_message = ''Chunk not found''\<rparr>"
    and "run = (\<lambda>name. sad_main (bank_env L V gen) (Some (command_line ''manusya'' name a)) b)"
  shows "run ''append-chunk'' = (0, [PrintReply 0 [] missing (BOffset 0)], b) \<and>
    run ''read-chunk'' = (0, [PrintReply 0 [] missing BNone, PrintData []], b) \<and>
    run ''remove-chunk'' = (0, [PrintReply 0 [] missing BNone], b) \<and>
    run ''query-chunk'' = (0, [PrintReply 0 [] missing (BQuery 0 False)], b) \<and>
    run ''seal-chunk'' = (1, [PrintStatus ENOENT ''Chunk not found''], b)"
proof -
  note handlers = AppendChunk_def ReadChunk_def RemoveChunk_def QueryChunk_def QueryAndSealChunk_def registered_query
    bank_remove_chunk_def assms(2) set_header_def set_failed_def new_reply_def
  note commands = append_chunk_def read_chunk_def remove_chunk_def query_chunk_def seal_chunk_def with_channel_def print_reply_def
    from_str_or_die_def uuid_library.parse_str [OF assms(1)] uuid_library.valid_str [OF assms(1)] assms(3,4)
  note dispatch = assms(5,6) sad_main_def execute_command manusya_commands_def format_command_def format_loop_map
  show ?thesis
    by (intro conjI) (simp_all add: dispatch commands bank_env_def answer_def handlers Let_def errno_defs)
qed

theorem sad_missing_chunk_witness:
  "sad_main ex_sad (Some (command_line ''manusya'' ''query-chunk'' ex_read_args)) (new_bank mem_empty) =
     (0, [PrintReply 0 [] \<lparr>hd_status = 2, hd_message = ''Chunk not found''\<rparr> (BQuery 0 False)], new_bank mem_empty)"
  using sad_missing_chunk [OF hexlib.uuid_library_axioms _ ex_sad_simps(5,10) refl refl, of "new_bank mem_empty" ex_V ex_u]
  by (simp add: new_bank_def ex_sad_def)

end
