(* ===== verification/Processes.thy ===== *)
theory Processes
  imports Servers Sad
begin

text \<open>
  What the processes do around their work: the logger and its sink, the tracer, the server, and what runs at the end
  (\<^verbatim>\<open>main.cc\<close> of \<^verbatim>\<open>src/manusya\<close>, \<^verbatim>\<open>src/deva\<close>, \<^verbatim>\<open>src/asura\<close> and \<^verbatim>\<open>src/sad\<close>). A process is the list of its actions with its exit code. Returning from
  \<^verbatim>\<open>main\<close> runs the scope guards of its local variables, last one first, and then the destructors of static variables; \<^verbatim>\<open>std::exit\<close>
  runs only the latter. The theories \<open>Servers\<close> and \<open>Sad\<close> have the states the processes work on.
\<close>

section \<open>Actions and guards\<close>

datatype proc_ev =
    MakeLogger string string string | SetLogSink | FlushLog
  | InitTracer string | CleanupTracer | SpanStart string | SpanEnd string
  | LogError string | PlogError string | LogWarn string | PrintUsage | PrintStatusLine
  | LoadBank | OpenStore string | CloseStore | AddService | AddRaft string | Listen string int | Serve
  | RsmStart | NodeShutdown | NodeJoin | ServerStop | ServerJoin | RunCommand | DeleteBank | DeleteRsm

record proc =
  pr_trace :: "proc_ev list"
  pr_guards :: "proc_ev list list"
  pr_statics :: "proc_ev list list"

definition proc_new :: proc where
  "proc_new = \<lparr>pr_trace = [], pr_guards = [], pr_statics = []\<rparr>"

definition acts :: "proc_ev list \<Rightarrow> proc \<Rightarrow> proc" where
  "acts es p = p\<lparr>pr_trace := pr_trace p @ es\<rparr>"

definition guard :: "proc_ev list \<Rightarrow> proc \<Rightarrow> proc" where
  "guard es p = p\<lparr>pr_guards := es # pr_guards p\<rparr>"

definition static_guard :: "proc_ev list \<Rightarrow> proc \<Rightarrow> proc" where
  "static_guard es p = p\<lparr>pr_statics := es # pr_statics p\<rparr>"

text \<open>The end of the block of the last guard.\<close>

definition end_block :: "proc \<Rightarrow> proc" where
  "end_block p = p\<lparr>pr_trace := pr_trace p @ concat (take 1 (pr_guards p)), pr_guards := drop 1 (pr_guards p)\<rparr>"

definition return_from_main :: "int \<Rightarrow> proc \<Rightarrow> int \<times> proc_ev list" where
  "return_from_main code p = (code, pr_trace p @ concat (pr_guards p) @ concat (pr_statics p))"

definition std_exit :: "int \<Rightarrow> proc \<Rightarrow> int \<times> proc_ev list" where
  "std_exit code p = (code, pr_trace p @ concat (pr_statics p))"

lemmas proc_defs = proc_new_def acts_def guard_def static_guard_def end_block_def return_from_main_def std_exit_def

text \<open>The beginning of every \<^verbatim>\<open>main\<close>: the static guard that \<^verbatim>\<open>make_logger\<close> returns, and the log sink of brpc.\<close>

definition start_logging :: "string \<Rightarrow> string \<Rightarrow> string \<Rightarrow> proc \<Rightarrow> proc" where
  "start_logging file name level p = acts [SetLogSink] (static_guard [FlushLog] (acts [MakeLogger file name level] p))"

definition start_tracer :: "string \<Rightarrow> proc_ev list \<Rightarrow> proc \<Rightarrow> proc" where
  "start_tracer name at_exit p = guard at_exit (acts [InitTracer name] p)"

section \<open>The servers\<close>

text \<open>The bank and the state machine are static variables made after the logger, so they are deleted before the log is flushed.\<close>

record flags =
  fl_listen :: string
  fl_idle_timeout_s :: int
  fl_log_level :: string
  fl_data_path :: string

definition run_manusya :: "flags \<Rightarrow> boot \<Rightarrow> status \<Rightarrow> int \<times> proc_ev list" where
  "run_manusya F B loaded =
     (let p = acts [LoadBank] (static_guard [DeleteBank] (start_logging ''manusya.log'' ''manusya'' (fl_log_level F) proc_new)) in
      if \<not> st_ok loaded then return_from_main (-1) (acts [LogError ''Failed to load bank''] p)
      else let p1 = acts [AddService] (start_tracer ''manusya'' [CleanupTracer] p) in
        if \<not> bt_add_service B then return_from_main (-1) (acts [LogError ''Fail to add service''] p1)
        else let p2 = acts [Listen (fl_listen F) (fl_idle_timeout_s F)] p1 in
          if \<not> bt_start B then return_from_main (-1) (acts [LogError ''Fail to start EchoServer''] p2)
          else return_from_main 0 (acts [Serve] p2))"

text \<open>\<^verbatim>\<open>Rsm::shutdown\<close> and \<^verbatim>\<open>Rsm::join\<close> do nothing without a node.\<close>

definition rsm_shutdown :: "rsm \<Rightarrow> proc_ev list" where
  "rsm_shutdown r = (if r_started r then [NodeShutdown] else [])"

definition rsm_join :: "rsm \<Rightarrow> proc_ev list" where
  "rsm_join r = (if r_started r then [NodeJoin] else [])"

definition run_deva :: "uuid_lib \<Rightarrow> flags \<Rightarrow> boot \<Rightarrow> (int \<times> proc_ev list) outcome" where
  "run_deva L F B =
     (let p = acts [AddService] (start_tracer ''deva'' [CleanupTracer] (start_logging ''deva.log'' ''deva'' (fl_log_level F) proc_new)) in
      if \<not> bt_add_service B then Done (return_from_main (-1) (acts [LogError ''Fail to add service''] p))
      else let p1 = acts [AddRaft (fl_listen F)] p in
        if \<not> bt_add_raft B then Done (return_from_main (-1) (acts [LogError ''Fail to add raft service''] p1))
        else let p2 = acts [Listen (fl_listen F) (fl_idle_timeout_s F)] p1 in
          if \<not> bt_start B then Done (return_from_main (-1) (acts [LogError ''Fail to start EchoServer''] p2))
          else obind (default_rsm L (bt_addr_ok B) (bt_conf_ok B) (fl_data_path F)) (\<lambda>(r, _).
            case rsm_start (bt_node_init B) r of (_, r1) \<Rightarrow>
              Done (return_from_main 0 (acts ([RsmStart, Serve] @ rsm_shutdown r1 @ [ServerStop] @ rsm_join r1 @ [ServerJoin])
                (static_guard [DeleteRsm] p2)))))"

text \<open>
  The destructor of the store of the topology server, which \<^verbatim>\<open>main\<close> and the service point to, runs after the guard of the tracer, because the store
  was declared before it; it closes a store that is still open, and logs an error with \<^verbatim>\<open>PLOG_ERROR\<close>. \<open>closed\<close> is the result of
  \<^verbatim>\<open>store->close()\<close> in \<^verbatim>\<open>main\<close>, which is ignored, and \<open>closed2\<close> that of the one in the destructor.
\<close>

definition store_destroy :: "bool \<Rightarrow> status \<Rightarrow> proc_ev list" where
  "store_destroy still_open closed2 =
     (if \<not> still_open then [] else CloseStore # (if \<not> st_ok closed2 then [PlogError ''close rocksdb failed''] else []))"

definition run_asura :: "flags \<Rightarrow> boot \<Rightarrow> status \<Rightarrow> status \<Rightarrow> status \<Rightarrow> int \<times> proc_ev list" where
  "run_asura F B opened closed closed2 =
     (let p = acts [OpenStore (fl_data_path F @ ''/topology'')] (start_logging ''asura.log'' ''asura'' (fl_log_level F) proc_new) in
      if \<not> st_ok opened then return_from_main (-1) (acts [LogError ''Fail to open RocksdbStore''] p)
      else let p1 = (\<lambda>still_open. acts [AddService] (start_tracer ''asura'' [CleanupTracer] (guard (store_destroy still_open closed2) p))) in
        if \<not> bt_add_service B then return_from_main (-1) (acts [LogError ''Fail to add service''] (p1 True))
        else let p2 = (\<lambda>still_open. acts [Listen (fl_listen F) (fl_idle_timeout_s F)] (p1 still_open)) in
          if \<not> bt_start B then return_from_main (-1) (acts [LogError ''Fail to start EchoServer''] (p2 True))
          else return_from_main 0 (acts [Serve, ServerStop, ServerJoin, CloseStore] (p2 (\<not> st_ok closed))))"

section \<open>The command line client\<close>

text \<open>
  \<^verbatim>\<open>init\<close> ends the process when the command line does not parse; \<^verbatim>\<open>execute\<close> does so, from within \<^verbatim>\<open>main\<close>, when no server or no command was named. The
  spans inside that of \<^verbatim>\<open>main\<close> are those of the server, of the command in the loop of the server, and of the function of the command, whose name is
  that of the command with underscores.
\<close>

definition func_name :: "string \<Rightarrow> string" where
  "func_name n = map (\<lambda>c. if c = CHR ''-'' then CHR ''_'' else c) n"

definition sad_spans :: "parser \<Rightarrow> string list" where
  "sad_spans q = (case pa_sub q of None \<Rightarrow> [] | Some (server, q1) \<Rightarrow>
     server # (case pa_sub q1 of None \<Rightarrow> [] | Some (name, _) \<Rightarrow> [name, func_name name]))"

text \<open>The span that is open when \<^verbatim>\<open>execute\<close> ends the process: that of the server, if one was named.\<close>

definition exit_spans :: "parser \<Rightarrow> string list" where
  "exit_spans q = take 1 (filter (\<lambda>sv. sub_parser q sv \<noteq> None) [''manusya'', ''deva'', ''asura''])"

definition run_sad :: "'w sad_env \<Rightarrow> string \<Rightarrow> parser option \<Rightarrow> 'w \<Rightarrow> int \<times> proc_ev list" where
  "run_sad E level cmdline w =
     (case cmdline of
        None \<Rightarrow> std_exit 1 (acts [PrintUsage] proc_new)
      | Some q \<Rightarrow>
          let p = acts [LogWarn ''sad start''] (start_logging ''sad.log'' ''sad'' level proc_new);
              p1 = start_tracer ''sad'' [LogWarn ''sad exit'', CleanupTracer] p;
              p2 = guard [SpanEnd ''sad''] (acts [SpanStart ''sad''] p1)
          in (case execute E q of
                None \<Rightarrow> std_exit 1 (acts (map SpanStart (exit_spans q) @ [PrintUsage]) p2)
              | Some run \<Rightarrow>
                  let p3 = acts (map SpanStart (sad_spans q) @ [RunCommand] @ map SpanEnd (rev (sad_spans q))) p2
                  in if \<not> st_ok (fst (run w)) then return_from_main 1 (acts [PlogError ''sad exit'', PrintStatusLine] p3)
                     else return_from_main 0 (end_block p3)))"

section \<open>How a process ends\<close>

text \<open>
  The order of the end: the log is flushed as the last action of a process that made a logger; the tracer is cleaned up after it was set up, and not
  otherwise; every span that was started was ended.
\<close>

definition tracer_evs :: "proc_ev list \<Rightarrow> proc_ev list" where
  "tracer_evs es = filter (\<lambda>e. case e of InitTracer n \<Rightarrow> True | CleanupTracer \<Rightarrow> True | _ \<Rightarrow> False) es"

definition tracer_balanced :: "proc_ev list \<Rightarrow> bool" where
  "tracer_balanced es = (case tracer_evs es of [] \<Rightarrow> True | [InitTracer n, CleanupTracer] \<Rightarrow> True | _ \<Rightarrow> False)"

definition open_spans :: "proc_ev list \<Rightarrow> string list" where
  "open_spans es = fold (\<lambda>e spans. case e of SpanStart n \<Rightarrow> n # spans | SpanEnd n \<Rightarrow> remove1 n spans | _ \<Rightarrow> spans) es []"

definition before :: "proc_ev \<Rightarrow> proc_ev \<Rightarrow> proc_ev list \<Rightarrow> bool" where
  "before a b es = (b \<in> set es \<longrightarrow> a \<in> set (takeWhile (\<lambda>e. e \<noteq> b) es))"

definition well_ended :: "proc_ev list \<Rightarrow> bool" where
  "well_ended es \<longleftrightarrow> es \<noteq> [] \<and> last es = FlushLog \<and> tracer_balanced es \<and> open_spans es = []"

lemmas end_defs = well_ended_def tracer_balanced_def tracer_evs_def open_spans_def before_def

lemma fold_spans:
  "fold (\<lambda>e spans. case e of SpanStart n \<Rightarrow> n # spans | SpanEnd n \<Rightarrow> remove1 n spans | _ \<Rightarrow> spans) (map SpanStart ns) xs = rev ns @ xs"
  "fold (\<lambda>e spans. case e of SpanStart n \<Rightarrow> n # spans | SpanEnd n \<Rightarrow> remove1 n spans | _ \<Rightarrow> spans) (map SpanEnd ns) (ns @ xs) = xs"
  by (induction ns arbitrary: xs) auto

lemma tracer_spans: "filter (\<lambda>e. case e of InitTracer n \<Rightarrow> True | CleanupTracer \<Rightarrow> True | _ \<Rightarrow> False) (map SpanStart ns @ xs @ map SpanEnd ms) =
    filter (\<lambda>e. case e of InitTracer n \<Rightarrow> True | CleanupTracer \<Rightarrow> True | _ \<Rightarrow> False) xs"
  by (induction ns; induction ms) auto

lemma run_manusya_ends:
  "well_ended (snd (run_manusya F B st)) \<and> (fst (run_manusya F B st) = 0 \<longleftrightarrow> Serve \<in> set (snd (run_manusya F B st)))"
  by (cases "st_ok st"; cases "bt_add_service B"; cases "bt_start B")
    (simp_all add: run_manusya_def start_logging_def start_tracer_def proc_defs end_defs Let_def)

lemma run_asura_ends:
  "well_ended (snd (run_asura F B st c1 c2)) \<and> (fst (run_asura F B st c1 c2) = 0 \<longleftrightarrow> Serve \<in> set (snd (run_asura F B st c1 c2))) \<and>
   (CloseStore \<in> set (snd (run_asura F B st c1 c2)) \<longleftrightarrow> st_ok st)"
  by (cases "st_ok st"; cases "bt_add_service B"; cases "bt_start B"; cases "st_ok c1"; cases "st_ok c2")
    (simp_all add: run_asura_def store_destroy_def start_logging_def start_tracer_def proc_defs end_defs Let_def)

text \<open>
  A topology server that cannot start closes its store after the clean-up of the tracer, and when that fails the destructor logs with a trace id whose
  context storage is gone.
\<close>

lemma asura_logs_after_cleanup:
  assumes "st_ok st" "\<not> bt_start B" "\<not> st_ok c2"
  shows "before CleanupTracer (PlogError ''close rocksdb failed'') (snd (run_asura F B st c1 c2)) \<and>
    PlogError ''close rocksdb failed'' \<in> set (snd (run_asura F B st c1 c2))"
  using assms by (cases "bt_add_service B")
    (simp_all add: run_asura_def store_destroy_def start_logging_def start_tracer_def proc_defs end_defs Let_def)

lemma run_deva_ends:
  assumes "run_deva L F B = Done x"
  shows "well_ended (snd x) \<and> (fst x = 0 \<longleftrightarrow> Serve \<in> set (snd x)) \<and>
    (bt_node_init B \<longrightarrow> before NodeShutdown ServerStop (snd x) \<and> before NodeJoin ServerJoin (snd x)) \<and> before ServerStop ServerJoin (snd x)"
proof -
  have nodes: "rsm_shutdown (snd (rsm_start (bt_node_init B) r)) = (if r_started r \<or> bt_node_init B then [NodeShutdown] else [])"
    "rsm_join (snd (rsm_start (bt_node_init B) r)) = (if r_started r \<or> bt_node_init B then [NodeJoin] else [])" for r
    by (simp_all add: rsm_shutdown_def rsm_join_def rsm_start_def)
  show ?thesis
  proof (cases "bt_add_service B \<and> bt_add_raft B \<and> bt_start B")
    case True
    then obtain r d where r: "default_rsm L (bt_addr_ok B) (bt_conf_ok B) (fl_data_path F) = Done (r, d)"
      using assms by (cases "default_rsm L (bt_addr_ok B) (bt_conf_ok B) (fl_data_path F)") (auto simp: run_deva_def Let_def)
    obtain rc r1 where r1: "rsm_start (bt_node_init B) r = (rc, r1)" by fastforce
    show ?thesis
      using assms True nodes [of r] r r1
      by (cases "r_started r \<or> bt_node_init B")
        (auto simp: run_deva_def start_logging_def start_tracer_def proc_defs end_defs Let_def)
  next
    case False
    then show ?thesis
      using assms by (cases "bt_add_service B"; cases "bt_add_raft B"; cases "bt_start B")
        (auto simp: run_deva_def start_logging_def start_tracer_def proc_defs end_defs Let_def)
  qed
qed

text \<open>The exit codes are those of the theory \<open>Servers\<close>.\<close>

lemma run_manusya_exit:
  assumes "bank_load L V b = Done (st, b1)" "manusya_main L V B b = Done (Exited c)"
  shows "fst (run_manusya F B st) = c"
  using assms by (auto simp: manusya_main_def run_manusya_def proc_defs Let_def split: if_splits)

lemma run_deva_exit:
  assumes "deva_main L B (fl_data_path F) = Done (Exited c)"
  shows "\<exists>es. run_deva L F B = Done (c, es)"
  using assms by (cases "default_rsm L (bt_addr_ok B) (bt_conf_ok B) (fl_data_path F)")
    (auto simp: deva_main_def run_deva_def proc_defs Let_def split: if_splits prod.splits)

section \<open>Properties\<close>

text \<open>
  Every server process that returns from \<^verbatim>\<open>main\<close> ends in order: the exit code is 0 only after it has served requests, the tracer is cleaned up if and only if it was
  set up, and the log is flushed after everything else; the topology server closes its store if and only if it opened it, and the metadata server shuts down
  a raft node that was started before it stops the server, and waits for both. (A metadata server whose address or configuration is wrong aborts.)
\<close>

theorem servers_end_in_order:
  assumes "run_deva L F B = Done d" "x \<in> {run_manusya F B st, run_asura F B st c1 c2, d}"
  shows "well_ended (snd x) \<and> (fst x = 0 \<longleftrightarrow> Serve \<in> set (snd x)) \<and> (CloseStore \<in> set (snd (run_asura F B st c1 c2)) \<longleftrightarrow> st_ok st) \<and>
    (bt_node_init B \<longrightarrow> before NodeShutdown ServerStop (snd d) \<and> before NodeJoin ServerJoin (snd d)) \<and> before ServerStop ServerJoin (snd d)"
  using assms(2) run_manusya_ends [of F B st] run_asura_ends [of F B st c1 c2] run_deva_ends [OF assms(1)] by auto

definition ex_flags :: flags where
  "ex_flags = \<lparr>fl_listen = ''127.0.0.1:8001'', fl_idle_timeout_s = -1, fl_log_level = ''debug'', fl_data_path = ''./data''\<rparr>"

text \<open>A port that is in use: the metadata server ends with an error, and its tracer and log are in order.\<close>

definition ex_port_in_use :: boot where
  "ex_port_in_use = \<lparr>bt_add_service = True, bt_add_raft = True, bt_start = False, bt_addr_ok = True, bt_conf_ok = True, bt_node_init = True\<rparr>"

definition ex_deva_trace :: "proc_ev list" where
  "ex_deva_trace = [MakeLogger ''deva.log'' ''deva'' ''debug'', SetLogSink, InitTracer ''deva'', AddService, AddRaft ''127.0.0.1:8001'',
     Listen ''127.0.0.1:8001'' (-1), LogError ''Fail to start EchoServer'', CleanupTracer, FlushLog]"

lemma ex_deva_process: "run_deva hex_lib ex_flags ex_port_in_use = Done (-1, ex_deva_trace)"
  by (simp add: run_deva_def ex_flags_def ex_port_in_use_def start_logging_def start_tracer_def proc_defs ex_deva_trace_def Let_def)

theorem servers_end_in_order_witness: "well_ended ex_deva_trace"
  using servers_end_in_order [OF ex_deva_process, of "(-1, ex_deva_trace)" status_OK status_OK status_OK] by simp

text \<open>
  C39: the command line client ends in order exactly when a server and a command were named: then it ends all its spans, cleans its tracer up and flushes its log, whether or not the
  command succeeded, and its exit code is 0 exactly for a command that succeeded. When the command line parses but names no command, \<^verbatim>\<open>std::exit\<close> in \<^verbatim>\<open>execute\<close>
  bypasses the guards of \<^verbatim>\<open>main\<close>: the log is flushed, but the tracer is never cleaned up, and the span of the process, and that of the server if one was named, never end.
\<close>

theorem sad_ends_in_order:
  "(case execute E q of
      Some run \<Rightarrow> well_ended (snd (run_sad E level (Some q) w)) \<and> fst (run_sad E level (Some q) w) = (if st_ok (fst (run w)) then 0 else 1)
    | None \<Rightarrow> fst (run_sad E level (Some q) w) = 1 \<and> last (snd (run_sad E level (Some q) w)) = FlushLog \<and>
        \<not> tracer_balanced (snd (run_sad E level (Some q) w)) \<and> open_spans (snd (run_sad E level (Some q) w)) = exit_spans q @ [''sad''])"
proof (cases "execute E q")
  case None
  have "filter (\<lambda>e. case e of InitTracer n \<Rightarrow> True | CleanupTracer \<Rightarrow> True | _ \<Rightarrow> False) (map SpanStart ns) = []" for ns
    by (induction ns) auto
  moreover have "rev (exit_spans q) = exit_spans q" by (simp add: exit_spans_def)
  ultimately show ?thesis
    using None by (simp add: run_sad_def start_logging_def start_tracer_def proc_defs end_defs Let_def fold_spans(1))
next
  case (Some run)
  have spans: "fold (\<lambda>e spans. case e of SpanStart n \<Rightarrow> n # spans | SpanEnd n \<Rightarrow> remove1 n spans | _ \<Rightarrow> spans) (map SpanEnd (rev ns)) (rev ns @ [''sad'']) = [''sad'']" for ns
    by (rule fold_spans(2))
  show ?thesis
    using Some spans [of "sad_spans q"] tracer_spans [of "sad_spans q" "[RunCommand]" "rev (sad_spans q)"]
    by (simp add: run_sad_def start_logging_def start_tracer_def proc_defs end_defs Let_def fold_spans(1))
qed

end
