(* ===== verification/Sad_Print.thy ===== *)
theory Sad_Print
  imports Sad "HOL-Library.AList"
begin

text \<open>
  What the command line client prints (\<^verbatim>\<open>src/sad/common.cc\<close>): the response as JSON, merged into an object with a header, in which
  \<^verbatim>\<open>create-chunk\<close> and \<^verbatim>\<open>list-chunk\<close> replace identifiers by their strings; and the arguments its commands declare and read. The JSON class and the
  conversion of messages belong to external libraries: they are the argument \<open>J\<close> with the laws \<open>json_library\<close>, which an
  instance is shown to satisfy. An exception in the patch function is caught and keeps what was changed before it.
\<close>

section \<open>JSON values and messages\<close>

datatype json = JNull | JBool bool | JNum int | JStr string | JArr "json list" | JObj "(string \<times> json) list"

text \<open>
  A message: its scalar and repeated fields, and those of its message fields that are set. The messages of the sources are in
  the syntax \<^verbatim>\<open>proto3\<close>, where a scalar field with the default value counts as not set.
\<close>

datatype pb = PNum int | PBool bool | PStr string | PEnum nat string | PRep "pb list" | PMsg "(string \<times> pb) list"

fun pb_unset :: "pb \<Rightarrow> bool" where
  "pb_unset (PNum n) = (n = 0)"
| "pb_unset (PBool b) = (\<not> b)"
| "pb_unset (PStr s) = (s = [])"
| "pb_unset (PEnum n s) = (n = 0)"
| "pb_unset (PRep vs) = (vs = [])"
| "pb_unset (PMsg fs) = False"

record json_lib =
  jl_pb :: "pb \<Rightarrow> json"
  jl_merge :: "json \<Rightarrow> json \<Rightarrow> json"
  jl_index :: "json \<Rightarrow> string \<Rightarrow> (json \<times> json) option"
  jl_u64 :: "json \<Rightarrow> u64 option"
  jl_items :: "json \<Rightarrow> json list"

text \<open>The member of an object.\<close>

definition member :: "json \<Rightarrow> string \<Rightarrow> json option" where
  "member j k = (case j of JObj kvs \<Rightarrow> map_of kvs k | _ \<Rightarrow> None)"

text \<open>
  The laws. The conversion with its default options leaves out fields that are not set; \<^verbatim>\<open>merge_patch\<close> is the one of RFC 7396; the index operator
  inserts a null value for a key that is missing, and turns null into an object; a number in range converts to an integer, and null does
  not; iterating over null does nothing.
\<close>

locale json_library =
  fixes J :: json_lib
  assumes pb_num: "jl_pb J (PNum n) = JNum n"
    and pb_str: "jl_pb J (PStr s) = JStr s"
    and pb_bool: "jl_pb J (PBool b) = JBool b"
    and pb_enum: "jl_pb J (PEnum i s) = JStr s"
    and pb_rep: "jl_pb J (PRep vs) = JArr (map (jl_pb J) vs)"
    and pb_msg: "distinct (map fst fs) \<Longrightarrow> \<exists>kvs. jl_pb J (PMsg fs) = JObj kvs \<and> distinct (map fst kvs) \<and>
      (\<forall>k. map_of kvs k = (case map_of fs k of None \<Rightarrow> None | Some v \<Rightarrow> if pb_unset v then None else Some (jl_pb J v)))"
    and pb_obj: "\<exists>kvs. jl_pb J (PMsg fs) = JObj kvs"
    and merge_obj: "distinct (map fst p) \<Longrightarrow> \<exists>kvs. jl_merge J (JObj t) (JObj p) = JObj kvs \<and>
      (\<forall>k. map_of kvs k = (case map_of p k of None \<Rightarrow> map_of t k | Some JNull \<Rightarrow> None
         | Some v \<Rightarrow> Some (jl_merge J (case map_of t k of None \<Rightarrow> JNull | Some x \<Rightarrow> x) v)))"
    and merge_null: "jl_merge J JNull (JObj p) = jl_merge J (JObj []) (JObj p)"
    and merge_other: "(\<And>p. v \<noteq> JObj p) \<Longrightarrow> jl_merge J j v = v"
    and index_found: "map_of kvs k = Some v \<Longrightarrow> jl_index J (JObj kvs) k = Some (v, JObj kvs)"
    and index_missing: "map_of kvs k = None \<Longrightarrow> jl_index J (JObj kvs) k = Some (JNull, JObj (kvs @ [(k, JNull)]))"
    and index_null: "jl_index J JNull k = Some (JNull, JObj [(k, JNull)])"
    and u64_num: "0 \<le> n \<Longrightarrow> n < 2 ^ 64 \<Longrightarrow> jl_u64 J (JNum n) = Some (word_of_int n)"
    and u64_null: "jl_u64 J JNull = None"
    and items_arr: "jl_items J (JArr xs) = xs"
    and items_null: "jl_items J JNull = []"
begin

lemma pb_not_null: "jl_pb J v \<noteq> JNull"
  using pb_obj by (cases v) (auto simp: pb_num pb_str pb_bool pb_enum pb_rep, metis json.distinct(9))

end

section \<open>Responses as messages\<close>

definition header_pb :: "header \<Rightarrow> pb" where
  "header_pb h = PMsg [(''status'', PNum (uint (hd_status h))), (''message'', PStr (hd_message h))]"

definition uuid_pb :: "uuid \<Rightarrow> pb" where
  "uuid_pb u = PMsg [(''low'', PNum (uint (uuid_low u))), (''high'', PNum (uint (uuid_high u)))]"

definition result_pb :: "register_result \<Rightarrow> pb" where
  "result_pb r = PMsg [(''id'', uuid_pb (rr_id r)), (''code'', PNum (rr_code r)), (''message'', PStr (rr_message r))]"

definition deva_pb :: "deva_server \<Rightarrow> pb" where
  "deva_pb d = PMsg [(''id'', uuid_pb (dv_id d)), (''ip'', PStr (dv_ip d)), (''port'', PNum (uint (dv_port d)))]"

definition manusya_pb :: "manusya_server \<Rightarrow> pb" where
  "manusya_pb m = PMsg [(''id'', uuid_pb (mn_id m)), (''ip'', PStr (mn_ip m)), (''port'', PNum (uint (mn_port m))),
     (''pool_id'', uuid_pb (mn_pool_id m))]"

definition file_type_pb :: "proto_file_type \<Rightarrow> pb" where
  "file_type_pb t = (case t of FILE_TYPE_NONE \<Rightarrow> PEnum 0 ''FILE_TYPE_NONE'' | FILE_TYPE_FILE \<Rightarrow> PEnum 1 ''FILE_TYPE_FILE''
     | FILE_TYPE_DIRECTORY \<Rightarrow> PEnum 2 ''FILE_TYPE_DIRECTORY'')"

definition file_info_pb :: "file_info \<Rightarrow> pb" where
  "file_info_pb f = PMsg [(''file_id'', uuid_pb (fi_id f)), (''type'', file_type_pb (fi_type f)), (''size'', PNum (uint (fi_size f))),
     (''atime'', PNum (uint (fi_atime f))), (''mtime'', PNum (uint (fi_mtime f))), (''ctime'', PNum (uint (fi_ctime f))),
     (''mode'', PNum (uint (fi_mode f))), (''uid'', PNum (uint (fi_uid f))), (''gid'', PNum (uint (fi_gid f))),
     (''xattrs'', PRep []), (''chunk_infos'', PRep [])]"

fun body_pb :: "sad_body \<Rightarrow> (string \<times> pb) list" where
  "body_pb BNone = []"
| "body_pb (BChunk u) = [(''chunk_id'', uuid_pb u)]"
| "body_pb (BOffset n) = [(''offset'', PNum (uint n))]"
| "body_pb (BSize n) = [(''size'', PNum (uint n))]"
| "body_pb (BChunks us) = [(''chunk_ids'', PRep (map uuid_pb us))]"
| "body_pb (BQuery n sealed) = [(''size'', PNum (uint n)), (''sealed'', PBool sealed)]"
| "body_pb (BResults rs) = [(''results'', PRep (map result_pb rs))]"
| "body_pb (BDevas ds) = [(''deva_servers'', PRep (map deva_pb ds))]"
| "body_pb (BManusyas ms) = [(''manusya_servers'', PRep (map manusya_pb ms))]"
| "body_pb (BFile fi) = (case fi of None \<Rightarrow> [] | Some f \<Rightarrow> [(''file_info'', file_info_pb f)])"

definition response_pb :: "header \<Rightarrow> sad_body \<Rightarrow> pb" where
  "response_pb h body = PMsg ((''header'', header_pb h) # body_pb body)"

section \<open>Printing\<close>

text \<open>A patch function: the changed value, and whether it returned (an exception otherwise).\<close>

type_synonym patch = "json \<Rightarrow> json \<times> bool"

text \<open>Assignment through the reference to a member.\<close>

definition assign :: "json \<Rightarrow> string \<Rightarrow> json \<Rightarrow> json" where
  "assign j k v = (case j of JObj kvs \<Rightarrow> JObj (AList.update k v kvs) | _ \<Rightarrow> j)"

text \<open>\<^verbatim>\<open>uint64_t x = j[k]\<close>: the value, and what the index operator made of \<open>j\<close>.\<close>

definition index_u64 :: "json_lib \<Rightarrow> json \<Rightarrow> string \<Rightarrow> u64 option \<times> json" where
  "index_u64 J j k = (case jl_index J j k of None \<Rightarrow> (None, j) | Some (v, j1) \<Rightarrow> (jl_u64 J v, j1))"

text \<open>The identifier with the halves \<open>low\<close> and \<open>high\<close> of a value, replaced by its string.\<close>

definition uuid_to_str :: "json_lib \<Rightarrow> uuid_lib \<Rightarrow> patch" where
  "uuid_to_str J L j =
     (case index_u64 J j ''low'' of
        (None, j1) \<Rightarrow> (j1, False)
      | (Some low, j1) \<Rightarrow>
          (case index_u64 J j1 ''high'' of
             (None, j2) \<Rightarrow> (j2, False)
           | (Some high, j2) \<Rightarrow> (JStr (u_str L (UUID high low)), True)))"

text \<open>The patch function of \<^verbatim>\<open>create-chunk\<close>: each half is read through \<^verbatim>\<open>out["chunk_id"]\<close>, which is assigned in the end.\<close>

definition create_patch :: "json_lib \<Rightarrow> uuid_lib \<Rightarrow> patch" where
  "create_patch J L out =
     (case jl_index J out ''chunk_id'' of
        None \<Rightarrow> (out, False)
      | Some (c, out1) \<Rightarrow> (case uuid_to_str J L c of (c1, ok) \<Rightarrow> (assign out1 ''chunk_id'' c1, ok)))"

text \<open>The patch function of \<^verbatim>\<open>list-chunk\<close>: the loop over the elements stops at an exception.\<close>

fun patch_items :: "patch \<Rightarrow> json list \<Rightarrow> json list \<times> bool" where
  "patch_items f [] = ([], True)"
| "patch_items f (x # xs) =
     (case f x of (y, False) \<Rightarrow> (y # xs, False) | (y, True) \<Rightarrow> (case patch_items f xs of (ys, ok) \<Rightarrow> (y # ys, ok)))"

definition list_patch :: "json_lib \<Rightarrow> uuid_lib \<Rightarrow> patch" where
  "list_patch J L out =
     (case jl_index J out ''chunk_ids'' of
        None \<Rightarrow> (out, False)
      | Some (c, out1) \<Rightarrow>
          (case patch_items (uuid_to_str J L) (jl_items J c) of (ys, ok) \<Rightarrow>
             (case c of JArr xs \<Rightarrow> (assign out1 ''chunk_ids'' (JArr ys), ok) | _ \<Rightarrow> (out1, ok))))"

definition header_json :: "int \<Rightarrow> string \<Rightarrow> string \<Rightarrow> string option \<Rightarrow> json" where
  "header_json code text trace_id remote_side =
     JObj ([(''status'', JNum code), (''message'', JStr text), (''trace_id'', JStr trace_id)] @
       (case remote_side of None \<Rightarrow> [] | Some r \<Rightarrow> [(''remote_side'', JStr r)]))"

definition pb_to_json :: "json_lib \<Rightarrow> pb \<Rightarrow> json" where
  "pb_to_json J message = jl_pb J message"

definition print_status :: "string \<Rightarrow> int \<Rightarrow> string \<Rightarrow> json" where
  "print_status trace_id code text = JObj [(''header'', header_json code text trace_id None)]"

definition print_cntl :: "json_lib \<Rightarrow> string \<Rightarrow> string \<Rightarrow> int \<Rightarrow> string \<Rightarrow> pb option \<Rightarrow> patch option \<Rightarrow> json" where
  "print_cntl J trace_id remote_side code text message f =
     (let out = JObj [(''header'', header_json code text trace_id (Some remote_side))];
          out1 = (case message of None \<Rightarrow> out | Some m \<Rightarrow> jl_merge J out (pb_to_json J m))
      in case f of None \<Rightarrow> out1 | Some g \<Rightarrow> fst (g out1))"

text \<open>What the entries of the output list look like on the terminal.\<close>

datatype printed = PJson json | PBytes iobuf | PNothing

definition sad_print :: "json_lib \<Rightarrow> uuid_lib \<Rightarrow> string \<Rightarrow> string \<Rightarrow> sad_out \<Rightarrow> printed" where
  "sad_print J L trace_id remote_side out =
     (case out of
        PrintStatus code text \<Rightarrow> PJson (print_status trace_id code text)
      | PrintReply code text h body \<Rightarrow>
          PJson (print_cntl J trace_id remote_side code text (Some (response_pb h body))
            (case body of BChunk u \<Rightarrow> Some (create_patch J L) | BChunks us \<Rightarrow> Some (list_patch J L) | _ \<Rightarrow> None))
      | PrintData bs \<Rightarrow> PBytes bs
      | WriteFile name bs \<Rightarrow> PNothing)"

section \<open>Lemmas on what is printed\<close>

lemma member_simps [simp]: "member (JObj kvs) k = map_of kvs k" "member (assign (JObj kvs) k v) k' = (if k' = k then Some v else map_of kvs k')"
  by (auto simp: member_def assign_def update_conv')

lemma uint_zero: "uint x = 0 \<longleftrightarrow> x = 0"
  by (simp add: word_uint_eq_iff)

lemma map_of_single: "map_of [(a, b)] k = (if k = a then Some b else None)"
  by simp

context json_library
begin

text \<open>A message merged into an object: its fields that are set replace or extend the members.\<close>

definition old_value :: "(string \<times> json) list \<Rightarrow> string \<Rightarrow> json" where
  "old_value t k = (case map_of t k of None \<Rightarrow> JNull | Some x \<Rightarrow> x)"

lemma merge_msg:
  assumes "distinct (map fst fs)"
  shows "\<exists>kvs. jl_merge J (JObj t) (jl_pb J (PMsg fs)) = JObj kvs \<and>
    (\<forall>k. map_of kvs k = (case map_of fs k of None \<Rightarrow> map_of t k
       | Some v \<Rightarrow> if pb_unset v then map_of t k else Some (jl_merge J (old_value t k) (jl_pb J v))))"
proof -
  obtain p where p: "jl_pb J (PMsg fs) = JObj p" "distinct (map fst p)"
    "\<And>k. map_of p k = (case map_of fs k of None \<Rightarrow> None | Some v \<Rightarrow> if pb_unset v then None else Some (jl_pb J v))"
    using pb_msg [OF assms] by metis
  obtain kvs where m: "jl_merge J (JObj t) (JObj p) = JObj kvs"
    "\<And>k. map_of kvs k = (case map_of p k of None \<Rightarrow> map_of t k | Some JNull \<Rightarrow> None | Some v \<Rightarrow> Some (jl_merge J (old_value t k) v))"
    using merge_obj [OF p(2)] unfolding old_value_def by metis
  have val: "(case Some (jl_pb J v) of None \<Rightarrow> a | Some JNull \<Rightarrow> None | Some x \<Rightarrow> Some (jl_merge J y x)) = Some (jl_merge J y (jl_pb J v))" for a y v
    using pb_not_null [of v] by (cases "jl_pb J v") auto
  show ?thesis using m(1) val by (auto simp: p(1) m(2) p(3) split: option.split)
qed

lemma merge_leaf: "v \<noteq> PMsg fs \<Longrightarrow> (\<And>fs. v \<noteq> PMsg fs) \<Longrightarrow> jl_merge J j (jl_pb J v) = jl_pb J v"
  by (rule merge_other, cases v) (auto simp: pb_num pb_str pb_bool pb_enum pb_rep)

text \<open>An identifier in a list, and one that was merged.\<close>

definition halves :: "uuid \<Rightarrow> (string \<times> json) list \<Rightarrow> bool" where
  "halves u kvs \<longleftrightarrow> map_of kvs ''low'' = (if uuid_low u = 0 then None else Some (JNum (uint (uuid_low u)))) \<and>
     map_of kvs ''high'' = (if uuid_high u = 0 then None else Some (JNum (uint (uuid_high u))))"

lemma uuid_json:
  "\<exists>kvs. jl_pb J (uuid_pb u) = JObj kvs \<and> halves u kvs"
  "\<exists>kvs. jl_merge J JNull (jl_pb J (uuid_pb u)) = JObj kvs \<and> halves u kvs"
proof -
  show "\<exists>kvs. jl_pb J (uuid_pb u) = JObj kvs \<and> halves u kvs"
    using pb_msg [of "[(''low'', PNum (uint (uuid_low u))), (''high'', PNum (uint (uuid_high u)))]"]
    by (auto simp: uuid_pb_def halves_def pb_num uint_zero)
  obtain p where "jl_pb J (uuid_pb u) = JObj p" using pb_obj unfolding uuid_pb_def by metis
  then have "jl_merge J JNull (jl_pb J (uuid_pb u)) = jl_merge J (JObj []) (jl_pb J (uuid_pb u))" by (simp add: merge_null)
  then show "\<exists>kvs. jl_merge J JNull (jl_pb J (uuid_pb u)) = JObj kvs \<and> halves u kvs"
    using merge_msg [of "[(''low'', PNum (uint (uuid_low u))), (''high'', PNum (uint (uuid_high u)))]" "[]"]
    by (auto simp: uuid_pb_def halves_def pb_num merge_other uint_zero)
qed

lemma index_member: "map_of kvs k = Some (JNum (uint x)) \<Longrightarrow> index_u64 J (JObj kvs) k = (Some x, JObj kvs)" for x :: u64
  using unsigned_greater_eq [of x, where 'a = int] unsigned_less [of x, where 'a = int] by (simp add: index_u64_def index_found u64_num)

lemma index_absent: "map_of kvs k = None \<Longrightarrow> index_u64 J (JObj kvs) k = (None, JObj (kvs @ [(k, JNull)]))"
  by (simp add: index_u64_def index_missing u64_null)

lemma uuid_to_str_halves:
  assumes "halves u kvs"
  shows "uuid_low u \<noteq> 0 \<Longrightarrow> uuid_high u \<noteq> 0 \<Longrightarrow> uuid_to_str J L (JObj kvs) = (JStr (u_str L u), True)"
    and "uuid_low u = 0 \<Longrightarrow> uuid_to_str J L (JObj kvs) = (JObj (kvs @ [(''low'', JNull)]), False)"
    and "uuid_low u \<noteq> 0 \<Longrightarrow> uuid_high u = 0 \<Longrightarrow> uuid_to_str J L (JObj kvs) = (JObj (kvs @ [(''high'', JNull)]), False)"
  using assms by (cases u; simp add: uuid_to_str_def halves_def index_member index_absent)+

text \<open>The value before the patch function.\<close>

lemma body_distinct: "distinct (map fst (body_pb body)) \<and> ''header'' \<notin> fst ` set (body_pb body)"
  by (cases body) (auto split: option.split)

lemma merged:
  assumes "map_of (body_pb body) ''header'' = None"
  shows "\<exists>kvs. jl_merge J (JObj [(''header'', H)]) (jl_pb J (response_pb h body)) = JObj kvs \<and>
    map_of kvs ''header'' = Some (jl_merge J H (jl_pb J (header_pb h))) \<and>
    (\<forall>k. k \<noteq> ''header'' \<longrightarrow> map_of kvs k =
       (case map_of (body_pb body) k of None \<Rightarrow> None | Some v \<Rightarrow> if pb_unset v then None else Some (jl_merge J JNull (jl_pb J v))))"
  using merge_msg [of "(''header'', header_pb h) # body_pb body" "[(''header'', H)]"] assms body_distinct [of body]
  by (auto simp: response_pb_def header_pb_def old_value_def map_of_single split: option.split)

lemma body_no_header: "map_of (body_pb body) ''header'' = None"
  by (cases body) (auto split: option.split)

lemma create_patched:
  assumes "out = jl_merge J (JObj [(''header'', H)]) (jl_pb J (response_pb h (BChunk u)))"
  shows "\<exists>kvs c. out = JObj kvs \<and> halves u c \<and> map_of kvs ''chunk_id'' = Some (JObj c) \<and>
    fst (create_patch J L out) = assign (JObj kvs) ''chunk_id'' (fst (uuid_to_str J L (JObj c)))"
proof -
  obtain kvs where k: "out = JObj kvs" "map_of kvs ''chunk_id'' = Some (jl_merge J JNull (jl_pb J (uuid_pb u)))"
    using merged [OF body_no_header, of H h "BChunk u"] assms by (auto simp: uuid_pb_def)
  obtain c where c: "jl_merge J JNull (jl_pb J (uuid_pb u)) = JObj c" "halves u c" using uuid_json(2) by blast
  show ?thesis using k c by (auto simp: create_patch_def index_found split: prod.split)
qed

lemma patch_uuids:
  assumes "\<forall>u \<in> set us. uuid_low u \<noteq> 0 \<and> uuid_high u \<noteq> 0"
  shows "patch_items (uuid_to_str J L) (map (jl_pb J \<circ> uuid_pb) us) = (map (JStr \<circ> u_str L) us, True)"
  using assms
proof (induction us)
  case (Cons u us)
  obtain kvs where "jl_pb J (uuid_pb u) = JObj kvs" "halves u kvs" using uuid_json(1) by blast
  with Cons uuid_to_str_halves(1) show ?case by simp
qed simp

lemma list_patched:
  assumes "out = jl_merge J (JObj [(''header'', H)]) (jl_pb J (response_pb h (BChunks us)))"
  shows "us = [] \<Longrightarrow> member (fst (list_patch J L out)) ''chunk_ids'' = Some JNull"
    and "us \<noteq> [] \<Longrightarrow> \<forall>u \<in> set us. uuid_low u \<noteq> 0 \<and> uuid_high u \<noteq> 0 \<Longrightarrow>
      member (fst (list_patch J L out)) ''chunk_ids'' = Some (JArr (map (JStr \<circ> u_str L) us))"
proof -
  obtain kvs where k: "out = JObj kvs" "map_of kvs ''chunk_ids'' = (if us = [] then None else Some (JArr (map (jl_pb J \<circ> uuid_pb) us)))"
    using merged [OF body_no_header, of H h "BChunks us"] assms by (auto simp: pb_rep merge_other)
  show "us = [] \<Longrightarrow> member (fst (list_patch J L out)) ''chunk_ids'' = Some JNull"
    using k by (simp add: list_patch_def index_missing items_null map_add_def)
  show "us \<noteq> [] \<Longrightarrow> \<forall>u \<in> set us. uuid_low u \<noteq> 0 \<and> uuid_high u \<noteq> 0 \<Longrightarrow>
      member (fst (list_patch J L out)) ''chunk_ids'' = Some (JArr (map (JStr \<circ> u_str L) us))"
    using k by (simp add: list_patch_def index_found items_arr patch_uuids)
qed

lemma header_kept:
  "member (fst (create_patch J L (JObj kvs))) ''header'' = map_of kvs ''header''"
  "member (fst (list_patch J L (JObj kvs))) ''header'' = map_of kvs ''header''"
proof -
  show "member (fst (create_patch J L (JObj kvs))) ''header'' = map_of kvs ''header''"
    by (cases "map_of kvs ''chunk_id''") (simp_all add: create_patch_def index_found index_missing map_add_def split: prod.split option.split)
  show "member (fst (list_patch J L (JObj kvs))) ''header'' = map_of kvs ''header''"
    by (cases "map_of kvs ''chunk_ids''")
      (simp_all add: list_patch_def index_found index_missing map_add_def split: prod.split json.split option.split)
qed

end

section \<open>An instance of the libraries\<close>

lemma pb_size_member: "(k, v) \<in> set fs \<Longrightarrow> size v < size (PMsg fs)"
  by (induction fs) auto

lemma json_size_member: "(k, v) \<in> set p \<Longrightarrow> size v < size (JObj p)"
  by (induction p) auto

function std_pb :: "pb \<Rightarrow> json" where
  "std_pb (PNum n) = JNum n"
| "std_pb (PBool b) = JBool b"
| "std_pb (PStr s) = JStr s"
| "std_pb (PEnum i s) = JStr s"
| "std_pb (PRep vs) = JArr (map std_pb vs)"
| "std_pb (PMsg fs) = JObj (map (\<lambda>(k, v). (k, std_pb v)) (filter (\<lambda>(k, v). \<not> pb_unset v) fs))"
  by pat_completeness auto

termination
  by (relation "measure size") (auto dest: pb_size_member simp: less_Suc_eq_le size_list_estimation')

definition obj_members :: "json \<Rightarrow> (string \<times> json) list" where
  "obj_members t = (case t of JObj x \<Rightarrow> x | _ \<Rightarrow> [])"

definition lookup_or_null :: "(string \<times> json) list \<Rightarrow> string \<Rightarrow> json" where
  "lookup_or_null t k = (case map_of t k of None \<Rightarrow> JNull | Some x \<Rightarrow> x)"

function std_merge :: "json \<Rightarrow> json \<Rightarrow> json" where
  "std_merge t (JObj p) =
     JObj (map (\<lambda>(k, v). (k, std_merge (lookup_or_null (obj_members t) k) v)) (filter (\<lambda>(k, v). v \<noteq> JNull) p) @
           filter (\<lambda>(k, x). k \<notin> set (map fst p)) (obj_members t))"
| "std_merge t JNull = JNull"
| "std_merge t (JBool b) = JBool b"
| "std_merge t (JNum n) = JNum n"
| "std_merge t (JStr s) = JStr s"
| "std_merge t (JArr xs) = JArr xs"
  by pat_completeness auto

termination
  by (relation "measure (\<lambda>(t, p). size p)") (auto dest: json_size_member)

definition std_index :: "json \<Rightarrow> string \<Rightarrow> (json \<times> json) option" where
  "std_index j k =
     (case j of
        JNull \<Rightarrow> Some (JNull, JObj [(k, JNull)])
      | JObj kvs \<Rightarrow> Some (case map_of kvs k of Some v \<Rightarrow> (v, j) | None \<Rightarrow> (JNull, JObj (kvs @ [(k, JNull)])))
      | _ \<Rightarrow> None)"

definition std_json :: json_lib where
  "std_json = \<lparr>jl_pb = std_pb, jl_merge = std_merge, jl_index = std_index,
     jl_u64 = (\<lambda>j. case j of JNum n \<Rightarrow> Some (word_of_int n) | _ \<Rightarrow> None),
     jl_items = (\<lambda>j. case j of JArr xs \<Rightarrow> xs | JObj kvs \<Rightarrow> map snd kvs | _ \<Rightarrow> [])\<rparr>"

lemma map_of_filter_distinct:
  "distinct (map fst fs) \<Longrightarrow> map_of (filter (\<lambda>(k, v). P v) fs) k = (case map_of fs k of None \<Rightarrow> None | Some v \<Rightarrow> if P v then Some v else None)"
  by (induction fs) (auto split: option.splits simp: map_of_eq_None_iff)

lemma distinct_filter_keys: "distinct (map fst fs) \<Longrightarrow> distinct (map fst (filter P fs))"
  by (induction fs) auto

lemma keys_map: "map fst (map (\<lambda>(k, v). (k, f k v)) fs) = map fst fs"
  by (induction fs) auto

lemma map_of_map_keys: "map_of (map (\<lambda>(k, v). (k, f k v)) fs) k = map_option (f k) (map_of fs k)"
  by (induction fs) auto

lemma map_of_other_keys: "map_of (filter (\<lambda>(k, x). k \<notin> K) t) k = (if k \<in> K then None else map_of t k)"
  by (induction t) auto

interpretation stdjson: json_library std_json
proof
  fix fs :: "(string \<times> pb) list" and p t kvs :: "(string \<times> json) list" and k :: string and v :: json
  show "\<exists>kvs. jl_pb std_json (PMsg fs) = JObj kvs \<and> distinct (map fst kvs) \<and>
      (\<forall>k. map_of kvs k = (case map_of fs k of None \<Rightarrow> None | Some v \<Rightarrow> if pb_unset v then None else Some (jl_pb std_json v)))"
    if "distinct (map fst fs)"
  proof -
    have "distinct (map fst (map (\<lambda>(k, v). (k, std_pb v)) (filter (\<lambda>(k, v). \<not> pb_unset v) fs)))"
      unfolding keys_map by (rule distinct_filter_keys [OF that])
    then show ?thesis using that by (auto simp: std_json_def map_of_map_keys map_of_filter_distinct split: option.split)
  qed
  show "\<exists>kvs. jl_merge std_json (JObj t) (JObj p) = JObj kvs \<and>
      (\<forall>k. map_of kvs k = (case map_of p k of None \<Rightarrow> map_of t k | Some JNull \<Rightarrow> None
         | Some v \<Rightarrow> Some (jl_merge std_json (case map_of t k of None \<Rightarrow> JNull | Some x \<Rightarrow> x) v)))"
    if "distinct (map fst p)"
  proof -
    have mem: "(k, x) \<in> set p \<Longrightarrow> k \<in> fst ` set p" for k x by force
    from that show ?thesis
      by (auto simp: std_json_def map_add_def map_of_map_keys map_of_filter_distinct map_of_other_keys obj_members_def lookup_or_null_def
          intro: mem dest: mem split: option.split json.split)
  qed
  show "jl_merge std_json j v = v" if "\<And>p. v \<noteq> JObj p" for j using that by (cases v) (auto simp: std_json_def)
qed (auto simp: std_json_def std_index_def obj_members_def)

section \<open>Declared arguments\<close>

text \<open>
  The arguments the parsers declare, with the type of their values (that of \<^verbatim>\<open>scan\<close> or of the default value; text otherwise), whether they are
  required, and whether they have a default value; and the arguments the commands read. \<^verbatim>\<open>get<T>\<close> throws when the argument is not declared, has another type, or
  has no value.
\<close>

datatype arg_type = TText | TU64 | TU32 | TBool

record arg_decl =
  ad_names :: "string list"
  ad_type :: arg_type
  ad_required :: bool
  ad_default :: bool

definition text_arg :: "string list \<Rightarrow> arg_decl" where
  "text_arg names = \<lparr>ad_names = names, ad_type = TText, ad_required = True, ad_default = False\<rparr>"

definition default_arg :: "string list \<Rightarrow> arg_type \<Rightarrow> arg_decl" where
  "default_arg names t = \<lparr>ad_names = names, ad_type = t, ad_required = False, ad_default = True\<rparr>"

definition program_decls :: "arg_decl list" where
  "program_decls = [\<lparr>ad_names = [''--log-level''], ad_type = TText, ad_required = True, ad_default = True\<rparr>]"

text \<open>The argument that a command gets from the parser of its server.\<close>

definition host_decl :: arg_decl where
  "host_decl = default_arg [''--host''] TText"

definition create_chunk_decls :: "arg_decl list" where
  "create_chunk_decls = []"

definition append_chunk_decls :: "arg_decl list" where
  "append_chunk_decls = [text_arg [''-c'', ''--chunk-id''], default_arg [''-o'', ''--offset''] TU64, text_arg [''-d'', ''--data'']]"

definition list_chunk_decls :: "arg_decl list" where
  "list_chunk_decls = [default_arg [''--start''] TText, default_arg [''--limit''] TU32]"

definition read_chunk_decls :: "arg_decl list" where
  "read_chunk_decls = [text_arg [''-c'', ''--chunk-id''], default_arg [''--offset''] TU64, default_arg [''-l'', ''--length''] TU32,
     default_arg [''-o'', ''--output''] TText]"

definition seal_chunk_decls :: "arg_decl list" where
  "seal_chunk_decls = [text_arg [''-c'', ''--chunk-id'']]"

definition remove_chunk_decls :: "arg_decl list" where
  "remove_chunk_decls = [text_arg [''-c'', ''--chunk-id'']]"

definition query_chunk_decls :: "arg_decl list" where
  "query_chunk_decls = [text_arg [''-c'', ''--chunk-id'']]"

definition open_decls :: "arg_decl list" where
  "open_decls = [text_arg [''--path''], default_arg [''-c'', ''--create''] TBool]"

definition register_deva_decls :: "arg_decl list" where
  "register_deva_decls = [text_arg [''--ip''],
     \<lparr>ad_names = [''--port''], ad_type = TU32, ad_required = True, ad_default = False\<rparr>]"

definition list_deva_decls :: "arg_decl list" where
  "list_deva_decls = []"

definition register_manusya_decls :: "arg_decl list" where
  "register_manusya_decls = [text_arg [''--ip''],
     \<lparr>ad_names = [''--port''], ad_type = TU32, ad_required = True, ad_default = True\<rparr>, text_arg [''--pool'']]"

definition list_manusya_decls :: "arg_decl list" where
  "list_manusya_decls = []"

definition command_decls :: "(string \<times> arg_decl list) list" where
  "command_decls =
     [(''create_chunk'', create_chunk_decls),
      (''append_chunk'', append_chunk_decls),
      (''list_chunk'', list_chunk_decls),
      (''read_chunk'', read_chunk_decls),
      (''seal_chunk'', seal_chunk_decls),
      (''remove_chunk'', remove_chunk_decls),
      (''query_chunk'', query_chunk_decls),
      (''open'', open_decls),
      (''register_deva'', register_deva_decls),
      (''list_deva'', list_deva_decls),
      (''register_manusya'', register_manusya_decls),
      (''list_manusya'', list_manusya_decls)]"

lemmas decls_defs = create_chunk_decls_def append_chunk_decls_def list_chunk_decls_def read_chunk_decls_def seal_chunk_decls_def remove_chunk_decls_def query_chunk_decls_def open_decls_def register_deva_decls_def list_deva_decls_def register_manusya_decls_def list_manusya_decls_def command_decls_def host_decl_def text_arg_def default_arg_def

definition sad_reads :: "(string \<times> (string \<times> arg_type) list) list" where
  "sad_reads =
     [(''create_chunk'', [(''--host'', TText)]),
      (''append_chunk'', [(''--chunk-id'', TText), (''--host'', TText), (''--data'', TText), (''--offset'', TU64)]),
      (''list_chunk'', [(''--host'', TText), (''--start'', TText), (''--limit'', TU32)]),
      (''read_chunk'', [(''--chunk-id'', TText), (''--host'', TText), (''--offset'', TU64), (''--length'', TU32), (''--output'', TText)]),
      (''seal_chunk'', [(''--chunk-id'', TText), (''--host'', TText)]), (''remove_chunk'', [(''--chunk-id'', TText), (''--host'', TText)]),
      (''query_chunk'', [(''--chunk-id'', TText), (''--host'', TText)]),
      (''open'', [(''--host'', TText), (''--path'', TText), (''--create'', TBool)]),
      (''register_deva'', [(''--host'', TText), (''--ip'', TText), (''--port'', TU32)]), (''list_deva'', [(''--host'', TText)]),
      (''register_manusya'', [(''--host'', TText), (''--ip'', TText), (''--port'', TU32), (''--pool'', TText)]),
      (''list_manusya'', [(''--host'', TText)])]"

definition readable :: "arg_decl list \<Rightarrow> string \<times> arg_type \<Rightarrow> bool" where
  "readable ds r = (length (filter (\<lambda>d. fst r \<in> set (ad_names d)) ds) = 1 \<and>
     list_all (\<lambda>d. fst r \<in> set (ad_names d) \<longrightarrow> ad_type d = snd r \<and> (ad_required d \<or> ad_default d)) ds)"

section \<open>Properties\<close>

text \<open>
  Every command of the client reads only arguments that its parser declares, under exactly one declaration, with the type of that declaration, and
  with a value on every command line that parses; and the commands that read arguments are the commands that are registered.
\<close>

theorem sad_arguments_typed:
  "list_all (\<lambda>(name, reads). case map_of command_decls name of None \<Rightarrow> False | Some ds \<Rightarrow> list_all (readable (host_decl # ds)) reads) sad_reads \<and>
   map fst sad_reads = map fst (manusya_commands E) @ map fst (deva_commands E) @ map fst (asura_commands E)"
  by (simp add: sad_reads_def decls_defs readable_def manusya_commands_def deva_commands_def asura_commands_def)

text \<open>
  The header that is printed with a response shows the status and the message of the response (and those of the controller where the response has
  none), the trace identifier and the address of the server, for every command.
\<close>

theorem printed_header:
  assumes "json_library J"
  shows "\<exists>j hd. sad_print J L trace_id remote_side (PrintReply code text h body) = PJson j \<and> member j ''header'' = Some hd \<and>
    member hd ''status'' = Some (JNum (if hd_status h = 0 then code else uint (hd_status h))) \<and>
    member hd ''message'' = Some (JStr (if hd_message h = [] then text else hd_message h)) \<and>
    member hd ''trace_id'' = Some (JStr trace_id) \<and> member hd ''remote_side'' = Some (JStr remote_side)"
proof -
  let ?H = "header_json code text trace_id (Some remote_side)"
  obtain kvs where kvs: "jl_merge J (JObj [(''header'', ?H)]) (jl_pb J (response_pb h body)) = JObj kvs"
    "map_of kvs ''header'' = Some (jl_merge J ?H (jl_pb J (header_pb h)))"
    using json_library.merged [OF assms json_library.body_no_header [OF assms]] by blast
  obtain hd where hd: "jl_merge J ?H (jl_pb J (header_pb h)) = hd"
    "member hd ''status'' = Some (JNum (if hd_status h = 0 then code else uint (hd_status h)))"
    "member hd ''message'' = Some (JStr (if hd_message h = [] then text else hd_message h))"
    "member hd ''trace_id'' = Some (JStr trace_id)" "member hd ''remote_side'' = Some (JStr remote_side)"
    using json_library.merge_msg [OF assms, of "[(''status'', PNum (uint (hd_status h))), (''message'', PStr (hd_message h))]" "obj_members ?H"]
    by (auto simp: header_json_def header_pb_def obj_members_def uint_zero json_library.merge_other [OF assms] json_library.pb_num [OF assms]
        json_library.pb_str [OF assms])
  note kept = json_library.header_kept [OF assms, of L kvs]
  have "\<exists>j. sad_print J L trace_id remote_side (PrintReply code text h body) = PJson j \<and> member j ''header'' = map_of kvs ''header''"
    using kvs(1) kept by (cases body) (simp_all add: sad_print_def print_cntl_def pb_to_json_def)
  with kvs(2) hd show ?thesis by auto
qed

text \<open>
  C29: identifiers that the client prints can be given back to it: for a response whose identifiers have no half that is 0, \<^verbatim>\<open>create-chunk\<close> prints a valid
  string that parses to the identifier of the new chunk, and \<^verbatim>\<open>list-chunk\<close> prints a valid string for each identifier, in the order of the response.
\<close>

theorem printed_ids_usable:
  assumes "json_library J" "uuid_library L" "\<forall>x \<in> set (u # us). uuid_low x \<noteq> 0 \<and> uuid_high x \<noteq> 0" "us \<noteq> []"
  shows "\<exists>j s k ss.
    sad_print J L trace_id remote_side (PrintReply code text h (BChunk u)) = PJson j \<and> member j ''chunk_id'' = Some (JStr s) \<and>
    sad_print J L trace_id remote_side (PrintReply code text h (BChunks us)) = PJson k \<and> member k ''chunk_ids'' = Some (JArr (map JStr ss)) \<and>
    list_all uuid_valid (s # ss) \<and> from_str_or_die L s = u \<and> map (from_str_or_die L) ss = us"
proof -
  let ?H = "header_json code text trace_id (Some remote_side)"
  obtain j where j: "sad_print J L trace_id remote_side (PrintReply code text h (BChunk u)) = PJson j" "member j ''chunk_id'' = Some (JStr (u_str L u))"
    using json_library.create_patched [OF assms(1) refl, where H = ?H and h = h and u = u and L = L] json_library.uuid_to_str_halves(1) [OF assms(1)] assms(3)
    by (auto simp: sad_print_def print_cntl_def pb_to_json_def)
  obtain k where k: "sad_print J L trace_id remote_side (PrintReply code text h (BChunks us)) = PJson k"
    "member k ''chunk_ids'' = Some (JArr (map JStr (map (u_str L) us)))"
    using json_library.list_patched(2) [OF assms(1) refl assms(4), where H = ?H and h = h and L = L] assms(3)
    by (auto simp: sad_print_def print_cntl_def pb_to_json_def)
  show ?thesis
    using j k uuid_library.valid_str [OF assms(2)] uuid_library.parse_str [OF assms(2)]
    by (intro exI [of _ j] exI [of _ "u_str L u"] exI [of _ k] exI [of _ "map (u_str L) us"])
      (simp add: from_str_or_die_def list_all_iff comp_def)
qed

definition ex_header :: header where
  "ex_header = \<lparr>hd_status = 2, hd_message = ''Chunk not found''\<rparr>"

theorem printed_header_witness:
  "\<exists>j hd. sad_print std_json hex_lib ''4bf92f3577b34da6'' ''127.0.0.1:8003'' (PrintReply 0 [] ex_header BNone) = PJson j \<and>
    member j ''header'' = Some hd \<and> member hd ''status'' = Some (JNum 2) \<and> member hd ''message'' = Some (JStr ''Chunk not found'')"
  using printed_header [OF stdjson.json_library_axioms, of hex_lib "''4bf92f3577b34da6''" "''127.0.0.1:8003''" 0 "[]" ex_header BNone]
  by (auto simp: ex_header_def)

theorem printed_ids_usable_witness:
  "\<exists>j s. sad_print std_json hex_lib ''t'' ''r'' (PrintReply 0 [] ex_header (BChunk (UUID 1 2))) = PJson j \<and>
    member j ''chunk_id'' = Some (JStr s) \<and> from_str_or_die hex_lib s = UUID 1 2"
proof -
  have "\<forall>x \<in> set [UUID 1 2, UUID 3 4]. uuid_low x \<noteq> 0 \<and> uuid_high x \<noteq> 0" by simp
  from printed_ids_usable [OF stdjson.json_library_axioms hexlib.uuid_library_axioms this, of "''t''" "''r''" 0 "[]" ex_header] show ?thesis by auto
qed

text \<open>
  C38: an identifier with a half that is 0 is not printed: the conversion leaves the field out, reading it throws, the exception is caught, and the output shows
  an object with a null value in place of the string. The same holds for a creation that failed, whose response has no identifier. A list without chunks is
  printed as null.
\<close>

theorem printed_ids_lost:
  assumes "json_library J" "uuid_low u = 0 \<or> uuid_high u = 0"
  shows "\<exists>j c k.
    sad_print J L trace_id remote_side (PrintReply code text h (BChunk u)) = PJson j \<and> member j ''chunk_id'' = Some (JObj c) \<and>
    map_of c (if uuid_low u = 0 then ''low'' else ''high'') = Some JNull \<and>
    sad_print J L trace_id remote_side (PrintReply code text h (BChunks [])) = PJson k \<and> member k ''chunk_ids'' = Some JNull"
proof -
  let ?H = "header_json code text trace_id (Some remote_side)"
  obtain j kvs c where j: "sad_print J L trace_id remote_side (PrintReply code text h (BChunk u)) = PJson j" "json_library.halves u c"
    "j = assign (JObj kvs) ''chunk_id'' (fst (uuid_to_str J L (JObj c)))"
    using json_library.create_patched [OF assms(1) refl, where H = ?H and h = h and u = u and L = L]
    by (auto simp: sad_print_def print_cntl_def pb_to_json_def)
  note str = json_library.uuid_to_str_halves(2,3) [OF assms(1) j(2), of L]
  have half: "map_of c (if uuid_low u = 0 then ''low'' else ''high'') = None"
    using j(2) assms(2) by (auto simp: json_library.halves_def [OF assms(1)])
  define c1 where "c1 = c @ [(if uuid_low u = 0 then ''low'' else ''high'', JNull)]"
  have "member j ''chunk_id'' = Some (JObj c1)" using j(3) str assms(2) by (auto simp: c1_def)
  moreover have "map_of c1 (if uuid_low u = 0 then ''low'' else ''high'') = Some JNull" using half by (simp add: c1_def map_add_def)
  moreover obtain k where "sad_print J L trace_id remote_side (PrintReply code text h (BChunks [])) = PJson k" "member k ''chunk_ids'' = Some JNull"
    using json_library.list_patched(1) [OF assms(1) refl refl, where H = ?H and h = h and L = L]
    by (auto simp: sad_print_def print_cntl_def pb_to_json_def)
  ultimately show ?thesis using j(1) by blast
qed

theorem printed_ids_lost_witness:
  "\<exists>j c. sad_print std_json hex_lib ''t'' ''r'' (PrintReply 0 [] ex_header (BChunk (UUID 7 0))) = PJson j \<and>
    member j ''chunk_id'' = Some (JObj c) \<and> map_of c ''low'' = Some JNull"
  using printed_ids_lost [OF stdjson.json_library_axioms, of "UUID 7 0" hex_lib "''t''" "''r''" 0 "[]" ex_header] by auto

end
