(* ===== verification/File_System.thy ===== *)
theory File_System
  imports Rpc_Client Deva_Service Asura
begin

text \<open>
  The client library: \<^verbatim>\<open>src/pain/file_system.cc\<close>, \<^verbatim>\<open>file_stream.cc\<close>, \<^verbatim>\<open>file_stream_impl.cc\<close>,
  \<^verbatim>\<open>controller.cc\<close> and their headers. \<^verbatim>\<open>FileSystem\<close> asks the topology service for the metadata servers and
  sends every operation to the leader of the group \<^verbatim>\<open>default\<close> through \<open>call_rpc\<close>. What a server does with a
  request is an argument of the operations (\<open>openf\<close>, \<open>mkdirf\<close>, \<open>removef\<close>); the properties instantiate it with
  the handlers of \<open>Deva_Service\<close> and \<open>Asura\<close>.
\<close>

section \<open>The controller\<close>

record controller =
  ct_error_code :: u32
  ct_timeout_us :: int
  ct_direct_io :: bool
  ct_request :: iobuf
  ct_response :: iobuf

definition controller_new :: controller where
  "controller_new = \<lparr>ct_error_code = 0, ct_timeout_us = 0, ct_direct_io = True, ct_request = [], ct_response = []\<rparr>"

text \<open>\<^verbatim>\<open>SetFailed\<close> ignores its reason, and \<^verbatim>\<open>Failed\<close>, \<^verbatim>\<open>ErrorText\<close> are constants.\<close>

definition controller_SetFailed :: "string \<Rightarrow> controller \<Rightarrow> controller" where
  "controller_SetFailed reason c = c"

definition controller_Failed :: "controller \<Rightarrow> bool" where
  "controller_Failed c = False"

definition controller_ErrorText :: "controller \<Rightarrow> string" where
  "controller_ErrorText c = []"

definition controller_set_timeout_us :: "int \<Rightarrow> controller \<Rightarrow> controller" where
  "controller_set_timeout_us t c = c\<lparr>ct_timeout_us := t\<rparr>"

definition controller_set_direct_io :: "bool \<Rightarrow> controller \<Rightarrow> controller" where
  "controller_set_direct_io b c = c\<lparr>ct_direct_io := b\<rparr>"

definition controller_set_error_code :: "u32 \<Rightarrow> controller \<Rightarrow> controller" where
  "controller_set_error_code e c = c\<lparr>ct_error_code := e\<rparr>"

text \<open>These do nothing.\<close>

definition controller_Reset :: "controller \<Rightarrow> controller" where
  "controller_Reset c = c"

definition controller_StartCancel :: "controller \<Rightarrow> controller" where
  "controller_StartCancel c = c"

definition controller_IsCanceled :: "controller \<Rightarrow> bool" where
  "controller_IsCanceled c = False"

definition controller_NotifyOnCancel :: "'f \<Rightarrow> controller \<Rightarrow> controller" where
  "controller_NotifyOnCancel callback c = c"

section \<open>Streams\<close>

text \<open>\<^verbatim>\<open>FileStreamImpl\<close>; a \<^verbatim>\<open>FileStream\<close> is the pointer to it, null after \<^verbatim>\<open>close\<close>.\<close>

record file_stream =
  fst_info :: file_info
  fst_file_id :: string

definition stream_close :: "file_stream option \<Rightarrow> file_stream option" where
  "stream_close s = None"

text \<open>
  The two methods of a stream only complete the call: the response stays as the caller made it, whatever was attached. The
  body of the response of \<^verbatim>\<open>Append\<close> is its offset.
\<close>

definition stream_Append ::
  "controller \<Rightarrow> u64 reply \<Rightarrow> file_stream option \<Rightarrow> (u64 reply \<times> controller \<times> file_stream option) outcome" where
  "stream_Append c response s = (case s of None \<Rightarrow> Abort ''null FileStreamImpl'' | Some f \<Rightarrow> Done (response, c, s))"

definition stream_Read ::
  "controller \<Rightarrow> unit reply \<Rightarrow> file_stream option \<Rightarrow> (unit reply \<times> controller \<times> file_stream option) outcome" where
  "stream_Read c response s = (case s of None \<Rightarrow> Abort ''null FileStreamImpl'' | Some f \<Rightarrow> Done (response, c, s))"

section \<open>The file system\<close>

record file_system =
  fsy_cluster :: string
  fsy_deva_list :: "deva_server list"

text \<open>Whether \<^verbatim>\<open>strstr(s, pat)\<close> is not null.\<close>

fun strstr_found :: "string \<Rightarrow> string \<Rightarrow> bool" where
  "strstr_found pat [] = (pat = [])"
| "strstr_found pat (c # s) = (take (length pat) (c # s) = pat \<or> strstr_found pat s)"

text \<open>
  What \<^verbatim>\<open>create\<close> uses: the two forms of \<^verbatim>\<open>Channel::Init\<close>, the RPC to the topology service, and
  \<^verbatim>\<open>braft::rtb::update_configuration\<close>.
\<close>

record 'w asura_client =
  ac_init_balanced :: "string \<Rightarrow> bool"
  ac_init :: "string \<Rightarrow> bool"
  ac_ListDeva :: "'w \<Rightarrow> deva_server list reply \<times> 'w"
  ac_update_configuration :: "'w \<Rightarrow> string \<Rightarrow> string \<Rightarrow> 'w"

definition deva_conf :: "deva_server list \<Rightarrow> string" where
  "deva_conf ds = concat (map (\<lambda>d. dv_ip d @ '':'' @ dec_str (unat (dv_port d)) @ '','') ds)"

text \<open>\<open>fs\<close> says whether the pointer argument is not null; the second component is what it points at.\<close>

definition fs_create :: "'w asura_client \<Rightarrow> 'w \<Rightarrow> string \<Rightarrow> bool \<Rightarrow> status \<times> file_system option \<times> 'w" where
  "fs_create A w uri fs =
     (if \<not> fs then (Status EINVAL ''fs is nullptr'', None, w)
      else if \<not> (if strstr_found ''://'' uri then ac_init_balanced A uri else ac_init A uri)
        then (Status EINVAL ''connect to file system failed'', None, w)
      else case ac_ListDeva A w of (rp, w1) \<Rightarrow>
        (case rp_failed rp of
           Some (code, text) \<Rightarrow> (Status code text, None, w1)
         | None \<Rightarrow>
           if hd_status (rp_header rp) \<noteq> 0 then (Status (sint (hd_status (rp_header rp))) (hd_message (rp_header rp)), None, w1)
           else (status_OK, Some \<lparr>fsy_cluster = uri, fsy_deva_list = rp_body rp\<rparr>,
                 ac_update_configuration A w1 ''default'' (deva_conf (rp_body rp)))))"

definition deva_flags :: "u32 \<Rightarrow> u32" where
  "deva_flags flags =
     (let f0 = 0;
          f1 = (if flags AND O_CREAT \<noteq> 0 then f0 OR OPEN_CREATE else f0);
          f2 = (if flags AND O_RDONLY \<noteq> 0 then f1 OR OPEN_READ else f1)
      in if flags AND O_WRONLY \<noteq> 0 then f2 OR OPEN_APPEND else f2)"

definition empty_file_info :: file_info where
  "empty_file_info = \<lparr>fi_id = UUID 0 0, fi_type = FILE_TYPE_NONE, fi_size = 0, fi_atime = 0, fi_mtime = 0, fi_ctime = 0,
     fi_mode = 0, fi_uid = 0, fi_gid = 0\<rparr>"

text \<open>The operations; the value is \<open>None\<close> when the call never returns.\<close>

definition fs_open ::
  "('w, 'p) rtb \<Rightarrow> uuid_lib \<Rightarrow> ('w \<Rightarrow> 'p \<Rightarrow> string \<Rightarrow> u32 \<Rightarrow> file_info option reply \<times> 'w) \<Rightarrow> 'w \<Rightarrow> string \<Rightarrow> u32 \<Rightarrow>
   (status \<times> file_stream option \<times> 'w) option" where
  "fs_open R L openf w path flags =
     (case call_rpc R ''default'' (\<lambda>w p. openf w p path (deva_flags flags)) None (new_reply None) w of
        None \<Rightarrow> None
      | Some (st, rp, w') \<Rightarrow>
          if \<not> st_ok st then Some (Status (error_code st) (error_str st), None, w')
          else let file_info = (case rp_body rp of None \<Rightarrow> empty_file_info | Some i \<Rightarrow> i);
                   uuid = UUID (uuid_high (fi_id file_info)) (uuid_low (fi_id file_info))
               in Some (status_OK, Some \<lparr>fst_info = file_info, fst_file_id = u_str L uuid\<rparr>, w'))"

definition fs_remove ::
  "('w, 'p) rtb \<Rightarrow> ('w \<Rightarrow> 'p \<Rightarrow> string \<Rightarrow> unit reply \<times> 'w) \<Rightarrow> 'w \<Rightarrow> string \<Rightarrow> (status \<times> 'w) option" where
  "fs_remove R removef w path =
     (case call_rpc R ''default'' (\<lambda>w p. removef w p path) () (new_reply ()) w of
        None \<Rightarrow> None
      | Some (st, rp, w') \<Rightarrow>
          if \<not> st_ok st then Some (Status (error_code st) (error_str st), w') else Some (status_OK, w'))"

definition fs_mkdir ::
  "('w, 'p) rtb \<Rightarrow> ('w \<Rightarrow> 'p \<Rightarrow> string \<Rightarrow> file_info option reply \<times> 'w) \<Rightarrow> 'w \<Rightarrow> string \<Rightarrow> (status \<times> 'w) option" where
  "fs_mkdir R mkdirf w path =
     (case call_rpc R ''default'' (\<lambda>w p. mkdirf w p path) None (new_reply None) w of
        None \<Rightarrow> None
      | Some (st, rp, w') \<Rightarrow>
          if \<not> st_ok st then Some (Status (error_code st) (error_str st), w') else Some (status_OK, w'))"

section \<open>A cluster with one metadata server\<close>

text \<open>
  The state the witnesses run on: the route table of the client, the configurations it was given, and the
  state machine of the server that every peer stands for. A handler that does not answer ends the call with
  a timeout (1008, \<^verbatim>\<open>ERPCTIMEDOUT\<close>).
\<close>

record cluster =
  cl_routes :: "string \<Rightarrow> string option"
  cl_conf :: "string \<Rightarrow> string option"
  cl_rsm :: rsm

definition cluster_rtb :: "string \<Rightarrow> (cluster, string) rtb" where
  "cluster_rtb leader = \<lparr>rt_select = cl_routes,
     rt_refresh = (\<lambda>w g. (status_OK, w\<lparr>cl_routes := (cl_routes w)(g \<mapsto> leader)\<rparr>)),
     rt_update = (\<lambda>w g p. w\<lparr>cl_routes := (cl_routes w)(g := p)\<rparr>),
     rt_peer = (\<lambda>s. if s = [] then None else Some s), rt_show = (\<lambda>p. p), ch_init = (\<lambda>w p. True)\<rparr>"

interpretation clusterrt: route_table "cluster_rtb leader"
  by unfold_locales (simp_all add: cluster_rtb_def)

definition serve_open :: "service_env \<Rightarrow> cluster \<Rightarrow> string \<Rightarrow> string \<Rightarrow> u32 \<Rightarrow> file_info option reply \<times> cluster" where
  "serve_open E w p path flags =
     (case OpenFile E (cl_rsm w) path flags of
        Done (Some rp, r') \<Rightarrow> (rp, w\<lparr>cl_rsm := r'\<rparr>)
      | _ \<Rightarrow> (set_failed 1008 ''Reached timeout'' (new_reply None), w))"

section \<open>Lemmas\<close>

lemma deva_flags_create: "deva_flags flags AND OPEN_CREATE \<noteq> 0 \<longleftrightarrow> flags AND O_CREAT \<noteq> 0"
  by (simp add: deva_flags_def Let_def OPEN_CREATE_def OPEN_READ_def OPEN_APPEND_def bit.conj_disj_distrib2 errno_defs)

lemma fs_open_answered:
  assumes "route_table R" "rt_select R w ''default'' = Some p" "ch_init R w p" "openf w p path (deva_flags flags) = (rp, w')"
    and "rp_failed rp = None" "hd_status (rp_header rp) \<noteq> EREMCHG"
    and "info = (case rp_body rp of None \<Rightarrow> empty_file_info | Some i \<Rightarrow> i)"
  shows "fs_open R L openf w path flags = Some (status_OK, Some \<lparr>fst_info = info, fst_file_id = u_str L (fi_id info)\<rparr>, w')"
  using route_table.round_answer [of R w "''default''" p "\<lambda>w p. openf w p path (deva_flags flags)" rp w'] assms
  by (simp add: fs_open_def Let_def)

section \<open>A client that is connected to a metadata server\<close>

text \<open>
  What connects the client to a server with the state machine \<open>srv w\<close>: an RPC delivers what the handler of the
  server replies, and afterwards the server has the state the handler left.
\<close>

locale deva_connection = route_table R for R :: "('w, 'p) rtb" +
  fixes E :: service_env and srv :: "'w \<Rightarrow> rsm"
    and openf :: "'w \<Rightarrow> 'p \<Rightarrow> string \<Rightarrow> u32 \<Rightarrow> file_info option reply \<times> 'w"
  assumes served: "OpenFile E (srv w) path flags = Done (Some rp, r') \<Longrightarrow> \<exists>w'. openf w p path flags = (rp, w') \<and> srv w' = r'"
begin

lemma open_served:
  assumes "rt_select R w ''default'' = Some p" "ch_init R w p"
    and "OpenFile E (srv w) path (deva_flags flags) = Done (Some rp, r')" "rp_failed rp = None"
    and "hd_status (rp_header rp) \<noteq> EREMCHG" "info = (case rp_body rp of None \<Rightarrow> empty_file_info | Some i \<Rightarrow> i)"
  shows "\<exists>w'. fs_open R L openf w path flags =
    Some (status_OK, Some \<lparr>fst_info = info, fst_file_id = u_str L (fi_id info)\<rparr>, w') \<and> srv w' = r'"
proof -
  obtain w' where "openf w p path (deva_flags flags) = (rp, w')" "srv w' = r'" using served [OF assms(3)] by blast
  then show ?thesis
    using fs_open_answered [of R w p openf path flags rp w' info L] route_table_axioms assms by blast
qed

text \<open>The stream of a file that was just created.\<close>

lemma creates_stream:
  assumes "rt_select R w ''default'' = Some p" "ch_init R w p"
    and "uuid_library (ev_uuid_lib E)" "fresh_log (ev_uuid_lib E) (deva_new (ev_uuid_lib E)) rqs"
    and "r_container (srv w) = deva_apply (ev_uuid_lib E) (deva_new (ev_uuid_lib E)) rqs" "r_started (srv w)" "ev_raft E = Committed i"
    and "ns_fresh (ev_uuid_lib E) (d_namespace (r_container (srv w))) (ev_uuid E)"
    and "path \<noteq> []" "hd path = CHR ''/''" "last path \<noteq> CHR ''/''" "CHR 0x00 \<notin> set path"
    and "ns_view (ev_uuid_lib E) (d_namespace (r_container (srv w))) (butlast (parse_components path)) = Some (dir, KDirectory)"
    and "ns_view (ev_uuid_lib E) (d_namespace (r_container (srv w))) (parse_components path) = None"
    and "op_encode (ev_codec E) (ev_now E) (ev_pad E) (RCreateFile (build_create_request E path 438)) [] = Done b"
    and "flags AND O_CREAT \<noteq> 0"
  shows "\<exists>fs w'. fs_open R L openf w path flags = Some (status_OK, Some fs, w') \<and> fst_file_id fs = u_str L (ev_uuid E) \<and>
    fi_size (fst_info fs) = 0 \<and> fi_type (fst_info fs) = FILE_TYPE_FILE \<and>
    ns_view (ev_uuid_lib E) (d_namespace (r_container (srv w'))) =
      (ns_view (ev_uuid_lib E) (d_namespace (r_container (srv w))))(parse_components path \<mapsto> (ev_uuid E, KFile))"
proof -
  have "deva_flags flags AND OPEN_CREATE \<noteq> 0" using deva_flags_create assms(16) by blast
  from open_file_creates [OF assms(3-15) this] obtain rp info r' where
    h: "OpenFile E (srv w) path (deva_flags flags) = Done (Some rp, r')" "reply_ok rp" "rp_body rp = Some info"
    and v: "fi_id info = ev_uuid E" "fi_type info = FILE_TYPE_FILE" "fi_size info = 0"
    "ns_view (ev_uuid_lib E) (d_namespace (r_container r')) =
      (ns_view (ev_uuid_lib E) (d_namespace (r_container (srv w))))(parse_components path \<mapsto> (ev_uuid E, KFile))" by blast
  have "rp_failed rp = None" "hd_status (rp_header rp) \<noteq> EREMCHG" using h(2) by (auto simp: reply_ok_def errno_defs)
  from open_served [OF assms(1,2) h(1) this, of info L] h(3) v show ?thesis by fastforce
qed

end

interpretation clusterconn: deva_connection "cluster_rtb leader" E cl_rsm "serve_open E"
  by unfold_locales (auto simp: serve_open_def)

text \<open>The concrete client of the witnesses.\<close>

definition ex_cluster :: cluster where
  "ex_cluster = \<lparr>cl_routes = (\<lambda>_. Some ''10.0.0.1:8001''), cl_conf = (\<lambda>_. None), cl_rsm = ex_rsm\<rparr>"

lemma ex_cluster_leader:
  "rt_select (cluster_rtb p) ex_cluster g = Some ''10.0.0.1:8001''" "ch_init (cluster_rtb p) w q" "cl_rsm ex_cluster = ex_rsm"
  by (simp_all add: cluster_rtb_def ex_cluster_def)

lemma ex_senv_encode: "\<exists>b. op_encode (ev_codec (ex_senv res)) (ev_now (ex_senv res)) (ev_pad (ex_senv res)) (RCreateFile rq) [] = Done b"
  by (simp add: op_encode_def request_encode_def fixed_codec_def ex_senv_def Let_def)

section \<open>Properties\<close>

text \<open>
  C20: a client that opens a new path with \<^verbatim>\<open>O_CREAT\<close> in an existing directory, once the leader has committed
  the operation, gets a stream for an empty file with the generated UUID, and on the server the path leads
  to that file while every other path resolves as before.
\<close>

theorem fs_open_creates:
  assumes "deva_connection R E srv openf" "rt_select R w ''default'' = Some p" "ch_init R w p"
    and "uuid_library (ev_uuid_lib E)" "fresh_log (ev_uuid_lib E) (deva_new (ev_uuid_lib E)) rqs"
    and "r_container (srv w) = deva_apply (ev_uuid_lib E) (deva_new (ev_uuid_lib E)) rqs" "r_started (srv w)" "ev_raft E = Committed i"
    and "ns_fresh (ev_uuid_lib E) (d_namespace (r_container (srv w))) (ev_uuid E)"
    and "path \<noteq> []" "hd path = CHR ''/''" "last path \<noteq> CHR ''/''" "CHR 0x00 \<notin> set path"
    and "ns_view (ev_uuid_lib E) (d_namespace (r_container (srv w))) (butlast (parse_components path)) = Some (dir, KDirectory)"
    and "ns_view (ev_uuid_lib E) (d_namespace (r_container (srv w))) (parse_components path) = None"
    and "op_encode (ev_codec E) (ev_now E) (ev_pad E) (RCreateFile (build_create_request E path 438)) [] = Done b"
    and "flags AND O_CREAT \<noteq> 0"
  shows "\<exists>fs w'. fs_open R L openf w path flags = Some (status_OK, Some fs, w') \<and> fst_file_id fs = u_str L (ev_uuid E) \<and>
    fi_size (fst_info fs) = 0 \<and> fi_type (fst_info fs) = FILE_TYPE_FILE \<and>
    ns_view (ev_uuid_lib E) (d_namespace (r_container (srv w'))) =
      (ns_view (ev_uuid_lib E) (d_namespace (r_container (srv w))))(parse_components path \<mapsto> (ev_uuid E, KFile))"
  using deva_connection.creates_stream [OF assms] .

theorem fs_open_creates_witness:
  "\<exists>fs w'. fs_open (cluster_rtb ''p'') hex_lib (serve_open (ex_senv (Committed 1))) ex_cluster ''/a'' (O_CREAT OR O_WRONLY) =
      Some (status_OK, Some fs, w') \<and> fst_file_id fs = u_str hex_lib (UUID 0 1) \<and>
    ns_view hex_lib (d_namespace (r_container (cl_rsm w'))) [''a''] = Some (UUID 0 1, KFile)"
proof -
  obtain b where "op_encode (ev_codec (ex_senv (Committed 1))) (ev_now (ex_senv (Committed 1))) (ev_pad (ex_senv (Committed 1)))
      (RCreateFile (build_create_request (ex_senv (Committed 1)) ''/a'' 438)) [] = Done b" using ex_senv_encode by blast
  then show ?thesis
    using fs_open_creates [OF clusterconn.deva_connection_axioms, of "''p''" ex_cluster "''10.0.0.1:8001''" "ex_senv (Committed 1)" "[]" 1
        "''/a''" "UUID 0 0" b "O_CREAT OR O_WRONLY" hex_lib]
    by (auto simp: ex_cluster_leader ex_service hexlib.uuid_library_axioms fresh_log_def ex_fresh_new ex_parent ex_root errno_defs)
qed

text \<open>
  The client does not look at the status in the header of a response: when the server refuses to
  create a file because its parent is not a directory, \<^verbatim>\<open>FileSystem::open\<close> still answers success, with a stream
  for the nil UUID, and the server is unchanged.
\<close>

theorem fs_open_hides_error:
  assumes "deva_connection R E srv openf" "rt_select R w ''default'' = Some p" "ch_init R w p"
    and "uuid_library (ev_uuid_lib E)" "fresh_log (ev_uuid_lib E) (deva_new (ev_uuid_lib E)) rqs"
    and "r_container (srv w) = deva_apply (ev_uuid_lib E) (deva_new (ev_uuid_lib E)) rqs" "r_started (srv w)" "ev_raft E = Committed i"
    and "dir = c_str (path_parent path)"
    and "dir = [] \<or> hd dir \<noteq> CHR ''/'' \<or>
      (\<nexists>u. ns_view (ev_uuid_lib E) (d_namespace (r_container (srv w))) (parse_components dir) = Some (u, KDirectory))"
    and "op_encode (ev_codec E) (ev_now E) (ev_pad E) (RCreateFile (build_create_request E path 438)) [] = Done b"
    and "flags AND O_CREAT \<noteq> 0"
  shows "\<exists>w'. fs_open R L openf w path flags =
      Some (status_OK, Some \<lparr>fst_info = empty_file_info, fst_file_id = u_str L (UUID 0 0)\<rparr>, w') \<and> srv w' = srv w"
proof -
  have "deva_flags flags AND OPEN_CREATE \<noteq> 0" using deva_flags_create assms(12) by blast
  from open_file_refused [OF assms(4-11) this] obtain rp where
    h: "OpenFile E (srv w) path (deva_flags flags) = Done (Some rp, srv w)" "rp_failed rp = None" "rp_body rp = None"
    "hd_status (rp_header rp) = word_of_int ENOENT \<or> hd_status (rp_header rp) = word_of_int EINVAL" by blast
  have "hd_status (rp_header rp) \<noteq> EREMCHG" using h(4) by (auto simp: errno_defs)
  from deva_connection.open_served [OF assms(1-3) h(1,2) this, of empty_file_info L] h(3)
  show ?thesis by (simp add: empty_file_info_def)
qed

theorem fs_open_hides_error_witness:
  "\<exists>w'. fs_open (cluster_rtb ''p'') hex_lib (serve_open (ex_senv (Committed 1))) ex_cluster ''/x/y'' O_CREAT =
     Some (status_OK, Some \<lparr>fst_info = empty_file_info, fst_file_id = u_str hex_lib (UUID 0 0)\<rparr>, w') \<and> cl_rsm w' = cl_rsm ex_cluster"
proof -
  obtain b where b: "op_encode (ev_codec (ex_senv (Committed 1))) (ev_now (ex_senv (Committed 1))) (ev_pad (ex_senv (Committed 1)))
      (RCreateFile (build_create_request (ex_senv (Committed 1)) ''/x/y'' 438)) [] = Done b" using ex_senv_encode by blast
  have "path_parent ''/x/y'' = ''/x''" "c_str ''/x'' = ''/x''" "parse_components ''/x'' = [''x'']" by code_simp+
  moreover have "ns_view hex_lib (d_namespace (deva_new hex_lib)) [''x''] = None" by code_simp
  ultimately show ?thesis
    using fs_open_hides_error [OF clusterconn.deva_connection_axioms, of "''p''" ex_cluster "''10.0.0.1:8001''" "ex_senv (Committed 1)" "[]" 1
        "''/x''" "''/x/y''" b O_CREAT hex_lib] b
    by (auto simp: ex_cluster_leader ex_service hexlib.uuid_library_axioms fresh_log_def errno_defs)
qed

text \<open>
  C35: a client that knows a server which is no longer the leader never gets away from it: the redirect is
  recorded for the group \<^verbatim>\<open>deva\<close>, while the client selects the leader of the group \<^verbatim>\<open>default\<close>. As long as that
  server answers \<^verbatim>\<open>EREMCHG\<close>, \<^verbatim>\<open>FileSystem::open\<close> does not return, wherever it is redirected to.
\<close>

theorem fs_open_redirect_loops:
  assumes "route_table R" "rt_select R w ''default'' = Some p"
    and "\<forall>w. rt_select R w ''default'' = Some p \<longrightarrow> ch_init R w p \<and>
      (\<exists>rp w2. openf w p path (deva_flags flags) = (rp, w2) \<and> rp_failed rp = None \<and>
        hd_status (rp_header rp) = EREMCHG \<and> rt_select R w2 ''default'' = Some p)"
  shows "fs_open R L openf w path flags = None"
proof -
  let ?c = "call_rpc R ''default'' (\<lambda>w p. openf w p path (deva_flags flags)) None (new_reply None) w"
  have grp: "''default'' \<noteq> ''deva''" by simp
  have "?c \<noteq> Some x" for x
    using redirect_loops [of R "''default''" "\<lambda>w p. openf w p path (deva_flags flags)" None "new_reply None" w x p,
        OF _ assms(1) grp assms(3,2)] by blast
  then have "?c = None" by (cases ?c) auto
  then show ?thesis by (simp add: fs_open_def)
qed

theorem fs_open_redirect_loops_witness:
  "fs_open (cluster_rtb ''p'') hex_lib (\<lambda>w p path flags. (set_header 78 ''10.0.0.2:8001'' (new_reply None), w)) ex_cluster ''/a'' O_CREAT = None"
  by (rule fs_open_redirect_loops [OF clusterrt.route_table_axioms ex_cluster_leader(1)])
    (simp add: set_header_def new_reply_def errno_defs cluster_rtb_def)

end
