(* ===== verification/Discovery.thy ===== *)
theory Discovery
  imports Sad File_System
begin

text \<open>
  How a client finds the metadata servers: an operator registers them at the topology server with
  \<^verbatim>\<open>sad asura register-deva\<close>, and \<^verbatim>\<open>FileSystem::create\<close> asks the topology server for them and configures the route table.
  This joins the command line client, the topology service over its store, and the client library.
\<close>

section \<open>Clients of a topology server\<close>

text \<open>
  Both clients talk to one topology server, whose store has the state \<open>db w\<close>: a call that did not fail
  delivers what the handler replied.
\<close>

locale asura_connection =
  fixes E :: "'w sad_env" and A :: "'w asura_client" and R :: "'d rocks" and K :: "deva_server codec"
    and s :: rocksdb_store and db :: "'w \<Rightarrow> 'd" and host :: string
  assumes register_call: "st_RegisterDeva E w host svs = (rp, w') \<Longrightarrow> rp_failed rp = None \<Longrightarrow>
      RegisterDeva (se_uuid_lib E) R K s (db w) svs = (rp_body rp, db w')"
    and list_call: "ac_ListDeva A w = (rp2, w') \<Longrightarrow> rp_failed rp2 = None \<Longrightarrow>
      hd_status (rp_header rp2) = 0 \<and> rp_body rp2 = ListDeva R K s (db w) \<and> db w' = db w"
begin

lemma register_command:
  assumes "sad_main E (Some (command_line ''asura'' ''register-deva'' x)) w = (0, [PrintReply 0 [] h (BResults rs)], w')" "ag_host x = host"
  shows "RegisterDeva (se_uuid_lib E) R K s (db w) [\<lparr>dv_id = se_generate E, dv_ip = ag_ip x, dv_port = ag_port x\<rparr>] = (rs, db w')"
proof -
  obtain rp where "st_RegisterDeva E w host [\<lparr>dv_id = se_generate E, dv_ip = ag_ip x, dv_port = ag_port x\<rparr>] = (rp, w')" "rp_failed rp = None" "rp_body rp = rs"
    using assms by (auto simp: sad_main_def execute_command asura_commands_def format_command_def format_loop_map register_deva_def
        with_channel_def print_reply_def Let_def split: if_splits option.splits prod.splits)
  then show ?thesis using register_call by blast
qed

lemma create_lists:
  assumes "fs_create A w uri True = (st, Some fs, w')"
  obtains w1 where "fsy_deva_list fs = ListDeva R K s (db w)" "fsy_cluster fs = uri" "st = status_OK"
    "w' = ac_update_configuration A w1 ''default'' (deva_conf (fsy_deva_list fs))"
proof -
  obtain rp w1 where "ac_ListDeva A w = (rp, w1)" by fastforce
  with assms list_call that show ?thesis
    by (auto simp: fs_create_def split: if_splits option.splits prod.splits)
qed

end

text \<open>The clients of a topology server in the same process, over any database.\<close>

definition topology_env :: "uuid_lib \<Rightarrow> uuid \<Rightarrow> 'd rocks \<Rightarrow> deva_server codec \<Rightarrow> rocksdb_store \<Rightarrow> 'd sad_env" where
  "topology_env L gen R K s = \<lparr>se_uuid_lib = L, se_generate = gen, se_init = (\<lambda>_ _. True),
     st_CreateChunk = (\<lambda>w _. (down (UUID 0 0), w)), st_AppendChunk = (\<lambda>w _ _ _ _. (down 0, w)),
     st_ListChunk = (\<lambda>w _ _ _. (down [], w)), st_ReadChunk = (\<lambda>w _ _ _ _. (down (), w)),
     st_QueryAndSealChunk = (\<lambda>w _ _. (down 0, w)), st_RemoveChunk = (\<lambda>w _ _. (down (), w)),
     st_QueryChunk = (\<lambda>w _ _. (down (0, False), w)), st_OpenFile = (\<lambda>w _ _ _. (down None, w)),
     st_RegisterDeva = (\<lambda>w _ svs. case RegisterDeva L R K s w svs of (rs, w') \<Rightarrow> (new_reply rs, w')),
     st_ListDeva = (\<lambda>w _. (new_reply (ListDeva R K s w), w)),
     st_RegisterManusya = (\<lambda>w _ _. (down [], w)), st_ListManusya = (\<lambda>w _. (down [], w))\<rparr>"

definition topology_client :: "'d rocks \<Rightarrow> deva_server codec \<Rightarrow> rocksdb_store \<Rightarrow> 'd asura_client" where
  "topology_client R K s = \<lparr>ac_init_balanced = (\<lambda>_. True), ac_init = (\<lambda>_. True), ac_ListDeva = (\<lambda>w. (new_reply (ListDeva R K s w), w)),
     ac_update_configuration = (\<lambda>w _ _. w)\<rparr>"

interpretation topology: asura_connection "topology_env L gen R K s" "topology_client R K s" R K s "\<lambda>w. w" host
  by unfold_locales (auto simp: topology_env_def topology_client_def new_reply_def split: prod.splits)

definition ex_topology_env :: "mem_dbs sad_env" where
  "ex_topology_env = topology_env hex_lib (UUID 0 1) mem_rocks fixed_deva_codec ex_rocks"

definition ex_topology_client :: "mem_dbs asura_client" where
  "ex_topology_client = topology_client mem_rocks fixed_deva_codec ex_rocks"

definition ex_deva_args :: args where
  "ex_deva_args = (default_args asura_host)\<lparr>ag_ip := ''10.0.0.1'', ag_port := 8001\<rparr>"

section \<open>Properties\<close>

text \<open>
  C21: a metadata server that an operator registered is found. When \<^verbatim>\<open>sad asura register-deva\<close> ended with exit code 0 and printed the result code 0 for
  the server, and no other registration comes between, then \<^verbatim>\<open>FileSystem::create\<close>, if it succeeds and the iterator of the topology server did not fail,
  has in its list that server and all those that were registered before under other UUIDs, and nothing else, and it gives the route table their addresses, each as \<open>ip:port,\<close>, as the
  configuration of the group \<^verbatim>\<open>default\<close>.
\<close>

theorem registered_server_found:
  assumes "asura_connection E A R K s db host" "rocks_db R data" "uuid_library (se_uuid_lib E)" "codec_library K"
    and "data (db w) (rs_path s) = Some m" "deva_entries (se_uuid_lib E) K m"
    and "sad_main E (Some (command_line ''asura'' ''register-deva'' x)) w = (0, [PrintReply 0 [] h (BResults [r])], w1)" "rr_code r = 0" "ag_host x = host"
    and "fst (rk_seek R (db w1) (rs_path s) ASURA_DEVA) = ROk"
    and "fs_create A w1 uri True = (st, Some fs, w2)" "sv = \<lparr>dv_id = se_generate E, dv_ip = ag_ip x, dv_port = ag_port x\<rparr>"
  shows "st = status_OK \<and> set (fsy_deva_list fs) = ran ((deva_table (se_uuid_lib E) K m)(dv_id sv \<mapsto> sv)) \<and> sv \<in> set (fsy_deva_list fs) \<and>
    (\<exists>w'. w2 = ac_update_configuration A w' ''default''
       (concat (map (\<lambda>d. dv_ip d @ '':'' @ dec_str (unat (dv_port d)) @ '','') (fsy_deva_list fs))))"
proof -
  have reg: "RegisterDeva (se_uuid_lib E) R K s (db w) [sv] = ([r], db w1)"
    using asura_connection.register_command [OF assms(1,7,9)] assms(12) by blast
  from rocks_db.register_spec [OF assms(2-6) reg] obtain m' where m': "data (db w1) (rs_path s) = Some m'" "deva_entries (se_uuid_lib E) K m'"
    "deva_table (se_uuid_lib E) K m' = (deva_table (se_uuid_lib E) K m)(dv_id sv \<mapsto> sv)" using assms(8) by auto
  obtain w' where "fsy_deva_list fs = ListDeva R K s (db w1)" "st = status_OK"
    "w2 = ac_update_configuration A w' ''default'' (deva_conf (fsy_deva_list fs))"
    using asura_connection.create_lists [OF assms(1,11)] by metis
  moreover have "sv \<in> ran ((deva_table (se_uuid_lib E) K m)(dv_id sv \<mapsto> sv))" by (rule ranI [of _ "dv_id sv"]) simp
  ultimately show ?thesis
    using rocks_db.list_spec(2) [OF assms(2) m'(1,2) assms(10)] m'(3) unfolding deva_conf_def by auto
qed

theorem registered_server_found_witness:
  "\<exists>h r w1 fs w2. sad_main ex_topology_env (Some (command_line ''asura'' ''register-deva'' ex_deva_args)) ex_dbs =
       (0, [PrintReply 0 [] h (BResults [r])], w1) \<and>
     fs_create ex_topology_client w1 ''127.0.0.1:8201'' True = (status_OK, Some fs, w2) \<and>
     set (fsy_deva_list fs) = {\<lparr>dv_id = UUID 0 1, dv_ip = ''10.0.0.1'', dv_port = 8001\<rparr>}"
proof -
  let ?sv = "\<lparr>dv_id = UUID 0 1, dv_ip = ag_ip ex_deva_args, dv_port = ag_port ex_deva_args\<rparr>"
  obtain r w1 where one: "register_deva_one hex_lib mem_rocks fixed_deva_codec ex_rocks ex_dbs ?sv = (r, w1)" "rr_code r = 0"
    "fst (rk_seek mem_rocks w1 (rs_path ex_rocks) ASURA_DEVA) = ROk"
    by (simp add: register_deva_one_def Let_def hexists_def hget_def hset_def ex_dbs_def ex_rocks_def)
  obtain h where run: "sad_main ex_topology_env (Some (command_line ''asura'' ''register-deva'' ex_deva_args)) ex_dbs =
      (0, [PrintReply 0 [] h (BResults [r])], w1)"
    by (simp add: sad_main_def execute_command asura_commands_def format_command_def format_loop_map register_deva_def
        with_channel_def print_reply_def ex_topology_env_def topology_env_def new_reply_def one(1))
  obtain st fs w2 where cr: "fs_create ex_topology_client w1 ''127.0.0.1:8201'' True = (st, Some fs, w2)"
    by (simp add: fs_create_def ex_topology_client_def topology_client_def new_reply_def)
  have conn: "asura_connection ex_topology_env ex_topology_client mem_rocks fixed_deva_codec ex_rocks (\<lambda>w. w) asura_host"
    unfolding ex_topology_env_def ex_topology_client_def by (rule topology.asura_connection_axioms)
  have lib: "se_uuid_lib ex_topology_env = hex_lib" "se_generate ex_topology_env = UUID 0 1"
    by (simp_all add: ex_topology_env_def topology_env_def)
  have ulib: "uuid_library (se_uuid_lib ex_topology_env)" unfolding lib(1) by (rule hexlib.uuid_library_axioms)
  have hst: "ag_host ex_deva_args = asura_host" by (simp add: ex_deva_args_def default_args_def)
  note empty = no_deva_entries [of "\<lambda>_. None" "se_uuid_lib ex_topology_env" fixed_deva_codec, simplified]
  note found = registered_server_found [where db = "\<lambda>w. w" and data = mem_data and w = ex_dbs and m = "\<lambda>_. None"]
  from found [OF conn memdb.rocks_db_axioms ulib fixed_deva.codec_library_axioms ex_dbs_data empty(1) run one(2) hst one(3) cr refl]
  have "st = status_OK \<and> set (fsy_deva_list fs) = {?sv}" by (simp add: no_deva_entries(2) [of "\<lambda>_. None" hex_lib] lib)
  with run cr show ?thesis by (auto simp: ex_deva_args_def default_args_def)
qed

end
