(* ===== verification/Demo.thy ===== *)
theory Demo
  imports File_System
begin

text \<open>
  The demonstration of the client library, \<^verbatim>\<open>src/examples/pain_demo/demo.cc\<close>: it connects to a file system, opens a new file,
  appends \<^verbatim>\<open>hello world\<close> to it, and reports what the append answered.
\<close>

section \<open>The program\<close>

datatype demo_out = Cerr string | Cout string

definition hello_world :: iobuf where
  "hello_world = map (\<lambda>c. of_char c) ''hello world''"

text \<open>The part after the file was opened: the controller with its attachment, the append, the two ways to end.\<close>

definition demo_append :: "file_stream option \<Rightarrow> (int \<times> demo_out list) outcome" where
  "demo_append file =
     (let cntl = controller_new\<lparr>ct_request := hello_world\<rparr> in
      obind (stream_Append cntl (new_reply 0) file) (\<lambda>(response, cntl, file).
        if controller_Failed cntl then Done (1, [Cerr (''append failed: '' @ controller_ErrorText cntl)])
        else Done (0, [Cout (''append success, offset: '' @ dec_str (unat (rp_body response)))])))"

text \<open>
  The exit code, what is printed, and the state of the world afterwards; \<open>None\<close> when opening the file never returns. The
  address of the file system is the value of the flag \<^verbatim>\<open>filesystem\<close>.
\<close>

definition demo_main ::
  "'w asura_client \<Rightarrow> ('w, 'p) rtb \<Rightarrow> uuid_lib \<Rightarrow> ('w \<Rightarrow> 'p \<Rightarrow> string \<Rightarrow> u32 \<Rightarrow> file_info option reply \<times> 'w) \<Rightarrow> string \<Rightarrow> 'w \<Rightarrow>
   ((int \<times> demo_out list \<times> 'w) outcome) option" where
  "demo_main A R L openf filesystem w =
     (case fs_create A w filesystem True of (st, fs, w1) \<Rightarrow>
      if \<not> st_ok st then Some (Done (1, [Cerr (''create filesystem failed: '' @ error_str st)], w1))
      else case fs_open R L openf w1 ''/hello.txt'' (O_CREAT OR O_WRONLY) of
        None \<Rightarrow> None
      | Some (st, file, w2) \<Rightarrow>
          if \<not> st_ok st then Some (Done (1, [Cerr (''open file failed: '' @ error_str st)], w2))
          else Some (obind (demo_append file) (\<lambda>(rc, out). Done (rc, out, w2))))"

section \<open>Properties\<close>

lemma dec_str_0: "dec_str 0 = ''0''"
  by code_simp

lemma demo_append_reports: "demo_append (Some file) = Done (0, [Cout ''append success, offset: 0''])"
  by (simp add: demo_append_def stream_Append_def controller_Failed_def new_reply_def dec_str_0)

text \<open>
  C37: the demonstration reports success and loses its data. When the file system can be reached and its servers create the
  file, the process prints that the append succeeded at offset 0 and ends with exit code 0; the state of all servers is then
  the one that opening the file left, with an empty file at the path \<^verbatim>\<open>/hello.txt\<close>, and the eleven bytes were sent nowhere.
\<close>

theorem demo_loses_data:
  assumes "deva_connection R E srv openf" "fs_create A w filesystem True = (status_OK, fs, w1)"
    and "rt_select R w1 ''default'' = Some p" "ch_init R w1 p"
    and "uuid_library (ev_uuid_lib E)" "fresh_log (ev_uuid_lib E) (deva_new (ev_uuid_lib E)) rqs"
    and "r_container (srv w1) = deva_apply (ev_uuid_lib E) (deva_new (ev_uuid_lib E)) rqs" "r_started (srv w1)" "ev_raft E = Committed i"
    and "ns_fresh (ev_uuid_lib E) (d_namespace (r_container (srv w1))) (ev_uuid E)"
    and "ns_view (ev_uuid_lib E) (d_namespace (r_container (srv w1))) [] = Some (dir, KDirectory)"
    and "ns_view (ev_uuid_lib E) (d_namespace (r_container (srv w1))) [''hello.txt''] = None"
    and "op_encode (ev_codec E) (ev_now E) (ev_pad E) (RCreateFile (build_create_request E ''/hello.txt'' 438)) [] = Done b"
  shows "\<exists>file w2. fs_open R L openf w1 ''/hello.txt'' (O_CREAT OR O_WRONLY) = Some (status_OK, Some file, w2) \<and>
    fi_size (fst_info file) = 0 \<and>
    ns_view (ev_uuid_lib E) (d_namespace (r_container (srv w2))) [''hello.txt''] = Some (ev_uuid E, KFile) \<and>
    demo_main A R L openf filesystem w = Some (Done (0, [Cout ''append success, offset: 0''], w2))"
proof -
  have path: "parse_components ''/hello.txt'' = [''hello.txt'']" by code_simp
  have "(O_CREAT OR O_WRONLY :: u32) AND O_CREAT \<noteq> 0" by (simp add: errno_defs)
  from deva_connection.creates_stream [OF assms(1,3-10) _ _ _ _ _ _ assms(13) this, of dir L] obtain fl w2 where
    "fs_open R L openf w1 ''/hello.txt'' (O_CREAT OR O_WRONLY) = Some (status_OK, Some fl, w2)" "fi_size (fst_info fl) = 0"
    "ns_view (ev_uuid_lib E) (d_namespace (r_container (srv w2))) [''hello.txt''] = Some (ev_uuid E, KFile)"
    using assms(11,12) by (auto simp: path)
  then show ?thesis by (simp add: demo_main_def assms(2) demo_append_reports)
qed

text \<open>A file system with one metadata server, whose client has a leader for the group \<^verbatim>\<open>default\<close>.\<close>

definition ex_asura_client :: "cluster asura_client" where
  "ex_asura_client = \<lparr>ac_init_balanced = (\<lambda>_. True), ac_init = (\<lambda>_. True), ac_ListDeva = (\<lambda>w. (new_reply [], w)),
     ac_update_configuration = (\<lambda>w g conf. w\<lparr>cl_conf := (cl_conf w)(g \<mapsto> conf)\<rparr>)\<rparr>"

lemma ex_leader: "rt_select (cluster_rtb p) (ex_cluster\<lparr>cl_conf := c\<rparr>) g = Some ''10.0.0.1:8001''"
  by (simp add: cluster_rtb_def ex_cluster_def)

theorem demo_loses_data_witness:
  "\<exists>w2. demo_main ex_asura_client (cluster_rtb ''p'') hex_lib (serve_open (ex_senv (Committed 1))) ''list://10.0.0.1:8001'' ex_cluster =
      Some (Done (0, [Cout ''append success, offset: 0''], w2)) \<and>
    ns_view hex_lib (d_namespace (r_container (cl_rsm w2))) [''hello.txt''] = Some (UUID 0 1, KFile)"
proof -
  let ?w1 = "ex_cluster\<lparr>cl_conf := (cl_conf ex_cluster)(''default'' \<mapsto> [])\<rparr>"
  have create: "fs_create ex_asura_client ex_cluster ''list://10.0.0.1:8001'' True =
      (status_OK, Some \<lparr>fsy_cluster = ''list://10.0.0.1:8001'', fsy_deva_list = []\<rparr>, ?w1)"
    by (simp add: fs_create_def ex_asura_client_def new_reply_def deva_conf_def)
  have "ns_view hex_lib (d_namespace (deva_new hex_lib)) [''hello.txt''] = None" by code_simp
  moreover obtain b where "op_encode (ev_codec (ex_senv (Committed 1))) (ev_now (ex_senv (Committed 1))) (ev_pad (ex_senv (Committed 1)))
      (RCreateFile (build_create_request (ex_senv (Committed 1)) ''/hello.txt'' 438)) [] = Done b" using ex_senv_encode by blast
  ultimately show ?thesis
    using demo_loses_data [OF clusterconn.deva_connection_axioms create, of "''p''" "''10.0.0.1:8001''" "ex_senv (Committed 1)" "[]" 1
        "UUID 0 0" b hex_lib]
    by (auto simp: ex_cluster_leader ex_service hexlib.uuid_library_axioms fresh_log_def ex_fresh_new ex_root ex_leader)
qed

end
