(* ===== verification/Context_Stack.thy ===== *)
theory Context_Stack
  imports Prelude
begin

text \<open>
  The storage of tracing contexts: \<^verbatim>\<open>src/base/bthread_local_context_storage.cc\<close>, its header, and
  \<^verbatim>\<open>include/pain/base/bthread_local.h\<close>. Every bthread has a stack of contexts in an array that grows by
  doubling. A context is a value of the type \<open>'c\<close>; the empty one, \<^verbatim>\<open>Context()\<close>, is the argument
  \<open>e\<close>. A token holds the context it was created for, and is compared with contexts by equality.
  Sizes count objects in memory, so they are natural numbers. An access outside of the array is \<open>Abort\<close>;
  the loop of \<^verbatim>\<open>Detach\<close> is a partial function, whose value is \<open>None\<close> when it does not end.
\<close>

section \<open>The stack of one bthread\<close>

record 'c ctx_stack =
  cs_size :: nat
  cs_capacity :: nat
  cs_base :: "'c list option"

definition stack_new :: "'c ctx_stack" where
  "stack_new = \<lparr>cs_size = 0, cs_capacity = 0, cs_base = None\<rparr>"

text \<open>\<^verbatim>\<open>base_[i]\<close>, read and written.\<close>

definition base_at :: "'c ctx_stack \<Rightarrow> nat \<Rightarrow> 'c outcome" where
  "base_at s i = (case cs_base s of None \<Rightarrow> Abort ''null base_''
     | Some b \<Rightarrow> if i < length b then Done (b ! i) else Abort ''base_ out of range'')"

definition base_put :: "'c ctx_stack \<Rightarrow> nat \<Rightarrow> 'c \<Rightarrow> 'c ctx_stack outcome" where
  "base_put s i c = (case cs_base s of None \<Rightarrow> Abort ''null base_''
     | Some b \<Rightarrow> if i < length b then Done (s\<lparr>cs_base := Some (b[i := c])\<rparr>) else Abort ''base_ out of range'')"

definition stack_pop :: "'c \<Rightarrow> 'c ctx_stack \<Rightarrow> 'c ctx_stack outcome" where
  "stack_pop e s =
     (if cs_size s = 0 then Done s
      else obind (base_put s (cs_size s - 1) e) (\<lambda>s1. Done (s1\<lparr>cs_size := cs_size s1 - 1\<rparr>)))"

text \<open>The loop of \<^verbatim>\<open>Contains\<close>, from position \<open>pos\<close> down.\<close>

fun contains_loop :: "'c ctx_stack \<Rightarrow> 'c \<Rightarrow> nat \<Rightarrow> bool outcome" where
  "contains_loop s token 0 = Done False"
| "contains_loop s token (Suc i) =
     obind (base_at s i) (\<lambda>c. if token = c then Done True else contains_loop s token i)"

definition stack_contains :: "'c ctx_stack \<Rightarrow> 'c \<Rightarrow> bool outcome" where
  "stack_contains s token = contains_loop s token (cs_size s)"

definition stack_top :: "'c \<Rightarrow> 'c ctx_stack \<Rightarrow> 'c outcome" where
  "stack_top e s = (if cs_size s = 0 then Done e else base_at s (cs_size s - 1))"

text \<open>The loop of \<^verbatim>\<open>Resize\<close> that copies the elements \<open>i, \<dots>, i + n - 1\<close>.\<close>

fun copy_loop :: "nat \<Rightarrow> nat \<Rightarrow> 'c list \<Rightarrow> 'c list \<Rightarrow> 'c list outcome" where
  "copy_loop 0 i b temp = Done temp"
| "copy_loop (Suc n) i b temp =
     (if i < length b \<and> i < length temp then copy_loop n (Suc i) b (temp[i := b ! i])
      else Abort ''copy out of range'')"

definition stack_resize :: "'c \<Rightarrow> 'c ctx_stack \<Rightarrow> nat \<Rightarrow> 'c ctx_stack outcome" where
  "stack_resize e s new_capacity =
     (let old_size = cs_size s - 1;
          cap = (if new_capacity = 0 then 2 else new_capacity);
          temp = replicate cap e
      in obind (case cs_base s of None \<Rightarrow> Done temp | Some b \<Rightarrow> copy_loop (min old_size cap) 0 b temp)
           (\<lambda>t. Done (s\<lparr>cs_base := Some t, cs_capacity := cap\<rparr>)))"

definition stack_push :: "'c \<Rightarrow> 'c ctx_stack \<Rightarrow> 'c \<Rightarrow> 'c ctx_stack outcome" where
  "stack_push e s c =
     (let s1 = s\<lparr>cs_size := cs_size s + 1\<rparr> in
      obind (if cs_size s1 > cs_capacity s1 then stack_resize e s1 (cs_size s1 * 2) else Done s1)
        (\<lambda>s2. base_put s2 (cs_size s2 - 1) c))"

text \<open>\<^verbatim>\<open>while (!(token == Top())) Pop();\<close>\<close>

partial_function (option) pop_until :: "'c \<Rightarrow> 'c \<Rightarrow> 'c ctx_stack \<Rightarrow> 'c ctx_stack outcome option" where
  "pop_until e token s =
     (case stack_top e s of
        Abort m \<Rightarrow> Some (Abort m)
      | Done c \<Rightarrow>
          if token = c then Some (Done s)
          else (case stack_pop e s of Abort m \<Rightarrow> Some (Abort m) | Done s1 \<Rightarrow> pop_until e token s1))"

definition stack_detach :: "'c \<Rightarrow> 'c ctx_stack \<Rightarrow> 'c \<Rightarrow> (bool \<times> 'c ctx_stack) outcome option" where
  "stack_detach e s token =
     (case stack_top e s of
        Abort m \<Rightarrow> Some (Abort m)
      | Done c \<Rightarrow>
          if token = c then Some (obind (stack_pop e s) (\<lambda>s1. Done (True, s1)))
          else (case stack_contains s token of
                  Abort m \<Rightarrow> Some (Abort m)
                | Done False \<Rightarrow> Some (Done (False, s))
                | Done True \<Rightarrow>
                    (case pop_until e token s of
                       None \<Rightarrow> None
                     | Some r \<Rightarrow> Some (obind r (\<lambda>s1. obind (stack_pop e s1) (\<lambda>s2. Done (True, s2)))))))"

section \<open>The storage\<close>

text \<open>The stacks by bthread: \<^verbatim>\<open>BthreadLocal\<close> creates the one of a bthread when it is first used.\<close>

type_synonym 'c ctx_storage = "nat \<Rightarrow> 'c ctx_stack option"

definition get_or_create :: "'c ctx_storage \<Rightarrow> nat \<Rightarrow> 'c ctx_stack" where
  "get_or_create w t = (case w t of None \<Rightarrow> stack_new | Some s \<Rightarrow> s)"

definition GetCurrent :: "'c \<Rightarrow> 'c ctx_storage \<Rightarrow> nat \<Rightarrow> ('c \<times> 'c ctx_storage) outcome" where
  "GetCurrent e w t =
     (let s = get_or_create w t in obind (stack_top e s) (\<lambda>c. Done (c, w(t \<mapsto> s))))"

definition Attach :: "'c \<Rightarrow> 'c ctx_storage \<Rightarrow> nat \<Rightarrow> 'c \<Rightarrow> ('c \<times> 'c ctx_storage) outcome" where
  "Attach e w t c =
     obind (stack_push e (get_or_create w t) c) (\<lambda>s. Done (c, w(t \<mapsto> s)))"

definition Detach :: "'c \<Rightarrow> 'c ctx_storage \<Rightarrow> nat \<Rightarrow> 'c \<Rightarrow> (bool \<times> 'c ctx_storage) outcome option" where
  "Detach e w t token =
     (case stack_detach e (get_or_create w t) token of
        None \<Rightarrow> None
      | Some r \<Rightarrow> Some (obind r (\<lambda>(b, s). Done (b, w(t \<mapsto> s)))))"

section \<open>The invariant and the abstraction\<close>

text \<open>The array has the size of its capacity, and what is on the stack fits; the top of the list is its head.\<close>

definition stack_inv :: "'c ctx_stack \<Rightarrow> bool" where
  "stack_inv s \<longleftrightarrow> cs_size s \<le> cs_capacity s \<and>
     (case cs_base s of None \<Rightarrow> cs_capacity s = 0 | Some b \<Rightarrow> length b = cs_capacity s)"

definition stack_abs :: "'c ctx_stack \<Rightarrow> 'c list" where
  "stack_abs s = (case cs_base s of None \<Rightarrow> [] | Some b \<Rightarrow> rev (take (cs_size s) b))"

text \<open>What the storage promises, on the list of the contexts of one bthread.\<close>

fun detach_spec :: "'c \<Rightarrow> 'c list \<Rightarrow> 'c \<Rightarrow> bool \<times> 'c list" where
  "detach_spec e xs token =
     (if token \<in> set xs then (True, tl (dropWhile (\<lambda>c. c \<noteq> token) xs))
      else (xs = [] \<and> token = e, xs))"

lemma stack_inv_new [simp]: "stack_inv stack_new" "stack_abs stack_new = []"
  by (simp_all add: stack_inv_def stack_abs_def stack_new_def)

lemma length_abs: "stack_inv s \<Longrightarrow> length (stack_abs s) = cs_size s"
  by (auto simp: stack_inv_def stack_abs_def split: option.splits)

text \<open>A stack is empty, or its array holds its elements.\<close>

lemma stack_cases:
  assumes "stack_inv s"
  obtains "cs_size s = 0" "stack_abs s = []"
  | n b where "cs_size s = Suc n" "cs_base s = Some b" "length b = cs_capacity s" "n < length b"
    "stack_abs s = b ! n # rev (take n b)"
proof (cases "cs_size s")
  case 0
  then show ?thesis using that(1) by (auto simp: stack_abs_def split: option.splits)
next
  case (Suc n)
  then show ?thesis using that(2) assms
    by (auto simp: stack_inv_def stack_abs_def take_Suc_conv_app_nth split: option.splits)
qed

lemma top_abs: "stack_inv s \<Longrightarrow> stack_top e s = Done (case stack_abs s of [] \<Rightarrow> e | c # _ \<Rightarrow> c)"
  by (erule stack_cases) (auto simp: stack_top_def base_at_def)

lemma pop_abs:
  assumes "stack_inv s"
  obtains s' where "stack_pop e s = Done s'" "stack_inv s'" "stack_abs s' = tl (stack_abs s)"
  using assms
proof (rule stack_cases)
  assume "cs_size s = 0" "stack_abs s = []"
  with assms that show ?thesis by (simp add: stack_pop_def)
next
  fix n b assume b: "cs_size s = Suc n" "cs_base s = Some b" "length b = cs_capacity s" "n < length b"
    "stack_abs s = b ! n # rev (take n b)"
  then show ?thesis using assms that [of "s\<lparr>cs_base := Some (b[n := e]), cs_size := n\<rparr>"]
    by (simp add: stack_pop_def base_put_def stack_inv_def stack_abs_def)
qed

lemma contains_loop_take:
  "cs_base s = Some b \<Longrightarrow> n \<le> length b \<Longrightarrow> contains_loop s token n = Done (token \<in> set (take n b))"
  by (induction n) (auto simp: base_at_def take_Suc_conv_app_nth)

lemma contains_abs: "stack_inv s \<Longrightarrow> stack_contains s token = Done (token \<in> set (stack_abs s))"
  by (cases "cs_base s") (auto simp: stack_contains_def stack_inv_def stack_abs_def contains_loop_take)

lemma copy_loop_done:
  "i + n \<le> length b \<Longrightarrow> i + n \<le> length temp \<Longrightarrow>
   copy_loop n i b temp = Done (take i temp @ take n (drop i b) @ drop (i + n) temp)"
proof (induction n arbitrary: i temp)
  case (Suc n)
  then have "take (Suc i) (temp[i := b ! i]) = take i temp @ [b ! i]" by (simp add: take_Suc_conv_app_nth)
  moreover have "take (Suc n) (drop i b) = b ! i # take n (drop (Suc i) b)"
    using Suc.prems by (simp add: Cons_nth_drop_Suc [symmetric])
  ultimately show ?case using Suc by simp
qed simp

lemma push_abs:
  assumes "stack_inv s"
  obtains s' where "stack_push e s c = Done s'" "stack_inv s'" "stack_abs s' = c # stack_abs s"
proof (cases "cs_size s < cs_capacity s")
  case True
  then obtain b where b: "cs_base s = Some b" "length b = cs_capacity s"
    using assms by (auto simp: stack_inv_def split: option.splits)
  with True that [of "s\<lparr>cs_size := Suc (cs_size s), cs_base := Some (b[cs_size s := c])\<rparr>"] show ?thesis
    by (simp add: stack_push_def base_put_def stack_inv_def stack_abs_def take_Suc_conv_app_nth)
next
  case False
  define n where "n = cs_size s"
  define cap where "cap = Suc n * 2"
  let ?t = "rev (stack_abs s) @ replicate (cap - n) e"
  have cap: "n < cap" by (simp add: cap_def)
  have len: "length (stack_abs s) = n" using length_abs [OF assms] by (simp add: n_def)
  have "(case cs_base s of None \<Rightarrow> Done (replicate cap e) | Some b \<Rightarrow> copy_loop n 0 b (replicate cap e)) = Done ?t"
  proof (cases "cs_base s")
    case None
    then show ?thesis using assms by (auto simp: stack_inv_def stack_abs_def n_def)
  next
    case (Some b)
    then have "length b = n" using assms False by (auto simp: stack_inv_def n_def)
    then show ?thesis using Some copy_loop_done [of 0 n b "replicate cap e"] cap by (simp add: stack_abs_def n_def)
  qed
  then have "stack_resize e (s\<lparr>cs_size := Suc n\<rparr>) cap = Done (s\<lparr>cs_size := Suc n, cs_base := Some ?t, cs_capacity := cap\<rparr>)"
    using cap by (cases "cs_base s") (simp_all add: stack_resize_def Let_def)
  then have "stack_push e s c = Done (s\<lparr>cs_size := Suc n, cs_base := Some (?t[n := c]), cs_capacity := cap\<rparr>)"
    using False len cap by (simp add: stack_push_def base_put_def n_def [symmetric] cap_def [simplified, symmetric])
  moreover have "take (Suc n) (?t[n := c]) = rev (stack_abs s) @ [c]"
    using len cap by (simp add: take_Suc_conv_app_nth nth_append)
  ultimately show ?thesis using that len cap by (simp add: stack_inv_def stack_abs_def)
qed

lemma pop_until_hit: "stack_top e s = Done token \<Longrightarrow> pop_until e token s = Some (Done s)"
  by (simp add: pop_until.simps)

lemma pop_until_miss:
  "stack_top e s = Done c \<Longrightarrow> token \<noteq> c \<Longrightarrow> stack_pop e s = Done s1 \<Longrightarrow> pop_until e token s = pop_until e token s1"
  by (subst pop_until.simps) simp

lemma pop_until_abs:
  assumes "stack_inv s" "token \<in> set (stack_abs s)"
  shows "\<exists>s'. pop_until e token s = Some (Done s') \<and> stack_inv s' \<and> stack_abs s' = dropWhile (\<lambda>c. c \<noteq> token) (stack_abs s)"
  using assms
proof (induction "stack_abs s" arbitrary: s)
  case (Cons c cs)
  have abs: "stack_abs s = c # cs" using Cons.hyps(2) by simp
  have top: "stack_top e s = Done c" using top_abs [OF Cons.prems(1), of e] abs by simp
  show ?case
  proof (cases "token = c")
    case True
    then show ?thesis using pop_until_hit [of e s token] top Cons.prems(1) abs by simp
  next
    case False
    obtain s1 where s1: "stack_pop e s = Done s1" "stack_inv s1" "stack_abs s1 = cs"
      using pop_abs [OF Cons.prems(1), of e] abs by (metis list.sel(3))
    moreover have "token \<in> set (stack_abs s1)" using False Cons.prems(2) abs s1(3) by simp
    ultimately obtain s2 where "pop_until e token s1 = Some (Done s2)" "stack_inv s2"
      "stack_abs s2 = dropWhile (\<lambda>c. c \<noteq> token) cs" using Cons.hyps(1) by metis
    with pop_until_miss [OF top False s1(1)] False abs show ?thesis by simp
  qed
qed simp

lemma detach_abs:
  assumes "stack_inv s"
  obtains s' where "stack_detach e s token = Some (Done (fst (detach_spec e (stack_abs s) token), s'))" "stack_inv s'"
    "stack_abs s' = snd (detach_spec e (stack_abs s) token)"
proof -
  obtain s1 where s1: "stack_pop e s = Done s1" "stack_inv s1" "stack_abs s1 = tl (stack_abs s)"
    using pop_abs [OF assms] .
  note top = top_abs [OF assms, of e]
  consider "stack_abs s = []" | c cs where "stack_abs s = c # cs" "token = c"
    | c cs where "stack_abs s = c # cs" "token \<noteq> c" "token \<notin> set (stack_abs s)"
    | c cs where "stack_abs s = c # cs" "token \<noteq> c" "token \<in> set (stack_abs s)" by (cases "stack_abs s") auto
  then show ?thesis
  proof cases
    case 1
    then show ?thesis using that top s1 assms contains_abs [OF assms] by (cases "token = e") (auto simp: stack_detach_def)
  next
    case 2
    then show ?thesis using that top s1 by (auto simp: stack_detach_def)
  next
    case 3
    then show ?thesis using that top assms contains_abs [OF assms] by (auto simp: stack_detach_def)
  next
    case 4
    from pop_until_abs [OF assms 4(3), of e] obtain s2 where
      s2: "pop_until e token s = Some (Done s2)" "stack_inv s2" "stack_abs s2 = dropWhile (\<lambda>c. c \<noteq> token) (stack_abs s)" by blast
    obtain s3 where "stack_pop e s2 = Done s3" "stack_inv s3" "stack_abs s3 = tl (stack_abs s2)" using pop_abs [OF s2(2)] .
    with 4 s2 that top contains_abs [OF assms] show ?thesis by (auto simp: stack_detach_def)
  qed
qed

section \<open>The contract of the storage\<close>

text \<open>Clients see, for every bthread, a list of contexts; an operation of one bthread leaves the others alone.\<close>

locale context_storage =
  fixes current :: "'w \<Rightarrow> nat \<Rightarrow> ('c \<times> 'w) outcome"
    and attach :: "'w \<Rightarrow> nat \<Rightarrow> 'c \<Rightarrow> ('c \<times> 'w) outcome"
    and detach :: "'w \<Rightarrow> nat \<Rightarrow> 'c \<Rightarrow> (bool \<times> 'w) outcome option"
    and e :: 'c
    and inv :: "'w \<Rightarrow> bool"
    and stk :: "'w \<Rightarrow> nat \<Rightarrow> 'c list"
  assumes current_spec: "inv w \<Longrightarrow> \<exists>w'. current w t = Done (case stk w t of [] \<Rightarrow> e | c # _ \<Rightarrow> c, w') \<and> inv w' \<and> stk w' = stk w"
    and attach_spec: "inv w \<Longrightarrow> \<exists>w'. attach w t c = Done (c, w') \<and> inv w' \<and> stk w' = (stk w)(t := c # stk w t)"
    and detach_spec: "inv w \<Longrightarrow> \<exists>w'. detach w t token = Some (Done (fst (detach_spec e (stk w t) token), w')) \<and> inv w' \<and>
        stk w' = (stk w)(t := snd (detach_spec e (stk w t) token))"

definition storage_inv :: "'c ctx_storage \<Rightarrow> bool" where
  "storage_inv w \<longleftrightarrow> (\<forall>t s. w t = Some s \<longrightarrow> stack_inv s)"

definition storage_abs :: "'c ctx_storage \<Rightarrow> nat \<Rightarrow> 'c list" where
  "storage_abs w t = stack_abs (get_or_create w t)"

lemma get_or_create_inv: "storage_inv w \<Longrightarrow> stack_inv (get_or_create w t)"
  by (auto simp: storage_inv_def get_or_create_def split: option.splits)

lemma storage_update:
  "storage_inv w \<Longrightarrow> stack_inv s \<Longrightarrow> storage_inv (w(t \<mapsto> s)) \<and> storage_abs (w(t \<mapsto> s)) = (storage_abs w)(t := stack_abs s)"
  by (auto simp: storage_inv_def storage_abs_def get_or_create_def fun_eq_iff)

interpretation ctx: context_storage "GetCurrent e" "Attach e" "Detach e" e storage_inv storage_abs
proof (unfold_locales, goal_cases)
  case (1 w t)
  note i = get_or_create_inv [OF 1, of t]
  have a: "stack_abs (get_or_create w t) = storage_abs w t" by (simp add: storage_abs_def)
  show ?case using top_abs [OF i, of e] storage_update [OF 1 i, of t] by (simp add: GetCurrent_def Let_def a)
next
  case (2 w t c)
  obtain s where s: "stack_push e (get_or_create w t) c = Done s" "stack_inv s" "stack_abs s = c # stack_abs (get_or_create w t)"
    using push_abs [OF get_or_create_inv [OF 2]] .
  then show ?case using storage_update [OF 2 s(2), of t] by (simp add: Attach_def storage_abs_def)
next
  case (3 w t token)
  obtain s where s: "stack_detach e (get_or_create w t) token =
      Some (Done (fst (detach_spec e (stack_abs (get_or_create w t)) token), s))" "stack_inv s"
    "stack_abs s = snd (detach_spec e (stack_abs (get_or_create w t)) token)"
    using detach_abs [OF get_or_create_inv [OF 3]] .
  then show ?case using storage_update [OF 3 s(2), of t] by (simp add: Detach_def storage_abs_def del: detach_spec.simps)
qed

section \<open>Runs of the storage\<close>

text \<open>A sequence of operations of any bthreads, on the storage and on the lists it stands for.\<close>

datatype 'c ctx_op = OpCurrent | OpAttach 'c | OpDetach 'c

datatype 'c ctx_out = OutContext 'c | OutBool bool

fun ctx_exec :: "'c \<Rightarrow> 'c ctx_storage \<Rightarrow> (nat \<times> 'c ctx_op) list \<Rightarrow> ('c ctx_out list \<times> 'c ctx_storage) outcome option" where
  "ctx_exec e w [] = Some (Done ([], w))"
| "ctx_exec e w ((t, op) # ops) =
     (case (case op of
              OpCurrent \<Rightarrow> Some (obind (GetCurrent e w t) (\<lambda>(c, w'). Done (OutContext c, w')))
            | OpAttach c \<Rightarrow> Some (obind (Attach e w t c) (\<lambda>(k, w'). Done (OutContext k, w')))
            | OpDetach k \<Rightarrow> map_option (\<lambda>r. obind r (\<lambda>(b, w'). Done (OutBool b, w'))) (Detach e w t k)) of
        None \<Rightarrow> None
      | Some (Abort m) \<Rightarrow> Some (Abort m)
      | Some (Done (x, w')) \<Rightarrow> map_option (\<lambda>r. obind r (\<lambda>(xs, w''). Done (x # xs, w''))) (ctx_exec e w' ops))"

fun ctx_spec :: "'c \<Rightarrow> (nat \<Rightarrow> 'c list) \<Rightarrow> (nat \<times> 'c ctx_op) list \<Rightarrow> 'c ctx_out list \<times> (nat \<Rightarrow> 'c list)" where
  "ctx_spec e f [] = ([], f)"
| "ctx_spec e f ((t, op) # ops) =
     (let (x, f') = (case op of
              OpCurrent \<Rightarrow> (OutContext (case f t of [] \<Rightarrow> e | c # _ \<Rightarrow> c), f)
            | OpAttach c \<Rightarrow> (OutContext c, f(t := c # f t))
            | OpDetach k \<Rightarrow> (OutBool (fst (detach_spec e (f t) k)), f(t := snd (detach_spec e (f t) k))));
          (xs, f'') = ctx_spec e f' ops
      in (x # xs, f''))"

lemma ctx_exec_refines:
  assumes "storage_inv w"
  shows "\<exists>w'. ctx_exec e w ops = Some (Done (fst (ctx_spec e (storage_abs w) ops), w')) \<and> storage_inv w' \<and>
    storage_abs w' = snd (ctx_spec e (storage_abs w) ops)"
  using assms
proof (induction ops arbitrary: w)
  case (Cons x ops)
  obtain t op where x: "x = (t, op)" by fastforce
  show ?case
  proof (cases op)
    case OpCurrent
    from ctx.current_spec [OF Cons.prems, of e t] obtain w1 where
      w1: "GetCurrent e w t = Done (case storage_abs w t of [] \<Rightarrow> e | c # _ \<Rightarrow> c, w1)" "storage_inv w1" "storage_abs w1 = storage_abs w" by blast
    from Cons.IH [OF w1(2), unfolded w1(3)] w1(1,2) show ?thesis by (auto simp: x OpCurrent Let_def split_beta)
  next
    case (OpAttach c)
    from ctx.attach_spec [OF Cons.prems, of e t c] obtain w1 where
      w1: "Attach e w t c = Done (c, w1)" "storage_inv w1" "storage_abs w1 = (storage_abs w)(t := c # storage_abs w t)" by blast
    from Cons.IH [OF w1(2), unfolded w1(3)] w1(1,2) show ?thesis by (auto simp: x OpAttach Let_def split_beta simp del: fun_upd_apply)
  next
    case (OpDetach k)
    from ctx.detach_spec [OF Cons.prems, of e t k] obtain w1 where
      w1: "Detach e w t k = Some (Done (fst (detach_spec e (storage_abs w t) k), w1))" "storage_inv w1"
      "storage_abs w1 = (storage_abs w)(t := snd (detach_spec e (storage_abs w t) k))" by blast
    from Cons.IH [OF w1(2), unfolded w1(3)] w1(1,2) show ?thesis
      by (auto simp: x OpDetach Let_def split_beta simp del: detach_spec.simps fun_upd_apply)
  qed
qed simp

section \<open>Properties\<close>

text \<open>
  C4: the context storage refines one list of contexts per bthread. For every sequence of
  \<^verbatim>\<open>GetCurrent\<close>, \<^verbatim>\<open>Attach\<close> and \<^verbatim>\<open>Detach\<close> calls of any bthreads, starting without any stack, the calls all return, no
  access leaves the array, the results are those of the lists, and so are the stacks in the end: detaching a context
  that is on the stack also detaches everything above it, and nothing else changes.
\<close>

theorem context_storage_refines:
  "\<exists>w'. ctx_exec (e :: 'c) (\<lambda>_. None) ops = Some (Done (fst (ctx_spec e (\<lambda>_. []) ops), w')) \<and>
     (\<forall>t. stack_abs (get_or_create w' t) = snd (ctx_spec e (\<lambda>_. []) ops) t)"
proof -
  have "storage_inv (\<lambda>_. None :: 'c ctx_stack option)" "storage_abs (\<lambda>_. None :: 'c ctx_stack option) = (\<lambda>_. [])"
    by (simp_all add: storage_inv_def storage_abs_def get_or_create_def fun_eq_iff)
  with ctx_exec_refines [of "\<lambda>_. None" e ops] obtain w' where
    "ctx_exec e (\<lambda>_. None) ops = Some (Done (fst (ctx_spec e (\<lambda>_. []) ops), w'))"
    "storage_abs w' = snd (ctx_spec e (\<lambda>_. []) ops)" by auto
  then show ?thesis unfolding storage_abs_def by (intro exI [of _ w']) (simp add: fun_eq_iff)
qed

end
