(* ===== verification/Tracing.thy ===== *)
theory Tracing
  imports Context_Stack
begin

text \<open>
  How a tracing context travels with a request: \<^verbatim>\<open>include/pain/base/brpc_text_map_carrier.h\<close> and the functions
  \<^verbatim>\<open>inject_tracer\<close> and \<^verbatim>\<open>extract_context\<close> of \<^verbatim>\<open>src/base/tracer.cc\<close>; and how log messages of the libraries are passed on:
  \<^verbatim>\<open>include/pain/base/spdlog_sink.h\<close> and \<^verbatim>\<open>TraceLogHandle\<close>. The maps of a controller (the HTTP headers, whose names are
  compared without regard to case, and the user fields) belong to the RPC library, and what is written into
  them and read from them belongs to the propagator of the tracing library: both are arguments, with the laws
  \<open>text_map\<close> and \<open>trace_propagator\<close>. A string view is the string it shows.
\<close>

section \<open>The carrier\<close>

datatype protocol = PROTOCOL_HTTP | PROTOCOL_H2 | PROTOCOL_OTHER

record 'm map_ops =
  mo_get :: "'m \<Rightarrow> string \<Rightarrow> string option"
  mo_set :: "'m \<Rightarrow> string \<Rightarrow> string \<Rightarrow> 'm"

record ('h, 'u) cntl =
  cn_protocol :: protocol
  cn_headers :: 'h
  cn_fields :: 'u

definition carrier_Get :: "'h map_ops \<Rightarrow> 'u map_ops \<Rightarrow> ('h, 'u) cntl \<Rightarrow> string \<Rightarrow> string" where
  "carrier_Get H U c key =
     (if cn_protocol c = PROTOCOL_HTTP \<or> cn_protocol c = PROTOCOL_H2 then
        (case mo_get H (cn_headers c) (c_str key) of Some v \<Rightarrow> v | None \<Rightarrow> [])
      else case mo_get U (cn_fields c) key of Some v \<Rightarrow> v | None \<Rightarrow> [])"

definition carrier_Set :: "'h map_ops \<Rightarrow> 'u map_ops \<Rightarrow> ('h, 'u) cntl \<Rightarrow> string \<Rightarrow> string \<Rightarrow> ('h, 'u) cntl" where
  "carrier_Set H U c key value =
     (if cn_protocol c = PROTOCOL_HTTP \<or> cn_protocol c = PROTOCOL_H2 then c\<lparr>cn_headers := mo_set H (cn_headers c) key value\<rparr>
      else c\<lparr>cn_fields := mo_set U (cn_fields c) key value\<rparr>)"

section \<open>Injecting and extracting\<close>

text \<open>A propagator: the pairs it sets for a context, in order, and the context it makes of what it gets.\<close>

record 'c propagator =
  pg_inject :: "'c \<Rightarrow> (string \<times> string) list"
  pg_extract :: "(string \<Rightarrow> string) \<Rightarrow> 'c \<Rightarrow> 'c"

definition inject_tracer ::
  "'h map_ops \<Rightarrow> 'u map_ops \<Rightarrow> 'c propagator \<Rightarrow> 'c \<Rightarrow> 'c ctx_storage \<Rightarrow> nat \<Rightarrow> ('h, 'u) cntl \<Rightarrow>
   (('h, 'u) cntl \<times> 'c ctx_storage) outcome" where
  "inject_tracer H U G e w t c =
     obind (GetCurrent e w t) (\<lambda>(current_ctx, w').
     Done (foldl (\<lambda>c (k, v). carrier_Set H U c k v) c (pg_inject G current_ctx), w'))"

definition extract_context ::
  "'h map_ops \<Rightarrow> 'u map_ops \<Rightarrow> 'c propagator \<Rightarrow> 'c \<Rightarrow> 'c ctx_storage \<Rightarrow> nat \<Rightarrow> ('h, 'u) cntl \<Rightarrow>
   ('c \<times> 'c ctx_storage) outcome" where
  "extract_context H U G e w t c =
     obind (GetCurrent e w t) (\<lambda>(current_ctx, w'). Done (pg_extract G (carrier_Get H U c) current_ctx, w'))"

section \<open>Log levels\<close>

datatype level = LTrace | LDebug | LInfo | LWarn | LErr | LCritical

definition severity_to_level :: "level list" where
  "severity_to_level = [LDebug, LInfo, LWarn, LErr, LCritical]"

text \<open>\<^verbatim>\<open>SpdlogSink::OnLogMessage\<close>: the level the message is logged at, and whether the log is flushed.\<close>

definition OnLogMessage :: "int \<Rightarrow> (level \<times> bool) outcome" where
  "OnLogMessage severity =
     (let sev = (if severity < 0 then 0 else severity) in
      if nat sev < length severity_to_level then Done (severity_to_level ! nat sev, sev = 4)
      else Abort ''severity_to_level out of range'')"

definition TraceLogHandle_level :: "int \<Rightarrow> level outcome" where
  "TraceLogHandle_level l =
     (let levels = [LDebug, LErr, LWarn, LDebug, LTrace] in
      if 0 \<le> l \<and> nat l < length levels then Done (levels ! nat l) else Abort ''levels out of range'')"

section \<open>The contracts of the libraries\<close>

text \<open>A map whose keys are compared after \<open>norm\<close>.\<close>

locale text_map =
  fixes M :: "'m map_ops" and norm :: "string \<Rightarrow> string"
  assumes get_set: "mo_get M (mo_set M m k v) j = (if norm j = norm k then Some v else mo_get M m j)"
begin

lemma get_foldl:
  assumes "distinct (map (norm \<circ> fst) kvs)" "(k, v) \<in> set kvs"
  shows "mo_get M (foldl (\<lambda>m (k, v). mo_set M m k v) m kvs) k = Some v"
  using assms
proof (induction kvs rule: rev_induct)
  case (snoc x kvs)
  show ?case
  proof (cases "x = (k, v)")
    case False
    then have "(k, v) \<in> set kvs" using snoc.prems(2) by simp
    moreover have "norm (fst x) \<noteq> norm k" using snoc.prems(1) \<open>(k, v) \<in> set kvs\<close> by force
    ultimately show ?thesis using snoc by (cases x) (auto simp: get_set)
  qed (simp add: get_set)
qed simp

end

text \<open>
  \<open>span\<close> is the part of a context that travels: a context that has one is found again on the other side, from
  the values that were set for it.
\<close>

locale trace_propagator =
  fixes G :: "'c propagator" and norm :: "string \<Rightarrow> string" and span :: "'c \<Rightarrow> 's option"
  assumes extract_inject: "span c \<noteq> None \<Longrightarrow> (\<And>k v. (k, v) \<in> set (pg_inject G c) \<Longrightarrow> get k = v) \<Longrightarrow>
      span (pg_extract G get cur) = span c"
    and keys: "distinct (map (norm \<circ> fst) (pg_inject G c))" "(k, v) \<in> set (pg_inject G c) \<Longrightarrow> CHR 0x00 \<notin> set k"

section \<open>Lemmas\<close>

lemma foldl_carrier_Set:
  "foldl (\<lambda>c (k, v). carrier_Set H U c k v) c kvs =
     (if cn_protocol c = PROTOCOL_HTTP \<or> cn_protocol c = PROTOCOL_H2
      then c\<lparr>cn_headers := foldl (\<lambda>m (k, v). mo_set H m k v) (cn_headers c) kvs\<rparr>
      else c\<lparr>cn_fields := foldl (\<lambda>m (k, v). mo_set U m k v) (cn_fields c) kvs\<rparr>)"
  by (induction kvs arbitrary: c) (auto simp: carrier_Set_def)

lemma c_str_id: "CHR 0x00 \<notin> set k \<Longrightarrow> c_str k = k"
  by (auto simp: c_str_def takeWhile_eq_all_conv)

lemma carrier_roundtrip:
  assumes "text_map H norm" "text_map U norm'" "distinct (map (norm \<circ> fst) kvs)" "distinct (map (norm' \<circ> fst) kvs)"
    and "(k, v) \<in> set kvs" "CHR 0x00 \<notin> set k"
  shows "carrier_Get H U (foldl (\<lambda>c (k, v). carrier_Set H U c k v) c kvs) k = v"
  using text_map.get_foldl [OF assms(1,3,5)] text_map.get_foldl [OF assms(2,4,5)] c_str_id [OF assms(6)]
  by (simp add: foldl_carrier_Set carrier_Get_def)

text \<open>What is injected for a context with a span, is extracted as a context with that span.\<close>

lemma extract_injected:
  assumes "text_map H norm" "text_map U norm'" "trace_propagator G norm span" "trace_propagator G norm' span" "span c \<noteq> None"
  shows "span (pg_extract G (carrier_Get H U (foldl (\<lambda>c (k, v). carrier_Set H U c k v) rq0 (pg_inject G c))) cur) = span c"
proof (rule trace_propagator.extract_inject [OF assms(3,5)])
  fix k v assume kv: "(k, v) \<in> set (pg_inject G c)"
  from carrier_roundtrip [OF assms(1,2) trace_propagator.keys(1) [OF assms(3)] trace_propagator.keys(1) [OF assms(4)] kv
      trace_propagator.keys(2) [OF assms(3) kv]]
  show "carrier_Get H U (foldl (\<lambda>c (k, v). carrier_Set H U c k v) rq0 (pg_inject G c)) k = v" .
qed

text \<open>Maps of strings, with and without regard to case, and a propagator, that satisfy the laws.\<close>

definition lower_char :: "char \<Rightarrow> char" where
  "lower_char c = (if 65 \<le> (of_char c :: nat) \<and> (of_char c :: nat) \<le> 90 then char_of ((of_char c :: nat) + 32) else c)"

definition keyed_map :: "(string \<Rightarrow> string) \<Rightarrow> (string \<Rightarrow> string option) map_ops" where
  "keyed_map norm = \<lparr>mo_get = (\<lambda>m k. m (norm k)), mo_set = (\<lambda>m k v. m(norm k \<mapsto> v))\<rparr>"

interpretation keyed: text_map "keyed_map norm" norm
  by unfold_locales (simp add: keyed_map_def)

definition parent_propagator :: "string option propagator" where
  "parent_propagator = \<lparr>pg_inject = (\<lambda>c. case c of None \<Rightarrow> [] | Some v \<Rightarrow> [(''traceparent'', v)]),
     pg_extract = (\<lambda>get cur. if get ''traceparent'' = [] then cur else Some (get ''traceparent''))\<rparr>"

definition parent_span :: "string option \<Rightarrow> string option" where
  "parent_span c = (if c = Some [] then None else c)"

interpretation parentprop: trace_propagator parent_propagator norm parent_span
  by unfold_locales (auto simp: parent_propagator_def parent_span_def split: option.splits if_splits)

section \<open>Properties\<close>

text \<open>
  The context that a client attached travels with its request: whatever the protocol, after the client attached
  the context \<open>c\<close> in the bthread \<open>t\<close> and injected its current context into a request, every server that extracts a context
  from that request gets one with the span of \<open>c\<close>, in every bthread and whatever its own contexts are.
\<close>

theorem trace_propagates:
  assumes "text_map H norm" "text_map U norm'" "trace_propagator G norm span" "trace_propagator G norm' span"
    and "storage_inv w" "storage_inv ws" "span c \<noteq> None"
  shows "\<exists>w1 rq w2 c' ws'. Attach e w t c = Done (c, w1) \<and> inject_tracer H U G e w1 t rq0 = Done (rq, w2) \<and>
    cn_protocol rq = cn_protocol rq0 \<and> extract_context H U G e ws ts rq = Done (c', ws') \<and> span c' = span c"
proof -
  obtain w1 where w1: "Attach e w t c = Done (c, w1)" "storage_inv w1" "storage_abs w1 = (storage_abs w)(t := c # storage_abs w t)"
    using ctx.attach_spec [OF assms(5)] by blast
  obtain w2 where w2: "GetCurrent e w1 t = Done (c, w2)" using ctx.current_spec [OF w1(2), of e t] w1(3) by auto
  obtain cur ws' where cur: "GetCurrent e ws ts = Done (cur, ws')" using ctx.current_spec [OF assms(6), of e ts] by auto
  let ?rq = "foldl (\<lambda>c (k, v). carrier_Set H U c k v) rq0 (pg_inject G c)"
  have "span (pg_extract G (carrier_Get H U ?rq) cur) = span c" by (rule extract_injected [OF assms(1-4,7)])
  moreover have "cn_protocol ?rq = cn_protocol rq0" by (simp add: foldl_carrier_Set)
  ultimately show ?thesis using w1(1) w2 cur by (simp add: inject_tracer_def extract_context_def)
qed

theorem trace_propagates_witness:
  "\<exists>w1 rq w2 c' ws'. Attach None (\<lambda>_. None) 0 (Some ''00-af'') = Done (Some ''00-af'', w1) \<and>
     inject_tracer (keyed_map (map lower_char)) (keyed_map (\<lambda>k. k)) parent_propagator None w1 0
       \<lparr>cn_protocol = PROTOCOL_H2, cn_headers = (\<lambda>_. None), cn_fields = (\<lambda>_. None)\<rparr> = Done (rq, w2) \<and>
     extract_context (keyed_map (map lower_char)) (keyed_map (\<lambda>k. k)) parent_propagator None (\<lambda>_. None) 5 rq = Done (c', ws') \<and>
     c' = Some ''00-af''"
proof -
  have inv: "storage_inv (\<lambda>_. None :: string option ctx_stack option)" by (simp add: storage_inv_def)
  have c: "parent_span (Some ''00-af'') \<noteq> None" by (simp add: parent_span_def)
  note run = trace_propagates [where H = "keyed_map (map lower_char)" and norm = "map lower_char" and U = "keyed_map (\<lambda>k. k)"
      and norm' = "\<lambda>k. k" and G = parent_propagator and span = parent_span and c = "Some ''00-af''" and w = "\<lambda>_. None" and ws = "\<lambda>_. None"]
  from run [OF keyed.text_map_axioms keyed.text_map_axioms parentprop.trace_propagator_axioms
      parentprop.trace_propagator_axioms inv inv c, of None 0
      "\<lparr>cn_protocol = PROTOCOL_H2, cn_headers = (\<lambda>_. None), cn_fields = (\<lambda>_. None)\<rparr>" 5]
  show ?thesis by (auto simp: parent_span_def split: if_splits)
qed

end
