(* ===== verification/Spans.thy ===== *)
theory Spans
  imports Tracing Uuid
begin

text \<open>
  Spans: the macros \<^verbatim>\<open>SPAN\<close> and \<^verbatim>\<open>DEFINE_SPAN\<close> of \<^verbatim>\<open>include/pain/base/macro.h\<close> and of the \<^verbatim>\<open>macro.h\<close> of each server, the
  functions of \<^verbatim>\<open>include/pain/base/tracer.h\<close> that read trace ids, and \<^verbatim>\<open>init_tracer\<close> and \<^verbatim>\<open>cleanup_tracer\<close> of
  \<^verbatim>\<open>src/base/tracer.cc\<close>. The tracing library creates spans and puts them into contexts; it is the argument \<open>T\<close>, with the
  laws \<open>tracer_library\<close>. The contexts are kept by the storage of \<open>Context_Stack\<close>.
\<close>

section \<open>The tracing library\<close>

text \<open>
  \<open>tl_span\<close>: the span context of the span in a context, if that is valid. \<open>tl_set_span\<close>: the context with another span.
  \<open>tl_start\<close>: the span that a tracer starts, from the name of the tracer, the name of the span, the parent of the options, the
  current span and a source of random ids. \<open>tl_base16\<close>: the hexadecimal form of an id.
\<close>

record ('c, 's, 'r) tracer_lib =
  tl_span :: "'c \<Rightarrow> 's option"
  tl_set_span :: "'c \<Rightarrow> 's \<Rightarrow> 'c"
  tl_start :: "string \<Rightarrow> string \<Rightarrow> 's option \<Rightarrow> 's option \<Rightarrow> 'r \<Rightarrow> 's"
  tl_trace_id :: "'s \<Rightarrow> u8 list"
  tl_base16 :: "u8 list \<Rightarrow> string"

text \<open>A span belongs to the trace of its parent: the one in the options, or else the current one.\<close>

locale tracer_library =
  fixes T :: "('c, 's, 'r) tracer_lib"
  assumes span_set: "tl_span T (tl_set_span T c s) = Some s"
    and start_parent: "tl_trace_id T (tl_start T m n (Some p) cur r) = tl_trace_id T p"
    and start_current: "tl_trace_id T (tl_start T m n None (Some p) r) = tl_trace_id T p"

section \<open>The macros\<close>

definition start_span ::
  "('c, 's, 'r) tracer_lib \<Rightarrow> 'c \<Rightarrow> string \<Rightarrow> string \<Rightarrow> 's option \<Rightarrow> 'r \<Rightarrow> 'c ctx_storage \<Rightarrow> nat \<Rightarrow> ('s \<times> 'c ctx_storage) outcome" where
  "start_span T e module name parent r w t =
     obind (GetCurrent e w t) (\<lambda>(cur, w1). Done (tl_start T module name parent (tl_span T cur) r, w1))"

text \<open>\<^verbatim>\<open>WithActiveSpan\<close>: the token of the scope, which its destructor gives to \<^verbatim>\<open>Detach\<close>.\<close>

definition with_active_span ::
  "('c, 's, 'r) tracer_lib \<Rightarrow> 'c \<Rightarrow> 's \<Rightarrow> 'c ctx_storage \<Rightarrow> nat \<Rightarrow> ('c \<times> 'c ctx_storage) outcome" where
  "with_active_span T e s w t = obind (GetCurrent e w t) (\<lambda>(cur, w1). Attach e w1 t (tl_set_span T cur s))"

definition SPAN ::
  "('c, 's, 'r) tracer_lib \<Rightarrow> 'c \<Rightarrow> string \<Rightarrow> string \<Rightarrow> 'r \<Rightarrow> 'c ctx_storage \<Rightarrow> nat \<Rightarrow> ('s \<times> 'c \<times> 'c ctx_storage) outcome" where
  "SPAN T e module name r w t =
     obind (start_span T e module name None r w t) (\<lambda>(span, w1).
     obind (with_active_span T e span w1 t) (\<lambda>(scope, w2). Done (span, scope, w2)))"

definition DEFINE_SPAN ::
  "'h map_ops \<Rightarrow> 'u map_ops \<Rightarrow> 'c propagator \<Rightarrow> ('c, 's, 'r) tracer_lib \<Rightarrow> 'c \<Rightarrow> string \<Rightarrow> string \<Rightarrow> 'r \<Rightarrow> ('h, 'u) cntl \<Rightarrow>
   'c ctx_storage \<Rightarrow> nat \<Rightarrow> ('s \<times> 'c \<times> 'c ctx_storage) outcome" where
  "DEFINE_SPAN H U G T e module name r cntl w t =
     obind (extract_context H U G e w t cntl) (\<lambda>(new_context, w1).
     obind (start_span T e module name (tl_span T new_context) r w1 t) (\<lambda>(span, w2).
     obind (with_active_span T e span w2 t) (\<lambda>(scope, w3). Done (span, scope, w3))))"

text \<open>The spans of functions that call each other, outermost first: module, name and random ids.\<close>

fun nested_spans :: "('c, 's, 'r) tracer_lib \<Rightarrow> 'c \<Rightarrow> (string \<times> string \<times> 'r) list \<Rightarrow> 'c ctx_storage \<Rightarrow> nat \<Rightarrow> 'c ctx_storage outcome" where
  "nested_spans T e [] w t = Done w"
| "nested_spans T e ((module, name, r) # xs) w t =
     obind (SPAN T e module name r w t) (\<lambda>(span, scope, w'). nested_spans T e xs w' t)"

section \<open>Trace ids\<close>

text \<open>The buffer holds 32 characters, and the string is made of all of them.\<close>

definition get_trace_id :: "('c, 's, 'r) tracer_lib \<Rightarrow> 's option \<Rightarrow> string" where
  "get_trace_id T span =
     (let trace_id = (case span of Some s \<Rightarrow> tl_trace_id T s | None \<Rightarrow> replicate 16 0);
          trace_id_buf = take 32 (tl_base16 T trace_id @ replicate 32 (CHR 0x00))
      in trace_id_buf)"

definition get_current_trace_id :: "('c, 's, 'r) tracer_lib \<Rightarrow> 'c \<Rightarrow> 'c ctx_storage \<Rightarrow> nat \<Rightarrow> (string \<times> 'c ctx_storage) outcome" where
  "get_current_trace_id T e w t = obind (GetCurrent e w t) (\<lambda>(cur, w1). Done (get_trace_id T (tl_span T cur), w1))"

lemma get_trace_id_cong: "tl_trace_id T s = tl_trace_id T s' \<Longrightarrow> get_trace_id T (Some s) = get_trace_id T (Some s')"
  by (simp add: get_trace_id_def)

section \<open>Set-up\<close>

text \<open>
  The flags, and the variables of the process: the context storage and the provider with its span processors, and the
  static output file, which is opened only by the first call that gets there.
\<close>

record tracer_flags =
  fl_http_url :: string
  fl_http_enable :: bool
  fl_file_enable :: bool
  fl_file_path :: string

datatype exporter = OtlpHttp string | OStream string

record 'c trace_globals =
  tg_storage :: "'c ctx_storage option"
  tg_provider :: "(string \<times> exporter list) option"
  tg_out :: "string option"

definition init_tracer :: "tracer_flags \<Rightarrow> string \<Rightarrow> 'c trace_globals \<Rightarrow> 'c trace_globals" where
  "init_tracer F service_name g =
     (let p1 = (if fl_http_enable F then [OtlpHttp (fl_http_url F)] else []);
          filename = fl_file_path F @ ''.'' @ service_name @ ''.otlp'';
          s_out = (case tg_out g of Some f \<Rightarrow> f | None \<Rightarrow> filename)
      in if fl_file_enable F
         then g\<lparr>tg_storage := Some (\<lambda>_. None), tg_out := Some s_out, tg_provider := Some (service_name, p1 @ [OStream s_out])\<rparr>
         else g\<lparr>tg_storage := Some (\<lambda>_. None), tg_provider := Some (service_name, p1)\<rparr>)"

definition cleanup_tracer :: "'c trace_globals \<Rightarrow> 'c trace_globals" where
  "cleanup_tracer g = g\<lparr>tg_provider := None, tg_storage := None\<rparr>"

text \<open>
  A process that cleans up and sets up tracing again, under another name, starts with no contexts; but its spans still go to the
  file of the first set-up, whose name has the first service in it.
\<close>

lemma second_tracer_file:
  assumes "fl_file_enable F" "tg_out g = None" "g2 = init_tracer F service2 (cleanup_tracer (init_tracer F service1 g))"
  shows "tg_storage g2 = Some (\<lambda>_. None)" "tg_out g2 = Some (fl_file_path F @ ''.'' @ service1 @ ''.otlp'')"
    "\<exists>xs. tg_provider g2 = Some (service2, xs @ [OStream (fl_file_path F @ ''.'' @ service1 @ ''.otlp'')])"
  using assms by (simp_all add: init_tracer_def cleanup_tracer_def Let_def)

section \<open>Lemmas\<close>

text \<open>The current span of a bthread.\<close>

definition active :: "('c, 's, 'r) tracer_lib \<Rightarrow> 'c \<Rightarrow> 'c ctx_storage \<Rightarrow> nat \<Rightarrow> 's option" where
  "active T e w t = tl_span T (case storage_abs w t of [] \<Rightarrow> e | c # _ \<Rightarrow> c)"

lemma current_abs:
  assumes "storage_inv w"
  obtains w' where "GetCurrent e w t = Done ((case storage_abs w t of [] \<Rightarrow> e | c # _ \<Rightarrow> c), w')" "storage_inv w'" "storage_abs w' = storage_abs w"
  using ctx.current_spec [OF assms, of e t] by auto

lemma with_active_span_spec:
  assumes "storage_inv w"
  shows "\<exists>tok w'. with_active_span T e s w t = Done (tok, w') \<and> storage_inv w' \<and> storage_abs w' = (storage_abs w)(t := tok # storage_abs w t) \<and>
    tok = tl_set_span T (case storage_abs w t of [] \<Rightarrow> e | c # _ \<Rightarrow> c) s"
proof -
  obtain w1 where w1: "GetCurrent e w t = Done ((case storage_abs w t of [] \<Rightarrow> e | c # _ \<Rightarrow> c), w1)" "storage_inv w1" "storage_abs w1 = storage_abs w"
    using current_abs [OF assms] by blast
  from ctx.attach_spec [OF w1(2), of e t "tl_set_span T (case storage_abs w t of [] \<Rightarrow> e | c # _ \<Rightarrow> c) s"] w1(1,3)
  show ?thesis by (auto simp: with_active_span_def)
qed

context tracer_library
begin

lemma span_spec:
  assumes "storage_inv w"
  shows "\<exists>s tok w'. SPAN T e module name r w t = Done (s, tok, w') \<and> storage_inv w' \<and>
    storage_abs w' = (storage_abs w)(t := tok # storage_abs w t) \<and> active T e w' t = Some s \<and>
    (\<forall>p. active T e w t = Some p \<longrightarrow> tl_trace_id T s = tl_trace_id T p)"
proof -
  obtain w1 where w1: "GetCurrent e w t = Done ((case storage_abs w t of [] \<Rightarrow> e | c # _ \<Rightarrow> c), w1)" "storage_inv w1" "storage_abs w1 = storage_abs w"
    using current_abs [OF assms] by blast
  let ?s = "tl_start T module name None (active T e w t) r"
  from with_active_span_spec [OF w1(2), of T e ?s t] obtain tok w' where
    "with_active_span T e ?s w1 t = Done (tok, w')" "storage_inv w'" "storage_abs w' = (storage_abs w)(t := tok # storage_abs w t)"
    "tl_span T tok = Some ?s" by (auto simp: w1(3) span_set)
  with w1(1) show ?thesis
    by (auto simp: SPAN_def start_span_def active_def [symmetric] start_current) (auto simp: active_def)
qed

lemma nested_spans_trace:
  assumes "storage_inv w" "active T e w t = Some s"
  shows "\<exists>w' s'. nested_spans T e xs w t = Done w' \<and> storage_inv w' \<and> active T e w' t = Some s' \<and> tl_trace_id T s' = tl_trace_id T s"
  using assms
proof (induction xs arbitrary: w s)
  case (Cons x xs)
  obtain m n r where x: "x = (m, n, r)" by (cases x)
  obtain s1 tok w1 where "SPAN T e m n r w t = Done (s1, tok, w1)" "storage_inv w1" "active T e w1 t = Some s1"
    "tl_trace_id T s1 = tl_trace_id T s"
    using span_spec [OF Cons.prems(1), of e m n r t] Cons.prems(2) by blast
  with Cons.IH [of w1 s1] show ?case by (simp add: x)
qed simp

lemma define_span_trace:
  assumes "text_map H norm" "text_map U norm'" "trace_propagator G norm (tl_span T)" "trace_propagator G norm' (tl_span T)"
    and "tl_span T c = Some p" "rq = foldl (\<lambda>c (k, v). carrier_Set H U c k v) rq0 (pg_inject G c)" "storage_inv w"
  shows "\<exists>s tok w'. DEFINE_SPAN H U G T e module name r rq w t = Done (s, tok, w') \<and> storage_inv w' \<and>
    active T e w' t = Some s \<and> tl_trace_id T s = tl_trace_id T p"
proof -
  obtain w1 where w1: "GetCurrent e w t = Done ((case storage_abs w t of [] \<Rightarrow> e | c # _ \<Rightarrow> c), w1)" "storage_inv w1"
    using current_abs [OF assms(7)] by blast
  obtain cur w2 where w2: "GetCurrent e w1 t = Done (cur, w2)" "storage_inv w2" using current_abs [OF w1(2)] by metis
  let ?s = "tl_start T module name (Some p) (tl_span T cur) r"
  obtain tok w3 where w3: "with_active_span T e ?s w2 t = Done (tok, w3)" "storage_inv w3" "active T e w3 t = Some ?s"
    using with_active_span_spec [OF w2(2), of T e ?s t] by (auto simp: active_def span_set)
  have "tl_span T c \<noteq> None" using assms(5) by simp
  from extract_injected [OF assms(1-4) this, of rq0] assms(5,6) w1(1)
  have "\<exists>nc. extract_context H U G e w t rq = Done (nc, w1) \<and> tl_span T nc = Some p" by (simp add: extract_context_def)
  with w2(1) w3 show ?thesis by (auto simp: DEFINE_SPAN_def start_span_def start_parent)
qed

end

text \<open>A scope of a span that is left as it was entered gives the bthread its former context back.\<close>

lemma scope_end:
  assumes "storage_inv w" "storage_abs w t = tok # cs"
  shows "\<exists>w'. Detach e w t tok = Some (Done (True, w')) \<and> storage_inv w' \<and> storage_abs w' = (storage_abs w)(t := cs)"
  using ctx.detach_spec [OF assms(1), of e t tok] by (auto simp: assms(2))

section \<open>An instance\<close>

text \<open>Spans that are only trace ids, and a propagator that writes the bytes of the id.\<close>

definition id_tracer :: "(u8 list option, u8 list, u8 list) tracer_lib" where
  "id_tracer = \<lparr>tl_span = (\<lambda>c. c), tl_set_span = (\<lambda>c s. Some s),
     tl_start = (\<lambda>m n parent cur r. case parent of Some p \<Rightarrow> p | None \<Rightarrow> (case cur of Some p \<Rightarrow> p | None \<Rightarrow> r)),
     tl_trace_id = (\<lambda>s. s), tl_base16 = (\<lambda>bs. concat (map (\<lambda>b. [hex_digit (unat b div 16), hex_digit (unat b mod 16)]) bs))\<rparr>"

interpretation idtracer: tracer_library id_tracer
  by unfold_locales (simp_all add: id_tracer_def)

definition id_propagator :: "u8 list option propagator" where
  "id_propagator = \<lparr>pg_inject = (\<lambda>c. case c of None \<Rightarrow> [] | Some s \<Rightarrow> [(''traceparent'', CHR ''t'' # map (\<lambda>b. char_of (unat b)) s)]),
     pg_extract = (\<lambda>get cur. case get ''traceparent'' of [] \<Rightarrow> cur | _ # v \<Rightarrow> Some (map (\<lambda>c. word_of_nat (of_char c)) v))\<rparr>"

interpretation idprop: trace_propagator id_propagator norm "tl_span id_tracer"
  by unfold_locales (auto simp: id_propagator_def id_tracer_def o_def split: option.splits)

end
