(* ===== verification/Plog.thy ===== *)
theory Plog
  imports Spans
begin

text \<open>
  Log lines: \<^verbatim>\<open>include/pain/base/plog.h\<close>. The macros turn a sequence of keys and values into a format string and its arguments,
  put the trace id of the current span before them, and skip all of this when the level is below the one of the logger. The
  logging library and its formatting are the argument \<open>P\<close>, with the laws \<open>log_library\<close>. A value stands for its formatted text.
\<close>

section \<open>Levels\<close>

fun level_rank :: "level \<Rightarrow> nat" where
  "level_rank LTrace = 0"
| "level_rank LDebug = 1"
| "level_rank LInfo = 2"
| "level_rank LWarn = 3"
| "level_rank LErr = 4"
| "level_rank LCritical = 5"

lemma level_rank_inject: "level_rank a = level_rank b \<Longrightarrow> a = b"
  by (cases a; cases b) simp_all

instantiation level :: linorder
begin

definition less_eq_level :: "level \<Rightarrow> level \<Rightarrow> bool" where
  "less_eq_level a b = (level_rank a \<le> level_rank b)"

definition less_level :: "level \<Rightarrow> level \<Rightarrow> bool" where
  "less_level a b = (level_rank a < level_rank b)"

instance
  by standard (auto simp: less_eq_level_def less_level_def intro: level_rank_inject)

end

section \<open>The logging library\<close>

text \<open>The calls that set up a logger and shut it down.\<close>

datatype log_call = RotatingSink string nat nat bool | InitThreadPool nat nat | AsyncLogger string | SetDefaultLogger
  | SetPattern string | SetLevel level | FlushOn level | FlushEvery nat | Flush | ResetPool | Shutdown

record 'l spdlog =
  sp_should_log :: "'l \<Rightarrow> level \<Rightarrow> bool"
  sp_log :: "'l \<Rightarrow> level \<Rightarrow> string \<Rightarrow> string list \<Rightarrow> 'l"
  sp_call :: "'l \<Rightarrow> log_call \<Rightarrow> 'l"

section \<open>The macros\<close>

type_synonym log_seq = "(string \<times> string) list"

definition key_element :: "nat \<Rightarrow> string \<times> string \<Rightarrow> string" where
  "key_element idx elem = (if idx \<noteq> 0 then '' '' else []) @ fst elem @ '':{}''"

text \<open>\<^verbatim>\<open>BOOST_PP_SEQ_FOR_EACH_I\<close> with the two element macros.\<close>

fun key_elements :: "nat \<Rightarrow> log_seq \<Rightarrow> string" where
  "key_elements idx [] = []"
| "key_elements idx (elem # seq) = key_element idx elem @ key_elements (Suc idx) seq"

definition PLOG_line :: "'l spdlog \<Rightarrow> level \<Rightarrow> log_seq \<Rightarrow> 'l \<Rightarrow> 'l" where
  "PLOG_line P lvl seq l = sp_log P l lvl (key_elements 0 seq) (map snd seq)"

definition TRACE_PLOG ::
  "'l spdlog \<Rightarrow> ('c, 's, 'r) tracer_lib \<Rightarrow> 'c \<Rightarrow> level \<Rightarrow> log_seq \<Rightarrow> 'l \<Rightarrow> 'c ctx_storage \<Rightarrow> nat \<Rightarrow> ('l \<times> 'c ctx_storage) outcome" where
  "TRACE_PLOG P T e lvl seq l w t =
     obind (get_current_trace_id T e w t) (\<lambda>(id, w'). Done (PLOG_line P lvl ((''trace_id'', id) # seq) l, w'))"

text \<open>\<^verbatim>\<open>PLOG_TRACE\<close>, \<^verbatim>\<open>PLOG_DEBUG\<close>, \<^verbatim>\<open>PLOG_INFO\<close>, \<^verbatim>\<open>PLOG_WARN\<close>, \<^verbatim>\<open>PLOG_ERROR\<close> and \<^verbatim>\<open>PLOG_CRITICAL\<close>, by their level.\<close>

definition PLOG ::
  "'l spdlog \<Rightarrow> ('c, 's, 'r) tracer_lib \<Rightarrow> 'c \<Rightarrow> level \<Rightarrow> log_seq \<Rightarrow> 'l \<Rightarrow> 'c ctx_storage \<Rightarrow> nat \<Rightarrow> ('l \<times> 'c ctx_storage) outcome" where
  "PLOG P T e lvl seq l w t = (if sp_should_log P l lvl then TRACE_PLOG P T e lvl seq l w t else Done (l, w))"

section \<open>Setting up\<close>

record logger_options =
  lo_file_name :: string
  lo_name :: string
  lo_file_size :: nat
  lo_flush_period :: nat
  lo_level_log :: level
  lo_rotate :: nat
  lo_queue_size :: nat
  lo_async_threads :: nat

definition default_logger_options :: logger_options where
  "default_logger_options = \<lparr>lo_file_name = [], lo_name = [], lo_file_size = push_bit 20 100, lo_flush_period = 2,
     lo_level_log = LWarn, lo_rotate = 10, lo_queue_size = push_bit 10 32, lo_async_threads = 1\<rparr>"

definition make_logger :: "'l spdlog \<Rightarrow> logger_options \<Rightarrow> 'l \<Rightarrow> 'l" where
  "make_logger P opts l = foldl (sp_call P) l
     [RotatingSink (lo_file_name opts) (lo_file_size opts) (lo_rotate opts) False,
      InitThreadPool (lo_queue_size opts) (lo_async_threads opts), AsyncLogger (lo_name opts), SetDefaultLogger,
      SetPattern ''[%Y-%m-%d %H:%M:%S.%e] [%t] [%n] [%^%l%$] %s:%# %v'', SetLevel (lo_level_log opts), FlushOn LErr,
      FlushEvery (lo_flush_period opts)]"

text \<open>What the guard that \<^verbatim>\<open>make_logger\<close> returns does at the end of the process.\<close>

definition flush_log :: "'l spdlog \<Rightarrow> 'l \<Rightarrow> 'l" where
  "flush_log P l = foldl (sp_call P) l [Flush, ResetPool, Shutdown]"

section \<open>The contract of the library\<close>

text \<open>
  \<open>fmt\<close> formats: text without braces stays, and \<^verbatim>\<open>{}\<close> becomes the next argument. A logger writes a line that it should log and that can be
  formatted. \<open>SetLevel\<close> decides what is logged, and the calls that follow it in \<open>make_logger\<close> do not change that; none of the
  calls of the set-up writes a line.
\<close>

locale log_library =
  fixes P :: "'l spdlog" and fmt :: "string \<Rightarrow> string list \<Rightarrow> string option" and lines :: "'l \<Rightarrow> (level \<times> string) list"
  assumes fmt_end: "fmt [] [] = Some []"
    and fmt_text: "CHR ''{'' \<notin> set x \<Longrightarrow> CHR ''}'' \<notin> set x \<Longrightarrow> fmt (x @ y) vs = map_option ((@) x) (fmt y vs)"
    and fmt_value: "fmt (''{}'' @ y) (v # vs) = map_option ((@) v) (fmt y vs)"
    and log_line: "sp_should_log P l lvl \<Longrightarrow> fmt f vs = Some x \<Longrightarrow> lines (sp_log P l lvl f vs) = lines l @ [(lvl, x)]"
    and set_level: "sp_should_log P (sp_call P l (SetLevel lv)) lvl \<longleftrightarrow> lv \<le> lvl"
    and keeps_level: "c \<in> {FlushOn lv, FlushEvery n} \<Longrightarrow> sp_should_log P (sp_call P l c) lvl = sp_should_log P l lvl"
    and keeps_lines: "c \<notin> {Flush, ResetPool, Shutdown} \<Longrightarrow> lines (sp_call P l c) = lines l"
begin

lemma fmt_key_elements:
  assumes "\<forall>(k, v) \<in> set seq. CHR ''{'' \<notin> set k \<and> CHR ''}'' \<notin> set k"
  shows "fmt (key_elements (Suc idx) seq) (map snd seq) = Some (concat (map (\<lambda>(k, v). '' '' @ k @ '':'' @ v) seq))"
  using assms
proof (induction seq arbitrary: idx)
  case (Cons a seq)
  obtain k v where a: "a = (k, v)" by (cases a)
  have "key_elements (Suc idx) (a # seq) = ('' '' @ k @ '':'') @ ''{}'' @ key_elements (Suc (Suc idx)) seq" by (simp add: a key_element_def)
  then have "fmt (key_elements (Suc idx) (a # seq)) (map snd (a # seq)) =
      map_option ((@) ('' '' @ k @ '':'')) (map_option ((@) v) (fmt (key_elements (Suc (Suc idx)) seq) (map snd seq)))"
    using fmt_text [of "'' '' @ k @ '':''"] fmt_value Cons.prems by (simp only: a) (simp add: fmt_value [simplified])
  with Cons show ?case by (simp add: a)
qed (simp add: fmt_end)

text \<open>The line of a sequence with its trace id.\<close>

lemma fmt_traced:
  assumes "\<forall>(k, v) \<in> set seq. CHR ''{'' \<notin> set k \<and> CHR ''}'' \<notin> set k"
  shows "fmt (key_elements 0 ((''trace_id'', x) # seq)) (x # map snd seq) =
    Some (''trace_id:'' @ x @ concat (map (\<lambda>(k, v). '' '' @ k @ '':'' @ v) seq))"
  using fmt_text [of "''trace_id:''" "''{}'' @ key_elements (Suc 0) seq" "x # map snd seq"]
  by (simp add: key_element_def fmt_value [simplified] fmt_key_elements [OF assms])

lemma should_log_made: "sp_should_log P (make_logger P opts l) lvl \<longleftrightarrow> lo_level_log opts \<le> lvl"
  by (simp add: make_logger_def keeps_level set_level)

lemma lines_made: "lines (make_logger P opts l) = lines l"
  by (simp add: make_logger_def keeps_lines)

lemma plog_writes:
  assumes "\<forall>(k, v) \<in> set seq. CHR ''{'' \<notin> set k \<and> CHR ''}'' \<notin> set k" "sp_should_log P l lvl" "storage_inv w"
  shows "\<exists>l' w'. PLOG P T e lvl seq l w t = Done (l', w') \<and> storage_inv w' \<and> storage_abs w' = storage_abs w \<and>
    lines l' = lines l @ [(lvl, ''trace_id:'' @ get_trace_id T (active T e w t) @ concat (map (\<lambda>(k, v). '' '' @ k @ '':'' @ v) seq))]"
proof -
  obtain w' where "GetCurrent e w t = Done ((case storage_abs w t of [] \<Rightarrow> e | c # _ \<Rightarrow> c), w')" "storage_inv w'" "storage_abs w' = storage_abs w"
    using current_abs [OF assms(3)] by blast
  with log_line [OF assms(2) fmt_traced [OF assms(1)]] assms(2) show ?thesis
    by (simp add: PLOG_def TRACE_PLOG_def get_current_trace_id_def PLOG_line_def active_def)
qed

end

section \<open>An instance\<close>

fun simple_fmt :: "string \<Rightarrow> string list \<Rightarrow> string option" where
  "simple_fmt [] vs = Some []"
| "simple_fmt (c # y) vs =
     (if c = CHR ''{''
      then (case y of [] \<Rightarrow> None
            | d # z \<Rightarrow> if d = CHR ''}'' then (case vs of [] \<Rightarrow> None | v # us \<Rightarrow> map_option ((@) v) (simple_fmt z us)) else None)
      else if c = CHR ''}'' then None else map_option (Cons c) (simple_fmt y vs))"

lemma simple_fmt_text:
  "CHR ''{'' \<notin> set x \<Longrightarrow> CHR ''}'' \<notin> set x \<Longrightarrow> simple_fmt (x @ y) vs = map_option ((@) x) (simple_fmt y vs)"
  by (induction x) (auto simp: map_option_case split: option.splits)

definition list_logger :: "(level \<times> (level \<times> string) list) spdlog" where
  "list_logger = \<lparr>sp_should_log = (\<lambda>l lvl. fst l \<le> lvl),
     sp_log = (\<lambda>l lvl f vs. case simple_fmt f vs of None \<Rightarrow> l | Some x \<Rightarrow> (fst l, snd l @ [(lvl, x)])),
     sp_call = (\<lambda>l c. case c of SetLevel lv \<Rightarrow> (lv, snd l) | _ \<Rightarrow> l)\<rparr>"

interpretation listlog: log_library list_logger simple_fmt snd
  by unfold_locales (auto simp: list_logger_def simple_fmt_text split: log_call.splits)

section \<open>Properties\<close>

text \<open>
  C25: log lines can be followed from a client to the servers. A client that runs a command in a span and injects its context
  into a request, a server that defines the span of its handler from that request, and any functions that the handler calls
  with spans of their own: a log macro used there, at a level that the options of the server's logger admit, writes one line,
  which begins with the trace id of the client's span and continues with the keys and values in their order.
\<close>

theorem handler_logs_client_trace:
  assumes "tracer_library T" "log_library P fmt lines" "text_map H norm" "text_map U norm'"
    and "trace_propagator G norm (tl_span T)" "trace_propagator G norm' (tl_span T)" "storage_inv w" "storage_inv v"
    and "\<forall>(k, v) \<in> set seq. CHR ''{'' \<notin> set k \<and> CHR ''}'' \<notin> set k" "lo_level_log opts \<le> lvl"
  shows "\<exists>s tok w1 rq w2 s' tok' v1 v2 l' v3. SPAN T e module command r w t = Done (s, tok, w1) \<and>
    inject_tracer H U G e w1 t rq0 = Done (rq, w2) \<and> DEFINE_SPAN H U G T e module' handler r' rq v u = Done (s', tok', v1) \<and>
    nested_spans T e calls v1 u = Done v2 \<and> PLOG P T e lvl seq (make_logger P opts l) v2 u = Done (l', v3) \<and>
    lines l' = lines l @ [(lvl, ''trace_id:'' @ get_trace_id T (Some s) @ concat (map (\<lambda>(k, v). '' '' @ k @ '':'' @ v) seq))]"
proof -
  obtain s tok w1 where w1: "SPAN T e module command r w t = Done (s, tok, w1)" "storage_inv w1" "active T e w1 t = Some s"
    using tracer_library.span_spec [OF assms(1,7)] by blast
  obtain c w2 where w2: "GetCurrent e w1 t = Done (c, w2)" "tl_span T c = Some s"
    using current_abs [OF w1(2), of e t] w1(3) by (metis active_def)
  let ?rq = "foldl (\<lambda>c (k, v). carrier_Set H U c k v) rq0 (pg_inject G c)"
  obtain s' tok' v1 where v1: "DEFINE_SPAN H U G T e module' handler r' ?rq v u = Done (s', tok', v1)" "storage_inv v1"
    "active T e v1 u = Some s'" "tl_trace_id T s' = tl_trace_id T s"
    using tracer_library.define_span_trace [OF assms(1,3-6) w2(2) refl assms(8)] by metis
  obtain v2 s2 where v2: "nested_spans T e calls v1 u = Done v2" "storage_inv v2" "active T e v2 u = Some s2" "tl_trace_id T s2 = tl_trace_id T s"
    using tracer_library.nested_spans_trace [OF assms(1) v1(2,3)] v1(4) by metis
  have "sp_should_log P (make_logger P opts l) lvl" using log_library.should_log_made [OF assms(2)] assms(10) by blast
  moreover have "get_trace_id T (active T e v2 u) = get_trace_id T (Some s)" using get_trace_id_cong [OF v2(4)] by (simp add: v2(3))
  ultimately obtain l' v3 where "PLOG P T e lvl seq (make_logger P opts l) v2 u = Done (l', v3)"
    "lines l' = lines l @ [(lvl, ''trace_id:'' @ get_trace_id T (Some s) @ concat (map (\<lambda>(k, v). '' '' @ k @ '':'' @ v) seq))]"
    using log_library.plog_writes [OF assms(2,9) _ v2(2), of "make_logger P opts l" lvl T e u]
    by (auto simp: log_library.lines_made [OF assms(2)])
  with w1(1) w2(1) v1(1) v2(1) show ?thesis by (simp add: inject_tracer_def)
qed

theorem handler_logs_client_trace_witness:
  "\<exists>s tok w1 rq w2 s' tok' v1 v2 l' v3. SPAN id_tracer None ''sad'' ''list-chunk'' (replicate 16 175) (\<lambda>_. None) 0 = Done (s, tok, w1) \<and>
     inject_tracer (keyed_map (map lower_char)) (keyed_map (\<lambda>k. k)) id_propagator None w1 0
       \<lparr>cn_protocol = PROTOCOL_OTHER, cn_headers = (\<lambda>_. None), cn_fields = (\<lambda>_. None)\<rparr> = Done (rq, w2) \<and>
     DEFINE_SPAN (keyed_map (map lower_char)) (keyed_map (\<lambda>k. k)) id_propagator id_tracer None ''manusya'' ''ListChunk'' [] rq (\<lambda>_. None) 3 =
       Done (s', tok', v1) \<and>
     nested_spans id_tracer None [(''manusya'', ''list_chunk'', [])] v1 3 = Done v2 \<and>
     PLOG list_logger id_tracer None LErr [(''desc'', ''x'')] (make_logger list_logger default_logger_options (LTrace, [])) v2 3 = Done (l', v3) \<and>
     snd l' = [(LErr, ''trace_id:'' @ get_trace_id id_tracer (Some s) @ '' desc:x'')]"
proof -
  have inv: "storage_inv (\<lambda>_. None :: u8 list option ctx_stack option)" by (simp add: storage_inv_def)
  have lvl: "lo_level_log default_logger_options \<le> LErr" by (simp add: default_logger_options_def less_eq_level_def)
  have seq: "\<forall>(k, v) \<in> set [(''desc'', ''x'')]. CHR ''{'' \<notin> set k \<and> CHR ''}'' \<notin> set k" by simp
  note run = handler_logs_client_trace [OF idtracer.tracer_library_axioms listlog.log_library_axioms, where norm = "map lower_char"
      and H = "keyed_map (map lower_char)" and U = "keyed_map (\<lambda>k. k)" and norm' = "\<lambda>k. k"]
  from run [OF keyed.text_map_axioms keyed.text_map_axioms idprop.trace_propagator_axioms idprop.trace_propagator_axioms inv inv seq lvl,
      of None "''sad''" "''list-chunk''" "replicate 16 175" 0
      "\<lparr>cn_protocol = PROTOCOL_OTHER, cn_headers = (\<lambda>_. None), cn_fields = (\<lambda>_. None)\<rparr>" "''manusya''" "''ListChunk''" "[]" 3
      "[(''manusya'', ''list_chunk'', [])]" "(LTrace, [])"]
  show ?thesis by simp
qed

end
