(* ===== verification/Void_Futures.thy ===== *)
theory Void_Futures
  imports Futures
begin

text \<open>
  The specialisations of \<^verbatim>\<open>include/pain/base/future.h\<close> for \<^verbatim>\<open>void\<close>, which are written out a second time in the source: a
  shared state without a value, and promises and futures over it. They are shown to behave exactly like the
  general templates at the type with one value.
\<close>

section \<open>The shared state\<close>

datatype void_state = VFuture | VResult | VException string

definition void_failed :: "void_state \<Rightarrow> bool" where
  "void_failed st = (case st of VException _ \<Rightarrow> True | _ \<Rightarrow> False)"

definition void_available :: "void_state \<Rightarrow> bool" where
  "void_available st = (st = VResult \<or> (case st of VException _ \<Rightarrow> True | _ \<Rightarrow> False))"

definition void_set_value :: "void_state \<Rightarrow> void_state outcome" where
  "void_set_value st = obind (boost_assert (st = VFuture) ''state == State::kFuture'') (\<lambda>_. Done VResult)"

definition void_set_exception :: "string \<Rightarrow> void_state \<Rightarrow> void_state" where
  "void_set_exception ex st = VException ex"

fun void_get :: "void_state \<Rightarrow> unit got" where
  "void_get VFuture = Blocks"
| "void_get (VException ex) = Throws ex"
| "void_get VResult = Returns ()"

section \<open>Promises and futures\<close>

record void_heap =
  vh_state :: "nat \<Rightarrow> void_state option"
  vh_next :: nat

definition void_with :: "void_heap \<Rightarrow> nat option \<Rightarrow> (nat \<Rightarrow> void_state \<Rightarrow> 'b outcome) \<Rightarrow> 'b outcome" where
  "void_with H p f = (case p of None \<Rightarrow> null_deref | Some i \<Rightarrow> (case vh_state H i of None \<Rightarrow> null_deref | Some st \<Rightarrow> f i st))"

definition void_put :: "void_heap \<Rightarrow> nat \<Rightarrow> void_state \<Rightarrow> void_heap" where
  "void_put H i st = H\<lparr>vh_state := (vh_state H)(i \<mapsto> st)\<rparr>"

definition void_promise_new :: "void_heap \<Rightarrow> promise \<times> void_heap" where
  "void_promise_new H = (Some (vh_next H), H\<lparr>vh_state := (vh_state H)(vh_next H \<mapsto> VFuture), vh_next := Suc (vh_next H)\<rparr>)"

definition void_promise_destroy :: "void_heap \<Rightarrow> promise \<Rightarrow> void_heap outcome" where
  "void_promise_destroy H p = (case p of None \<Rightarrow> Done H
     | Some i \<Rightarrow> void_with H p (\<lambda>i st.
         Done (if \<not> void_available st then void_put H i (void_set_exception ''Broken Promise'' st) else H)))"

definition void_promise_move :: "promise \<Rightarrow> (promise \<times> promise) outcome" where
  "void_promise_move other = (case other of None \<Rightarrow> null_deref | Some i \<Rightarrow> Done (Some i, None))"

definition void_promise_assign :: "bool \<Rightarrow> promise \<Rightarrow> promise \<Rightarrow> (promise \<times> promise) outcome" where
  "void_promise_assign same this other =
     (if same then Done (this, other) else case other of None \<Rightarrow> null_deref | Some i \<Rightarrow> Done (Some i, None))"

definition void_promise_get_future :: "promise \<Rightarrow> future outcome" where
  "void_promise_get_future p = obind (boost_assert (p \<noteq> None) ''_state'') (\<lambda>_. Done p)"

definition void_promise_set_value :: "void_heap \<Rightarrow> promise \<Rightarrow> void_heap outcome" where
  "void_promise_set_value H p = void_with H p (\<lambda>i st. obind (void_set_value st) (\<lambda>st'. Done (void_put H i st')))"

definition void_promise_set_exception :: "void_heap \<Rightarrow> promise \<Rightarrow> string \<Rightarrow> void_heap outcome" where
  "void_promise_set_exception H p ex = void_with H p (\<lambda>i st. Done (void_put H i (void_set_exception ex st)))"

definition void_future_get :: "void_heap \<Rightarrow> future \<Rightarrow> unit got outcome" where
  "void_future_get H f = void_with H f (\<lambda>i st. Done (void_get st))"

definition void_make_ready_future :: "void_heap \<Rightarrow> (future \<times> void_heap) outcome" where
  "void_make_ready_future H =
     (case void_promise_new H of (p, H1) \<Rightarrow>
        obind (void_promise_set_value H1 p) (\<lambda>H2.
        obind (void_promise_get_future p) (\<lambda>f.
        obind (void_promise_destroy H2 p) (\<lambda>H3. Done (f, H3)))))"

section \<open>Sequences of calls\<close>

text \<open>Calls on promises and futures, with the references they are made on, and what they return.\<close>

datatype promise_call =
    CallNew | CallSetValue promise | CallSetException promise string | CallDestroy promise
  | CallGetFuture promise | CallMove promise | CallAssign bool promise promise | CallGet future | CallReady

datatype call_result = ResUnit | ResRef "nat option" | ResRefs "nat option" "nat option" | ResGot "unit got"

definition void_call :: "void_heap \<Rightarrow> promise_call \<Rightarrow> (call_result \<times> void_heap) outcome" where
  "void_call H c = (case c of
     CallNew \<Rightarrow> (case void_promise_new H of (p, H') \<Rightarrow> Done (ResRef p, H'))
   | CallSetValue p \<Rightarrow> obind (void_promise_set_value H p) (\<lambda>H'. Done (ResUnit, H'))
   | CallSetException p ex \<Rightarrow> obind (void_promise_set_exception H p ex) (\<lambda>H'. Done (ResUnit, H'))
   | CallDestroy p \<Rightarrow> obind (void_promise_destroy H p) (\<lambda>H'. Done (ResUnit, H'))
   | CallGetFuture p \<Rightarrow> obind (void_promise_get_future p) (\<lambda>f. Done (ResRef f, H))
   | CallMove p \<Rightarrow> obind (void_promise_move p) (\<lambda>(a, b). Done (ResRefs a b, H))
   | CallAssign same p q \<Rightarrow> obind (void_promise_assign same p q) (\<lambda>(a, b). Done (ResRefs a b, H))
   | CallGet f \<Rightarrow> obind (void_future_get H f) (\<lambda>g. Done (ResGot g, H))
   | CallReady \<Rightarrow> obind (void_make_ready_future H) (\<lambda>(f, H'). Done (ResRef f, H')))"

definition unit_call :: "unit future_heap \<Rightarrow> promise_call \<Rightarrow> (call_result \<times> unit future_heap) outcome" where
  "unit_call H c = (case c of
     CallNew \<Rightarrow> (case promise_new H of (p, H') \<Rightarrow> Done (ResRef p, H'))
   | CallSetValue p \<Rightarrow> obind (promise_set_value H p ()) (\<lambda>H'. Done (ResUnit, H'))
   | CallSetException p ex \<Rightarrow> obind (promise_set_exception H p ex) (\<lambda>H'. Done (ResUnit, H'))
   | CallDestroy p \<Rightarrow> obind (promise_destroy H p) (\<lambda>H'. Done (ResUnit, H'))
   | CallGetFuture p \<Rightarrow> obind (promise_get_future p) (\<lambda>f. Done (ResRef f, H))
   | CallMove p \<Rightarrow> obind (promise_move p) (\<lambda>(a, b). Done (ResRefs a b, H))
   | CallAssign same p q \<Rightarrow> obind (promise_assign same p q) (\<lambda>(a, b). Done (ResRefs a b, H))
   | CallGet f \<Rightarrow> obind (future_get (\<lambda>_. ()) H f) (\<lambda>(g, H'). Done (ResGot g, H'))
   | CallReady \<Rightarrow> obind (make_ready_future H ()) (\<lambda>(f, H'). Done (ResRef f, H')))"

fun run_calls :: "('h \<Rightarrow> promise_call \<Rightarrow> (call_result \<times> 'h) outcome) \<Rightarrow> 'h \<Rightarrow> promise_call list \<Rightarrow> (call_result list \<times> 'h) outcome" where
  "run_calls call H [] = Done ([], H)"
| "run_calls call H (c # cs) =
     obind (call H c) (\<lambda>(r, H'). obind (run_calls call H' cs) (\<lambda>(rs, H''). Done (r # rs, H'')))"

section \<open>The correspondence\<close>

fun void_abs :: "void_state \<Rightarrow> unit future_state" where
  "void_abs VFuture = KFuture"
| "void_abs VResult = KResult ()"
| "void_abs (VException ex) = KException ex"

definition heap_abs :: "void_heap \<Rightarrow> unit future_heap" where
  "heap_abs H = \<lparr>fh_state = (\<lambda>i. map_option void_abs (vh_state H i)), fh_next = vh_next H\<rparr>"

fun omap :: "('a \<Rightarrow> 'b) \<Rightarrow> 'a outcome \<Rightarrow> 'b outcome" where
  "omap f (Done x) = Done (f x)"
| "omap f (Abort m) = Abort m"

lemma heap_abs_put: "put_state (heap_abs H) i (void_abs st) = heap_abs (void_put H i st)"
  by (auto simp: heap_abs_def put_state_def void_put_def fun_eq_iff)

lemma with_abs:
  assumes "\<And>i st. f' i (void_abs st) = omap g (f i st)"
  shows "with_state (heap_abs H) p f' = omap g (void_with H p f)"
  using assms by (auto simp: with_state_def void_with_def heap_abs_def null_deref_def split: option.splits)

lemma state_abs:
  "fs_failed (void_abs st) = void_failed st" "fs_available (void_abs st) = void_available st"
  "fs_set_value () (void_abs st) = omap void_abs (void_set_value st)"
  "fs_set_exception ex (void_abs st) = void_abs (void_set_exception ex st)"
  "fs_get (\<lambda>_. ()) (void_abs st) = (void_get st, void_abs st)"
  by (cases st; simp add: void_failed_def void_available_def fs_set_value_def void_set_value_def boost_assert_def
      fs_set_exception_def void_set_exception_def)+

lemma new_abs: "promise_new (heap_abs H) = map_prod (\<lambda>p. p) heap_abs (void_promise_new H)"
  by (auto simp: promise_new_def void_promise_new_def heap_abs_def fun_eq_iff)

lemma set_value_abs: "promise_set_value (heap_abs H) p () = omap heap_abs (void_promise_set_value H p)"
  unfolding promise_set_value_def void_promise_set_value_def
proof (rule with_abs)
  fix i st
  show "obind (fs_set_value () (void_abs st)) (\<lambda>st'. Done (put_state (heap_abs H) i st')) =
      omap heap_abs (obind (void_set_value st) (\<lambda>st'. Done (void_put H i st')))"
    by (cases "void_set_value st") (simp_all add: state_abs heap_abs_put)
qed

lemma set_exception_abs: "promise_set_exception (heap_abs H) p ex = omap heap_abs (void_promise_set_exception H p ex)"
  unfolding promise_set_exception_def void_promise_set_exception_def
  by (rule with_abs) (simp add: state_abs heap_abs_put)

lemma destroy_abs: "promise_destroy (heap_abs H) p = omap heap_abs (void_promise_destroy H p)"
  unfolding promise_destroy_def void_promise_destroy_def
  by (cases p) (auto simp: state_abs heap_abs_put intro!: with_abs)

lemma get_abs: "future_get (\<lambda>_. ()) (heap_abs H) f = omap (\<lambda>g. (g, heap_abs H)) (void_future_get H f)"
proof (cases f)
  case None
  then show ?thesis by (simp add: future_get_def void_future_get_def with_state_def void_with_def null_deref_def)
next
  case (Some i)
  have "put_state (heap_abs H) i (void_abs st) = heap_abs H" if "vh_state H i = Some st" for st
    using that by (auto simp: heap_abs_def put_state_def fun_eq_iff)
  then show ?thesis
    using Some by (auto simp: future_get_def void_future_get_def with_state_def void_with_def null_deref_def heap_abs_def state_abs
        split: option.splits)
qed

lemma ready_abs: "make_ready_future (heap_abs H) () = omap (map_prod (\<lambda>f. f) heap_abs) (void_make_ready_future H)"
proof -
  obtain p H1 where n: "void_promise_new H = (p, H1)" by fastforce
  show ?thesis
  proof (cases "void_promise_set_value H1 p")
    case (Done H2)
    then show ?thesis
      by (cases "void_promise_destroy H2 p")
        (simp_all add: make_ready_future_def void_make_ready_future_def n new_abs set_value_abs destroy_abs
          promise_get_future_def void_promise_get_future_def boost_assert_def)
  qed (simp add: make_ready_future_def void_make_ready_future_def n new_abs set_value_abs)
qed

lemma call_abs: "unit_call (heap_abs H) c = omap (map_prod (\<lambda>r. r) heap_abs) (void_call H c)"
proof (cases c)
  case CallNew
  then show ?thesis by (simp add: unit_call_def void_call_def new_abs split: prod.splits)
next
  case (CallSetValue p)
  then show ?thesis
    by (cases "void_promise_set_value H p") (simp_all add: unit_call_def void_call_def set_value_abs)
next
  case (CallSetException p ex)
  then show ?thesis
    by (cases "void_promise_set_exception H p ex") (simp_all add: unit_call_def void_call_def set_exception_abs)
next
  case (CallDestroy p)
  then show ?thesis by (cases "void_promise_destroy H p") (simp_all add: unit_call_def void_call_def destroy_abs)
next
  case (CallGetFuture p)
  then show ?thesis
    by (simp add: unit_call_def void_call_def promise_get_future_def void_promise_get_future_def boost_assert_def)
next
  case (CallMove p)
  then show ?thesis by (cases p) (simp_all add: unit_call_def void_call_def promise_move_def void_promise_move_def null_deref_def)
next
  case (CallAssign same p q)
  then show ?thesis
    by (cases q) (simp_all add: unit_call_def void_call_def promise_assign_def void_promise_assign_def null_deref_def)
next
  case (CallGet f)
  then show ?thesis by (cases "void_future_get H f") (simp_all add: unit_call_def void_call_def get_abs)
next
  case CallReady
  then show ?thesis
    by (cases "void_make_ready_future H") (auto simp: unit_call_def void_call_def ready_abs)
qed

section \<open>Properties\<close>

text \<open>
  The specialisations for \<^verbatim>\<open>void\<close> are equivalent to the general templates at the type with one value: every
  sequence of calls on promises and futures gives the same results on both, fails the same assertion on both
  if it fails one, and leaves corresponding shared states.
\<close>

theorem void_futures_equivalent:
  "run_calls unit_call (heap_abs H) cs = omap (map_prod (\<lambda>rs. rs) heap_abs) (run_calls void_call H cs)"
proof (induction cs arbitrary: H)
  case (Cons c cs)
  show ?case
  proof (cases "void_call H c")
    case (Done x)
    obtain r H' where x: "x = (r, H')" by fastforce
    show ?thesis by (cases "run_calls void_call H' cs") (auto simp: call_abs Done x Cons.IH)
  qed (simp add: call_abs)
qed simp

end
