(* ===== verification/Results.thy ===== *)
theory Results
  imports Prelude
begin

text \<open>
  The result type of \<^verbatim>\<open>include/pain/base/result.h\<close>: a value or an error. Asking for the alternative that is not there
  fails an assertion. The functions that \<^verbatim>\<open>map\<close> and \<^verbatim>\<open>map_or\<close> are given are pure here.
\<close>

section \<open>Definitions\<close>

datatype ('t, 'e) result = Ok 't | Err 'e

definition is_ok :: "('t, 'e) result \<Rightarrow> bool" where
  "is_ok r = (case r of Ok _ \<Rightarrow> True | Err _ \<Rightarrow> False)"

definition is_err :: "('t, 'e) result \<Rightarrow> bool" where
  "is_err r = (case r of Ok _ \<Rightarrow> False | Err _ \<Rightarrow> True)"

text \<open>\<^verbatim>\<open>std::get\<close> on the alternatives.\<close>

definition get_ok :: "('t, 'e) result \<Rightarrow> 't outcome" where
  "get_ok r = (case r of Ok v \<Rightarrow> Done v | Err _ \<Rightarrow> Abort ''bad_variant_access'')"

definition get_err :: "('t, 'e) result \<Rightarrow> 'e outcome" where
  "get_err r = (case r of Ok _ \<Rightarrow> Abort ''bad_variant_access'' | Err x \<Rightarrow> Done x)"

definition result_value :: "('t, 'e) result \<Rightarrow> 't outcome" where
  "result_value r = obind (boost_assert (is_ok r) ''value error'') (\<lambda>_. get_ok r)"

definition value_or :: "('t, 'e) result \<Rightarrow> 't \<Rightarrow> 't outcome" where
  "value_or r v = (if is_ok r then get_ok r else Done v)"

definition result_err :: "('t, 'e) result \<Rightarrow> 'e outcome" where
  "result_err r = obind (boost_assert (\<not> is_ok r) ''err error'') (\<lambda>_. get_err r)"

definition unwrap :: "('t, 'e) result \<Rightarrow> 't outcome" where
  "unwrap r = obind (boost_assert (is_ok r) ''unwrap error'') (\<lambda>_. get_ok r)"

definition unwrap_or :: "('t, 'e) result \<Rightarrow> 't \<Rightarrow> 't outcome" where
  "unwrap_or r v = (if is_ok r then get_ok r else Done v)"

definition expect :: "('t, 'e) result \<Rightarrow> string \<Rightarrow> 't outcome" where
  "expect r msg = obind (boost_assert (is_ok r) msg) (\<lambda>_. get_ok r)"

definition unwrap_err :: "('t, 'e) result \<Rightarrow> 'e outcome" where
  "unwrap_err r = obind (boost_assert (\<not> is_ok r) ''unwrap error'') (\<lambda>_. get_err r)"

definition result_map :: "('t, 'e) result \<Rightarrow> ('t \<Rightarrow> 'u) \<Rightarrow> ('u, 'e) result outcome" where
  "result_map r f = (if is_ok r then obind (get_ok r) (\<lambda>v. Done (Ok (f v))) else obind (get_err r) (\<lambda>x. Done (Err x)))"

definition map_or :: "('t, 'e) result \<Rightarrow> 'u \<Rightarrow> ('t \<Rightarrow> 'u) \<Rightarrow> ('u, 'e) result outcome" where
  "map_or r u f = (if is_ok r then obind (get_ok r) (\<lambda>v. Done (Ok (f v))) else Done (Ok u))"

section \<open>Lemmas\<close>

lemmas result_defs = is_ok_def is_err_def get_ok_def get_err_def result_value_def value_or_def result_err_def unwrap_def unwrap_or_def
  expect_def unwrap_err_def result_map_def map_or_def boost_assert_def

text \<open>An access never reaches the exception of \<^verbatim>\<open>std::get\<close>: the assertion comes first.\<close>

lemma access_outcomes:
  "result_value r = (case r of Ok v \<Rightarrow> Done v | Err _ \<Rightarrow> Abort ''value error'')"
  "unwrap r = (case r of Ok v \<Rightarrow> Done v | Err _ \<Rightarrow> Abort ''unwrap error'')"
  "expect r msg = (case r of Ok v \<Rightarrow> Done v | Err _ \<Rightarrow> Abort msg)"
  "unwrap_err r = (case r of Ok _ \<Rightarrow> Abort ''unwrap error'' | Err x \<Rightarrow> Done x)"
  "result_err r = (case r of Ok _ \<Rightarrow> Abort ''err error'' | Err x \<Rightarrow> Done x)"
  by (cases r; simp add: result_defs)+

lemma is_err_iff: "is_err r \<longleftrightarrow> \<not> is_ok r"
  by (cases r) (simp_all add: result_defs)

lemma result_map_compose: "obind (result_map r f) (\<lambda>r'. result_map r' g) = result_map r (g \<circ> f)"
  by (cases r) (simp_all add: result_defs)

text \<open>\<^verbatim>\<open>map_or\<close> always gives a value, and is \<^verbatim>\<open>unwrap_or\<close> after \<^verbatim>\<open>map\<close>.\<close>

lemma map_or_unwrap: "obind (map_or r u f) unwrap = obind (result_map r f) (\<lambda>r'. unwrap_or r' u)"
  by (cases r) (simp_all add: result_defs)

end
