(* ===== verification/Erasure_Decode.thy ===== *)
theory Erasure_Decode
  imports Prelude
begin

text \<open>
  The recovery matrix of the erasure code demonstration: \<^verbatim>\<open>gf_gen_decode_matrix_simple\<close> of
  \<^verbatim>\<open>src/examples/ec/ec_demo.c\<close>. A C array is a list, and reading or writing outside of it is an \<open>Abort\<close>. The arithmetic of
  bytes and the inversion of a matrix belong to the library ISA-L, which is the argument \<open>I\<close>. The lemmas show that every
  access is in range, and which rows the function computes.
\<close>

section \<open>Arrays and loops\<close>

definition arr_get :: "'a list \<Rightarrow> nat \<Rightarrow> 'a outcome" where
  "arr_get xs i = (if i < length xs then Done (xs ! i) else Abort ''read out of range'')"

definition arr_set :: "'a list \<Rightarrow> nat \<Rightarrow> 'a \<Rightarrow> 'a list outcome" where
  "arr_set xs i v = (if i < length xs then Done (xs[i := v]) else Abort ''write out of range'')"

definition arr_slice :: "'a list \<Rightarrow> nat \<Rightarrow> nat \<Rightarrow> 'a list outcome" where
  "arr_slice xs i n = (if i + n \<le> length xs then Done (take n (drop i xs)) else Abort ''read out of range'')"

text \<open>\<^verbatim>\<open>for (i = lo; i < lo + n; i++)\<close>\<close>

fun for_loop :: "nat \<Rightarrow> nat \<Rightarrow> (nat \<Rightarrow> 's \<Rightarrow> 's outcome) \<Rightarrow> 's \<Rightarrow> 's outcome" where
  "for_loop lo 0 f s = Done s"
| "for_loop lo (Suc n) f s = obind (f lo s) (for_loop (Suc lo) n f)"

section \<open>The library\<close>

text \<open>
  \<open>gl_invert a n\<close>: the result of \<^verbatim>\<open>gf_invert_matrix\<close>, what it leaves of its input, and its output. \<open>gl_tables k rows a\<close>: the
  \<open>32 * k * rows\<close> bytes that \<^verbatim>\<open>ec_init_tables\<close> writes. \<open>gl_encode len k rows g src\<close>: the buffers that \<^verbatim>\<open>ec_encode_data\<close> writes.
\<close>

record isal =
  gl_mul :: "u8 \<Rightarrow> u8 \<Rightarrow> u8"
  gl_cauchy :: "nat \<Rightarrow> nat \<Rightarrow> u8 list"
  gl_invert :: "u8 list \<Rightarrow> nat \<Rightarrow> int \<times> u8 list \<times> u8 list"
  gl_tables :: "nat \<Rightarrow> nat \<Rightarrow> u8 list \<Rightarrow> u8 list"
  gl_encode :: "nat \<Rightarrow> nat \<Rightarrow> nat \<Rightarrow> u8 list \<Rightarrow> u8 list list \<Rightarrow> u8 list list"

section \<open>The function\<close>

definition MMAX :: nat where "MMAX = 255"

text \<open>\<^verbatim>\<open>while (frag_in_err[r]) r++;\<close>\<close>

function skip_erased :: "u8 list \<Rightarrow> nat \<Rightarrow> nat outcome" where
  "skip_erased xs r =
     (if r < length xs then if xs ! r \<noteq> 0 then skip_erased xs (Suc r) else Done r
      else Abort ''read out of range'')"
  by pat_completeness auto
termination
  by (relation "measure (\<lambda>(xs, r). length xs - r)") auto

declare skip_erased.simps [simp del]

text \<open>The loop that marks the lost fragments; the variable \<^verbatim>\<open>nsrcerrs\<close> that it also counts is not used.\<close>

definition mark_erased :: "u8 list \<Rightarrow> nat \<Rightarrow> u8 list \<Rightarrow> u8 list outcome" where
  "mark_erased frag_err_list nerrs =
     for_loop 0 nerrs (\<lambda>i fe. obind (arr_get frag_err_list i) (\<lambda>e. arr_set fe (unat e) 1))"

text \<open>The loop that collects the rows of the encode matrix which belong to the remaining fragments.\<close>

definition collect_rows ::
  "u8 list \<Rightarrow> u8 list \<Rightarrow> nat \<Rightarrow> u8 list \<times> u8 list \<times> nat \<Rightarrow> (u8 list \<times> u8 list \<times> nat) outcome" where
  "collect_rows encode_matrix frag_in_err k =
     for_loop 0 k (\<lambda>i (b, decode_index, r0).
       obind (skip_erased frag_in_err r0) (\<lambda>r.
       obind (for_loop 0 k (\<lambda>j b. obind (arr_get encode_matrix (k * r + j)) (\<lambda>v. arr_set b (k * i + j) v)) b) (\<lambda>b'.
       obind (arr_set decode_index i (word_of_nat r)) (\<lambda>di. Done (b', di, Suc r)))))"

text \<open>The rows of the decode matrix for lost source fragments, and for lost parity fragments.\<close>

definition source_rows :: "u8 list \<Rightarrow> u8 list \<Rightarrow> nat \<Rightarrow> nat \<Rightarrow> u8 list \<Rightarrow> u8 list outcome" where
  "source_rows invert_matrix frag_err_list nerrs k =
     for_loop 0 nerrs (\<lambda>i dm. obind (arr_get frag_err_list i) (\<lambda>e.
       if unat e < k
       then for_loop 0 k (\<lambda>j dm. obind (arr_get invert_matrix (k * unat e + j)) (\<lambda>v. arr_set dm (k * i + j) v)) dm
       else Done dm))"

definition parity_rows :: "isal \<Rightarrow> u8 list \<Rightarrow> u8 list \<Rightarrow> u8 list \<Rightarrow> nat \<Rightarrow> nat \<Rightarrow> u8 list \<Rightarrow> u8 list outcome" where
  "parity_rows I encode_matrix invert_matrix frag_err_list nerrs k =
     for_loop 0 nerrs (\<lambda>p dm. obind (arr_get frag_err_list p) (\<lambda>e.
       if unat e \<ge> k
       then for_loop 0 k (\<lambda>i dm.
              obind (for_loop 0 k (\<lambda>j s.
                obind (arr_get invert_matrix (j * k + i)) (\<lambda>x.
                obind (arr_get encode_matrix (k * unat e + j)) (\<lambda>y. Done (s XOR gl_mul I x y)))) 0)
                (\<lambda>s. arr_set dm (k * p + i) s)) dm
       else Done dm))"

definition gf_gen_decode_matrix_simple ::
  "isal \<Rightarrow> u8 list \<Rightarrow> u8 list \<Rightarrow> u8 list \<Rightarrow> u8 list \<Rightarrow> u8 list \<Rightarrow> nat \<Rightarrow> nat \<Rightarrow> (int \<times> u8 list \<times> u8 list) outcome" where
  "gf_gen_decode_matrix_simple I encode_matrix decode_matrix temp_matrix decode_index frag_err_list nerrs k =
     obind (mark_erased frag_err_list nerrs (replicate MMAX 0)) (\<lambda>frag_in_err.
     obind (collect_rows encode_matrix frag_in_err k (temp_matrix, decode_index, 0)) (\<lambda>(b, di, _).
     case gl_invert I b k of (ret, _, im) \<Rightarrow>
       if ret < 0 then Done (-1, decode_matrix, di)
       else obind (source_rows im frag_err_list nerrs k decode_matrix) (\<lambda>dm1.
            obind (parity_rows I encode_matrix im frag_err_list nerrs k dm1) (\<lambda>dm2.
            Done (0, dm2, di)))))"

section \<open>Lemmas on loops\<close>

lemma arr_simps [simp]:
  "i < length xs \<Longrightarrow> arr_get xs i = Done (xs ! i)" "i < length xs \<Longrightarrow> arr_set xs i v = Done (xs[i := v])"
  by (simp_all add: arr_get_def arr_set_def)

lemma obind_assoc: "obind (obind x f) g = obind x (\<lambda>y. obind (f y) g)"
  by (cases x) simp_all

text \<open>The invariant rule.\<close>

lemma for_loop_inv:
  assumes "P lo s" "\<And>i s. lo \<le> i \<Longrightarrow> i < lo + n \<Longrightarrow> P i s \<Longrightarrow> \<exists>s'. f i s = Done s' \<and> P (Suc i) s'"
  shows "\<exists>s'. for_loop lo n f s = Done s' \<and> P (lo + n) s'"
  using assms
proof (induction n arbitrary: lo s)
  case (Suc n)
  obtain s1 where "f lo s = Done s1" "P (Suc lo) s1" using Suc.prems(2) [of lo s] Suc.prems(1) by auto
  moreover have "\<exists>s'. for_loop (Suc lo) n f s1 = Done s' \<and> P (Suc lo + n) s'"
    using Suc.prems(2) calculation(2) by (intro Suc.IH) auto
  ultimately show ?case by simp
qed simp

text \<open>A loop that writes the values \<open>v\<close> into consecutive places of an array.\<close>

lemma fill_loop:
  assumes "\<And>j. j < n \<Longrightarrow> g j = Done (v j)" "off + n \<le> length xs"
  shows "\<exists>ys. for_loop 0 n (\<lambda>j ys. obind (g j) (\<lambda>x. arr_set ys (off + j) x)) xs = Done ys \<and> length ys = length xs \<and>
    (\<forall>x < length xs. ys ! x = (if off \<le> x \<and> x < off + n then v (x - off) else xs ! x))"
proof -
  let ?P = "\<lambda>i ys. length ys = length xs \<and> (\<forall>x < length xs. ys ! x = (if off \<le> x \<and> x < off + i then v (x - off) else xs ! x))"
  have "\<exists>ys. for_loop 0 n (\<lambda>j ys. obind (g j) (\<lambda>x. arr_set ys (off + j) x)) xs = Done ys \<and> ?P (0 + n) ys"
  proof (rule for_loop_inv)
    fix i ys assume i: "i < 0 + n" "?P i ys"
    then have "arr_set ys (off + i) (v i) = Done (ys[off + i := v i])" using assms(2) by simp
    moreover have "?P (Suc i) (ys[off + i := v i])" using i assms(2) by (auto simp: nth_list_update less_Suc_eq)
    ultimately show "\<exists>ys'. obind (g i) (arr_set ys (off + i)) = Done ys' \<and> ?P (Suc i) ys'" using assms(1) i(1) by simp
  qed auto
  then show ?thesis by simp
qed

section \<open>Sums of bytes\<close>

fun xsum :: "(nat \<Rightarrow> u8) \<Rightarrow> nat \<Rightarrow> u8" where
  "xsum f 0 = 0"
| "xsum f (Suc n) = xsum f n XOR f n"

lemma xsum_cong: "(\<And>i. i < n \<Longrightarrow> f i = g i) \<Longrightarrow> xsum f n = xsum g n"
  by (induction n) simp_all

lemma xsum_zero [simp]: "xsum (\<lambda>i. 0) n = 0"
  by (induction n) simp_all

lemma xsum_xor: "xsum (\<lambda>i. f i XOR g i) n = xsum f n XOR xsum g n"
  by (induction n) (simp_all add: ac_simps)

lemma xsum_swap: "xsum (\<lambda>i. xsum (f i) m) n = xsum (\<lambda>j. xsum (\<lambda>i. f i j) n) m"
  by (induction n) (simp_all add: xsum_xor)

lemma xsum_delta: "l < n \<Longrightarrow> xsum (\<lambda>i. if i = l then f i else 0) n = f l"
proof (induction n)
  case (Suc n)
  show ?case
  proof (cases "l = n")
    case True
    then have "xsum (\<lambda>i. if i = l then f i else 0) n = xsum (\<lambda>i. 0) n" by (intro xsum_cong) simp
    with True show ?thesis by simp
  next
    case False
    with Suc show ?thesis by simp
  qed
qed simp

lemma xsum_loop:
  assumes "\<And>j. j < n \<Longrightarrow> g j = Done (v j)"
  shows "for_loop 0 n (\<lambda>j s. obind (g j) (\<lambda>x. Done (s XOR x))) 0 = Done (xsum v n)"
proof -
  have "\<exists>s. for_loop 0 n (\<lambda>j s. obind (g j) (\<lambda>x. Done (s XOR x))) 0 = Done s \<and> s = xsum v (0 + n)"
    by (rule for_loop_inv) (use assms in simp_all)
  then show ?thesis by simp
qed

locale byte_ring =
  fixes mul :: "u8 \<Rightarrow> u8 \<Rightarrow> u8"
  assumes mul_commute: "mul x y = mul y x"
    and mul_assoc: "mul (mul x y) z = mul x (mul y z)"
    and mul_xor: "mul x (y XOR z) = mul x y XOR mul x z"
    and mul_one: "mul x 1 = x"
begin

lemma mul_zero [simp]: "mul x 0 = 0" "mul 0 x = 0"
  using mul_xor [of x 0 0] mul_commute by simp_all

lemma mul_xsum: "mul x (xsum f n) = xsum (\<lambda>i. mul x (f i)) n"
  by (induction n) (simp_all add: mul_xor)

lemma xsum_mul: "mul (xsum f n) x = xsum (\<lambda>i. mul (f i) x) n"
  using mul_xsum mul_commute by simp

lemma one_mul: "mul 1 x = x"
  using mul_one mul_commute by metis

lemma mul_delta: "l < n \<Longrightarrow> xsum (\<lambda>i. mul (if l = i then 1 else 0) (f i)) n = f l"
proof -
  assume l: "l < n"
  have "xsum (\<lambda>i. mul (if l = i then 1 else 0) (f i)) n = xsum (\<lambda>i. if i = l then f i else 0) n"
    by (intro xsum_cong) (auto simp: one_mul)
  then show ?thesis using xsum_delta [OF l] by simp
qed

text \<open>Applying \<open>e\<close> times a left inverse \<open>v\<close> of \<open>b\<close> to \<open>b\<close> times the data gives \<open>e\<close> times the data.\<close>

lemma left_inverse_applies:
  assumes "\<And>l t. l < k \<Longrightarrow> t < k \<Longrightarrow> xsum (\<lambda>j. mul (v l j) (b j t)) k = (if l = t then 1 else 0)"
  shows "xsum (\<lambda>j. mul (xsum (\<lambda>l. mul (e l) (v l j)) k) (xsum (\<lambda>t. mul (b j t) (d t)) k)) k = xsum (\<lambda>l. mul (e l) (d l)) k"
proof -
  have "xsum (\<lambda>j. mul (xsum (\<lambda>l. mul (e l) (v l j)) k) (xsum (\<lambda>t. mul (b j t) (d t)) k)) k =
      xsum (\<lambda>j. xsum (\<lambda>l. xsum (\<lambda>t. mul (e l) (mul (mul (v l j) (b j t)) (d t))) k) k) k"
    by (rule xsum_cong, simp add: xsum_mul mul_xsum mul_assoc) (rule xsum_swap)
  also have "\<dots> = xsum (\<lambda>l. xsum (\<lambda>t. xsum (\<lambda>j. mul (e l) (mul (mul (v l j) (b j t)) (d t))) k) k) k"
    by (subst xsum_swap, rule xsum_cong, rule xsum_swap)
  also have "\<dots> = xsum (\<lambda>l. mul (e l) (xsum (\<lambda>t. mul (xsum (\<lambda>j. mul (v l j) (b j t)) k) (d t)) k)) k"
    by (simp add: xsum_mul mul_xsum)
  also have "\<dots> = xsum (\<lambda>l. mul (e l) (d l)) k"
  proof (rule xsum_cong)
    fix l assume l: "l < k"
    then have "xsum (\<lambda>t. mul (xsum (\<lambda>j. mul (v l j) (b j t)) k) (d t)) k = xsum (\<lambda>t. mul (if l = t then 1 else 0) (d t)) k"
      using assms by (intro xsum_cong) simp
    then show "mul (e l) (xsum (\<lambda>t. mul (xsum (\<lambda>j. mul (v l j) (b j t)) k) (d t)) k) = mul (e l) (d l)"
      using mul_delta [OF l] by simp
  qed
  finally show ?thesis .
qed

end

section \<open>Lemmas on the function\<close>

lemma row_step: "a < i \<Longrightarrow> k * a + k \<le> (k * i :: nat)"
  by (metis Suc_leI add.commute mult_Suc_right mult_le_mono2)

lemma row_cell:
  fixes k :: nat
  assumes "j < k"
  shows "k * i \<le> k * a + j \<and> k * a + j < k * i + k \<longleftrightarrow> a = i"
  using assms row_step [of a i k] row_step [of i a k] by (cases a i rule: linorder_cases) auto

lemma row_in_range: "j < k \<Longrightarrow> r < m \<Longrightarrow> k * r + j < (m * k :: nat)"
  using row_step [of r m k] by (simp add: mult.commute)

lemma mark_erased_ok:
  assumes "nerrs \<le> length errs" "\<forall>i<nerrs. unat (errs ! i) < length fe"
  shows "\<exists>fe'. mark_erased errs nerrs fe = Done fe' \<and> length fe' = length fe \<and>
    (\<forall>x < length fe. fe' ! x = (if \<exists>i<nerrs. unat (errs ! i) = x then 1 else fe ! x))"
proof -
  let ?P = "\<lambda>n fe'. length fe' = length fe \<and> (\<forall>x < length fe. fe' ! x = (if \<exists>i<n. unat (errs ! i) = x then 1 else fe ! x))"
  have "\<exists>fe'. mark_erased errs nerrs fe = Done fe' \<and> ?P (0 + nerrs) fe'"
    unfolding mark_erased_def
    by (rule for_loop_inv) (use assms in \<open>auto simp: nth_list_update less_Suc_eq\<close>)
  then show ?thesis by simp
qed

lemma skip_erased_ok:
  assumes "r \<le> x" "x < length fe" "fe ! x = 0"
  shows "\<exists>r'. skip_erased fe r = Done r' \<and> r \<le> r' \<and> r' \<le> x \<and> fe ! r' = 0 \<and> (\<forall>y. r \<le> y \<longrightarrow> y < r' \<longrightarrow> fe ! y \<noteq> 0)"
  using assms
proof (induction fe r rule: skip_erased.induct)
  case (1 fe r)
  show ?case
  proof (cases "fe ! r = 0")
    case True
    then show ?thesis using "1.prems" by (simp add: skip_erased.simps [of fe r])
  next
    case False
    then have "Suc r \<le> x" using "1.prems" by (metis le_neq_implies_less Suc_leI)
    with 1 False obtain r' where "skip_erased fe (Suc r) = Done r'" "Suc r \<le> r'" "r' \<le> x" "fe ! r' = 0"
      "\<forall>y. Suc r \<le> y \<longrightarrow> y < r' \<longrightarrow> fe ! y \<noteq> 0" by auto
    moreover have "skip_erased fe r = skip_erased fe (Suc r)" using False "1.prems" by (simp add: skip_erased.simps [of fe r])
    ultimately show ?thesis using False by (metis Suc_leD Suc_leI le_neq_implies_less)
  qed
qed

text \<open>A loop over the rows of a matrix that writes the rows whose index satisfies \<open>c\<close>.\<close>

lemma rows_loop:
  assumes "n \<le> length errs" "k * n \<le> length dm" "\<And>i j. i < n \<Longrightarrow> c (errs ! i) \<Longrightarrow> j < k \<Longrightarrow> g (errs ! i) j = Done (v (errs ! i) j)"
  shows "\<exists>dm'. for_loop 0 n (\<lambda>i dm. obind (arr_get errs i) (\<lambda>e. if c e
        then for_loop 0 k (\<lambda>j dm. obind (g e j) (\<lambda>x. arr_set dm (k * i + j) x)) dm else Done dm)) dm = Done dm' \<and>
     length dm' = length dm \<and>
     (\<forall>i<n. \<forall>j<k. dm' ! (k * i + j) = (if c (errs ! i) then v (errs ! i) j else dm ! (k * i + j)))"
  (is "\<exists>dm'. for_loop 0 n ?f dm = Done dm' \<and> _")
proof -
  let ?P = "\<lambda>m dm'. length dm' = length dm \<and>
     (\<forall>i<n. \<forall>j<k. dm' ! (k * i + j) = (if i < m \<and> c (errs ! i) then v (errs ! i) j else dm ! (k * i + j)))"
  have "\<exists>dm'. for_loop 0 n ?f dm = Done dm' \<and> ?P (0 + n) dm'"
  proof (rule for_loop_inv)
    fix i dm1 assume i: "i < 0 + n" and P: "?P i dm1"
    show "\<exists>s'. ?f i dm1 = Done s' \<and> ?P (Suc i) s'"
    proof (cases "c (errs ! i)")
      case True
      have "k * i + k \<le> k * n" using i row_step by simp
      then have "k * i + k \<le> length dm1" using assms(2) P by linarith
      from fill_loop [of k "g (errs ! i)" "v (errs ! i)", OF assms(3) this] i True obtain ys where
        ys: "for_loop 0 k (\<lambda>j dm. obind (g (errs ! i) j) (\<lambda>x. arr_set dm (k * i + j) x)) dm1 = Done ys" "length ys = length dm1"
        "\<forall>x < length dm1. ys ! x = (if k * i \<le> x \<and> x < k * i + k then v (errs ! i) (x - k * i) else dm1 ! x)" by auto
      have "ys ! (k * a + j) = (if a = i then v (errs ! i) j else dm1 ! (k * a + j))" if "a < n" "j < k" for a j
      proof -
        have "k * a + j < length dm1" using row_in_range [OF that(2,1)] assms(2) P by (simp add: mult.commute)
        then show ?thesis using ys(3) row_cell [OF that(2), of i a] by auto
      qed
      then have "?P (Suc i) ys" using P True ys(2) i by (auto simp: less_Suc_eq)
      then show ?thesis using ys(1) True i assms(1) by simp
    next
      case False
      then show ?thesis using P i assms(1) by (auto simp: less_Suc_eq)
    qed
  qed auto
  then show ?thesis by auto
qed

text \<open>
  What \<^verbatim>\<open>collect_rows\<close> has after \<open>i\<close> rounds: the first \<open>i\<close> remaining fragments \<open>rs\<close>, all of them below \<open>r\<close>, and their rows.
\<close>

definition collected ::
  "u8 list \<Rightarrow> u8 list \<Rightarrow> nat \<Rightarrow> nat \<Rightarrow> nat \<Rightarrow> nat list \<Rightarrow> u8 list \<times> u8 list \<times> nat \<Rightarrow> bool" where
  "collected enc fe k m i rs st \<longleftrightarrow> (case st of (b, di, r) \<Rightarrow>
     length rs = i \<and> sorted_wrt (<) rs \<and> set rs = {x. x < r \<and> fe ! x = 0} \<and> (\<forall>x\<in>set rs. x < m) \<and> r \<le> m \<and>
     (\<forall>a<i. \<forall>j<k. b ! (k * a + j) = enc ! (k * (rs ! a) + j)) \<and> (\<forall>a<i. di ! a = word_of_nat (rs ! a)))"

lemma more_remaining:
  assumes "collected enc fe k m i rs (b, di, r)" "i < card {x. x < m \<and> fe ! x = 0}"
  shows "\<exists>x. r \<le> x \<and> x < m \<and> fe ! x = 0"
proof (rule ccontr)
  assume "\<not> ?thesis"
  then have "{x. x < m \<and> fe ! x = 0} \<subseteq> set rs" using assms(1) by (auto simp: collected_def not_le)
  then have "card {x. x < m \<and> fe ! x = 0} \<le> card (set rs)" by (simp add: card_mono)
  also have "\<dots> \<le> i" using assms(1) card_length [of rs] by (simp add: collected_def)
  finally show False using assms(2) by simp
qed

lemma collect_row:
  assumes "collected enc fe k m i rs (b, di, r0)" "i < card {x. x < m \<and> fe ! x = 0}" "m \<le> length fe"
    and "length enc = m * k" "i < k" "k * k \<le> length b" "i < length di"
  shows "\<exists>b' di' r. obind (skip_erased fe r0) (\<lambda>r.
       obind (for_loop 0 k (\<lambda>j b. obind (arr_get enc (k * r + j)) (\<lambda>v. arr_set b (k * i + j) v)) b) (\<lambda>b'.
       obind (arr_set di i (word_of_nat r)) (\<lambda>di. Done (b', di, Suc r)))) = Done (b', di', Suc r) \<and>
     length b' = length b \<and> length di' = length di \<and> collected enc fe k m (Suc i) (rs @ [r]) (b', di', Suc r)"
proof -
  note C = assms(1) [unfolded collected_def, simplified]
  obtain x where x: "r0 \<le> x" "x < m" "fe ! x = 0" using more_remaining [OF assms(1,2)] by blast
  then obtain r where r: "skip_erased fe r0 = Done r" "r0 \<le> r" "r \<le> x" "fe ! r = 0" "\<forall>y. r0 \<le> y \<longrightarrow> y < r \<longrightarrow> fe ! y \<noteq> 0"
    using skip_erased_ok [of r0 x fe] assms(3) by auto
  have g: "arr_get enc (k * r + j) = Done (enc ! (k * r + j))" if "j < k" for j
    using row_in_range [OF that, of r m] r(3) x(2) assms(4) by simp
  have "k * i + k \<le> length b" using row_step [OF assms(5), of k] assms(6) by simp
  from fill_loop [of k "\<lambda>j. arr_get enc (k * r + j)" "\<lambda>j. enc ! (k * r + j)", OF g this] obtain b' where
    b': "for_loop 0 k (\<lambda>j b. obind (arr_get enc (k * r + j)) (\<lambda>v. arr_set b (k * i + j) v)) b = Done b'" "length b' = length b"
    "\<forall>y < length b. b' ! y = (if k * i \<le> y \<and> y < k * i + k then enc ! (k * r + (y - k * i)) else b ! y)" by blast
  have cell: "b' ! (k * a + j) = (if a = i then enc ! (k * r + j) else b ! (k * a + j))" if "a < k" "j < k" for a j
    using b'(3) row_cell [OF that(2), of i a] row_in_range [OF that(2,1)] assms(6) by auto
  have "set (rs @ [r]) = {y. y < Suc r \<and> fe ! y = 0}" using C r by (auto simp: less_Suc_eq not_le)
  moreover have "sorted_wrt (<) (rs @ [r])" using C r(2) by (auto simp: sorted_wrt_append)
  ultimately have "collected enc fe k m (Suc i) (rs @ [r]) (b', di[i := word_of_nat r], Suc r)"
    using C cell r(3) x(2) assms(5,7) by (auto simp: collected_def nth_append less_Suc_eq)
  then show ?thesis using r(1) b'(1,2) assms(7) by auto
qed

lemma collect_rows_ok:
  assumes "k \<le> card {x. x < m \<and> fe ! x = 0}" "m \<le> length fe" "length enc = m * k" "k * k \<le> length b" "k \<le> length di"
  shows "\<exists>b' di' r rs. collect_rows enc fe k (b, di, 0) = Done (b', di', r) \<and> collected enc fe k m k rs (b', di', r) \<and>
    length b' = length b \<and> length di' = length di"
proof -
  let ?P = "\<lambda>i st. \<exists>b' di' r rs. st = (b', di', r) \<and> collected enc fe k m i rs st \<and> length b' = length b \<and> length di' = length di"
  have "\<exists>st. collect_rows enc fe k (b, di, 0) = Done st \<and> ?P (0 + k) st"
    unfolding collect_rows_def
  proof (rule for_loop_inv)
    fix i st assume i: "i < 0 + k" and "?P i st"
    then obtain b1 di1 r1 rs where P: "st = (b1, di1, r1)" "collected enc fe k m i rs (b1, di1, r1)" "length b1 = length b"
      "length di1 = length di" by blast
    have "k * k \<le> length b1" "i < length di1" "i < card {x. x < m \<and> fe ! x = 0}" using P(3,4) assms(1,4,5) i by simp_all
    from collect_row [OF P(2) this(3) assms(2,3) _ this(1,2)] i P show "\<exists>st'. (case st of (b, di, r0) \<Rightarrow>
        obind (skip_erased fe r0) (\<lambda>r.
        obind (for_loop 0 k (\<lambda>j b. obind (arr_get enc (k * r + j)) (\<lambda>v. arr_set b (k * i + j) v)) b) (\<lambda>b'.
        obind (arr_set di i (word_of_nat r)) (\<lambda>di. Done (b', di, Suc r))))) = Done st' \<and> ?P (Suc i) st'"
      by auto
  qed (simp add: collected_def)
  then show ?thesis by auto
qed

section \<open>The contract of the library\<close>

text \<open>
  What the documentation of ISA-L says of the functions, for a code with \<open>k\<close> source and \<open>p\<close> parity fragments. The bytes are a
  commutative ring under \<^verbatim>\<open>gf_mul\<close> and exclusive or. The top of the Cauchy matrix is the identity, and any \<open>k\<close> of its rows
  can be inverted. \<^verbatim>\<open>gf_invert_matrix\<close> computes an inverse unless it reports a failure. \<^verbatim>\<open>ec_encode_data\<close> multiplies with the
  matrix that the tables were made from.
\<close>

locale isal_code = byte_ring "gl_mul I" for I :: isal +
  fixes k p :: nat
  assumes cauchy_length: "length (gl_cauchy I (k + p) k) = (k + p) * k"
    and cauchy_identity: "i < k \<Longrightarrow> j < k \<Longrightarrow> gl_cauchy I (k + p) k ! (k * i + j) = (if i = j then 1 else 0)"
    and cauchy_rows: "sorted_wrt (<) rs \<Longrightarrow> length rs = k \<Longrightarrow> \<forall>r\<in>set rs. r < k + p \<Longrightarrow> k * k \<le> length b \<Longrightarrow>
      \<forall>i<k. \<forall>j<k. b ! (k * i + j) = gl_cauchy I (k + p) k ! (k * (rs ! i) + j) \<Longrightarrow> 0 \<le> fst (gl_invert I b k)"
    and invert: "gl_invert I b k = (ret, b', v) \<Longrightarrow> k * k \<le> length b \<Longrightarrow> 0 \<le> ret \<Longrightarrow> length v = k * k \<and>
      (\<forall>i<k. \<forall>j<k. xsum (\<lambda>l. gl_mul I (v ! (k * i + l)) (b ! (k * l + j))) k = (if i = j then 1 else 0))"
    and tables_length: "length a = k * rows \<Longrightarrow> length (gl_tables I k rows a) = 32 * k * rows"
    and encode: "length a = k * rows \<Longrightarrow> take (32 * k * rows) g = gl_tables I k rows a \<Longrightarrow> length src = k \<Longrightarrow>
      \<forall>d\<in>set src. length d = len \<Longrightarrow>
      gl_encode I len k rows g src =
        map (\<lambda>i. map (\<lambda>x. xsum (\<lambda>j. gl_mul I (a ! (k * i + j)) (src ! j ! x)) k) [0..<len]) [0..<rows]"
begin

definition enc :: "u8 list" where
  "enc = gl_cauchy I (k + p) k"

lemma length_enc: "length enc = (k + p) * k"
  using cauchy_length by (simp add: enc_def)

text \<open>The row \<open>e\<close> of the encode matrix times the inverse \<open>v\<close>.\<close>

definition decode_cell :: "u8 list \<Rightarrow> nat \<Rightarrow> nat \<Rightarrow> u8" where
  "decode_cell v e j = xsum (\<lambda>l. gl_mul I (enc ! (k * e + l)) (v ! (k * l + j))) k"

lemma decode_cell_source: "e < k \<Longrightarrow> decode_cell v e j = v ! (k * e + j)"
proof -
  assume e: "e < k"
  have "decode_cell v e j = xsum (\<lambda>l. gl_mul I (if e = l then 1 else 0) (v ! (k * l + j))) k"
    unfolding decode_cell_def using cauchy_identity [OF e] by (intro xsum_cong) (simp add: enc_def)
  then show ?thesis using mul_delta [OF e] by simp
qed

lemma rows_ok:
  assumes "length v = k * k" "nerrs \<le> length errs" "\<forall>i<nerrs. unat (errs ! i) < k + p" "k * nerrs \<le> length dm"
  shows "\<exists>dm1 dm2. source_rows v errs nerrs k dm = Done dm1 \<and> parity_rows I enc v errs nerrs k dm1 = Done dm2 \<and>
    length dm2 = length dm \<and> (\<forall>i<nerrs. \<forall>j<k. dm2 ! (k * i + j) = decode_cell v (unat (errs ! i)) j)"
proof -
  have src: "arr_get v (k * unat (errs ! i) + j) = Done (v ! (k * unat (errs ! i) + j))"
    if "i < nerrs" "unat (errs ! i) < k" "j < k" for i j
    using row_in_range [OF that(3,2)] assms(1) by simp
  obtain dm1 where dm1: "source_rows v errs nerrs k dm = Done dm1" "length dm1 = length dm"
    "\<forall>i<nerrs. \<forall>j<k. dm1 ! (k * i + j) = (if unat (errs ! i) < k then v ! (k * unat (errs ! i) + j) else dm ! (k * i + j))"
    unfolding source_rows_def
    using rows_loop [of nerrs errs k dm "\<lambda>e. unat e < k" "\<lambda>e j. arr_get v (k * unat e + j)" "\<lambda>e j. v ! (k * unat e + j)",
        OF assms(2,4) src] by blast
  have par: "for_loop 0 k (\<lambda>l s. obind (arr_get v (l * k + j)) (\<lambda>x. obind (arr_get enc (k * unat (errs ! i) + l))
      (\<lambda>y. Done (s XOR gl_mul I x y)))) 0 = Done (decode_cell v (unat (errs ! i)) j)"
    if "i < nerrs" "unat (errs ! i) \<ge> k" "j < k" for i j
  proof -
    have "arr_get v (l * k + j) = Done (v ! (k * l + j))" "arr_get enc (k * unat (errs ! i) + l) = Done (enc ! (k * unat (errs ! i) + l))"
      if "l < k" for l
      using row_in_range [of j k l k] row_in_range [OF that, of "unat (errs ! i)" "k + p"] that \<open>j < k\<close> \<open>i < nerrs\<close> assms(1,3)
      by (simp_all add: mult.commute length_enc)
    then have "for_loop 0 k (\<lambda>l s. obind (obind (arr_get v (l * k + j)) (\<lambda>x. obind (arr_get enc (k * unat (errs ! i) + l))
      (\<lambda>y. Done (gl_mul I x y)))) (\<lambda>z. Done (s XOR z))) 0 = Done (decode_cell v (unat (errs ! i)) j)"
      unfolding decode_cell_def by (intro xsum_loop) (simp add: mul_commute)
    then show ?thesis by (simp add: obind_assoc)
  qed
  have "k * nerrs \<le> length dm1" using assms(4) dm1(2) by simp
  then obtain dm2 where "parity_rows I enc v errs nerrs k dm1 = Done dm2" "length dm2 = length dm1"
    "\<forall>i<nerrs. \<forall>j<k. dm2 ! (k * i + j) = (if unat (errs ! i) \<ge> k then decode_cell v (unat (errs ! i)) j else dm1 ! (k * i + j))"
    unfolding parity_rows_def
    using rows_loop [of nerrs errs k dm1 "\<lambda>e. unat e \<ge> k" _ "\<lambda>e j. decode_cell v (unat e) j", OF assms(2) _ par] by blast
  then show ?thesis using dm1 decode_cell_source by auto
qed


text \<open>The remaining fragments are enough: at most \<open>p\<close> of the \<open>k + p\<close> are lost.\<close>

lemma enough_remaining:
  assumes "nerrs \<le> p" "\<forall>x < k + p. fe ! x = (if \<exists>i<nerrs. unat (errs ! i) = x then 1 else 0 :: u8)"
  shows "k \<le> card {x. x < k + p \<and> fe ! x = 0}"
proof -
  let ?lost = "(\<lambda>i. unat (errs ! i)) ` {..<nerrs}"
  have "card ?lost \<le> p" using assms(1) card_image_le [of "{..<nerrs}" "\<lambda>i. unat (errs ! i)"] by simp
  moreover have "card ({..<k + p} - ?lost) \<ge> (k + p) - card ?lost" using diff_card_le_card_Diff [of ?lost "{..<k + p}"] by simp
  moreover have "{..<k + p} - ?lost \<subseteq> {x. x < k + p \<and> fe ! x = 0}" using assms(2) by auto
  then have "card ({..<k + p} - ?lost) \<le> card {x. x < k + p \<and> fe ! x = 0}" by (intro card_mono) simp_all
  ultimately show ?thesis by linarith
qed

lemma decode_matrix_ok:
  assumes "nerrs \<le> p" "nerrs \<le> length errs" "\<forall>i<nerrs. unat (errs ! i) < k + p" "k + p \<le> MMAX"
    and "length dm = (k + p) * k" "length tmp = (k + p) * k" "length di = MMAX"
  shows "\<exists>dm' di' rs v. gf_gen_decode_matrix_simple I enc dm tmp di errs nerrs k = Done (0, dm', di') \<and>
    length dm' = length dm \<and> length di' = length di \<and> length rs = k \<and> (\<forall>r\<in>set rs. r < k + p) \<and>
    (\<forall>i<k. di' ! i = word_of_nat (rs ! i) \<and> (\<forall>e<nerrs. unat (errs ! e) \<noteq> rs ! i)) \<and>
    (\<forall>l<k. \<forall>t<k. xsum (\<lambda>j. gl_mul I (v ! (k * l + j)) (enc ! (k * (rs ! j) + t))) k = (if l = t then 1 else 0)) \<and>
    (\<forall>i<nerrs. \<forall>j<k. dm' ! (k * i + j) = decode_cell v (unat (errs ! i)) j)"
proof -
  have "\<forall>i<nerrs. unat (errs ! i) < length (replicate MMAX (0 :: u8))" using assms(3,4) by fastforce
  from mark_erased_ok [OF assms(2) this] obtain fe where fe: "mark_erased errs nerrs (replicate MMAX 0) = Done fe" "length fe = MMAX"
    "\<forall>x < MMAX. fe ! x = (if \<exists>i<nerrs. unat (errs ! i) = x then 1 else replicate MMAX 0 ! x)"
    unfolding length_replicate by blast
  then have fe0: "\<forall>x < MMAX. fe ! x = (if \<exists>i<nerrs. unat (errs ! i) = x then 1 else 0)" by auto
  have card: "k \<le> card {x. x < k + p \<and> fe ! x = 0}" using fe0 assms(4) by (intro enough_remaining [OF assms(1), of fe errs]) (meson order_less_le_trans)
  have kk: "k * k \<le> (k + p) * k" by simp
  from collect_rows_ok [OF card, of enc tmp di] obtain b di' r rs where
    c: "collect_rows enc fe k (tmp, di, 0) = Done (b, di', r)" "collected enc fe k (k + p) k rs (b, di', r)" "length b = (k + p) * k"
      "length di' = length di"
    using fe(2) assms(4,6,7) length_enc kk by auto
  have rs: "length rs = k" "sorted_wrt (<) rs" "\<forall>r\<in>set rs. r < k + p \<and> fe ! r = 0"
      "\<forall>i<k. \<forall>j<k. b ! (k * i + j) = enc ! (k * (rs ! i) + j)" "\<forall>i<k. di' ! i = word_of_nat (rs ! i)"
    using c(2) by (auto simp: collected_def)
  obtain ret b' v where v: "gl_invert I b k = (ret, b', v)" by (metis prod_cases3)
  have "0 \<le> ret" using cauchy_rows [OF rs(2,1) _ _ rs(4) [unfolded enc_def]] rs(3) c(3) kk v by simp
  from invert [OF v _ this] have V: "length v = k * k"
    "\<forall>l<k. \<forall>t<k. xsum (\<lambda>j. gl_mul I (v ! (k * l + j)) (b ! (k * j + t))) k = (if l = t then 1 else 0)" using c(3) kk by simp_all
  have "k * nerrs \<le> length dm" using assms(1,5) by (simp add: mult.commute add_mult_distrib trans_le_add2)
  from rows_ok [OF V(1) assms(2,3) this] obtain dm1 dm2 where d: "source_rows v errs nerrs k dm = Done dm1"
    "parity_rows I enc v errs nerrs k dm1 = Done dm2" "length dm2 = length dm"
    "\<forall>i<nerrs. \<forall>j<k. dm2 ! (k * i + j) = decode_cell v (unat (errs ! i)) j" by blast
  have A: "gf_gen_decode_matrix_simple I enc dm tmp di errs nerrs k = Done (0, dm2, di')"
    using fe(1) c(1) v \<open>0 \<le> ret\<close> d(1,2) by (simp add: gf_gen_decode_matrix_simple_def)
  have B: "xsum (\<lambda>j. gl_mul I (v ! (k * l + j)) (enc ! (k * (rs ! j) + t))) k = (if l = t then 1 else 0)" if "l < k" "t < k" for l t
  proof -
    have "xsum (\<lambda>j. gl_mul I (v ! (k * l + j)) (enc ! (k * (rs ! j) + t))) k = xsum (\<lambda>j. gl_mul I (v ! (k * l + j)) (b ! (k * j + t))) k"
      using rs(4) that by (intro xsum_cong) simp
    then show ?thesis using V(2) that by simp
  qed
  have N: "unat (errs ! e) \<noteq> rs ! i" if "i < k" "e < nerrs" for i e
  proof
    assume eq: "unat (errs ! e) = rs ! i"
    have "rs ! i \<in> set rs" using rs(1) that(1) by simp
    then have "fe ! (rs ! i) = 0" "rs ! i < MMAX" using rs(3) assms(4) by auto
    then show False using fe0 eq that(2) by (metis zero_neq_one)
  qed
  show ?thesis
    by (intro exI [of _ dm2] exI [of _ di'] exI [of _ rs] exI [of _ v] conjI) (use A B N d(3,4) rs(1,3,5) c(4) in simp_all)
qed

end

end
