(* ===== verification/Erasure.thy ===== *)
theory Erasure
  imports Erasure_Decode
begin

text \<open>
  The erasure code demonstration \<^verbatim>\<open>src/examples/ec/ec_demo.c\<close>: it makes random source fragments, computes parity fragments,
  pretends that some fragments are lost, recovers them from the others and compares. The options come from \<^verbatim>\<open>getopt\<close>, as a
  list with the values that \<^verbatim>\<open>atoi\<close> gave. What \<^verbatim>\<open>rand\<close> and \<^verbatim>\<open>malloc\<close> return is the argument \<open>E\<close>. The theory
  \<open>Galois\<close> has an instance of the library functions over the field with 256 elements.
\<close>

section \<open>Options\<close>

datatype ec_opt = OptK int | OptP int | OptL int | OptE int | OptR int | OptH

record 'r ec_env =
  ec_rand :: "'r \<Rightarrow> nat \<times> 'r"
  ec_srand :: "int \<Rightarrow> 'r"
  ec_junk :: "nat \<Rightarrow> u8 list"
  ec_mats :: bool
  ec_frags :: bool
  ec_outp :: bool

text \<open>The local variables the options set: \<open>ea_errs\<close> is the used part of \<^verbatim>\<open>frag_err_list\<close>, of length \<^verbatim>\<open>nerrs\<close>.\<close>

record 'r ec_args =
  ea_k :: int
  ea_p :: int
  ea_len :: int
  ea_errs :: "u8 list"
  ea_rnd :: 'r

definition push_err :: "u8 \<Rightarrow> 'r ec_args \<Rightarrow> 'r ec_args outcome" where
  "push_err e a = (if length (ea_errs a) < MMAX then Done (a\<lparr>ea_errs := ea_errs a @ [e]\<rparr>) else Abort ''write out of range'')"

text \<open>Without arguments, four random fragments are lost.\<close>

fun default_errs :: "'r ec_env \<Rightarrow> nat \<Rightarrow> 'r ec_args \<Rightarrow> 'r ec_args outcome" where
  "default_errs E 0 a = Done a"
| "default_errs E (Suc n) a =
     (case ec_rand E (ea_rnd a) of (x, r) \<Rightarrow>
        obind (push_err (word_of_int (int x mod (ea_k a + ea_p a))) (a\<lparr>ea_rnd := r\<rparr>)) (default_errs E n))"

text \<open>The loop of the option \<^verbatim>\<open>-r\<close> from the fragment \<open>i\<close> on, with \<open>n\<close> fragments left.\<close>

fun pick_errs :: "'r ec_env \<Rightarrow> nat \<Rightarrow> nat \<Rightarrow> 'r ec_args \<Rightarrow> 'r ec_args outcome" where
  "pick_errs E i 0 a = Done a"
| "pick_errs E i (Suc n) a =
     (if int (length (ea_errs a)) < ea_p a then
        case ec_rand E (ea_rnd a) of (x, r) \<Rightarrow>
          let a1 = a\<lparr>ea_rnd := r\<rparr> in
          obind (if odd x then push_err (word_of_nat i) a1 else Done a1) (pick_errs E (Suc i) n)
      else Done a)"

text \<open>One option; \<open>None\<close> is the call of \<^verbatim>\<open>usage\<close>, which ends the process.\<close>

fun ec_option :: "'r ec_env \<Rightarrow> ec_opt \<Rightarrow> 'r ec_args \<Rightarrow> 'r ec_args option outcome" where
  "ec_option E (OptK v) a = Done (Some (a\<lparr>ea_k := v\<rparr>))"
| "ec_option E (OptP v) a = Done (Some (a\<lparr>ea_p := v\<rparr>))"
| "ec_option E (OptL v) a = Done (if v < 0 then None else Some (a\<lparr>ea_len := v\<rparr>))"
| "ec_option E (OptE v) a = obind (push_err (word_of_int v) a) (\<lambda>a'. Done (Some a'))"
| "ec_option E (OptR seed) a =
     (case ec_rand E (ec_srand E seed) of (x, r1) \<Rightarrow>
      let k = int x mod 254 + 1 in
      case ec_rand E r1 of (y, r2) \<Rightarrow>
      let p = int y mod (255 - k) + 1 in
      obind (pick_errs E 0 (nat (k + p)) (a\<lparr>ea_k := k, ea_p := p, ea_rnd := r2\<rparr>)) (\<lambda>a'. Done (Some a')))"
| "ec_option E OptH a = Done None"

fun ec_options :: "'r ec_env \<Rightarrow> ec_opt list \<Rightarrow> 'r ec_args \<Rightarrow> 'r ec_args option outcome" where
  "ec_options E [] a = Done (Some a)"
| "ec_options E (x # xs) a =
     obind (ec_option E x a) (\<lambda>r. case r of None \<Rightarrow> Done None | Some a' \<Rightarrow> ec_options E xs a')"

section \<open>Encoding and recovery\<close>

datatype ec_out = UsageText | ParamError int int int nat | TooManyErasures nat int | NotInRange u8 | MallocError | AllocError
  | Encode nat nat nat nat | Recover nat | FailMatrix | CheckFrag u8 | FailErasure nat u8 | DonePass

fun rand_bytes :: "'r ec_env \<Rightarrow> nat \<Rightarrow> 'r \<Rightarrow> u8 list \<times> 'r" where
  "rand_bytes E 0 r = ([], r)"
| "rand_bytes E (Suc n) r =
     (case ec_rand E r of (x, r1) \<Rightarrow> case rand_bytes E n r1 of (xs, r2) \<Rightarrow> (word_of_nat x # xs, r2))"

fun rand_frags :: "'r ec_env \<Rightarrow> nat \<Rightarrow> nat \<Rightarrow> 'r \<Rightarrow> u8 list list \<times> 'r" where
  "rand_frags E 0 len r = ([], r)"
| "rand_frags E (Suc n) len r =
     (case rand_bytes E len r of (d, r1) \<Rightarrow> case rand_frags E n len r1 of (ds, r2) \<Rightarrow> (d # ds, r2))"

text \<open>A library function that writes \<open>xs\<close> to the beginning of a buffer.\<close>

definition arr_overwrite :: "'a list \<Rightarrow> 'a list \<Rightarrow> 'a list outcome" where
  "arr_overwrite buf xs =
     (if length xs \<le> length buf then Done (xs @ drop (length xs) buf) else Abort ''write out of range'')"

text \<open>The loop that compares the recovered fragments with the lost ones: the exit code and what is printed.\<close>

fun check_loop :: "u8 list \<Rightarrow> nat \<Rightarrow> u8 list list \<Rightarrow> u8 list list \<Rightarrow> (int \<times> ec_out list) outcome" where
  "check_loop [] i outp frags = Done (0, [DonePass])"
| "check_loop (e # es) i outp frags =
     obind (arr_get outp i) (\<lambda>x.
     obind (arr_get frags (unat e)) (\<lambda>y.
     if x \<noteq> y then Done (-1, [CheckFrag e, FailErasure i e])
     else obind (check_loop es (Suc i) outp frags) (\<lambda>(rc, outs). Done (rc, CheckFrag e # outs))))"

definition recover_frags ::
  "isal \<Rightarrow> 'r ec_env \<Rightarrow> nat \<Rightarrow> nat \<Rightarrow> nat \<Rightarrow> u8 list \<Rightarrow> u8 list \<Rightarrow> u8 list \<Rightarrow> u8 list list \<Rightarrow> (int \<times> ec_out list) outcome" where
  "recover_frags I E k m len errs encode_matrix g_tbls frags =
     obind (gf_gen_decode_matrix_simple I encode_matrix (ec_junk E (m * k)) (ec_junk E (m * k)) (ec_junk E MMAX) errs (length errs) k)
       (\<lambda>(ret, dm, di).
     if ret \<noteq> 0 then Done (-1, [FailMatrix])
     else obind (for_loop 0 k (\<lambda>i rs. obind (arr_get di i) (\<lambda>d. obind (arr_get frags (unat d)) (\<lambda>f. Done (rs @ [f])))) [])
            (\<lambda>recover_srcs.
          obind (arr_slice dm 0 (k * length errs)) (\<lambda>a.
          obind (arr_overwrite g_tbls (gl_tables I k (length errs) a)) (\<lambda>g.
          check_loop errs 0 (gl_encode I len k (length errs) g recover_srcs) frags))))"

definition ec_code ::
  "isal \<Rightarrow> 'r ec_env \<Rightarrow> nat \<Rightarrow> nat \<Rightarrow> nat \<Rightarrow> u8 list \<Rightarrow> 'r \<Rightarrow> (int \<times> ec_out list) outcome" where
  "ec_code I E k p len errs r =
     (let m = k + p in
      if \<not> ec_mats E then Done (-1, [MallocError])
      else if \<not> ec_frags E then Done (-1, [AllocError])
      else if \<not> ec_outp E then Done (-1, [AllocError])
      else let (srcs, _) = rand_frags E k len r; encode_matrix = gl_cauchy I m k in
           obind (arr_slice encode_matrix (k * k) (k * p)) (\<lambda>a.
           obind (arr_overwrite (ec_junk E (k * p * 32)) (gl_tables I k p a)) (\<lambda>g.
           let frags = srcs @ gl_encode I len k p g srcs in
           if errs = [] then Done (0, [Encode m k p len])
           else obind (recover_frags I E k m len errs encode_matrix g frags) (\<lambda>(rc, outs).
                Done (rc, Encode m k p len # Recover (length errs) # outs)))))"

definition ec_main :: "isal \<Rightarrow> 'r ec_env \<Rightarrow> ec_opt list \<Rightarrow> 'r \<Rightarrow> (int \<times> ec_out list) outcome" where
  "ec_main I E opts r =
     (let a0 = \<lparr>ea_k = 10, ea_p = 4, ea_len = 8 * 1024, ea_errs = [], ea_rnd = r\<rparr> in
      obind (if opts = [] then default_errs E 4 a0 else Done a0) (\<lambda>a1.
      obind (ec_options E opts a1) (\<lambda>res.
      case res of None \<Rightarrow> Done (0, [UsageText])
       | Some a \<Rightarrow>
        let k = ea_k a; p = ea_p a; m = k + p; nerrs = length (ea_errs a) in
        if m > 255 \<or> k > 255 \<or> m < 0 \<or> p < 1 \<or> k < 1 then Done (0, [ParamError m k p nerrs, UsageText])
        else if int nerrs > p then Done (0, [TooManyErasures nerrs p, UsageText])
        else (case filter (\<lambda>e. uint e \<ge> m) (ea_errs a) of
                e # _ \<Rightarrow> Done (0, [NotInRange e, UsageText])
              | [] \<Rightarrow> ec_code I E (nat k) (nat p) (nat (ea_len a)) (ea_errs a) (ea_rnd a)))))"

section \<open>Lemmas\<close>

lemma rand_bytes_length: "length (fst (rand_bytes E n r)) = n"
  by (induction n arbitrary: r) (simp_all add: case_prod_beta)

lemma rand_frags_lengths:
  "length (fst (rand_frags E n len r)) = n \<and> (\<forall>d\<in>set (fst (rand_frags E n len r)). length d = len)"
proof (induction n arbitrary: r)
  case (Suc n)
  obtain d r1 where d: "rand_bytes E len r = (d, r1)" by fastforce
  obtain ds r2 where ds: "rand_frags E n len r1 = (ds, r2)" by fastforce
  show ?case using Suc [of r1] rand_bytes_length [of E len r] by (simp add: d ds)
qed simp

text \<open>A comparison of equal fragments passes.\<close>

lemma check_loop_pass:
  assumes "\<forall>j < length es. i + j < length outp \<and> unat (es ! j) < length frags \<and> outp ! (i + j) = frags ! unat (es ! j)"
  shows "check_loop es i outp frags = Done (0, map CheckFrag es @ [DonePass])"
  using assms
proof (induction es arbitrary: i)
  case (Cons e es)
  have "\<forall>j < length es. Suc i + j < length outp \<and> unat (es ! j) < length frags \<and> outp ! (Suc i + j) = frags ! unat (es ! j)"
    using Cons.prems by (auto dest: spec [of _ "Suc j" for j])
  from Cons.IH [OF this] Cons.prems show ?case by force
qed simp

lemma gather_loop:
  assumes "\<And>i. i < n \<Longrightarrow> g i = Done (v i)"
  shows "for_loop 0 n (\<lambda>i rs. obind (g i) (\<lambda>f. Done (rs @ [f]))) [] = Done (map v [0..<n])"
proof -
  have "\<exists>rs. for_loop 0 n (\<lambda>i rs. obind (g i) (\<lambda>f. Done (rs @ [f]))) [] = Done rs \<and> rs = map v [0..<0 + n]"
    by (rule for_loop_inv) (use assms in simp_all)
  then show ?thesis by simp
qed

lemma unat_small: "n < 256 \<Longrightarrow> unat (word_of_nat n :: u8) = n"
  by (simp add: unat_of_nat take_bit_nat_eq_self)

context isal_code
begin

text \<open>Every fragment is its row of the encode matrix times the sources.\<close>

definition frags_of :: "nat \<Rightarrow> u8 list list \<Rightarrow> u8 list list" where
  "frags_of len srcs = map (\<lambda>r. map (\<lambda>x. xsum (\<lambda>j. gl_mul I (enc ! (k * r + j)) (srcs ! j ! x)) k) [0..<len]) [0..<k + p]"

lemma length_frags_of [simp]: "length (frags_of len srcs) = k + p"
  by (simp add: frags_of_def)

lemma frags_of_source:
  assumes "length srcs = k" "\<forall>d\<in>set srcs. length d = len"
  shows "map (\<lambda>r. map (\<lambda>x. xsum (\<lambda>j. gl_mul I (enc ! (k * r + j)) (srcs ! j ! x)) k) [0..<len]) [0..<k] = srcs"
proof (rule nth_equalityI)
  fix r assume "r < length (map (\<lambda>r. map (\<lambda>x. xsum (\<lambda>j. gl_mul I (enc ! (k * r + j)) (srcs ! j ! x)) k) [0..<len]) [0..<k])"
  then have r: "r < k" by simp
  have "xsum (\<lambda>j. gl_mul I (enc ! (k * r + j)) (srcs ! j ! x)) k = srcs ! r ! x" for x
  proof -
    have "xsum (\<lambda>j. gl_mul I (enc ! (k * r + j)) (srcs ! j ! x)) k = xsum (\<lambda>j. gl_mul I (if r = j then 1 else 0) (srcs ! j ! x)) k"
      using cauchy_identity [OF r] by (intro xsum_cong) (simp add: enc_def)
    then show ?thesis using mul_delta [OF r] by simp
  qed
  moreover have "length (srcs ! r) = len" using assms r by simp
  ultimately show "map (\<lambda>r. map (\<lambda>x. xsum (\<lambda>j. gl_mul I (enc ! (k * r + j)) (srcs ! j ! x)) k) [0..<len]) [0..<k] ! r = srcs ! r"
    using r by (auto intro: nth_equalityI)
qed (use assms in simp)

lemma encoded_frags:
  assumes "length srcs = k" "\<forall>d\<in>set srcs. length d = len" "arr_slice enc (k * k) (k * p) = Done a"
    and "take (32 * k * p) g = gl_tables I k p a"
  shows "srcs @ gl_encode I len k p g srcs = frags_of len srcs"
proof -
  have a: "a = take (k * p) (drop (k * k) enc)" "length a = k * p"
    using assms(3) length_enc by (auto simp: arr_slice_def add_mult_distrib mult.commute split: if_splits)
  have cell: "a ! (k * i + j) = enc ! (k * (i + k) + j)" if "i < p" "j < k" for i j
    using row_in_range [OF that(2,1)] a length_enc by (simp add: distrib_left ac_simps)
  have "gl_encode I len k p g srcs =
      map (\<lambda>r. map (\<lambda>x. xsum (\<lambda>j. gl_mul I (enc ! (k * r + j)) (srcs ! j ! x)) k) [0..<len]) (map (\<lambda>i. i + k) [0..<p])"
    unfolding encode [OF a(2) assms(4,1,2)]
    by (simp, intro map_cong refl allI ballI impI xsum_cong) (simp add: cell)
  also have "map (\<lambda>i. i + k) [0..<p] = [k..<k + p]" by (simp add: map_add_upt add.commute)
  finally show ?thesis
    using frags_of_source [OF assms(1,2)] by (simp add: frags_of_def upt_add_eq_append [of 0 k p])
qed

text \<open>What the decode matrix makes of the remaining fragments.\<close>

lemma recovered_frag:
  assumes "\<forall>l<k. \<forall>t<k. xsum (\<lambda>j. gl_mul I (v ! (k * l + j)) (enc ! (k * (rs ! j) + t))) k = (if l = t then 1 else 0)"
    and "\<forall>j<k. row j = decode_cell v e j" "e < k + p" "length rs = k" "\<forall>r\<in>set rs. r < k + p" "x < len"
  shows "xsum (\<lambda>j. gl_mul I (row j) (frags_of len srcs ! (rs ! j) ! x)) k = frags_of len srcs ! e ! x"
proof -
  have rs: "rs ! j < k + p" if "j < k" for j using assms(4,5) that by simp
  have "xsum (\<lambda>j. gl_mul I (row j) (frags_of len srcs ! (rs ! j) ! x)) k =
      xsum (\<lambda>j. gl_mul I (xsum (\<lambda>l. gl_mul I (enc ! (k * e + l)) (v ! (k * l + j))) k)
        (xsum (\<lambda>t. gl_mul I (enc ! (k * (rs ! j) + t)) (srcs ! t ! x)) k)) k"
    using assms(2,6) rs by (intro xsum_cong) (simp add: decode_cell_def frags_of_def)
  also have "\<dots> = xsum (\<lambda>l. gl_mul I (enc ! (k * e + l)) (srcs ! l ! x)) k"
    using assms(1) by (intro left_inverse_applies) simp
  finally show ?thesis using assms(3,6) by (simp add: frags_of_def)
qed

lemma recovered_frags:
  assumes "\<forall>l<k. \<forall>t<k. xsum (\<lambda>j. gl_mul I (v ! (k * l + j)) (enc ! (k * (rs ! j) + t))) k = (if l = t then 1 else 0)"
    and "\<forall>j<k. row j = decode_cell v e j" "e < k + p" "length rs = k" "\<forall>r\<in>set rs. r < k + p"
  shows "map (\<lambda>x. xsum (\<lambda>j. gl_mul I (row j) (map (\<lambda>i. frags_of len srcs ! (rs ! i)) [0..<k] ! j ! x)) k) [0..<len] =
    frags_of len srcs ! e"
proof (rule nth_equalityI)
  fix x assume "x < length (map (\<lambda>x. xsum (\<lambda>j. gl_mul I (row j) (map (\<lambda>i. frags_of len srcs ! (rs ! i)) [0..<k] ! j ! x)) k) [0..<len])"
  then have x: "x < len" by simp
  have "xsum (\<lambda>j. gl_mul I (row j) (map (\<lambda>i. frags_of len srcs ! (rs ! i)) [0..<k] ! j ! x)) k =
      xsum (\<lambda>j. gl_mul I (row j) (frags_of len srcs ! (rs ! j) ! x)) k"
    by (rule xsum_cong) simp
  with recovered_frag [OF assms x, of srcs] x
  show "map (\<lambda>x. xsum (\<lambda>j. gl_mul I (row j) (map (\<lambda>i. frags_of len srcs ! (rs ! i)) [0..<k] ! j ! x)) k) [0..<len] ! x =
    frags_of len srcs ! e ! x" by simp
qed (use assms(3) in \<open>simp add: frags_of_def\<close>)

lemma gather_frags:
  fixes di :: "u8 list"
  assumes "length rs = k" "\<forall>r\<in>set rs. r < k + p" "k + p \<le> MMAX" "length di = MMAX" "\<forall>i<k. di ! i = word_of_nat (rs ! i)"
  shows "for_loop 0 k (\<lambda>i rs. obind (arr_get di i) (\<lambda>d. obind (arr_get (frags_of len srcs) (unat d)) (\<lambda>f. Done (rs @ [f])))) [] =
    Done (map (\<lambda>i. frags_of len srcs ! (rs ! i)) [0..<k])"
proof -
  have "obind (arr_get di i) (\<lambda>d. arr_get (frags_of len srcs) (unat d)) = Done (frags_of len srcs ! (rs ! i))" if "i < k" for i
  proof -
    have "rs ! i < k + p" using assms(1,2) that by simp
    moreover have "unat (word_of_nat (rs ! i) :: u8) = rs ! i"
      using calculation assms(3) unat_small [of "rs ! i"] by (simp add: MMAX_def)
    ultimately show ?thesis using that assms(3-5) by simp
  qed
  from gather_loop [OF this] show ?thesis by (simp add: obind_assoc)
qed

lemma recover_frags_ok:
  assumes "length errs \<le> p" "\<forall>e\<in>set errs. unat e < k + p" "k + p \<le> MMAX" "\<And>n. length (ec_junk E n) = n" "k * p * 32 \<le> length g"
  shows "recover_frags I E k (k + p) len errs enc g (frags_of len srcs) = Done (0, map CheckFrag errs @ [DonePass])"
proof -
  let ?F = "frags_of len srcs" and ?n = "length errs"
  have "\<forall>i < ?n. unat (errs ! i) < k + p" using assms(2) by simp
  from decode_matrix_ok [OF assms(1) order_refl this assms(3,4,4,4)] obtain dm di rs v where
    gen: "gf_gen_decode_matrix_simple I enc (ec_junk E ((k + p) * k)) (ec_junk E ((k + p) * k)) (ec_junk E MMAX) errs ?n k = Done (0, dm, di)"
    and len: "length dm = (k + p) * k" "length di = MMAX" "length rs = k" "\<forall>r\<in>set rs. r < k + p"
    and di: "\<forall>i<k. di ! i = word_of_nat (rs ! i)"
    and v: "\<forall>l<k. \<forall>t<k. xsum (\<lambda>j. gl_mul I (v ! (k * l + j)) (enc ! (k * (rs ! j) + t))) k = (if l = t then 1 else 0)"
    and dm: "\<forall>i < ?n. \<forall>j<k. dm ! (k * i + j) = decode_cell v (unat (errs ! i)) j"
    by (auto simp: assms(4))
  let ?srcs = "map (\<lambda>i. ?F ! (rs ! i)) [0..<k]" and ?a = "take (k * ?n) dm"
  have "k * ?n \<le> (k + p) * k" using assms(1) by (simp add: add_mult_distrib mult.commute trans_le_add2)
  then have a: "arr_slice dm 0 (k * ?n) = Done ?a" "length ?a = k * ?n" using len(1) by (simp_all add: arr_slice_def)
  have "32 * k * ?n \<le> length g" using assms(1,5) by (metis mult.assoc mult.commute mult_le_mono2 order_trans)
  then have ow: "arr_overwrite g (gl_tables I k ?n ?a) = Done (gl_tables I k ?n ?a @ drop (32 * k * ?n) g)"
    using tables_length [OF a(2)] by (simp add: arr_overwrite_def)
  have "\<forall>d\<in>set ?srcs. length d = len" using len(3,4) by (auto simp: frags_of_def)
  from encode [OF a(2), of "gl_tables I k ?n ?a @ drop (32 * k * ?n) g" ?srcs, OF _ _ this] have outp:
    "gl_encode I len k ?n (gl_tables I k ?n ?a @ drop (32 * k * ?n) g) ?srcs =
      map (\<lambda>i. map (\<lambda>x. xsum (\<lambda>j. gl_mul I (?a ! (k * i + j)) (?srcs ! j ! x)) k) [0..<len]) [0..< ?n]"
    using tables_length [OF a(2)] by simp
  have eq: "map (\<lambda>x. xsum (\<lambda>j. gl_mul I (?a ! (k * i + j)) (?srcs ! j ! x)) k) [0..<len] = ?F ! unat (errs ! i)" if i: "i < ?n" for i
    using assms(2) dm i row_in_range [of _ k i ?n] by (intro recovered_frags [OF v _ _ len(3,4)]) (simp_all add: mult.commute)
  have "check_loop errs 0 (gl_encode I len k ?n (gl_tables I k ?n ?a @ drop (32 * k * ?n) g) ?srcs) ?F =
      Done (0, map CheckFrag errs @ [DonePass])"
    unfolding outp using eq assms(2) by (intro check_loop_pass) (simp add: frags_of_def)
  then show ?thesis using gen gather_frags [OF len(3,4) assms(3) len(2) di] a(1) ow by (simp add: recover_frags_def)
qed

lemma ec_code_ok:
  assumes "length errs \<le> p" "errs \<noteq> []" "\<forall>e\<in>set errs. unat e < k + p" "k + p \<le> MMAX" "\<And>n. length (ec_junk E n) = n"
    and "ec_mats E" "ec_frags E" "ec_outp E"
  shows "ec_code I E k p len errs r =
    Done (0, Encode (k + p) k p len # Recover (length errs) # map CheckFrag errs @ [DonePass])"
proof -
  obtain srcs r' where srcs: "rand_frags E k len r = (srcs, r')" by fastforce
  then have S: "length srcs = k" "\<forall>d\<in>set srcs. length d = len" using rand_frags_lengths [of E k len r] by simp_all
  obtain a where a: "arr_slice enc (k * k) (k * p) = Done a" "length a = k * p"
    using length_enc by (auto simp: arr_slice_def distrib_left mult.commute)
  let ?g = "gl_tables I k p a @ drop (length (gl_tables I k p a)) (ec_junk E (k * p * 32))"
  have len: "length (gl_tables I k p a) = k * p * 32" using tables_length [OF a(2)] by simp
  then have g: "arr_overwrite (ec_junk E (k * p * 32)) (gl_tables I k p a) = Done ?g" using assms(5) by (simp add: arr_overwrite_def)
  have "take (32 * k * p) ?g = gl_tables I k p a" using len by simp
  from encoded_frags [OF S a(1) this] recover_frags_ok [OF assms(1,3-5), of ?g len srcs] len assms(5)
  show ?thesis using assms(2,6-8) srcs a(1) g by (simp add: ec_code_def Let_def enc_def [symmetric])
qed

end

section \<open>The options of a run\<close>

text \<open>The command line \<^verbatim>\<open>-k k -p p -l len -e e1 -e e2 ...\<close>.\<close>

definition ec_argv :: "nat \<Rightarrow> nat \<Rightarrow> nat \<Rightarrow> nat list \<Rightarrow> ec_opt list" where
  "ec_argv k p len es = [OptK (int k), OptP (int p), OptL (int len)] @ map (\<lambda>e. OptE (int e)) es"

lemma ec_options_errs:
  "length (ea_errs a) + length es \<le> MMAX \<Longrightarrow>
   ec_options E (map (\<lambda>e. OptE (int e)) es) a = Done (Some (a\<lparr>ea_errs := ea_errs a @ map word_of_nat es\<rparr>))"
  by (induction es arbitrary: a) (simp_all add: push_err_def)

lemma ec_options_overflow:
  "MMAX < length (ea_errs a) + length es \<Longrightarrow> length (ea_errs a) \<le> MMAX \<Longrightarrow>
   ec_options E (map (\<lambda>e. OptE (int e)) es) a = Abort ''write out of range''"
  by (induction es arbitrary: a) (auto simp: push_err_def)

lemma ec_main_argv:
  assumes "1 \<le> k" "1 \<le> p" "k + p \<le> MMAX" "length es \<le> p" "\<forall>e\<in>set es. e < k + p"
  shows "ec_main I E (ec_argv k p len es) r = ec_code I E k p len (map word_of_nat es) r"
proof -
  have u: "uint (word_of_nat e :: u8) = int e" if "e \<in> set es" for e
  proof -
    have "e < 256" using assms(3,5) that by (force simp: MMAX_def)
    then show ?thesis unfolding uint_nat by (simp only: unat_small)
  qed
  have "\<not> int k + int p \<le> uint x" if x: "x \<in> set (map word_of_nat es :: u8 list)" for x
  proof -
    obtain e where "e \<in> set es" "x = word_of_nat e" using x by auto
    then show ?thesis using u [of e] assms(5) by fastforce
  qed
  then have f: "filter (\<lambda>e. int k + int p \<le> uint e) (map word_of_nat es :: u8 list) = []" by (simp only: filter_empty_conv) blast
  show ?thesis
    using assms(1-4) f by (simp add: ec_main_def ec_argv_def ec_options_errs Let_def MMAX_def)
qed

section \<open>Properties\<close>

text \<open>
  C26: the demonstration recovers what it loses. For every code with \<open>k\<close> source and \<open>p\<close> parity fragments, at most 255 together,
  and every choice of at most \<open>p\<close> lost fragments, each recovered fragment is the one that was lost; all accesses to the
  arrays are in range and the process ends with exit code 0 after the message that everything passed.
\<close>

theorem ec_recovers:
  assumes "isal_code I k p" "1 \<le> k" "1 \<le> p" "k + p \<le> MMAX"
    and "es \<noteq> []" "length es \<le> p" "\<forall>e\<in>set es. e < k + p"
    and "\<And>n. length (ec_junk E n) = n" "ec_mats E" "ec_frags E" "ec_outp E"
  shows "ec_main I E (ec_argv k p len es) r =
    Done (0, [Encode (k + p) k p len, Recover (length es)] @ map (\<lambda>e. CheckFrag (word_of_nat e)) es @ [DonePass])"
proof -
  have "unat (word_of_nat e :: u8) = e" if "e \<in> set es" for e
    using unat_small [of e] assms(4,7) that by (force simp: MMAX_def)
  then have "\<forall>e\<in>set (map word_of_nat es :: u8 list). unat e < k + p" using assms(7) by auto
  from isal_code.ec_code_ok [OF assms(1) _ _ this assms(4,8-11), of len r] assms(5,6)
  show ?thesis by (simp add: ec_main_argv [OF assms(2-4,6,7)])
qed

text \<open>
  The option \<^verbatim>\<open>-e\<close> is not counted while the options are read: with more than 255 of them the list of lost fragments is written
  beyond its end, before the number of erasures is checked.
\<close>

theorem ec_too_many_options:
  assumes "MMAX < length es"
  shows "ec_main I E (ec_argv k p len es) r = Abort ''write out of range''"
  using ec_options_overflow [of _ es E] assms by (simp add: ec_main_def ec_argv_def Let_def)

end
