(* ===== verification/Galois.thy ===== *)
theory Galois
  imports Erasure
begin

text \<open>
  An implementation of the functions of ISA-L that the erasure code demonstration calls, over the field with 256 elements
  that the library uses (the polynomial \<^verbatim>\<open>0x11d\<close>). It shows that the contract of \<open>Erasure_Decode\<close> can be met, for a code
  with two source and two parity fragments.
\<close>

section \<open>Multiplication\<close>

definition xtime :: "u8 \<Rightarrow> u8" where
  "xtime a = push_bit 1 a XOR (if bit a 7 then 0x1d else 0)"

definition gf_mul :: "u8 \<Rightarrow> u8 \<Rightarrow> u8" where
  "gf_mul a b = xsum (\<lambda>i. if bit b i then (xtime ^^ i) a else 0) 8"

lemma xtime_xor: "xtime (a XOR b) = xtime a XOR xtime b"
  by (simp add: xtime_def push_bit_xor bit_xor_iff ac_simps)

lemma xtime_zero [simp]: "xtime 0 = 0"
  by (simp add: xtime_def)

lemma xtime_pow_zero [simp]: "(xtime ^^ n) 0 = 0"
  by (induction n) simp_all

lemma xtime_pow_xor: "(xtime ^^ n) (a XOR b) = (xtime ^^ n) a XOR (xtime ^^ n) b"
  by (induction n) (simp_all add: xtime_xor)

lemma xtime_pow_xsum: "(xtime ^^ n) (xsum f m) = xsum (\<lambda>i. (xtime ^^ n) (f i)) m"
  by (induction m) (simp_all add: xtime_pow_xor)

text \<open>The powers of \<^verbatim>\<open>x\<close> below 8 are the bits of a byte.\<close>

lemma xtime_pow_one: "i < 8 \<Longrightarrow> (xtime ^^ i) 1 = 2 ^ i"
proof -
  have "list_all (\<lambda>i. (xtime ^^ i) 1 = 2 ^ i) [0..<8]" by code_simp
  then show "i < 8 \<Longrightarrow> (xtime ^^ i) 1 = 2 ^ i" by (simp add: list_all_iff)
qed

lemma bit_xsum_bits: "m < 8 \<Longrightarrow> n \<le> 8 \<Longrightarrow> bit (xsum (\<lambda>i. if bit a i then 2 ^ i else 0) n) m = (m < n \<and> bit a m)"
  for a :: u8
  by (induction n) (auto simp: bit_xor_iff bit_exp_iff possible_bit_word less_Suc_eq)

lemma byte_bits: "xsum (\<lambda>i. if bit a i then (xtime ^^ i) 1 else 0) 8 = a"
proof -
  have "xsum (\<lambda>i. if bit a i then (xtime ^^ i) 1 else 0) 8 = xsum (\<lambda>i. if bit a i then 2 ^ i else 0) 8"
    by (rule xsum_cong) (simp add: xtime_pow_one)
  also have "\<dots> = a" by (rule bit_word_eqI) (simp add: bit_xsum_bits)
  finally show ?thesis .
qed

lemma xtime_pow_pow: "(xtime ^^ m) ((xtime ^^ n) a) = (xtime ^^ (m + n)) a"
  by (simp add: funpow_add)

lemma gf_mul_bits: "gf_mul a b = xsum (\<lambda>j. xsum (\<lambda>i. if bit b j \<and> bit a i then (xtime ^^ (i + j)) 1 else 0) 8) 8"
proof -
  have "(if bit b j then (xtime ^^ j) a else 0) = xsum (\<lambda>i. if bit b j \<and> bit a i then (xtime ^^ (i + j)) 1 else 0) 8" for j
  proof (cases "bit b j")
    case True
    have "(xtime ^^ j) a = (xtime ^^ j) (xsum (\<lambda>i. if bit a i then (xtime ^^ i) 1 else 0) 8)" by (simp only: byte_bits)
    also have "\<dots> = xsum (\<lambda>i. if bit a i then (xtime ^^ (i + j)) 1 else 0) 8"
      unfolding xtime_pow_xsum by (rule xsum_cong) (simp add: xtime_pow_pow add.commute)
    finally show ?thesis using True by simp
  qed simp
  then show ?thesis by (simp add: gf_mul_def)
qed

lemma gf_mul_commute: "gf_mul a b = gf_mul b a"
  unfolding gf_mul_bits by (subst xsum_swap, intro xsum_cong) (simp add: add.commute conj_commute)

lemma gf_mul_xor: "gf_mul a (b XOR c) = gf_mul a b XOR gf_mul a c"
  unfolding gf_mul_def xsum_xor [symmetric] by (rule xsum_cong) (simp add: bit_xor_iff)

lemma gf_mul_one: "gf_mul a 1 = a"
  using xsum_delta [of 0 8 "\<lambda>i. (xtime ^^ i) a"] by (simp add: gf_mul_def bit_1_iff)

lemma gf_mul_zero: "gf_mul a 0 = 0" "gf_mul 0 a = 0"
  unfolding gf_mul_commute [of 0 a] by (simp_all add: gf_mul_def)

lemma xtime_gf_mul: "(xtime ^^ n) (gf_mul a b) = gf_mul ((xtime ^^ n) a) b"
  unfolding gf_mul_def xtime_pow_xsum by (rule xsum_cong) (simp add: xtime_pow_pow add.commute)

lemma gf_mul_xsum: "gf_mul a (xsum f n) = xsum (\<lambda>i. gf_mul a (f i)) n"
  by (induction n) (simp_all add: gf_mul_xor gf_mul_zero)

lemma gf_mul_assoc: "gf_mul (gf_mul a b) c = gf_mul a (gf_mul b c)"
proof -
  have "gf_mul (gf_mul a b) c = xsum (\<lambda>i. if bit c i then (xtime ^^ i) (gf_mul b a) else 0) 8"
    unfolding gf_mul_commute [of a b] by (simp only: gf_mul_def [of _ c])
  also have "\<dots> = xsum (\<lambda>i. gf_mul a (if bit c i then (xtime ^^ i) b else 0)) 8"
    by (rule xsum_cong) (simp add: xtime_gf_mul gf_mul_commute [of a] gf_mul_zero)
  also have "\<dots> = gf_mul a (gf_mul b c)" by (simp add: gf_mul_def [of b c] gf_mul_xsum)
  finally show ?thesis .
qed

text \<open>Shift and add, for evaluation.\<close>

fun gf_loop :: "nat \<Rightarrow> u8 \<Rightarrow> u8 \<Rightarrow> u8" where
  "gf_loop 0 a b = 0"
| "gf_loop (Suc n) a b = (if bit b 0 then a else 0) XOR gf_loop n (xtime a) (drop_bit 1 b)"

lemma xsum_Suc: "xsum f (Suc n) = f 0 XOR xsum (\<lambda>i. f (Suc i)) n"
  by (induction n) (simp_all add: ac_simps)

lemma gf_loop_eq: "gf_loop n a b = xsum (\<lambda>i. if bit b i then (xtime ^^ i) a else 0) n"
proof (induction n arbitrary: a b)
  case (Suc n)
  show ?case unfolding xsum_Suc gf_loop.simps Suc
    by (intro arg_cong2 [where f = "(XOR)"] xsum_cong) (simp_all add: bit_drop_bit_eq funpow_swap1)
qed simp

lemma gf_mul_code [code]: "gf_mul a b = gf_loop 8 a b"
  by (simp add: gf_mul_def gf_loop_eq)

interpretation gf: byte_ring gf_mul
  by unfold_locales (rule gf_mul_commute gf_mul_assoc gf_mul_xor gf_mul_one)+

section \<open>The library functions\<close>

text \<open>The inverse of a byte is its power 254.\<close>

fun square_loop :: "nat \<Rightarrow> u8 \<Rightarrow> u8 \<Rightarrow> u8" where
  "square_loop 0 s acc = acc"
| "square_loop (Suc n) s acc = square_loop n (gf_mul s s) (gf_mul acc (gf_mul s s))"

definition gf_inv :: "u8 \<Rightarrow> u8" where
  "gf_inv a = square_loop 7 a 1"

definition cauchy_matrix :: "nat \<Rightarrow> nat \<Rightarrow> u8 list" where
  "cauchy_matrix m k = concat (map (\<lambda>i. map (\<lambda>j. if i < k then if i = j then 1 else 0
     else gf_inv (word_of_nat i XOR word_of_nat j)) [0..<k]) [0..<m])"

text \<open>The inverse of a matrix with two rows and columns; for other sizes the function reports a failure.\<close>

definition invert2 :: "u8 list \<Rightarrow> nat \<Rightarrow> int \<times> u8 list \<times> u8 list" where
  "invert2 b n =
     (let d = gf_mul (b ! 0) (b ! 3) XOR gf_mul (b ! 1) (b ! 2); e = gf_inv d
      in if n = 2 \<and> gf_mul e d = 1 then (0, b, map (gf_mul e) [b ! 3, b ! 1, b ! 2, b ! 0]) else (-1, b, []))"

text \<open>The tables have the products of an entry with the low and with the high halves of a byte.\<close>

definition gf_table :: "u8 \<Rightarrow> u8 list" where
  "gf_table c = map (\<lambda>n. gf_mul c (word_of_nat n)) [0..<16] @ map (\<lambda>n. gf_mul c (word_of_nat (16 * n))) [0..<16]"

definition gf_tables :: "nat \<Rightarrow> nat \<Rightarrow> u8 list \<Rightarrow> u8 list" where
  "gf_tables k rows a = concat (map gf_table a)"

definition gf_encode :: "nat \<Rightarrow> nat \<Rightarrow> nat \<Rightarrow> u8 list \<Rightarrow> u8 list list \<Rightarrow> u8 list list" where
  "gf_encode len k rows g src =
     map (\<lambda>i. map (\<lambda>x. xsum (\<lambda>j. gf_mul (g ! (32 * (k * i + j) + 1)) (src ! j ! x)) k) [0..<len]) [0..<rows]"

definition gf_isal :: isal where
  "gf_isal = \<lparr>gl_mul = gf_mul, gl_cauchy = cauchy_matrix, gl_invert = invert2, gl_tables = gf_tables, gl_encode = gf_encode\<rparr>"

lemma length_concat_blocks: "(\<And>x. length (f x) = n) \<Longrightarrow> length (concat (map f xs)) = n * length xs"
  by (induction xs) simp_all

lemma nth_concat_blocks:
  "(\<And>x. length (f x) = n) \<Longrightarrow> i < length xs \<Longrightarrow> j < n \<Longrightarrow> concat (map f xs) ! (n * i + j) = f (xs ! i) ! j"
proof (induction xs arbitrary: i)
  case (Cons x xs)
  then show ?case by (cases i) (auto simp: nth_append)
qed simp

lemma length_gf_table [simp]: "length (gf_table c) = 32"
  by (simp add: gf_table_def)

lemma gf_table_one: "gf_table c ! 1 = c"
  by (simp add: gf_table_def nth_append gf_mul_one)

lemma gf_tables_entry:
  assumes "take (32 * length a) g = gf_tables k rows a" "c < length a"
  shows "g ! (32 * c + 1) = a ! c"
proof -
  have "32 * c + 1 < 32 * length a" using assms(2) by simp
  then have "g ! (32 * c + 1) = gf_tables k rows a ! (32 * c + 1)" using nth_take [of "32 * c + 1" "32 * length a" g] assms(1) by simp
  also have "\<dots> = gf_table (a ! c) ! 1" unfolding gf_tables_def using assms(2) by (intro nth_concat_blocks) simp_all
  finally show ?thesis unfolding gf_table_one .
qed

lemma cauchy_4_2: "cauchy_matrix 4 2 = [1, 0, 0, 1, 0x8e, 0xf4, 0xf4, 0x8e]"
  by code_simp

lemma two_of_four:
  assumes "sorted_wrt (<) rs" "length rs = 2" "\<forall>r\<in>set rs. r < (4 :: nat)"
  shows "rs \<in> set [[0, 1], [0, 2], [0, 3], [1, 2], [1, 3], [2, 3]]"
proof -
  obtain x y where "rs = [x, y]" using assms(2) by (auto simp: length_Suc_conv numeral_2_eq_2)
  then have "x < y" "y < 4" using assms by simp_all
  then have "x = 0 \<and> y = 1 \<or> x = 0 \<and> y = 2 \<or> x = 0 \<and> y = 3 \<or> x = 1 \<and> y = 2 \<or> x = 1 \<and> y = 3 \<or> x = 2 \<and> y = 3" by linarith
  then show ?thesis using \<open>rs = [x, y]\<close> by auto
qed

lemma minors: "list_all (\<lambda>(p, q, r, t, d). gf_mul p t XOR gf_mul q r = d)
    [(1, 0, 0, 1, 1), (1, 0, 0x8e, 0xf4, 0xf4), (1, 0, 0xf4, 0x8e, 0x8e), (0, 1, 0x8e, 0xf4, 0x8e), (0, 1, 0xf4, 0x8e, 0xf4),
     (0x8e, 0xf4, 0xf4, 0x8e, 0xe0)]"
  by code_simp

lemma minors_invertible: "list_all (\<lambda>d. gf_mul (gf_inv d) d = 1) [1, 0xf4, 0x8e, 0xe0]"
proof -
  have "gf_inv 1 = 1" "gf_inv 0xf4 = 3" "gf_inv 0x8e = 2" "gf_inv 0xe0 = 0x14" by code_simp+
  moreover have "gf_mul 1 1 = 1" "gf_mul 3 0xf4 = 1" "gf_mul 2 0x8e = 1" "gf_mul 0x14 0xe0 = 1" by code_simp+
  ultimately show ?thesis by simp
qed

lemma rows_invertible:
  assumes "rs \<in> set [[0, 1], [0, 2], [0, 3], [1, 2], [1, 3], [2, 3]]"
    and "\<forall>i<2. \<forall>j<2. b ! (2 * i + j) = cauchy_matrix 4 2 ! (2 * (rs ! i) + j)"
  shows "0 \<le> fst (invert2 b 2)"
proof -
  let ?c = "[1, 0, 0, 1, 0x8e, 0xf4, 0xf4, 0x8e] :: u8 list"
  have b: "b ! 0 = ?c ! (2 * (rs ! 0))" "b ! 1 = ?c ! (2 * (rs ! 0) + 1)" "b ! 2 = ?c ! (2 * (rs ! 1))" "b ! 3 = ?c ! (2 * (rs ! 1) + 1)"
    using assms(2) [rule_format, of 0 0] assms(2) [rule_format, of 0 1] assms(2) [rule_format, of 1 0] assms(2) [rule_format, of 1 1]
    unfolding cauchy_4_2 by (simp_all add: numeral_3_eq_3)
  have "gf_mul (b ! 0) (b ! 3) XOR gf_mul (b ! 1) (b ! 2) \<in> set [1, 0xf4, 0x8e, 0xe0]"
  proof -
    from assms(1) consider "rs = [0, 1]" | "rs = [0, 2]" | "rs = [0, 3]" | "rs = [1, 2]" | "rs = [1, 3]" | "rs = [2, 3]" by auto
    then show ?thesis unfolding b by cases (use minors in simp_all)
  qed
  then have "gf_mul (gf_inv (gf_mul (b ! 0) (b ! 3) XOR gf_mul (b ! 1) (b ! 2))) (gf_mul (b ! 0) (b ! 3) XOR gf_mul (b ! 1) (b ! 2)) = 1"
    using minors_invertible unfolding list_all_iff by blast
  then show ?thesis by (simp add: invert2_def Let_def)
qed

lemma xsum_2: "xsum f 2 = f 0 XOR f 1"
  by (simp add: numeral_2_eq_2)

lemma all_less_2: "(\<forall>i<2. P i) \<longleftrightarrow> P 0 \<and> P (1 :: nat)"
  by (auto simp: less_2_cases_iff)

lemma adjugate:
  assumes "gf_mul e (gf_mul p t XOR gf_mul q r) = 1"
  shows "gf_mul (gf_mul e t) p XOR gf_mul (gf_mul e q) r = 1" "gf_mul (gf_mul e t) q XOR gf_mul (gf_mul e q) t = 0"
    "gf_mul (gf_mul e r) p XOR gf_mul (gf_mul e p) r = 0" "gf_mul (gf_mul e r) q XOR gf_mul (gf_mul e p) t = 1"
  using assms unfolding gf_mul_assoc gf_mul_xor gf_mul_commute [of t p] gf_mul_commute [of t q] gf_mul_commute [of r p] gf_mul_commute [of r q]
  by (simp_all add: xor.commute)

lemma invert2_left:
  assumes "invert2 b 2 = (ret, b', v)" "0 \<le> ret"
  shows "length v = 4 \<and> (\<forall>i<2. \<forall>j<2. xsum (\<lambda>l. gf_mul (v ! (2 * i + l)) (b ! (2 * l + j))) 2 = (if i = j then 1 else 0))"
proof -
  let ?d = "gf_mul (b ! 0) (b ! 3) XOR gf_mul (b ! 1) (b ! 2)"
  define e where "e = gf_inv ?d"
  have e: "gf_mul e ?d = 1" and v: "v = [gf_mul e (b ! 3), gf_mul e (b ! 1), gf_mul e (b ! 2), gf_mul e (b ! 0)]"
    using assms by (auto simp: invert2_def Let_def e_def split: if_splits)
  have n: "v ! 0 = gf_mul e (b ! 3)" "v ! 1 = gf_mul e (b ! 1)" "v ! 2 = gf_mul e (b ! 2)" "v ! 3 = gf_mul e (b ! 0)" by (simp_all add: v)
  show ?thesis
    using adjugate [OF e] n unfolding all_less_2 xsum_2 by (simp add: v del: One_nat_def)
qed

lemma gf_isal_sels [simp]:
  "gl_mul gf_isal = gf_mul" "gl_cauchy gf_isal = cauchy_matrix" "gl_invert gf_isal = invert2" "gl_tables gf_isal = gf_tables"
  "gl_encode gf_isal = gf_encode"
  by (simp_all add: gf_isal_def)

interpretation code_2_2: isal_code gf_isal 2 2
proof (rule isal_code.intro [OF _ isal_code_axioms.intro])
  show "byte_ring (gl_mul gf_isal)" using gf.byte_ring_axioms by simp
  show "length (gl_cauchy gf_isal (2 + 2) 2) = (2 + 2) * 2" by (simp add: cauchy_4_2)
  show "gl_cauchy gf_isal (2 + 2) 2 ! (2 * i + j) = (if i = j then 1 else 0)" if "i < 2" "j < 2" for i j :: nat
    using that by (auto simp: cauchy_4_2 less_2_cases_iff)
  show "0 \<le> fst (gl_invert gf_isal b 2)"
    if "sorted_wrt (<) rs" "length rs = 2" "\<forall>r\<in>set rs. r < 2 + 2"
      "\<forall>i<2. \<forall>j<2. b ! (2 * i + j) = gl_cauchy gf_isal (2 + 2) 2 ! (2 * rs ! i + j)" for rs b
    using rows_invertible [OF two_of_four [OF that(1,2)]] that(3,4) by simp
  show "length v = 2 * 2 \<and> (\<forall>i<2. \<forall>j<2. xsum (\<lambda>l. gl_mul gf_isal (v ! (2 * i + l)) (b ! (2 * l + j))) 2 = (if i = j then 1 else 0))"
    if "gl_invert gf_isal b 2 = (ret, b', v)" "0 \<le> ret" for b ret b' v
    using invert2_left [of b ret b' v] that by simp
  show "length (gl_tables gf_isal 2 rows a) = 32 * 2 * rows" if "length a = 2 * rows" for rows a
    using that length_concat_blocks [of gf_table 32 a] by (simp add: gf_tables_def)
  show "gl_encode gf_isal len 2 rows g src =
      map (\<lambda>i. map (\<lambda>x. xsum (\<lambda>j. gl_mul gf_isal (a ! (2 * i + j)) (src ! j ! x)) 2) [0..<len]) [0..<rows]"
    if "length a = 2 * rows" "take (32 * 2 * rows) g = gl_tables gf_isal 2 rows a" for a rows g src len
  proof -
    have "g ! (32 * (2 * i + j) + 1) = a ! (2 * i + j)" if "i < rows" "j < 2" for i j
      using gf_tables_entry [of a g 2 rows "2 * i + j"] that \<open>length a = 2 * rows\<close> \<open>take (32 * 2 * rows) g = _\<close> by simp
    then show ?thesis by (auto simp: gf_encode_def intro!: xsum_cong)
  qed
qed

section \<open>A run\<close>

definition ex_env :: "nat ec_env" where
  "ex_env = \<lparr>ec_rand = (\<lambda>n. (n, n + 1)), ec_srand = (\<lambda>s. nat s), ec_junk = (\<lambda>n. replicate n 7), ec_mats = True, ec_frags = True,
     ec_outp = True\<rparr>"

theorem ec_recovers_witness:
  "ec_main gf_isal ex_env (ec_argv 2 2 3 [0, 3]) 65 =
     Done (0, [Encode 4 2 2 3, Recover 2, CheckFrag 0, CheckFrag 3, DonePass])"
  using ec_recovers [OF code_2_2.isal_code_axioms, of "[0, 3]" ex_env 3 65] by (simp add: MMAX_def ex_env_def)

end
