(* ===== verification/Nvme_Hello.thy ===== *)
theory Nvme_Hello
  imports Prelude "HOL-Library.Multiset"
begin

text \<open>
  The NVMe sample \<^verbatim>\<open>src/examples/spdk/main.c\<close>: it attaches to every controller, writes a string to the first block of every
  active namespace, reads it back and compares. SPDK is an argument of type \<open>spdk\<close> over the state \<open>'w\<close> of the driver and
  the devices; pointers to its objects and to pinned memory are numbers. A command that was started stays in the list \<open>pending\<close>
  until the driver reports its completion, whose callback then runs; at most \<open>sp_max\<close> completions are reported by one call
  of \<^verbatim>\<open>spdk_nvme_qpair_process_completions\<close>. What the program prints, acquires, releases and submits is the list \<open>trace\<close>;
  \<open>ledger_run\<close> checks such a list against the rules for resources. A polling loop that never ends is the value \<open>None\<close>.
\<close>

section \<open>Data\<close>

definition DATA_BUFFER_STRING :: string where
  "DATA_BUFFER_STRING = ''Hello world!''"

record ctrlr_entry =
  ce_ctrlr :: nat
  ce_name :: string

record ns_entry =
  ne_ctrlr :: nat
  ne_ns :: nat
  ne_qpair :: "nat option"

text \<open>Queue pairs, the memory buffer of a controller with the address at which it is mapped, and pinned host memory.\<close>

datatype res = RQpair nat | RCmb nat nat | RBuf nat

datatype io_cmd = CReset | CWrite "res option" | CRead "res option"

datatype cpl = Cpl (cpl_error: bool) (cpl_status: string)

datatype hello_ev =
    Out string | OutNamespace int u64 | Err string | PrintCompletion "nat option"
  | Acquire res | Release res | Submit nat io_cmd | Complete nat io_cmd
  | EnvInit | VmdInit | Flush | Detach nat | DetachPoll | VmdFini | EnvFini

record hello_world_sequence =
  sq_ns_entry :: ns_entry
  sq_buf :: "nat option"
  using_cmb_io :: bool
  is_completed :: int

record trid =
  td_transport :: string
  td_traddr :: string
  td_subnqn :: string

record env_opts =
  eo_name :: string
  eo_shm_id :: int
  eo_mem_size :: int
  eo_single_segments :: bool

text \<open>What \<^verbatim>\<open>spdk_nvme_probe\<close> calls back for: a controller that was found, and one that was initialised.\<close>

datatype probe_event = Probed string | Attached string nat

type_synonym memory = "nat \<Rightarrow> string"

record 'w spdk =
  sp_malloc :: "'w \<Rightarrow> bool \<times> 'w"
  sp_ns_active :: "nat \<Rightarrow> bool"
  sp_ns_id :: "nat \<Rightarrow> u32"
  sp_ns_size :: "nat \<Rightarrow> u64"
  sp_ns_zoned :: "nat \<Rightarrow> bool"
  sp_first_ns :: "nat \<Rightarrow> u32"
  sp_next_ns :: "nat \<Rightarrow> u32 \<Rightarrow> u32"
  sp_get_ns :: "nat \<Rightarrow> u32 \<Rightarrow> nat option"
  sp_mn :: "nat \<Rightarrow> string"
  sp_sn :: "nat \<Rightarrow> string"
  sp_alloc_qpair :: "'w \<Rightarrow> nat \<Rightarrow> nat option \<times> 'w"
  sp_free_qpair :: "'w \<Rightarrow> nat \<Rightarrow> 'w"
  sp_map_cmb :: "'w \<Rightarrow> nat \<Rightarrow> (nat \<times> nat) option \<times> 'w"
  sp_unmap_cmb :: "'w \<Rightarrow> nat \<Rightarrow> 'w"
  sp_zmalloc :: "'w \<Rightarrow> nat option \<times> 'w"
  sp_free :: "'w \<Rightarrow> nat \<Rightarrow> 'w"
  sp_write :: "'w \<Rightarrow> nat \<Rightarrow> nat \<Rightarrow> nat option \<Rightarrow> int \<times> 'w"
  sp_read :: "'w \<Rightarrow> nat \<Rightarrow> nat \<Rightarrow> nat option \<Rightarrow> int \<times> 'w"
  sp_reset_zone :: "'w \<Rightarrow> nat \<Rightarrow> nat \<Rightarrow> int \<times> 'w"
  sp_poll :: "'w \<Rightarrow> memory \<Rightarrow> nat \<Rightarrow> (nat \<times> cpl) option \<times> memory \<times> 'w"
  sp_max :: "'w \<Rightarrow> nat \<Rightarrow> nat"
  sp_populate :: "trid \<Rightarrow> trid"
  sp_discovery_nqn :: string
  sp_nqn_size :: nat
  sp_trid_parse :: "trid \<Rightarrow> string \<Rightarrow> int \<times> trid"
  sp_strtol :: "string \<Rightarrow> int"
  sp_log_set_flag :: "string \<Rightarrow> int"
  sp_debug :: bool
  sp_opts_init :: env_opts
  sp_env_init :: "'w \<Rightarrow> env_opts \<Rightarrow> int \<times> 'w"
  sp_vmd_init :: "'w \<Rightarrow> int \<times> 'w"
  sp_probe :: "'w \<Rightarrow> trid \<Rightarrow> probe_event list \<times> int \<times> 'w"
  sp_detach :: "'w \<Rightarrow> nat \<Rightarrow> bool \<Rightarrow> bool \<times> 'w"

record 'w hello =
  world :: 'w
  mem :: memory
  g_controllers :: "ctrlr_entry list"
  g_namespaces :: "ns_entry list"
  g_trid :: trid
  g_vmd :: bool
  opts :: env_opts
  sequence :: hello_world_sequence
  pending :: "(nat \<times> io_cmd) list"
  trace :: "hello_ev list"

text \<open>A call returns a value, ends the process by \<^verbatim>\<open>exit\<close>, or reads through a null pointer.\<close>

datatype ('a, 's) hres = Go 'a | Exit int 's | Segv 's

definition emit :: "hello_ev list \<Rightarrow> 'w hello \<Rightarrow> 'w hello" where
  "emit es s = s\<lparr>trace := trace s @ es\<rparr>"

section \<open>Namespaces and controllers\<close>

definition register_ns :: "'w spdk \<Rightarrow> nat \<Rightarrow> nat \<Rightarrow> 'w hello \<Rightarrow> ('w hello, 'w hello) hres" where
  "register_ns E ctrlr ns s =
     (if \<not> sp_ns_active E ns then Go s
      else case sp_malloc E (world s) of
        (False, w) \<Rightarrow> Exit 1 (emit [Err ''ns_entry malloc''] (s\<lparr>world := w\<rparr>))
      | (True, w) \<Rightarrow>
          Go (emit [OutNamespace (sint (sp_ns_id E ns)) (sp_ns_size E ns div 1000000000)]
            (s\<lparr>world := w, g_namespaces := g_namespaces s @ [\<lparr>ne_ctrlr = ctrlr, ne_ns = ns, ne_qpair = None\<rparr>]\<rparr>)))"

text \<open>The conversion \<^verbatim>\<open>%-20.20s\<close> of \<^verbatim>\<open>printf\<close>.\<close>

definition left_20 :: "string \<Rightarrow> string" where
  "left_20 s = (let t = take 20 (c_str s) in t @ replicate (20 - length t) CHR '' '')"

text \<open>\<^verbatim>\<open>snprintf(buf, size, "%s", s)\<close> into a buffer with the given contents.\<close>

definition snprintf_s :: "nat \<Rightarrow> string \<Rightarrow> string \<Rightarrow> string" where
  "snprintf_s n s old = (if n = 0 then old else let t = take (n - 1) (c_str s) @ [CHR 0x00] in t @ drop (length t) old)"

definition probe_cb :: "string \<Rightarrow> 'w hello \<Rightarrow> bool \<times> 'w hello" where
  "probe_cb traddr s = (True, emit [Out (''Attaching to '' @ traddr)] s)"

partial_function (option) attach_loop :: "'w spdk \<Rightarrow> nat \<Rightarrow> u32 \<Rightarrow> 'w hello \<Rightarrow> ('w hello, 'w hello) hres option" where
  "attach_loop E ctrlr nsid s =
     (if nsid = 0 then Some (Go s)
      else case sp_get_ns E ctrlr nsid of
        None \<Rightarrow> attach_loop E ctrlr (sp_next_ns E ctrlr nsid) s
      | Some ns \<Rightarrow>
          (case register_ns E ctrlr ns s of
             Go s1 \<Rightarrow> attach_loop E ctrlr (sp_next_ns E ctrlr nsid) s1
           | Exit n s1 \<Rightarrow> Some (Exit n s1)
           | Segv s1 \<Rightarrow> Some (Segv s1)))"

definition attach_cb :: "'w spdk \<Rightarrow> string \<Rightarrow> nat \<Rightarrow> 'w hello \<Rightarrow> ('w hello, 'w hello) hres option" where
  "attach_cb E traddr ctrlr s =
     (case sp_malloc E (world s) of
        (False, w) \<Rightarrow> Some (Exit 1 (emit [Err ''ctrlr_entry malloc''] (s\<lparr>world := w\<rparr>)))
      | (True, w) \<Rightarrow>
          let s1 = emit [Out (''Attached to '' @ traddr)] (s\<lparr>world := w\<rparr>);
              name = take 1023 (left_20 (sp_mn E ctrlr) @ '' ('' @ left_20 (sp_sn E ctrlr) @ '')'');
              s2 = s1\<lparr>g_controllers := g_controllers s1 @ [\<lparr>ce_ctrlr = ctrlr, ce_name = name\<rparr>]\<rparr>
          in attach_loop E ctrlr (sp_first_ns E ctrlr) s2)"

fun probe_events :: "'w spdk \<Rightarrow> probe_event list \<Rightarrow> 'w hello \<Rightarrow> ('w hello, 'w hello) hres option" where
  "probe_events E [] s = Some (Go s)"
| "probe_events E (Probed traddr # es) s = probe_events E es (snd (probe_cb traddr s))"
| "probe_events E (Attached traddr ctrlr # es) s =
     (case attach_cb E traddr ctrlr s of Some (Go s1) \<Rightarrow> probe_events E es s1 | r \<Rightarrow> r)"

section \<open>Completions\<close>

definition nvme_free :: "'w spdk \<Rightarrow> nat option \<Rightarrow> 'w hello \<Rightarrow> 'w hello" where
  "nvme_free E buf s = (case buf of None \<Rightarrow> s | Some b \<Rightarrow> emit [Release (RBuf b)] (s\<lparr>world := sp_free E (world s) b\<rparr>))"

definition nvme_zmalloc :: "'w spdk \<Rightarrow> 'w hello \<Rightarrow> nat option \<times> 'w hello" where
  "nvme_zmalloc E s =
     (case sp_zmalloc E (world s) of
        (None, w) \<Rightarrow> (None, s\<lparr>world := w\<rparr>)
      | (Some b, w) \<Rightarrow> (Some b, emit [Acquire (RBuf b)] (s\<lparr>world := w, mem := (mem s)(b := replicate 0x1000 (CHR 0x00))\<rparr>)))"

text \<open>What the three callbacks do when the completion carries an error; \<open>what\<close> is the name in the message.\<close>

definition io_failed :: "string \<Rightarrow> cpl \<Rightarrow> 'w hello \<Rightarrow> ('w hello, 'w hello) hres" where
  "io_failed what c s =
     Exit 1 (emit [PrintCompletion (ne_qpair (sq_ns_entry (sequence s))), Err (''I/O error status: '' @ cpl_status c),
         Err (what @ '' I/O failed, aborting run'')] (s\<lparr>sequence := (sequence s)\<lparr>is_completed := 2\<rparr>\<rparr>))"

definition read_complete :: "'w spdk \<Rightarrow> cpl \<Rightarrow> 'w hello \<Rightarrow> ('w hello, 'w hello) hres" where
  "read_complete E c s =
     (let s1 = s\<lparr>sequence := (sequence s)\<lparr>is_completed := 1\<rparr>\<rparr> in
      if cpl_error c then io_failed ''Read'' c s1
      else case sq_buf (sequence s1) of None \<Rightarrow> Segv s1
      | Some b \<Rightarrow>
          if c_str (mem s1 b) \<noteq> DATA_BUFFER_STRING then Exit 1 (emit [Err ''Read data doesn't match write data''] s1)
          else Go (nvme_free E (Some b) (emit [Out (c_str (mem s1 b))] s1)))"

text \<open>The buffer of a finished write is given back; then a new one is allocated and the read starts.\<close>

definition release_buffer :: "'w spdk \<Rightarrow> 'w hello \<Rightarrow> 'w hello" where
  "release_buffer E s =
     (let sq = sequence s; ctrlr = ne_ctrlr (sq_ns_entry sq) in
      if using_cmb_io sq then emit [Release (RCmb ctrlr (the (sq_buf sq)))] (s\<lparr>world := sp_unmap_cmb E (world s) ctrlr\<rparr>)
      else nvme_free E (sq_buf sq) s)"

definition start_read :: "'w spdk \<Rightarrow> nat option \<Rightarrow> 'w hello \<Rightarrow> ('w hello, 'w hello) hres" where
  "start_read E buf s =
     (let e = sq_ns_entry (sequence s); q = the (ne_qpair e); s1 = s\<lparr>sequence := (sequence s)\<lparr>sq_buf := buf\<rparr>\<rparr> in
      case sp_read E (world s1) (ne_ns e) q buf of (rc, w) \<Rightarrow>
        if rc \<noteq> 0 then Exit 1 (emit [Err ''starting read I/O failed''] (s1\<lparr>world := w\<rparr>))
        else let cmd = CRead (map_option RBuf buf)
             in Go (emit [Submit q cmd] (s1\<lparr>world := w, pending := pending s1 @ [(q, cmd)]\<rparr>)))"

definition write_complete :: "'w spdk \<Rightarrow> cpl \<Rightarrow> 'w hello \<Rightarrow> ('w hello, 'w hello) hres" where
  "write_complete E c s =
     (if cpl_error c then io_failed ''Write'' c s
      else case nvme_zmalloc E (release_buffer E s) of (buf, s1) \<Rightarrow> start_read E buf s1)"

definition reset_zone_complete :: "cpl \<Rightarrow> 'w hello \<Rightarrow> ('w hello, 'w hello) hres" where
  "reset_zone_complete c s =
     (let s1 = s\<lparr>sequence := (sequence s)\<lparr>is_completed := 1\<rparr>\<rparr> in
      if cpl_error c then io_failed ''Reset zone'' c s1 else Go s1)"

text \<open>The callback a command was submitted with.\<close>

fun callback :: "'w spdk \<Rightarrow> io_cmd \<Rightarrow> cpl \<Rightarrow> 'w hello \<Rightarrow> ('w hello, 'w hello) hres" where
  "callback E CReset c s = reset_zone_complete c s"
| "callback E (CWrite r) c s = write_complete E c s"
| "callback E (CRead r) c s = read_complete E c s"

text \<open>
  One call of \<^verbatim>\<open>spdk_nvme_qpair_process_completions\<close> that reports at most \<open>n\<close> completions: the driver names a pending command of the
  queue pair, which leaves the list, and its callback runs.
\<close>

fun process_completions :: "'w spdk \<Rightarrow> nat \<Rightarrow> nat \<Rightarrow> 'w hello \<Rightarrow> ('w hello, 'w hello) hres" where
  "process_completions E q 0 s = Go s"
| "process_completions E q (Suc n) s =
     (case sp_poll E (world s) (mem s) q of
        (None, m, w) \<Rightarrow> Go (s\<lparr>world := w, mem := m\<rparr>)
      | (Some (i, c), m, w) \<Rightarrow>
          let s1 = s\<lparr>world := w, mem := m\<rparr> in
          if i < length (pending s1) \<and> fst (pending s1 ! i) = q then
            let cmd = snd (pending s1 ! i);
                s2 = emit [Complete q cmd] (s1\<lparr>pending := take i (pending s1) @ drop (Suc i) (pending s1)\<rparr>)
            in (case callback E cmd c s2 of Go s3 \<Rightarrow> process_completions E q n s3 | r \<Rightarrow> r)
          else Go s1)"

text \<open>The loop \<^verbatim>\<open>while (!sequence.is_completed)\<close>.\<close>

partial_function (option) poll_loop :: "'w spdk \<Rightarrow> nat \<Rightarrow> 'w hello \<Rightarrow> ('w hello, 'w hello) hres option" where
  "poll_loop E q s =
     (if is_completed (sequence s) \<noteq> 0 then Some (Go s)
      else case process_completions E q (sp_max E (world s) q) s of
        Go s1 \<Rightarrow> poll_loop E q s1
      | Exit n s1 \<Rightarrow> Some (Exit n s1)
      | Segv s1 \<Rightarrow> Some (Segv s1))"

definition reset_zone_and_wait_for_completion :: "'w spdk \<Rightarrow> 'w hello \<Rightarrow> ('w hello, 'w hello) hres option" where
  "reset_zone_and_wait_for_completion E s =
     (let e = sq_ns_entry (sequence s); q = the (ne_qpair e) in
      case sp_reset_zone E (world s) (ne_ns e) q of (rc, w) \<Rightarrow>
      if rc \<noteq> 0 then Some (Exit 1 (emit [Err ''starting reset zone I/O failed''] (s\<lparr>world := w\<rparr>)))
      else case poll_loop E q (emit [Submit q CReset] (s\<lparr>world := w, pending := pending s @ [(q, CReset)]\<rparr>)) of
        Some (Go s1) \<Rightarrow> Some (Go (s1\<lparr>sequence := (sequence s1)\<lparr>is_completed := 0\<rparr>\<rparr>))
      | r \<Rightarrow> r)"

section \<open>The sequence for one namespace\<close>

text \<open>The buffer to write from: the memory of the controller when it has at least 4 KB, pinned host memory otherwise.\<close>

definition write_buffer :: "'w spdk \<Rightarrow> ns_entry \<Rightarrow> 'w hello \<Rightarrow> bool \<times> nat option \<times> 'w hello" where
  "write_buffer E e s =
     (case sp_map_cmb E (world s) (ne_ctrlr e) of (cmb, w) \<Rightarrow>
        let s1 = s\<lparr>world := w\<rparr> in
        (case cmb of
           None \<Rightarrow> (False, nvme_zmalloc E s1)
         | Some (b, sz) \<Rightarrow>
             let s2 = emit [Acquire (RCmb (ne_ctrlr e) b)] s1
             in if sz < 0x1000 then (False, nvme_zmalloc E s2) else (True, Some b, s2)))"

text \<open>
  The body of the loop for the entry \<open>i\<close>. The first component of the result tells whether the loop goes on: a failed
  allocation returns from \<^verbatim>\<open>hello_world\<close>.
\<close>

definition write_and_wait :: "'w spdk \<Rightarrow> 'w hello \<Rightarrow> (bool \<times> 'w hello, 'w hello) hres option" where
  "write_and_wait E s =
     (let e = sq_ns_entry (sequence s); q = the (ne_qpair e); buf = sq_buf (sequence s); b = the buf;
          s1 = s\<lparr>mem := (mem s)(b := snprintf_s 0x1000 DATA_BUFFER_STRING (mem s b))\<rparr> in
      case sp_write E (world s1) (ne_ns e) q buf of (rc, w) \<Rightarrow>
      if rc \<noteq> 0 then Some (Exit 1 (emit [Err ''starting write I/O failed''] (s1\<lparr>world := w\<rparr>)))
      else
        let cmd = CWrite (Some (if using_cmb_io (sequence s1) then RCmb (ne_ctrlr e) b else RBuf b)) in
        case poll_loop E q (emit [Submit q cmd] (s1\<lparr>world := w, pending := pending s1 @ [(q, cmd)]\<rparr>)) of
          None \<Rightarrow> None
        | Some (Exit n s2) \<Rightarrow> Some (Exit n s2)
        | Some (Segv s2) \<Rightarrow> Some (Segv s2)
        | Some (Go s2) \<Rightarrow> Some (Go (True, emit [Release (RQpair q)] (s2\<lparr>world := sp_free_qpair E (world s2) q\<rparr>))))"

definition hello_ns :: "'w spdk \<Rightarrow> nat \<Rightarrow> 'w hello \<Rightarrow> (bool \<times> 'w hello, 'w hello) hres option" where
  "hello_ns E i s =
     (case sp_alloc_qpair E (world s) (ne_ctrlr (g_namespaces s ! i)) of
        (None, w) \<Rightarrow>
          Some (Go (False, emit [Out ''ERROR: spdk_nvme_ctrlr_alloc_io_qpair() failed'']
            (s\<lparr>world := w, g_namespaces := (g_namespaces s)[i := (g_namespaces s ! i)\<lparr>ne_qpair := None\<rparr>]\<rparr>)))
      | (Some q, w) \<Rightarrow>
          let e = (g_namespaces s ! i)\<lparr>ne_qpair := Some q\<rparr>;
              s1 = emit [Acquire (RQpair q)] (s\<lparr>world := w, g_namespaces := (g_namespaces s)[i := e]\<rparr>)
          in case write_buffer E e s1 of (cmb, buf, s2) \<Rightarrow>
               if buf = None then Some (Go (False, emit [Out ''ERROR: write buffer allocation failed''] s2))
               else
                 let s3 = emit [Out (if cmb then ''INFO: using controller memory buffer for IO'' else ''INFO: using host memory buffer for IO'')]
                            (s2\<lparr>sequence := \<lparr>sq_ns_entry = e, sq_buf = buf, using_cmb_io = cmb, is_completed = 0\<rparr>\<rparr>)
                 in if sp_ns_zoned E (ne_ns e) then
                      (case reset_zone_and_wait_for_completion E s3 of
                         None \<Rightarrow> None
                       | Some (Exit n s4) \<Rightarrow> Some (Exit n s4)
                       | Some (Segv s4) \<Rightarrow> Some (Segv s4)
                       | Some (Go s4) \<Rightarrow> write_and_wait E s4)
                    else write_and_wait E s3)"

fun hello_loop :: "'w spdk \<Rightarrow> nat list \<Rightarrow> 'w hello \<Rightarrow> ('w hello, 'w hello) hres option" where
  "hello_loop E [] s = Some (Go s)"
| "hello_loop E (i # is) s =
     (case hello_ns E i s of
        None \<Rightarrow> None
      | Some (Exit n s1) \<Rightarrow> Some (Exit n s1)
      | Some (Segv s1) \<Rightarrow> Some (Segv s1)
      | Some (Go (go_on, s1)) \<Rightarrow> if go_on then hello_loop E is s1 else Some (Go s1))"

definition nvme_hello_world :: "'w spdk \<Rightarrow> 'w hello \<Rightarrow> ('w hello, 'w hello) hres option" where
  "nvme_hello_world E s = hello_loop E [0..<length (g_namespaces s)] s"

section \<open>Cleaning up\<close>

fun detach_all :: "'w spdk \<Rightarrow> ctrlr_entry list \<Rightarrow> bool \<Rightarrow> 'w hello \<Rightarrow> bool \<times> 'w hello" where
  "detach_all E [] ctx s = (ctx, s)"
| "detach_all E (c # cs) ctx s =
     (case sp_detach E (world s) (ce_ctrlr c) ctx of (ctx, w) \<Rightarrow>
        detach_all E cs ctx (emit [Detach (ce_ctrlr c)] (s\<lparr>world := w, g_controllers := cs\<rparr>)))"

definition nvme_cleanup :: "'w spdk \<Rightarrow> 'w hello \<Rightarrow> 'w hello" where
  "nvme_cleanup E s =
     (case detach_all E (g_controllers s) False (s\<lparr>g_namespaces := []\<rparr>) of (detach_ctx, s1) \<Rightarrow>
        if detach_ctx then emit [DetachPoll] s1 else s1)"

section \<open>The command line\<close>

text \<open>
  \<^verbatim>\<open>getopt\<close> for short options: whether a character is an option, and whether it takes an argument, which follows in the same word or is
  the next one. A word that is no option is passed over, \<^verbatim>\<open>--\<close> ends the options, and an unknown option or a missing
  argument is reported as a question mark. \<open>cur\<close> is the rest of the current word.
\<close>

fun opt_kind :: "string \<Rightarrow> char \<Rightarrow> bool option" where
  "opt_kind [] c = None"
| "opt_kind (o1 # os) c =
     (if c = CHR '':'' then None else if o1 = c then Some (os \<noteq> [] \<and> hd os = CHR '':'') else opt_kind os c)"

function getopt :: "string \<Rightarrow> string \<Rightarrow> string list \<Rightarrow> (char \<times> string) list" where
  "getopt os [] [] = []"
| "getopt os [] (a # as) =
     (if a = ''--'' then [] else if length a > 1 \<and> hd a = CHR ''-'' then getopt os (tl a) as else getopt os [] as)"
| "getopt os (c # cur) as =
     (case opt_kind os c of
        None \<Rightarrow> (CHR ''?'', []) # getopt os cur as
      | Some False \<Rightarrow> (c, []) # getopt os cur as
      | Some True \<Rightarrow>
          if cur \<noteq> [] then (c, cur) # getopt os [] as
          else (case as of [] \<Rightarrow> [(CHR ''?'', [])] | a # as' \<Rightarrow> (c, a) # getopt os [] as'))"
  by pat_completeness auto

termination
  by (relation "measure (\<lambda>(os, cur, as). length cur + sum_list (map (\<lambda>a. Suc (length a)) as))") auto

text \<open>The value of a \<^verbatim>\<open>long\<close> assigned to an \<^verbatim>\<open>int\<close>.\<close>

definition to_int :: "int \<Rightarrow> int" where
  "to_int n = sint (word_of_int n :: u32)"

text \<open>The lines of \<^verbatim>\<open>usage\<close>; \<open>sp_debug\<close> tells whether the program was compiled with \<^verbatim>\<open>DEBUG\<close>.\<close>

definition nvme_usage :: "'w spdk \<Rightarrow> string \<Rightarrow> hello_ev list" where
  "nvme_usage E program_name =
     [Out (program_name @ '' [options]'' @ [CHR 0x09]), Out ''options:'', Out (CHR 0x09 # ''[-d DPDK huge memory size in MB]''),
      Out (CHR 0x09 # ''[-g use single file descriptor for DPDK memory segments]''), Out (CHR 0x09 # ''[-i shared memory group ID]''),
      Out (CHR 0x09 # ''[-r remote NVMe over Fabrics target address]''), Out (CHR 0x09 # ''[-V enumerate VMD]''),
      Out (CHR 0x09 # (if sp_debug E then ''[-L enable debug logging]''
        else ''[-L enable debug logging (flag disabled, must reconfigure with --enable-debug)]''))]"

text \<open>The loop over the options: the value \<^verbatim>\<open>parse_args\<close> returns, or the end of the process.\<close>

fun parse_opts :: "'w spdk \<Rightarrow> string \<Rightarrow> (char \<times> string) list \<Rightarrow> 'w hello \<Rightarrow> (int \<times> 'w hello, 'w hello) hres" where
  "parse_opts E prog [] s = Go (0, s)"
| "parse_opts E prog ((op, optarg) # rest) s =
     (if op = CHR ''V'' then parse_opts E prog rest (s\<lparr>g_vmd := True\<rparr>)
      else if op = CHR ''i'' then
        let v = to_int (sp_strtol E optarg); s1 = s\<lparr>opts := (opts s)\<lparr>eo_shm_id := v\<rparr>\<rparr>
        in if v < 0 then Go (v, emit [Err ''Invalid shared memory ID''] s1) else parse_opts E prog rest s1
      else if op = CHR ''g'' then parse_opts E prog rest (s\<lparr>opts := (opts s)\<lparr>eo_single_segments := True\<rparr>\<rparr>)
      else if op = CHR ''r'' then
        (case sp_trid_parse E (g_trid s) optarg of (rc, t) \<Rightarrow>
           let s1 = s\<lparr>g_trid := t\<rparr>
           in if rc \<noteq> 0 then Go (1, emit [Err ''Error parsing transport address''] s1) else parse_opts E prog rest s1)
      else if op = CHR ''d'' then
        let v = to_int (sp_strtol E optarg); s1 = s\<lparr>opts := (opts s)\<lparr>eo_mem_size := v\<rparr>\<rparr>
        in if v < 0 then Go (v, emit [Err ''Invalid DPDK memory size''] s1) else parse_opts E prog rest s1
      else if op = CHR ''L'' then
        if sp_log_set_flag E optarg < 0 then Exit 1 (emit (Err ''unknown flag'' # nvme_usage E prog) s) else parse_opts E prog rest s
      else if op = CHR ''h'' then Exit 0 (emit (nvme_usage E prog) s)
      else Go (1, emit (nvme_usage E prog) s))"

definition nvme_parse_args :: "'w spdk \<Rightarrow> string list \<Rightarrow> 'w hello \<Rightarrow> (int \<times> 'w hello, 'w hello) hres" where
  "nvme_parse_args E argv s =
     (let t = sp_populate E (g_trid s);
          t1 = t\<lparr>td_subnqn := c_str (snprintf_s (sp_nqn_size E) (sp_discovery_nqn E) (td_subnqn t))\<rparr>
      in parse_opts E (hd argv) (getopt ''d:ghi:r:L:V'' [] (tl argv)) (s\<lparr>g_trid := t1\<rparr>))"

section \<open>The process\<close>

text \<open>The static variables before \<^verbatim>\<open>main\<close>, with any contents of the memory; the sequence is a local variable that is not read before it is set.\<close>

definition hello_start :: "'w \<Rightarrow> memory \<Rightarrow> 'w hello" where
  "hello_start w m =
     \<lparr>world = w, mem = m, g_controllers = [], g_namespaces = [], g_trid = \<lparr>td_transport = [], td_traddr = [], td_subnqn = []\<rparr>,
      g_vmd = False, opts = \<lparr>eo_name = [], eo_shm_id = 0, eo_mem_size = 0, eo_single_segments = False\<rparr>,
      sequence = \<lparr>sq_ns_entry = \<lparr>ne_ctrlr = 0, ne_ns = 0, ne_qpair = None\<rparr>, sq_buf = None, using_cmb_io = False, is_completed = 0\<rparr>,
      pending = [], trace = []\<rparr>"

text \<open>From the label \<^verbatim>\<open>exit\<close> on.\<close>

definition nvme_finish :: "'w spdk \<Rightarrow> int \<Rightarrow> 'w hello \<Rightarrow> (int \<times> 'w hello, 'w hello) hres option" where
  "nvme_finish E rc s =
     (let s1 = nvme_cleanup E (emit [Flush] s); s2 = (if g_vmd s1 then emit [VmdFini] s1 else s1) in Some (Go (rc, emit [EnvFini] s2)))"

text \<open>From the call of \<^verbatim>\<open>spdk_nvme_probe\<close> on.\<close>

definition nvme_run :: "'w spdk \<Rightarrow> 'w hello \<Rightarrow> (int \<times> 'w hello, 'w hello) hres option" where
  "nvme_run E s =
     (case sp_probe E (world s) (g_trid s) of (es, rc, w) \<Rightarrow>
      case probe_events E es (s\<lparr>world := w\<rparr>) of
        None \<Rightarrow> None
      | Some (Exit n s1) \<Rightarrow> Some (Exit n s1)
      | Some (Segv s1) \<Rightarrow> Some (Segv s1)
      | Some (Go s1) \<Rightarrow>
          if rc \<noteq> 0 then nvme_finish E 1 (emit [Err ''spdk_nvme_probe() failed''] s1)
          else if g_controllers s1 = [] then nvme_finish E 1 (emit [Err ''no NVMe controllers found''] s1)
          else case nvme_hello_world E (emit [Out ''Initialization complete.''] s1) of
            None \<Rightarrow> None
          | Some (Exit n s2) \<Rightarrow> Some (Exit n s2)
          | Some (Segv s2) \<Rightarrow> Some (Segv s2)
          | Some (Go s2) \<Rightarrow> nvme_finish E rc s2)"

definition nvme_main :: "'w spdk \<Rightarrow> string list \<Rightarrow> 'w \<Rightarrow> memory \<Rightarrow> (int \<times> 'w hello, 'w hello) hres option" where
  "nvme_main E argv w0 m =
     (case nvme_parse_args E argv ((hello_start w0 m)\<lparr>opts := sp_opts_init E\<rparr>) of
        Exit n s \<Rightarrow> Some (Exit n s)
      | Segv s \<Rightarrow> Some (Segv s)
      | Go (rc, s) \<Rightarrow>
          if rc \<noteq> 0 then Some (Go (rc, s))
          else
            let s1 = s\<lparr>opts := (opts s)\<lparr>eo_name := ''hello_world''\<rparr>\<rparr> in
            case sp_env_init E (world s1) (opts s1) of (rc, w) \<Rightarrow>
            if rc < 0 then Some (Go (1, emit [Err ''Unable to initialize SPDK env''] (s1\<lparr>world := w\<rparr>)))
            else
              let s2 = emit [EnvInit, Out ''Initializing NVMe Controllers''] (s1\<lparr>world := w\<rparr>) in
              if g_vmd s2 then
                (case sp_vmd_init E (world s2) of (rc, w) \<Rightarrow>
                   let s3 = s2\<lparr>world := w\<rparr> in
                   nvme_run E (if rc \<noteq> 0 then emit [Err ''Failed to initialize VMD. Some NVMe devices can be unavailable.''] s3
                               else emit [VmdInit] s3))
              else nvme_run E s2)"

section \<open>The rules for resources\<close>

text \<open>
  A queue pair or buffer is released only while it is held and no pending command uses it; a command is submitted only on a queue pair and with a
  buffer that are held; only a pending command completes.
\<close>

record ledger =
  ld_live :: "res multiset"
  ld_pending :: "(nat \<times> io_cmd) list"

fun cmd_res :: "io_cmd \<Rightarrow> res option list" where
  "cmd_res CReset = []"
| "cmd_res (CWrite r) = [r]"
| "cmd_res (CRead r) = [r]"

definition uses :: "nat \<times> io_cmd \<Rightarrow> res option list" where
  "uses p = Some (RQpair (fst p)) # cmd_res (snd p)"

definition held :: "res multiset \<Rightarrow> res option \<Rightarrow> bool" where
  "held M r = (case r of None \<Rightarrow> False | Some x \<Rightarrow> x \<in># M)"

fun ledger_step :: "hello_ev \<Rightarrow> ledger \<Rightarrow> ledger option" where
  "ledger_step (Acquire r) l = Some (l\<lparr>ld_live := add_mset r (ld_live l)\<rparr>)"
| "ledger_step (Release r) l =
     (if r \<in># ld_live l \<and> list_all (\<lambda>p. Some r \<notin> set (uses p)) (ld_pending l) then Some (l\<lparr>ld_live := ld_live l - {#r#}\<rparr>) else None)"
| "ledger_step (Submit q c) l =
     (if list_all (held (ld_live l)) (uses (q, c)) then Some (l\<lparr>ld_pending := ld_pending l @ [(q, c)]\<rparr>) else None)"
| "ledger_step (Complete q c) l =
     (if (q, c) \<in> set (ld_pending l) then Some (l\<lparr>ld_pending := remove1 (q, c) (ld_pending l)\<rparr>) else None)"
| "ledger_step _ l = Some l"

definition ledger_run :: "hello_ev list \<Rightarrow> ledger option" where
  "ledger_run es = fold (\<lambda>e r. Option.bind r (ledger_step e)) es (Some \<lparr>ld_live = {#}, ld_pending = []\<rparr>)"

section \<open>The rules are kept\<close>

lemma emit_simps [simp]:
  "world (emit es s) = world s" "mem (emit es s) = mem s" "g_controllers (emit es s) = g_controllers s"
  "g_namespaces (emit es s) = g_namespaces s" "g_vmd (emit es s) = g_vmd s" "sequence (emit es s) = sequence s"
  "pending (emit es s) = pending s" "trace (emit es s) = trace s @ es" "g_trid (emit es s) = g_trid s"
  by (simp_all add: emit_def)

lemma ledger_run_append: "ledger_run (xs @ ys) = fold (\<lambda>e r. Option.bind r (ledger_step e)) ys (ledger_run xs)"
  by (simp add: ledger_run_def)

text \<open>The buffer the sequence writes from.\<close>

definition sq_res :: "hello_world_sequence \<Rightarrow> res" where
  "sq_res sq = (if using_cmb_io sq then RCmb (ne_ctrlr (sq_ns_entry sq)) (the (sq_buf sq)) else RBuf (the (sq_buf sq)))"

text \<open>
  Where a sequence stands: which command is pending, which resources are held beside those in \<open>K\<close>, and whether the loop that waits
  for it goes on.
\<close>

datatype phase = Resetting | Prepared | Writing | Reading | Finished

definition holds :: "res multiset \<Rightarrow> (nat \<times> io_cmd) list \<Rightarrow> 'w hello \<Rightarrow> bool" where
  "holds M P s \<longleftrightarrow> ledger_run (trace s) = Some \<lparr>ld_live = M, ld_pending = P\<rparr> \<and> pending s = P"

definition phase_ok :: "phase \<Rightarrow> nat \<Rightarrow> res multiset \<Rightarrow> 'w hello \<Rightarrow> bool" where
  "phase_ok ph q K s \<longleftrightarrow>
     ne_qpair (sq_ns_entry (sequence s)) = Some q \<and>
     (case ph of
        Resetting \<Rightarrow> is_completed (sequence s) = 0 \<and> sq_buf (sequence s) \<noteq> None \<and> holds ({#sq_res (sequence s), RQpair q#} + K) [(q, CReset)] s
      | Prepared \<Rightarrow> sq_buf (sequence s) \<noteq> None \<and> holds ({#sq_res (sequence s), RQpair q#} + K) [] s
      | Writing \<Rightarrow> is_completed (sequence s) = 0 \<and> sq_buf (sequence s) \<noteq> None \<and>
          holds ({#sq_res (sequence s), RQpair q#} + K) [(q, CWrite (Some (sq_res (sequence s))))] s
      | Reading \<Rightarrow> is_completed (sequence s) = 0 \<and>
          (\<exists>b. sq_buf (sequence s) = Some b \<and> holds ({#RBuf b, RQpair q#} + K) [(q, CRead (Some (RBuf b)))] s)
      | Finished \<Rightarrow> is_completed (sequence s) = 1 \<and> holds ({#RQpair q#} + K) [] s)"

text \<open>A result is good when no null pointer was read, the rules were kept, and a value that is returned is good.\<close>

definition res_ok :: "('a \<Rightarrow> bool) \<Rightarrow> ('a, 'w hello) hres \<Rightarrow> bool" where
  "res_ok Q r = (case r of Go a \<Rightarrow> Q a | Exit n s \<Rightarrow> ledger_run (trace s) \<noteq> None | Segv s \<Rightarrow> False)"

definition run_ok :: "('a \<Rightarrow> bool) \<Rightarrow> ('a, 'w hello) hres option \<Rightarrow> bool" where
  "run_ok Q r \<longleftrightarrow> (\<forall>x. r = Some x \<longrightarrow> res_ok Q x)"

lemma res_ok_simps [simp]:
  "res_ok Q (Go a) = Q a" "res_ok Q (Exit n s) \<longleftrightarrow> ledger_run (trace s) \<noteq> None" "\<not> res_ok Q (Segv s)"
  "run_ok Q None" "run_ok Q (Some r) = res_ok Q r"
  by (simp_all add: res_ok_def run_ok_def)

lemma io_failed_ok: "ledger_run (trace s) \<noteq> None \<Longrightarrow> res_ok Q (io_failed what c s)"
  by (auto simp: io_failed_def ledger_run_append)

lemma reset_complete_ok:
  assumes "phase_ok Resetting q K s" "s1 = emit [Complete q CReset] (s\<lparr>pending := []\<rparr>)"
  shows "res_ok (\<lambda>s. phase_ok Prepared q K s \<and> is_completed (sequence s) = 1) (reset_zone_complete c s1)"
  using assms by (auto simp: reset_zone_complete_def phase_ok_def holds_def ledger_run_append sq_res_def Let_def intro!: io_failed_ok)

lemma zmalloc_holds:
  assumes "\<And>w. fst (sp_zmalloc E w) \<noteq> None" "holds M P s"
  shows "\<exists>b s1. nvme_zmalloc E s = (Some b, s1) \<and> holds (add_mset (RBuf b) M) P s1 \<and> sequence s1 = sequence s"
proof -
  obtain b w where "sp_zmalloc E (world s) = (Some b, w)" using assms(1) [of "world s"] by (cases "sp_zmalloc E (world s)") auto
  with assms(2) show ?thesis by (simp add: nvme_zmalloc_def holds_def ledger_run_append)
qed

lemma write_complete_ok:
  assumes "phase_ok Writing q K s" "s1 = emit [Complete q (CWrite r)] (s\<lparr>pending := []\<rparr>)" "pending s = [(q, CWrite r)]"
    and "\<And>w. fst (sp_zmalloc E w) \<noteq> None"
  shows "res_ok (phase_ok Reading q K) (write_complete E c s1)"
proof (cases "cpl_error c")
  case True
  with assms show ?thesis
    by (auto simp: write_complete_def phase_ok_def holds_def ledger_run_append Let_def intro!: io_failed_ok)
next
  case False
  let ?s2 = "release_buffer E s1"
  have s2: "holds ({#RQpair q#} + K) [] ?s2" "sequence ?s2 = sequence s"
    using assms(1-3) by (auto simp: release_buffer_def Let_def phase_ok_def holds_def sq_res_def ledger_run_append nvme_free_def)
  obtain b s3 where s3: "nvme_zmalloc E ?s2 = (Some b, s3)" "holds ({#RBuf b, RQpair q#} + K) [] s3" "sequence s3 = sequence s"
    using zmalloc_holds [OF assms(4) s2(1)] s2(2) by auto
  have "res_ok (phase_ok Reading q K) (start_read E (Some b) s3)"
    using s3 assms(1) by (auto simp: start_read_def Let_def phase_ok_def holds_def ledger_run_append uses_def held_def split: prod.splits)
  with s3(1) False show ?thesis by (simp add: write_complete_def)
qed

lemma read_complete_ok:
  assumes "phase_ok Reading q K s" "s1 = emit [Complete q (CRead r)] (s\<lparr>pending := []\<rparr>)" "pending s = [(q, CRead r)]"
  shows "res_ok (phase_ok Finished q K) (read_complete E c s1)"
  using assms by (auto simp: read_complete_def phase_ok_def holds_def ledger_run_append nvme_free_def Let_def intro!: io_failed_ok)

text \<open>The phases that a report of completions leads to.\<close>

fun next_phase :: "phase \<Rightarrow> phase" where
  "next_phase Resetting = Prepared"
| "next_phase Writing = Reading"
| "next_phase Reading = Finished"
| "next_phase ph = ph"

definition waiting :: "phase \<Rightarrow> io_cmd \<Rightarrow> bool" where
  "waiting ph cmd \<longleftrightarrow> (case cmd of CReset \<Rightarrow> ph = Resetting | CWrite r \<Rightarrow> ph = Writing | CRead r \<Rightarrow> ph = Reading)"

lemma phase_pending:
  assumes "phase_ok ph q K s" "i < length (pending s)"
  shows "i = 0 \<and> (\<exists>cmd. pending s = [(q, cmd)] \<and> waiting ph cmd)"
  using assms by (cases ph) (auto simp: phase_ok_def holds_def waiting_def)

lemma callback_ok:
  assumes "phase_ok ph q K s" "pending s = [(q, cmd)]" "waiting ph cmd" "\<And>w. fst (sp_zmalloc E w) \<noteq> None"
  shows "res_ok (\<lambda>s. phase_ok (next_phase ph) q K s \<and> (ph = Resetting \<longrightarrow> is_completed (sequence s) = 1))
    (callback E cmd c (emit [Complete q cmd] (s\<lparr>pending := []\<rparr>)))"
proof (cases cmd)
  case CReset
  with assms reset_complete_ok [OF _ refl, of q K s c] show ?thesis by (simp add: waiting_def)
next
  case (CWrite r)
  with assms write_complete_ok [OF _ refl _ assms(4), of q K s r c] show ?thesis by (simp add: waiting_def)
next
  case (CRead r)
  with assms read_complete_ok [OF _ refl, of q K s r E c] show ?thesis by (simp add: waiting_def)
qed

text \<open>A sequence that is waited for stays in one of its phases: the reset, or the write with the read after it.\<close>

definition stage_ok :: "bool \<Rightarrow> nat \<Rightarrow> res multiset \<Rightarrow> 'w hello \<Rightarrow> bool" where
  "stage_ok zone q K s \<longleftrightarrow>
     (if zone then phase_ok Resetting q K s \<or> phase_ok Prepared q K s \<and> is_completed (sequence s) = 1
      else phase_ok Writing q K s \<or> phase_ok Reading q K s \<or> phase_ok Finished q K s)"

lemma stage_callback:
  assumes "stage_ok zone q K s" "i < length (pending s)" "\<And>w. fst (sp_zmalloc E w) \<noteq> None"
  shows "\<exists>cmd. pending s = [(q, cmd)] \<and> i = 0 \<and> res_ok (stage_ok zone q K) (callback E cmd c (emit [Complete q cmd] (s\<lparr>pending := []\<rparr>)))"
proof -
  obtain ph where ph: "phase_ok ph q K s" "if zone then ph \<in> {Resetting, Prepared} else ph \<in> {Writing, Reading, Finished}"
    using assms(1) by (auto simp: stage_ok_def split: if_splits)
  obtain cmd where cmd: "i = 0" "pending s = [(q, cmd)]" "waiting ph cmd" using phase_pending [OF ph(1) assms(2)] by blast
  from callback_ok [OF ph(1) cmd(2,3) assms(3), of c] ph(2) cmd(3)
  have "res_ok (stage_ok zone q K) (callback E cmd c (emit [Complete q cmd] (s\<lparr>pending := []\<rparr>)))"
    by (cases "callback E cmd c (emit [Complete q cmd] (s\<lparr>pending := []\<rparr>))")
      (auto simp: stage_ok_def waiting_def split: if_splits io_cmd.splits)
  with cmd show ?thesis by blast
qed

lemma stage_world: "stage_ok zone q K (s\<lparr>world := w, mem := m\<rparr>) = stage_ok zone q K s"
  by (simp add: stage_ok_def phase_ok_def holds_def split: phase.splits)

lemma process_completions_ok:
  assumes "\<And>w. fst (sp_zmalloc E w) \<noteq> None"
  shows "stage_ok zone q K s \<Longrightarrow> res_ok (stage_ok zone q K) (process_completions E q n s)"
proof (induction n arbitrary: s)
  case (Suc n)
  obtain r m w where poll: "sp_poll E (world s) (mem s) q = (r, m, w)" by (cases "sp_poll E (world s) (mem s) q")
  let ?s1 = "s\<lparr>world := w, mem := m\<rparr>"
  have s1: "stage_ok zone q K ?s1" using Suc.prems by (simp only: stage_world)
  show ?case
  proof (cases "\<exists>i c. r = Some (i, c) \<and> i < length (pending s)")
    case True
    then obtain i c where i: "r = Some (i, c)" "i < length (pending ?s1)" by auto
    obtain cmd where cmd: "pending s = [(q, cmd)]" "i = 0"
      "res_ok (stage_ok zone q K) (callback E cmd c (emit [Complete q cmd] (?s1\<lparr>pending := []\<rparr>)))"
      using stage_callback [OF s1 i(2) assms, of c] by auto
    with Suc.IH show ?thesis
      by (cases "callback E cmd c (emit [Complete q cmd] (?s1\<lparr>pending := []\<rparr>))") (auto simp: poll i(1) Let_def)
  next
    case False
    then show ?thesis using s1 by (auto simp: poll Let_def split: option.splits)
  qed
qed simp

lemma poll_loop_result:
  assumes "poll_loop E q s = Some r" "\<And>w. fst (sp_zmalloc E w) \<noteq> None" "stage_ok zone q K s"
  shows "res_ok (\<lambda>s. stage_ok zone q K s \<and> is_completed (sequence s) \<noteq> 0) r"
  using assms
proof (induction rule: poll_loop.raw_induct [rotated, consumes 1, case_names step])
  case (step F E q s r)
  obtain x where x: "process_completions E q (sp_max E (world s) q) s = x" by blast
  have "res_ok (stage_ok zone q K) x" using process_completions_ok [OF step.prems] x by blast
  then show ?case
    using step.hyps step.IH [OF _ step.prems(1)] step.prems(2) unfolding x by (cases x) (auto split: if_splits)
qed

lemma poll_loop_ok:
  assumes "\<And>w. fst (sp_zmalloc E w) \<noteq> None" "stage_ok zone q K s"
  shows "run_ok (\<lambda>s. stage_ok zone q K s \<and> is_completed (sequence s) \<noteq> 0) (poll_loop E q s)"
  using poll_loop_result [OF _ assms] by (simp add: run_ok_def)

lemma reset_and_wait_ok:
  assumes "\<And>w. fst (sp_zmalloc E w) \<noteq> None" "phase_ok Prepared q K s" "is_completed (sequence s) = 0"
  shows "run_ok (\<lambda>s. phase_ok Prepared q K s \<and> is_completed (sequence s) = 0) (reset_zone_and_wait_for_completion E s)"
proof -
  obtain rc w where rc: "sp_reset_zone E (world s) (ne_ns (sq_ns_entry (sequence s))) q = (rc, w)" by fastforce
  let ?s1 = "emit [Submit q CReset] (s\<lparr>world := w, pending := pending s @ [(q, CReset)]\<rparr>)"
  have q: "ne_qpair (sq_ns_entry (sequence s)) = Some q" using assms(2) by (simp add: phase_ok_def)
  have "stage_ok True q K ?s1"
    using assms(2,3) by (auto simp: stage_ok_def phase_ok_def holds_def ledger_run_append uses_def held_def)
  from poll_loop_ok [OF assms(1) this] show ?thesis
    using assms(2,3) rc q
    by (auto simp: reset_zone_and_wait_for_completion_def Let_def run_ok_def res_ok_def stage_ok_def phase_ok_def holds_def sq_res_def
        ledger_run_append split: option.splits hres.splits)
qed

lemma write_and_wait_ok:
  assumes "\<And>w. fst (sp_zmalloc E w) \<noteq> None" "phase_ok Prepared q K s" "is_completed (sequence s) = 0"
  shows "run_ok (\<lambda>(go_on, s). go_on \<and> holds K [] s) (write_and_wait E s)"
proof -
  obtain b where b: "sq_buf (sequence s) = Some b" using assms(2) by (auto simp: phase_ok_def)
  obtain rc w where rc: "sp_write E (world s) (ne_ns (sq_ns_entry (sequence s))) q (Some b) = (rc, w)" by fastforce
  let ?cmd = "CWrite (Some (sq_res (sequence s)))"
  let ?s1 = "emit [Submit q ?cmd] (s\<lparr>mem := (mem s)(b := snprintf_s 0x1000 DATA_BUFFER_STRING (mem s b)),
      world := w, pending := pending s @ [(q, ?cmd)]\<rparr>)"
  have q: "ne_qpair (sq_ns_entry (sequence s)) = Some q" using assms(2) by (simp add: phase_ok_def)
  have "stage_ok False q K ?s1"
    using assms(2,3) b by (auto simp: stage_ok_def phase_ok_def holds_def ledger_run_append uses_def held_def)
  from poll_loop_ok [OF assms(1) this] have "run_ok (phase_ok Finished q K) (poll_loop E q ?s1)"
    by (auto simp: run_ok_def res_ok_def stage_ok_def phase_ok_def split: hres.splits)
  moreover have "write_and_wait E s =
      (if rc \<noteq> 0 then Some (Exit 1 (emit [Err ''starting write I/O failed'']
         (s\<lparr>mem := (mem s)(b := snprintf_s 0x1000 DATA_BUFFER_STRING (mem s b)), world := w\<rparr>)))
       else case poll_loop E q ?s1 of None \<Rightarrow> None | Some (Exit n s2) \<Rightarrow> Some (Exit n s2) | Some (Segv s2) \<Rightarrow> Some (Segv s2)
        | Some (Go s2) \<Rightarrow> Some (Go (True, emit [Release (RQpair q)] (s2\<lparr>world := sp_free_qpair E (world s2) q\<rparr>))))"
    unfolding write_and_wait_def Let_def q b option.sel by (simp add: rc sq_res_def b)
  ultimately show ?thesis
    using assms(2) by (cases "poll_loop E q ?s1") (auto simp: phase_ok_def holds_def ledger_run_append split: hres.splits)
qed

text \<open>Mappings of controller memory are all that a namespace may leave behind.\<close>

definition only_cmb :: "res multiset \<Rightarrow> bool" where
  "only_cmb K \<longleftrightarrow> (\<forall>r \<in># K. \<exists>c b. r = RCmb c b)"

lemma write_buffer_ok:
  assumes "\<And>w. fst (sp_zmalloc E w) \<noteq> None" "holds ({#RQpair q#} + K) [] s" "only_cmb K"
  shows "\<exists>cmb b s1 K1. write_buffer E e s = (cmb, Some b, s1) \<and> only_cmb K1 \<and>
    holds ({#if cmb then RCmb (ne_ctrlr e) b else RBuf b, RQpair q#} + K1) [] s1"
proof -
  obtain r w where r: "sp_map_cmb E (world s) (ne_ctrlr e) = (r, w)" by fastforce
  have w: "holds ({#RQpair q#} + K) [] (s\<lparr>world := w\<rparr>)" using assms(2) by (simp add: holds_def)
  have cmb: "holds ({#RCmb (ne_ctrlr e) b, RQpair q#} + K) [] (emit [Acquire (RCmb (ne_ctrlr e) b)] (s\<lparr>world := w\<rparr>))" for b
    using w by (simp add: holds_def ledger_run_append)
  show ?thesis
  proof (cases r)
    case None
    obtain a s1 where "nvme_zmalloc E (s\<lparr>world := w\<rparr>) = (Some a, s1)" "holds ({#RBuf a, RQpair q#} + K) [] s1"
      using zmalloc_holds [OF assms(1) w] by auto
    then show ?thesis using r None assms(3) by (auto simp: write_buffer_def)
  next
    case (Some x)
    then obtain b sz where b: "r = Some (b, sz)" by (cases x) auto
    have "holds ({#RQpair q#} + add_mset (RCmb (ne_ctrlr e) b) K) [] (emit [Acquire (RCmb (ne_ctrlr e) b)] (s\<lparr>world := w\<rparr>))"
      using cmb [of b] by (simp add: add_mset_commute)
    from zmalloc_holds [OF assms(1) this] obtain a s1 where z:
      "nvme_zmalloc E (emit [Acquire (RCmb (ne_ctrlr e) b)] (s\<lparr>world := w\<rparr>)) = (Some a, s1)"
      "holds (add_mset (RBuf a) ({#RQpair q#} + add_mset (RCmb (ne_ctrlr e) b) K)) [] s1" by blast
    show ?thesis
    proof (cases "sz < 0x1000")
      case True
      with r b z assms(3) show ?thesis
        by (intro exI [of _ False] exI [of _ a] exI [of _ s1] exI [of _ "add_mset (RCmb (ne_ctrlr e) b) K"])
          (simp add: write_buffer_def Let_def only_cmb_def add_mset_commute)
    next
      case False
      with r b cmb [of b] assms(3) show ?thesis
        by (intro exI [of _ True] exI [of _ b] exI [of _ "emit [Acquire (RCmb (ne_ctrlr e) b)] (s\<lparr>world := w\<rparr>)"] exI [of _ K])
          (simp add: write_buffer_def Let_def)
    qed
  qed
qed

lemma hello_ns_ok:
  assumes "\<And>w. fst (sp_zmalloc E w) \<noteq> None" "holds K [] s" "only_cmb K"
  shows "run_ok (\<lambda>(go_on, s). \<exists>K. only_cmb K \<and> holds K [] s) (hello_ns E i s)"
proof -
  let ?c = "ne_ctrlr (g_namespaces s ! i)"
  obtain r w where r: "sp_alloc_qpair E (world s) ?c = (r, w)" by fastforce
  show ?thesis
  proof (cases r)
    case None
    then show ?thesis using r assms(2,3) by (auto simp: hello_ns_def holds_def ledger_run_append)
  next
    case (Some q)
    let ?e = "(g_namespaces s ! i)\<lparr>ne_qpair := Some q\<rparr>"
    let ?s1 = "emit [Acquire (RQpair q)] (s\<lparr>world := w, g_namespaces := (g_namespaces s)[i := ?e]\<rparr>)"
    have "holds ({#RQpair q#} + K) [] ?s1" using assms(2) by (simp add: holds_def ledger_run_append)
    from write_buffer_ok [OF assms(1) this assms(3)] obtain cmb b s2 K1 where wb: "write_buffer E ?e ?s1 = (cmb, Some b, s2)"
      "only_cmb K1" "holds ({#if cmb then RCmb (ne_ctrlr ?e) b else RBuf b, RQpair q#} + K1) [] s2" by metis
    define s3 where "s3 = emit [Out (if cmb then ''INFO: using controller memory buffer for IO'' else ''INFO: using host memory buffer for IO'')]
        (s2\<lparr>sequence := \<lparr>sq_ns_entry = ?e, sq_buf = Some b, using_cmb_io = cmb, is_completed = 0\<rparr>\<rparr>)"
    have s3: "phase_ok Prepared q K1 s3" "is_completed (sequence s3) = 0"
      using wb(3) by (auto simp: s3_def phase_ok_def holds_def ledger_run_append sq_res_def)
    have "hello_ns E i s = (if sp_ns_zoned E (ne_ns ?e) then
        (case reset_zone_and_wait_for_completion E s3 of None \<Rightarrow> None | Some (Exit n s4) \<Rightarrow> Some (Exit n s4)
         | Some (Segv s4) \<Rightarrow> Some (Segv s4) | Some (Go s4) \<Rightarrow> write_and_wait E s4) else write_and_wait E s3)"
      using r Some wb(1) unfolding s3_def by (simp add: hello_ns_def Let_def)
    moreover have "run_ok (\<lambda>(go_on, s). \<exists>K. only_cmb K \<and> holds K [] s) (write_and_wait E s4)"
      if "phase_ok Prepared q K1 s4" "is_completed (sequence s4) = 0" for s4
      using write_and_wait_ok [OF assms(1) that] wb(2) by (auto simp: run_ok_def res_ok_def split: hres.splits)
    ultimately show ?thesis
      using s3 reset_and_wait_ok [OF assms(1) s3]
      by (cases "reset_zone_and_wait_for_completion E s3") (auto split: hres.splits)
  qed
qed

lemma hello_loop_ok:
  assumes "\<And>w. fst (sp_zmalloc E w) \<noteq> None"
  shows "holds K [] s \<Longrightarrow> only_cmb K \<Longrightarrow> run_ok (\<lambda>s. \<exists>K. only_cmb K \<and> holds K [] s) (hello_loop E is s)"
proof (induction "is" arbitrary: s K)
  case (Cons i "is")
  obtain r where r: "hello_ns E i s = r" by blast
  show ?case using hello_ns_ok [OF assms Cons.prems, of i] Cons.IH unfolding r
    by (cases r) (auto simp: r split: hres.splits)
qed (auto)

lemma register_ns_ok: "holds K P s \<Longrightarrow> res_ok (holds K P) (register_ns E c ns s)"
  by (auto simp: register_ns_def holds_def ledger_run_append split: prod.splits bool.splits)

lemma attach_loop_result:
  assumes "attach_loop E c nsid s = Some r" "holds K P s"
  shows "res_ok (holds K P) r"
  using assms
proof (induction rule: attach_loop.raw_induct [rotated, consumes 1, case_names step])
  case (step F E c nsid s r)
  have reg: "res_ok (holds K P) (register_ns E c ns s)" for ns by (rule register_ns_ok [OF step.prems])
  show ?case
  proof (cases "sp_get_ns E c nsid")
    case None
    then show ?thesis using step by (auto split: if_splits)
  next
    case (Some ns)
    obtain x where x: "register_ns E c ns s = x" by blast
    show ?thesis using step.hyps step.IH step.prems reg [of ns] Some by (cases x) (auto simp: x split: if_splits)
  qed
qed

lemma attach_cb_ok:
  assumes "holds K P s"
  shows "run_ok (holds K P) (attach_cb E a c s)"
proof -
  have "holds K P s1 \<Longrightarrow> run_ok (holds K P) (attach_loop E c nsid s1)" for nsid s1
    using attach_loop_result by (auto simp: run_ok_def)
  moreover have "holds K P (emit [Out m] (s\<lparr>world := w\<rparr>)\<lparr>g_controllers := cs\<rparr>)" for m w cs
    using assms by (simp add: holds_def ledger_run_append)
  ultimately show ?thesis
    using assms by (auto simp: attach_cb_def Let_def split: prod.split bool.split) (auto simp: holds_def ledger_run_append)
qed

lemma probe_events_ok: "holds K P s \<Longrightarrow> run_ok (holds K P) (probe_events E es s)"
proof (induction es arbitrary: s)
  case (Cons e es)
  show ?case
  proof (cases e)
    case (Probed a)
    have "holds K P (snd (probe_cb a s))" using Cons.prems by (simp add: probe_cb_def holds_def ledger_run_append)
    with Probed Cons.IH show ?thesis by simp
  next
    case (Attached a c)
    have "run_ok (holds K P) (attach_cb E a c s)" by (rule attach_cb_ok [OF Cons.prems])
    moreover obtain x where x: "attach_cb E a c s = x" by blast
    ultimately show ?thesis using Attached Cons.IH unfolding x by (cases x) (auto simp: x split: hres.splits)
  qed
qed simp

lemma detach_all_ok: "holds K P s \<Longrightarrow> holds K P (snd (detach_all E cs ctx s))"
  by (induction E cs ctx s rule: detach_all.induct) (auto simp: holds_def ledger_run_append split: prod.splits)

lemma nvme_finish_ok: "holds K P s \<Longrightarrow> run_ok (\<lambda>(rc, s). holds K P s) (nvme_finish E rc s)"
  using detach_all_ok [of K P "emit [Flush] s\<lparr>g_namespaces := []\<rparr>" E "g_controllers s" False]
  by (auto simp: nvme_finish_def nvme_cleanup_def Let_def holds_def ledger_run_append split: prod.splits)

lemma nvme_run_ok:
  assumes "\<And>w. fst (sp_zmalloc E w) \<noteq> None" "holds {#} [] s"
  shows "run_ok (\<lambda>(rc, s). \<exists>K. only_cmb K \<and> holds K [] s) (nvme_run E s)"
proof -
  have fin: "run_ok (\<lambda>(rc, s). \<exists>K. only_cmb K \<and> holds K [] s) (nvme_finish E rc s1)" if "holds K [] s1" "only_cmb K" for K rc s1
    using nvme_finish_ok [OF that(1), of E rc] that(2) by (auto simp: run_ok_def res_ok_def split: hres.splits)
  obtain es rc w where pr: "sp_probe E (world s) (g_trid s) = (es, rc, w)" by (cases "sp_probe E (world s) (g_trid s)")
  obtain x where x: "probe_events E es (s\<lparr>world := w\<rparr>) = x" by blast
  have "run_ok (holds {#} []) x" using probe_events_ok [of "{#}" "[]" "s\<lparr>world := w\<rparr>" E es] assms(2) x by (simp add: holds_def)
  moreover have "run_ok (\<lambda>(rc, s). \<exists>K. only_cmb K \<and> holds K [] s) (nvme_run E s)" if "x = Some (Go s1)" "holds {#} [] s1" for s1
  proof -
    obtain y where y: "nvme_hello_world E (emit [Out ''Initialization complete.''] s1) = y" by blast
    have em: "holds {#} [] (emit [Out m] s1)" "holds {#} [] (emit [Err m] s1)" for m using that(2) by (simp_all add: holds_def ledger_run_append)
    have "run_ok (\<lambda>s. \<exists>K. only_cmb K \<and> holds K [] s) y"
      using hello_loop_ok [OF assms(1) em(1)] unfolding y [symmetric] nvme_hello_world_def by (simp add: only_cmb_def)
    with fin show ?thesis
      using fin [OF em(2)] by (cases y) (auto simp: nvme_run_def pr x that(1) y only_cmb_def split: hres.splits)
  qed
  ultimately show ?thesis by (cases x) (auto simp: nvme_run_def pr x split: hres.splits)
qed

lemma usage_ledger: "ledger_run (xs @ nvme_usage E prog) = ledger_run xs" "ledger_run (xs @ Err m # nvme_usage E prog) = ledger_run xs"
  by (cases "ledger_run xs"; simp add: ledger_run_append nvme_usage_def)+

lemma parse_opts_ok: "holds K P s \<Longrightarrow> res_ok (\<lambda>(rc, s). holds K P s) (parse_opts E prog os s)"
  by (induction E prog os s rule: parse_opts.induct) (auto simp: holds_def usage_ledger ledger_run_append [of _ "[e]" for e] Let_def split: prod.splits)

lemma nvme_main_ok:
  assumes "\<And>w. fst (sp_zmalloc E w) \<noteq> None"
  shows "run_ok (\<lambda>(rc, s). \<exists>K. only_cmb K \<and> holds K [] s) (nvme_main E argv w m)"
proof -
  obtain x where x: "nvme_parse_args E argv ((hello_start w m)\<lparr>opts := sp_opts_init E\<rparr>) = x" by blast
  have "res_ok (\<lambda>(rc, s). holds {#} [] s) x"
    unfolding x [symmetric] nvme_parse_args_def Let_def
    by (rule parse_opts_ok) (simp add: hello_start_def holds_def ledger_run_def)
  moreover have "run_ok (\<lambda>(rc, s). \<exists>K. only_cmb K \<and> holds K [] s) (nvme_main E argv w m)" if go: "x = Go (rc, s)" "holds {#} [] s" for rc s
  proof -
    have emp: "only_cmb {#}" by (simp add: only_cmb_def)
    let ?os = "(opts s)\<lparr>eo_name := ''hello_world''\<rparr>"
    have h: "holds {#} [] (emit es (s\<lparr>opts := ?os, world := w1\<rparr>))"
      if "set es \<subseteq> {EnvInit, Out ''Initializing NVMe Controllers'', Err ''Unable to initialize SPDK env'', VmdInit,
          Err ''Failed to initialize VMD. Some NVMe devices can be unavailable.''}" for es w1
    proof -
      have "fold (\<lambda>e r. Option.bind r (ledger_step e)) es (Some l) = Some l" for l using that by (induction es) auto
      with go(2) show ?thesis by (simp add: holds_def ledger_run_append)
    qed
    obtain rc1 w1 where env: "sp_env_init E (world s) ?os = (rc1, w1)" by fastforce
    obtain rc2 w2 where vmd: "sp_vmd_init E w1 = (rc2, w2)" by fastforce
    note runs = nvme_run_ok [OF assms h]
    have emit2: "emit [e] (emit [e1, e2] a\<lparr>world := w2\<rparr>) = emit [e1, e2, e] (a\<lparr>world := w2\<rparr>)" for e e1 e2 and a :: "'a hello"
      by (simp add: emit_def)
    show ?thesis
      using emp go(2) h [of "[Err ''Unable to initialize SPDK env'']" w1] runs
      by (auto simp: nvme_main_def x go(1) env vmd Let_def emit2)
  qed
  ultimately show ?thesis by (cases x) (auto simp: nvme_main_def x split: prod.splits)
qed

end
