(* ===== verification/Nvme_Device.thy ===== *)
theory Nvme_Device
  imports Nvme_Hello
begin

text \<open>
  The NVMe sample on a device that works: the laws of the driver and of the devices, that the polling loops then end, and
  an instance with two namespaces.
\<close>

section \<open>Devices\<close>

text \<open>A command in flight: the namespace and the address of the buffer.\<close>

datatype dev_cmd = DReset nat | DWrite nat nat | DRead nat nat

text \<open>The string with its null character at the beginning of a block or buffer.\<close>

definition hello_at :: "string \<Rightarrow> bool" where
  "hello_at x \<longleftrightarrow> (\<exists>rest. x = DATA_BUFFER_STRING @ CHR 0x00 # rest)"

lemma hello_at_c_str: "hello_at x \<Longrightarrow> c_str x = DATA_BUFFER_STRING"
  by (auto simp: hello_at_def c_str_def DATA_BUFFER_STRING_def)

lemma hello_at_snprintf: "hello_at (snprintf_s 0x1000 DATA_BUFFER_STRING x)"
  by (simp add: hello_at_def snprintf_s_def DATA_BUFFER_STRING_def c_str_def)

lemma hello_at_take: "hello_at x \<Longrightarrow> 13 \<le> n \<Longrightarrow> hello_at (take n x)"
  by (auto simp: hello_at_def DATA_BUFFER_STRING_def take_Cons' split: nat.splits)

lemma hello_at_append: "hello_at x \<Longrightarrow> hello_at (x @ y)"
  by (auto simp: hello_at_def)

text \<open>How often the string was printed, and the lines on namespaces.\<close>

definition count_hello :: "'w hello \<Rightarrow> nat" where
  "count_hello s = length (filter (\<lambda>ev. ev = Out DATA_BUFFER_STRING) (trace s))"

definition ns_lines :: "'w hello \<Rightarrow> hello_ev list" where
  "ns_lines s = filter (\<lambda>ev. case ev of OutNamespace i g \<Rightarrow> True | _ \<Rightarrow> False) (trace s)"

text \<open>The namespaces with given identifiers on the controllers that were found, and what is printed of each.\<close>

definition ns_handle :: "'w spdk \<Rightarrow> nat \<Rightarrow> u32 \<Rightarrow> nat" where
  "ns_handle E c n = the (sp_get_ns E c n)"

definition ns_line :: "'w spdk \<Rightarrow> nat \<Rightarrow> hello_ev" where
  "ns_line E ns = OutNamespace (sint (sp_ns_id E ns)) (sp_ns_size E ns div 1000000000)"

definition found_ns :: "'w spdk \<Rightarrow> (nat \<Rightarrow> u32 list) \<Rightarrow> (string \<times> nat) list \<Rightarrow> nat list" where
  "found_ns E ids found = concat (map (\<lambda>(a, c). map (ns_handle E c) (ids c)) found)"

text \<open>
  The laws: the first block \<open>lba0\<close> of a namespace changes only through commands on that namespace; a command that was started is
  in flight until a poll reports it, after finitely many polls (\<open>lag\<close>) and without an error; a write stores the beginning of the buffer, and a
  read puts the block at the beginning of the buffer. The active namespaces of a controller have the identifiers \<open>ids\<close>.
\<close>

locale nvme_device =
  fixes E :: "'w spdk" and lba0 :: "'w \<Rightarrow> nat \<Rightarrow> string" and inflight :: "'w \<Rightarrow> (nat \<times> dev_cmd) option"
    and lag :: "'w \<Rightarrow> nat" and sector :: nat and ids :: "nat \<Rightarrow> u32 list" and found :: "(string \<times> nat) list"
  assumes malloc: "\<exists>w'. sp_malloc E w = (True, w') \<and> lba0 w' = lba0 w \<and> inflight w' = inflight w"
    and alloc_qpair: "\<exists>q w'. sp_alloc_qpair E w c = (Some q, w') \<and> lba0 w' = lba0 w \<and> inflight w' = inflight w"
    and free_qpair: "lba0 (sp_free_qpair E w q) = lba0 w" "inflight (sp_free_qpair E w q) = inflight w"
    and map_cmb: "lba0 (snd (sp_map_cmb E w c)) = lba0 w" "inflight (snd (sp_map_cmb E w c)) = inflight w"
    and unmap_cmb: "lba0 (sp_unmap_cmb E w c) = lba0 w" "inflight (sp_unmap_cmb E w c) = inflight w"
    and zmalloc: "\<exists>b w'. sp_zmalloc E w = (Some b, w') \<and> lba0 w' = lba0 w \<and> inflight w' = inflight w"
    and free: "lba0 (sp_free E w b) = lba0 w" "inflight (sp_free E w b) = inflight w"
    and start_write: "inflight w = None \<Longrightarrow> \<exists>w'. sp_write E w n q (Some b) = (0, w') \<and> lba0 w' = lba0 w \<and> inflight w' = Some (q, DWrite n b)"
    and start_read: "inflight w = None \<Longrightarrow> \<exists>w'. sp_read E w n q (Some b) = (0, w') \<and> lba0 w' = lba0 w \<and> inflight w' = Some (q, DRead n b)"
    and start_reset: "inflight w = None \<Longrightarrow> \<exists>w'. sp_reset_zone E w n q = (0, w') \<and> lba0 w' = lba0 w \<and> inflight w' = Some (q, DReset n)"
    and poll_idle: "inflight w = None \<Longrightarrow> \<exists>w'. sp_poll E w m q = (None, m, w') \<and> lba0 w' = lba0 w \<and> inflight w' = None"
    and poll_busy: "inflight w = Some (q, cmd) \<Longrightarrow>
      (\<exists>w'. sp_poll E w m q = (None, m, w') \<and> lba0 w' = lba0 w \<and> inflight w' = inflight w \<and> lag w' < lag w) \<or>
      (\<exists>c m' w'. sp_poll E w m q = (Some (0, c), m', w') \<and> \<not> cpl_error c \<and> inflight w' = None \<and>
         (case cmd of
            DReset n \<Rightarrow> m' = m \<and> (\<forall>k. k \<noteq> n \<longrightarrow> lba0 w' k = lba0 w k)
          | DWrite n b \<Rightarrow> m' = m \<and> lba0 w' = (lba0 w)(n := take sector (m b))
          | DRead n b \<Rightarrow> m' = m(b := lba0 w n @ drop (length (lba0 w n)) (m b)) \<and> lba0 w' = lba0 w))"
    and max_pos: "0 < sp_max E w q"
    and sector: "512 \<le> sector"
    and first_id: "sp_first_ns E c = hd (ids c @ [0])"
    and next_id: "i < length (ids c) \<Longrightarrow> sp_next_ns E c (ids c ! i) = (ids c @ [0]) ! Suc i"
    and id_pos: "0 \<notin> set (ids c)"
    and ns_of_id: "x \<in> set (ids c) \<Longrightarrow> \<exists>ns. sp_get_ns E c x = Some ns \<and> sp_ns_active E ns"
    and env_init: "\<exists>rc w'. sp_env_init E w os = (rc, w') \<and> 0 \<le> rc \<and> lba0 w' = lba0 w \<and> inflight w' = inflight w"
    and vmd_init: "lba0 (snd (sp_vmd_init E w)) = lba0 w" "inflight (snd (sp_vmd_init E w)) = inflight w"
    and probe: "\<exists>w'. sp_probe E w t = (map (\<lambda>(a, c). Probed a) found @ map (\<lambda>(a, c). Attached a c) found, 0, w') \<and>
      lba0 w' = lba0 w \<and> inflight w' = inflight w"
    and detach: "lba0 (snd (sp_detach E w c ctx)) = lba0 w" "inflight (snd (sp_detach E w c ctx)) = inflight w"
begin

text \<open>What a state says of the sequence for the entry \<open>e\<close>, and of what it has changed since the state \<open>s0\<close>.\<close>

definition frame :: "nat set \<Rightarrow> 'w hello \<Rightarrow> 'w hello \<Rightarrow> bool" where
  "frame N s0 s \<longleftrightarrow> g_controllers s = g_controllers s0 \<and> map ne_ns (g_namespaces s) = map ne_ns (g_namespaces s0) \<and>
     g_vmd s = g_vmd s0 \<and> ns_lines s = ns_lines s0 \<and> (\<forall>k. k \<notin> N \<longrightarrow> lba0 (world s) k = lba0 (world s0) k)"

definition dev_ok :: "phase \<Rightarrow> nat \<Rightarrow> ns_entry \<Rightarrow> 'w hello \<Rightarrow> 'w hello \<Rightarrow> bool" where
  "dev_ok ph q e s0 s \<longleftrightarrow>
     frame {ne_ns e} s0 s \<and> ne_qpair e = Some q \<and> sq_ns_entry (sequence s) = e \<and>
     count_hello s = count_hello s0 + (if ph = Finished then 1 else 0) \<and>
     (case ph of
        Resetting \<Rightarrow> is_completed (sequence s) = 0 \<and> sq_buf (sequence s) \<noteq> None \<and> pending s = [(q, CReset)] \<and>
          inflight (world s) = Some (q, DReset (ne_ns e))
      | Prepared \<Rightarrow> is_completed (sequence s) = 1 \<and> sq_buf (sequence s) \<noteq> None \<and> pending s = [] \<and> inflight (world s) = None
      | Writing \<Rightarrow> is_completed (sequence s) = 0 \<and>
          (\<exists>r b. pending s = [(q, CWrite r)] \<and> sq_buf (sequence s) = Some b \<and> inflight (world s) = Some (q, DWrite (ne_ns e) b) \<and> hello_at (mem s b))
      | Reading \<Rightarrow> is_completed (sequence s) = 0 \<and> hello_at (lba0 (world s) (ne_ns e)) \<and>
          (\<exists>r b. pending s = [(q, CRead r)] \<and> sq_buf (sequence s) = Some b \<and> inflight (world s) = Some (q, DRead (ne_ns e) b))
      | Finished \<Rightarrow> is_completed (sequence s) = 1 \<and> pending s = [] \<and> inflight (world s) = None \<and> hello_at (lba0 (world s) (ne_ns e)))"

fun rank :: "phase \<Rightarrow> nat" where
  "rank Writing = 2"
| "rank Reading = 1"
| "rank Resetting = 1"
| "rank _ = 0"

text \<open>The state in which the callback of the pending command runs, and what it does.\<close>

lemma reset_completed:
  assumes "dev_ok Resetting q e s0 s" "sp_poll E (world s) (mem s) q = (Some (0, c), m, w)"
  shows "\<exists>s1. callback E CReset c (emit [Complete q CReset] (s\<lparr>world := w, mem := m, pending := []\<rparr>)) = Go s1 \<and> dev_ok Prepared q e s0 s1"
  using assms poll_busy [of "world s" q "DReset (ne_ns e)" "mem s"]
  by (auto simp: dev_ok_def frame_def reset_zone_complete_def count_hello_def ns_lines_def Let_def)

lemma read_completed:
  assumes "dev_ok Reading q e s0 s" "sp_poll E (world s) (mem s) q = (Some (0, c), m, w)"
  shows "\<exists>s1. callback E (CRead r) c (emit [Complete q (CRead r)] (s\<lparr>world := w, mem := m, pending := []\<rparr>)) = Go s1 \<and> dev_ok Finished q e s0 s1"
proof -
  obtain b where b: "sq_buf (sequence s) = Some b" "inflight (world s) = Some (q, DRead (ne_ns e) b)" "hello_at (lba0 (world s) (ne_ns e))"
    using assms(1) by (auto simp: dev_ok_def)
  have p: "\<not> cpl_error c" "inflight w = None" "lba0 w = lba0 (world s)" "hello_at (m b)"
    using poll_busy [OF b(2), of "mem s"] assms(2) hello_at_append [OF b(3)] by auto
  show ?thesis
    using assms(1) b p hello_at_c_str [OF p(4)] free
    by (auto simp: dev_ok_def frame_def read_complete_def nvme_free_def count_hello_def ns_lines_def Let_def)
qed

lemma write_completed:
  assumes "dev_ok Writing q e s0 s" "sp_poll E (world s) (mem s) q = (Some (0, c), m, w)"
  shows "\<exists>s1. callback E (CWrite r) c (emit [Complete q (CWrite r)] (s\<lparr>world := w, mem := m, pending := []\<rparr>)) = Go s1 \<and> dev_ok Reading q e s0 s1"
proof -
  obtain b where b: "sq_buf (sequence s) = Some b" "inflight (world s) = Some (q, DWrite (ne_ns e) b)" "hello_at (mem s b)"
    using assms(1) by (auto simp: dev_ok_def)
  have p: "\<not> cpl_error c" "inflight w = None" "lba0 w = (lba0 (world s))(ne_ns e := take sector (mem s b))"
    using poll_busy [OF b(2), of "mem s"] assms(2) by auto
  have h: "hello_at (lba0 w (ne_ns e))" using p(3) hello_at_take [OF b(3)] sector by simp
  let ?s1 = "emit [Complete q (CWrite r)] (s\<lparr>world := w, mem := m, pending := []\<rparr>)"
  let ?s2 = "release_buffer E ?s1"
  have s2: "lba0 (world ?s2) = lba0 w" "inflight (world ?s2) = None" "sequence ?s2 = sequence s" "pending ?s2 = []"
    "g_controllers ?s2 = g_controllers s" "g_namespaces ?s2 = g_namespaces s" "g_vmd ?s2 = g_vmd s"
    "count_hello ?s2 = count_hello s" "ns_lines ?s2 = ns_lines s"
    using p(2) by (auto simp: release_buffer_def nvme_free_def b(1) unmap_cmb free count_hello_def ns_lines_def Let_def)
  obtain a w1 where z: "sp_zmalloc E (world ?s2) = (Some a, w1)" "lba0 w1 = lba0 w" "inflight w1 = None"
    using zmalloc [of "world ?s2"] s2(1,2) by auto
  obtain w2 where rd: "sp_read E w1 (ne_ns e) q (Some a) = (0, w2)" "lba0 w2 = lba0 w" "inflight w2 = Some (q, DRead (ne_ns e) a)"
    using start_read [OF z(3), of "ne_ns e" q a] z(2) by auto
  have "sq_ns_entry (sequence s) = e" "ne_qpair e = Some q" using assms(1) by (simp_all add: dev_ok_def)
  then show ?thesis
    using assms(1) p(1,3) s2 rd h
    by (simp add: write_complete_def nvme_zmalloc_def z start_read_def Let_def dev_ok_def frame_def)
      (simp add: count_hello_def ns_lines_def)
qed

lemma completed:
  assumes "dev_ok ph q e s0 s" "0 < rank ph" "sp_poll E (world s) (mem s) q = (Some (0, c), m, w)"
  shows "\<exists>cmd s1. pending s = [(q, cmd)] \<and> dev_ok (next_phase ph) q e s0 s1 \<and>
    callback E cmd c (emit [Complete q cmd] (s\<lparr>world := w, mem := m, pending := []\<rparr>)) = Go s1"
proof (cases ph)
  case Resetting
  with reset_completed [OF _ assms(3), of e s0] assms(1) show ?thesis by (auto simp: dev_ok_def [of Resetting])
next
  case Writing
  moreover obtain r where "pending s = [(q, CWrite r)]" using assms(1) Writing by (auto simp: dev_ok_def)
  ultimately show ?thesis using write_completed [OF _ assms(3), of e s0 r] assms(1) by auto
next
  case Reading
  moreover obtain r where "pending s = [(q, CRead r)]" using assms(1) Reading by (auto simp: dev_ok_def)
  ultimately show ?thesis using read_completed [OF _ assms(3), of e s0 r] assms(1) by auto
qed (use assms(2) in auto)

text \<open>A call of the driver makes progress: the phase changes, or the command in flight comes closer to its end.\<close>

lemma idle_poll:
  assumes "dev_ok ph q e s0 s" "rank ph = 0"
  shows "\<exists>w. sp_poll E (world s) (mem s) q = (None, mem s, w) \<and> dev_ok ph q e s0 (s\<lparr>world := w\<rparr>)"
proof -
  have "inflight (world s) = None" using assms by (cases ph) (auto simp: dev_ok_def)
  from poll_idle [OF this, of "mem s" q] assms show ?thesis
    by (cases ph) (auto simp: dev_ok_def frame_def count_hello_def ns_lines_def)
qed

lemma busy_poll:
  assumes "dev_ok ph q e s0 s" "0 < rank ph"
  shows "(\<exists>w. sp_poll E (world s) (mem s) q = (None, mem s, w) \<and> dev_ok ph q e s0 (s\<lparr>world := w\<rparr>) \<and> lag w < lag (world s)) \<or>
    (\<exists>c m w. sp_poll E (world s) (mem s) q = (Some (0, c), m, w))"
proof -
  obtain cmd where "inflight (world s) = Some (q, cmd)" using assms by (cases ph) (auto simp: dev_ok_def)
  from poll_busy [OF this, of "mem s"] consider
    (none) w where "sp_poll E (world s) (mem s) q = (None, mem s, w)" "lba0 w = lba0 (world s)" "inflight w = inflight (world s)" "lag w < lag (world s)"
  | (some) c m w where "sp_poll E (world s) (mem s) q = (Some (0, c), m, w)" by blast
  then show ?thesis
  proof cases
    case none
    with assms show ?thesis by (cases ph) (auto simp: dev_ok_def frame_def count_hello_def ns_lines_def)
  qed blast
qed

definition closer :: "phase \<times> 'w hello \<Rightarrow> phase \<times> 'w hello \<Rightarrow> bool" where
  "closer x y \<longleftrightarrow> rank (fst x) < rank (fst y) \<or> fst x = fst y \<and> lag (world (snd x)) < lag (world (snd y))"

lemma process_completions_progress:
  assumes "dev_ok ph q e s0 s"
  shows "\<exists>ph1 s1. process_completions E q n s = Go s1 \<and> dev_ok ph1 q e s0 s1 \<and> (ph1 \<in> {ph, next_phase ph, next_phase (next_phase ph)}) \<and>
    (0 < n \<and> 0 < rank ph \<longrightarrow> closer (ph1, s1) (ph, s))"
  using assms
proof (induction n arbitrary: ph s)
  case 0
  then show ?case by auto
next
  case (Suc n)
  show ?case
  proof (cases "rank ph = 0")
    case True
    obtain w where "sp_poll E (world s) (mem s) q = (None, mem s, w)" "dev_ok ph q e s0 (s\<lparr>world := w\<rparr>)"
      using idle_poll [OF Suc.prems True] by blast
    then show ?thesis using True by (auto simp: Let_def intro!: exI [of _ ph])
  next
    case False
    then consider (none) w where "sp_poll E (world s) (mem s) q = (None, mem s, w)" "dev_ok ph q e s0 (s\<lparr>world := w\<rparr>)" "lag w < lag (world s)"
      | (some) c m w where "sp_poll E (world s) (mem s) q = (Some (0, c), m, w)" using busy_poll [OF Suc.prems] by blast
    then show ?thesis
    proof cases
      case none
      then show ?thesis by (auto simp: closer_def intro!: exI [of _ ph])
    next
      case some
      obtain cmd s1 where c: "pending s = [(q, cmd)]" "dev_ok (next_phase ph) q e s0 s1"
        "callback E cmd c (emit [Complete q cmd] (s\<lparr>world := w, mem := m, pending := []\<rparr>)) = Go s1"
        using completed [OF Suc.prems _ some] False by auto
      obtain ph2 s2 where p: "process_completions E q n s1 = Go s2" "dev_ok ph2 q e s0 s2"
        "ph2 \<in> {next_phase ph, next_phase (next_phase ph), next_phase (next_phase (next_phase ph))}" using Suc.IH [OF c(2)] by blast
      have "rank ph2 < rank ph" "ph2 \<in> {ph, next_phase ph, next_phase (next_phase ph)}" using p(3) False by (cases ph; auto)+
      then show ?thesis using p(1,2) c some by (auto simp: Let_def closer_def intro!: exI [of _ ph2])
    qed
  qed
qed

lemma poll_loop_ends:
  assumes "dev_ok ph q e s0 s"
  shows "\<exists>ph1 s1. poll_loop E q s = Some (Go s1) \<and> dev_ok ph1 q e s0 s1 \<and> rank ph1 = 0 \<and> ph1 \<in> {ph, next_phase ph, next_phase (next_phase ph)}"
  using assms
proof (induction "(rank ph, lag (world s))" arbitrary: ph s rule: wf_induct_rule [OF wf_lex_prod [OF wf_less_than wf_less_than]])
  case 1
  show ?case
  proof (cases "rank ph = 0")
    case True
    then have "is_completed (sequence s) = 1" using 1(2) by (cases ph) (auto simp: dev_ok_def)
    then show ?thesis using True 1(2) by (subst poll_loop.simps) auto
  next
    case False
    then have run: "is_completed (sequence s) = 0" using 1(2) by (cases ph) (auto simp: dev_ok_def)
    obtain ph1 s1 where p: "process_completions E q (sp_max E (world s) q) s = Go s1" "dev_ok ph1 q e s0 s1"
      "ph1 \<in> {ph, next_phase ph, next_phase (next_phase ph)}" "closer (ph1, s1) (ph, s)"
      using process_completions_progress [OF 1(2), of "sp_max E (world s) q"] max_pos False by blast
    obtain ph2 s2 where "poll_loop E q s1 = Some (Go s2)" "dev_ok ph2 q e s0 s2" "rank ph2 = 0"
      "ph2 \<in> {ph1, next_phase ph1, next_phase (next_phase ph1)}"
      using 1(1) [OF _ p(2)] p(4) by (auto simp: closer_def)
    moreover from this p(3) have "ph2 \<in> {ph, next_phase ph, next_phase (next_phase ph)}" by (cases ph) auto
    ultimately show ?thesis using run p(1) by (subst poll_loop.simps) auto
  qed
qed

text \<open>The sequence for one namespace.\<close>

definition idle :: "'w hello \<Rightarrow> bool" where
  "idle s \<longleftrightarrow> pending s = [] \<and> inflight (world s) = None"

text \<open>The sequence for the entry \<open>e\<close> can start to write.\<close>

definition ready :: "nat \<Rightarrow> ns_entry \<Rightarrow> 'w hello \<Rightarrow> 'w hello \<Rightarrow> bool" where
  "ready q e s0 s \<longleftrightarrow> frame {ne_ns e} s0 s \<and> count_hello s = count_hello s0 \<and> idle s \<and> ne_qpair e = Some q \<and>
     sq_ns_entry (sequence s) = e \<and> is_completed (sequence s) = 0 \<and> sq_buf (sequence s) \<noteq> None"

lemma reset_prepares:
  assumes "ready q e s0 s"
  shows "\<exists>s1. reset_zone_and_wait_for_completion E s = Some (Go s1) \<and> ready q e s0 s1"
proof -
  have r: "sq_ns_entry (sequence s) = e" "ne_qpair e = Some q" "inflight (world s) = None" using assms by (simp_all add: ready_def idle_def)
  obtain w where w: "sp_reset_zone E (world s) (ne_ns e) q = (0, w)" "lba0 w = lba0 (world s)" "inflight w = Some (q, DReset (ne_ns e))"
    using start_reset [OF r(3)] by blast
  let ?s1 = "emit [Submit q CReset] (s\<lparr>world := w, pending := pending s @ [(q, CReset)]\<rparr>)"
  have "dev_ok Resetting q e s0 ?s1"
    using assms w by (auto simp: ready_def idle_def dev_ok_def frame_def count_hello_def ns_lines_def)
  from poll_loop_ends [OF this] obtain ph s2 where "poll_loop E q ?s1 = Some (Go s2)" "dev_ok ph q e s0 s2" "rank ph = 0"
    "ph \<in> {Resetting, Prepared}" by auto
  then show ?thesis
    using w(1) r by (auto simp: reset_zone_and_wait_for_completion_def dev_ok_def ready_def idle_def frame_def count_hello_def ns_lines_def Let_def)
qed

lemma write_prints:
  assumes "ready q e s0 s"
  shows "\<exists>s1. write_and_wait E s = Some (Go (True, s1)) \<and> frame {ne_ns e} s0 s1 \<and> count_hello s1 = Suc (count_hello s0) \<and> idle s1 \<and>
    hello_at (lba0 (world s1) (ne_ns e))"
proof -
  obtain b where r: "sq_ns_entry (sequence s) = e" "ne_qpair e = Some q" "inflight (world s) = None" "sq_buf (sequence s) = Some b"
    using assms by (auto simp: ready_def idle_def)
  obtain w where w: "sp_write E (world s) (ne_ns e) q (Some b) = (0, w)" "lba0 w = lba0 (world s)" "inflight w = Some (q, DWrite (ne_ns e) b)"
    using start_write [OF r(3)] by blast
  let ?cmd = "CWrite (Some (if using_cmb_io (sequence s) then RCmb (ne_ctrlr e) b else RBuf b))"
  let ?s1 = "emit [Submit q ?cmd] (s\<lparr>mem := (mem s)(b := snprintf_s 0x1000 DATA_BUFFER_STRING (mem s b)), world := w,
      pending := pending s @ [(q, ?cmd)]\<rparr>)"
  have "dev_ok Writing q e s0 ?s1"
    using assms w r hello_at_snprintf by (auto simp: ready_def idle_def dev_ok_def frame_def count_hello_def ns_lines_def)
  from poll_loop_ends [OF this] obtain ph s2 where p: "poll_loop E q ?s1 = Some (Go s2)" "dev_ok ph q e s0 s2" "rank ph = 0"
    "ph \<in> {Writing, Reading, Finished}" by auto
  then have fin: "dev_ok Finished q e s0 s2" by auto
  have "write_and_wait E s = Some (Go (True, emit [Release (RQpair q)] (s2\<lparr>world := sp_free_qpair E (world s2) q\<rparr>)))"
    unfolding write_and_wait_def Let_def r option.sel using w(1) p(1) by (simp add: r)
  then show ?thesis using fin by (auto simp: dev_ok_def idle_def frame_def free_qpair count_hello_def ns_lines_def)
qed

lemma write_buffer_works:
  "\<exists>cmb b s1. write_buffer E e s = (cmb, Some b, s1) \<and> lba0 (world s1) = lba0 (world s) \<and> inflight (world s1) = inflight (world s) \<and>
    pending s1 = pending s \<and> g_controllers s1 = g_controllers s \<and> g_namespaces s1 = g_namespaces s \<and> g_vmd s1 = g_vmd s \<and>
    count_hello s1 = count_hello s \<and> ns_lines s1 = ns_lines s"
proof -
  obtain x w where x: "sp_map_cmb E (world s) (ne_ctrlr e) = (x, w)" by fastforce
  have w: "lba0 w = lba0 (world s)" "inflight w = inflight (world s)" using map_cmb [of "world s" "ne_ctrlr e"] x by simp_all
  obtain b w2 where z: "sp_zmalloc E w = (Some b, w2)" "lba0 w2 = lba0 w" "inflight w2 = inflight w" using zmalloc by blast
  show ?thesis using x w z by (auto simp: write_buffer_def nvme_zmalloc_def Let_def count_hello_def ns_lines_def split: option.split prod.split)
qed

lemma hello_ns_prints:
  assumes "idle s" "i < length (g_namespaces s)" "ns = ne_ns (g_namespaces s ! i)"
  shows "\<exists>s1. hello_ns E i s = Some (Go (True, s1)) \<and> frame {ns} s s1 \<and> count_hello s1 = Suc (count_hello s) \<and> idle s1 \<and> hello_at (lba0 (world s1) ns)"
proof -
  obtain q w where q: "sp_alloc_qpair E (world s) (ne_ctrlr (g_namespaces s ! i)) = (Some q, w)" "lba0 w = lba0 (world s)" "inflight w = inflight (world s)"
    using alloc_qpair by blast
  let ?e = "(g_namespaces s ! i)\<lparr>ne_qpair := Some q\<rparr>"
  let ?s1 = "emit [Acquire (RQpair q)] (s\<lparr>world := w, g_namespaces := (g_namespaces s)[i := ?e]\<rparr>)"
  obtain cmb b s2 where b: "write_buffer E ?e ?s1 = (cmb, Some b, s2)" "lba0 (world s2) = lba0 w" "inflight (world s2) = inflight w"
    "pending s2 = pending s" "g_controllers s2 = g_controllers s" "g_namespaces s2 = (g_namespaces s)[i := ?e]" "g_vmd s2 = g_vmd s"
    "count_hello s2 = count_hello ?s1" "ns_lines s2 = ns_lines ?s1" using write_buffer_works [of ?e ?s1] by auto
  define s3 where "s3 = emit [Out (if cmb then ''INFO: using controller memory buffer for IO'' else ''INFO: using host memory buffer for IO'')]
      (s2\<lparr>sequence := \<lparr>sq_ns_entry = ?e, sq_buf = Some b, using_cmb_io = cmb, is_completed = 0\<rparr>\<rparr>)"
  have same: "map ne_ns ((g_namespaces s)[i := ?e]) = map ne_ns (g_namespaces s)"
    using assms(2) by (simp add: map_update list_update_same_conv)
  have count: "count_hello s3 = count_hello s" "ns_lines s3 = ns_lines s"
    using b(8,9) by (simp_all add: s3_def count_hello_def ns_lines_def DATA_BUFFER_STRING_def)
  have "frame {ne_ns ?e} s s3" using q(2) b same count(2) by (simp add: frame_def s3_def)
  then have "ready q ?e s s3" using assms(1) q(3) b(3,4) count(1) by (simp add: ready_def idle_def s3_def)
  moreover have "hello_ns E i s = (if sp_ns_zoned E (ne_ns ?e) then
        (case reset_zone_and_wait_for_completion E s3 of None \<Rightarrow> None | Some (Exit n s4) \<Rightarrow> Some (Exit n s4)
         | Some (Segv s4) \<Rightarrow> Some (Segv s4) | Some (Go s4) \<Rightarrow> write_and_wait E s4) else write_and_wait E s3)"
    using q b(1) unfolding s3_def by (simp add: hello_ns_def Let_def)
  ultimately obtain s4 where s4: "ready q ?e s s4" "hello_ns E i s = write_and_wait E s4"
    using reset_prepares [of q ?e s s3] by (cases "sp_ns_zoned E (ne_ns ?e)") auto
  from write_prints [OF s4(1)] s4(2) show ?thesis by (simp add: assms(3))
qed

lemma hello_loop_prints:
  assumes "idle s" "set is \<subseteq> {..<length (g_namespaces s)}"
  shows "\<exists>s1. hello_loop E is s = Some (Go s1) \<and> frame ((\<lambda>i. ne_ns (g_namespaces s ! i)) ` set is) s s1 \<and>
    count_hello s1 = count_hello s + length is \<and> idle s1 \<and> (\<forall>i \<in> set is. hello_at (lba0 (world s1) (ne_ns (g_namespaces s ! i))))"
  using assms
proof (induction "is" arbitrary: s)
  case Nil
  then show ?case by (simp add: frame_def)
next
  case (Cons i "is")
  let ?ns = "\<lambda>s i. ne_ns (g_namespaces s ! i)"
  obtain s1 where s1: "hello_ns E i s = Some (Go (True, s1))" "frame {?ns s i} s s1" "count_hello s1 = Suc (count_hello s)" "idle s1"
    "hello_at (lba0 (world s1) (?ns s i))" using hello_ns_prints [OF Cons.prems(1) _ refl, of i] Cons.prems(2) by auto
  have len: "length (g_namespaces s1) = length (g_namespaces s)" using s1(2) by (metis frame_def length_map)
  have same: "?ns s1 j = ?ns s j" if "j < length (g_namespaces s)" for j
    using s1(2) that len by (metis frame_def nth_map)
  obtain s2 where s2: "hello_loop E is s1 = Some (Go s2)" "frame (?ns s1 ` set is) s1 s2" "count_hello s2 = count_hello s1 + length is" "idle s2"
    "\<forall>i \<in> set is. hello_at (lba0 (world s2) (?ns s1 i))" using Cons.IH [OF s1(4)] Cons.prems(2) len by auto
  have img: "?ns s1 ` set is = ?ns s ` set is" using same Cons.prems(2) by (auto intro!: image_cong)
  have "frame (?ns s ` set (i # is)) s s2" using s1(2) s2(2) unfolding img by (auto simp: frame_def)
  moreover have "hello_at (lba0 (world s2) (?ns s i))"
  proof (cases "?ns s i \<in> ?ns s1 ` set is")
    case False
    with s2(2) have "lba0 (world s2) (?ns s i) = lba0 (world s1) (?ns s i)" by (simp add: frame_def)
    with s1(5) show ?thesis by simp
  qed (use s2(5) in auto)
  moreover have "\<forall>j \<in> set is. hello_at (lba0 (world s2) (?ns s j))"
    using s2(5) same Cons.prems(2) by (metis lessThan_iff list.set_intros(2) subsetD)
  ultimately show ?case using s1(1,3) s2(1,3,4) by simp
qed

text \<open>What attaching does: the namespaces \<open>nss\<close> are entered and listed, and \<open>k\<close> controllers.\<close>

definition enters :: "nat list \<Rightarrow> nat \<Rightarrow> 'w hello \<Rightarrow> 'w hello \<Rightarrow> bool" where
  "enters nss k s s1 \<longleftrightarrow> map ne_ns (g_namespaces s1) = map ne_ns (g_namespaces s) @ nss \<and>
     ns_lines s1 = ns_lines s @ map (ns_line E) nss \<and> count_hello s1 = count_hello s \<and> pending s1 = pending s \<and> g_vmd s1 = g_vmd s \<and>
     length (g_controllers s1) = length (g_controllers s) + k \<and> lba0 (world s1) = lba0 (world s) \<and> inflight (world s1) = inflight (world s)"

lemma enters_trans: "enters a k s s1 \<Longrightarrow> enters b l s1 s2 \<Longrightarrow> enters (a @ b) (k + l) s s2"
  by (simp add: enters_def)

lemma register_ns_enters:
  assumes "x \<in> set (ids c)"
  shows "\<exists>s1. register_ns E c (ns_handle E c x) s = Go s1 \<and> enters [ns_handle E c x] 0 s s1"
proof -
  have "sp_ns_active E (ns_handle E c x)" using ns_of_id [OF assms] by (auto simp: ns_handle_def)
  moreover obtain w where "sp_malloc E (world s) = (True, w)" "lba0 w = lba0 (world s)" "inflight w = inflight (world s)" using malloc by blast
  ultimately show ?thesis by (simp add: register_ns_def enters_def ns_lines_def count_hello_def ns_line_def)
qed

lemma attach_loop_enters:
  assumes "i \<le> length (ids c)"
  shows "\<exists>s1. attach_loop E c ((ids c @ [0]) ! i) s = Some (Go s1) \<and> enters (map (ns_handle E c) (drop i (ids c))) 0 s s1"
  using assms
proof (induction "length (ids c) - i" arbitrary: i s)
  case 0
  then show ?case by (subst attach_loop.simps) (simp add: nth_append enters_def)
next
  case (Suc n)
  then have i: "i < length (ids c)" by simp
  then have x: "(ids c @ [0]) ! i = ids c ! i" "ids c ! i \<in> set (ids c)" "ids c ! i \<noteq> 0"
    using id_pos [of c] nth_mem [OF i] by (simp_all add: nth_append) (metis nth_mem)
  have h: "sp_get_ns E c (ids c ! i) = Some (ns_handle E c (ids c ! i))" using ns_of_id [OF x(2)] by (auto simp: ns_handle_def)
  obtain s1 where s1: "register_ns E c (ns_handle E c (ids c ! i)) s = Go s1" "enters [ns_handle E c (ids c ! i)] 0 s s1"
    using register_ns_enters [OF x(2)] by blast
  obtain s2 where s2: "attach_loop E c ((ids c @ [0]) ! Suc i) s1 = Some (Go s2)" "enters (map (ns_handle E c) (drop (Suc i) (ids c))) 0 s1 s2"
    using Suc(1) [OF _ Suc_leI [OF i], of s1] Suc(2) by (metis Suc_diff_Suc Suc_inject i)
  have "attach_loop E c (ids c ! i) s = Some (Go s2)"
    using x(3) h s1(1) s2(1) next_id [OF i] by (subst attach_loop.simps) simp
  with enters_trans [OF s1(2) s2(2)] i show ?case by (simp add: x(1) Cons_nth_drop_Suc [symmetric])
qed

lemma attach_cb_enters: "\<exists>s1. attach_cb E a c s = Some (Go s1) \<and> enters (map (ns_handle E c) (ids c)) 1 s s1"
proof -
  obtain w where w: "sp_malloc E (world s) = (True, w)" "lba0 w = lba0 (world s)" "inflight w = inflight (world s)" using malloc by blast
  define s1 where "s1 = emit [Out (''Attached to '' @ a)] (s\<lparr>world := w\<rparr>)\<lparr>g_controllers := g_controllers s @
    [\<lparr>ce_ctrlr = c, ce_name = take 1023 (left_20 (sp_mn E c) @ '' ('' @ left_20 (sp_sn E c) @ '')'')\<rparr>]\<rparr>"
  have s1: "enters [] 1 s s1" using w(2,3) by (simp add: enters_def s1_def ns_lines_def count_hello_def DATA_BUFFER_STRING_def)
  have hd: "hd (ids c @ [0]) = (ids c @ [0]) ! 0" by (simp add: hd_conv_nth)
  have "attach_cb E a c s = attach_loop E c (sp_first_ns E c) s1" by (simp add: attach_cb_def w(1) s1_def Let_def)
  with attach_loop_enters [of 0 c s1] enters_trans [OF s1] show ?thesis by (force simp: first_id hd)
qed

lemma attach_all: "\<exists>s1. probe_events E (map (\<lambda>(a, c). Attached a c) xs) s = Some (Go s1) \<and> enters (found_ns E ids xs) (length xs) s s1"
proof (induction xs arbitrary: s)
  case Nil
  then show ?case by (simp add: enters_def found_ns_def)
next
  case (Cons x xs)
  obtain a c where x: "x = (a, c)" by fastforce
  obtain s1 where s1: "attach_cb E a c s = Some (Go s1)" "enters (map (ns_handle E c) (ids c)) 1 s s1" using attach_cb_enters by blast
  obtain s2 where s2: "probe_events E (map (\<lambda>(a, c). Attached a c) xs) s1 = Some (Go s2)" "enters (found_ns E ids xs) (length xs) s1 s2"
    using Cons.IH by blast
  from enters_trans [OF s1(2) s2(2)] s1(1) s2(1) show ?case by (simp add: x found_ns_def)
qed

lemma probe_all:
  "\<exists>s1. probe_events E (map (\<lambda>(a, c). Probed a) xs @ es) s = probe_events E es s1 \<and> enters [] 0 s s1"
proof (induction xs arbitrary: s)
  case Nil
  then show ?case by (auto simp: enters_def)
next
  case (Cons x xs)
  obtain a c where x: "x = (a, c)" by fastforce
  have s1: "enters [] 0 s (snd (probe_cb a s))"
    by (simp add: probe_cb_def enters_def ns_lines_def count_hello_def DATA_BUFFER_STRING_def)
  obtain s2 where s2: "probe_events E (map (\<lambda>(a, c). Probed a) xs @ es) (snd (probe_cb a s)) = probe_events E es s2"
    "enters [] 0 (snd (probe_cb a s)) s2" using Cons.IH by blast
  from enters_trans [OF s1 s2(2)] s2(1) show ?case by (auto simp: x)
qed

lemma detach_all_keeps:
  "lba0 (world (snd (detach_all E cs ctx s))) = lba0 (world s) \<and> count_hello (snd (detach_all E cs ctx s)) = count_hello s \<and>
   ns_lines (snd (detach_all E cs ctx s)) = ns_lines s"
proof (induction cs arbitrary: ctx s)
  case (Cons c cs)
  obtain ctx1 w where d: "sp_detach E (world s) (ce_ctrlr c) ctx = (ctx1, w)" by fastforce
  have "lba0 w = lba0 (world s)" using detach(1) [of "world s" "ce_ctrlr c" ctx] d by simp
  with Cons.IH [of ctx1 "emit [Detach (ce_ctrlr c)] (s\<lparr>world := w, g_controllers := cs\<rparr>)"] show ?case
    by (simp add: d count_hello_def ns_lines_def)
qed simp

lemma nvme_finish_keeps:
  "\<exists>s1. nvme_finish E rc s = Some (Go (rc, s1)) \<and> lba0 (world s1) = lba0 (world s) \<and> count_hello s1 = count_hello s \<and> ns_lines s1 = ns_lines s"
  using detach_all_keeps [of "g_controllers s" False "emit [Flush] s\<lparr>g_namespaces := []\<rparr>"]
  by (auto simp: nvme_finish_def nvme_cleanup_def Let_def count_hello_def ns_lines_def split: prod.splits)

lemma nvme_run_prints:
  assumes "idle s" "g_namespaces s = []" "count_hello s = 0" "ns_lines s = []" "found \<noteq> []"
  shows "\<exists>s1. nvme_run E s = Some (Go (0, s1)) \<and> ns_lines s1 = map (ns_line E) (found_ns E ids found) \<and>
    count_hello s1 = length (found_ns E ids found) \<and> (\<forall>ns \<in> set (found_ns E ids found). c_str (lba0 (world s1) ns) = DATA_BUFFER_STRING)"
proof -
  let ?es = "map (\<lambda>(a, c). Attached a c) found" and ?nss = "found_ns E ids found"
  obtain w where pr: "sp_probe E (world s) (g_trid s) = (map (\<lambda>(a, c). Probed a) found @ ?es, 0, w)"
    "lba0 w = lba0 (world s)" "inflight w = inflight (world s)" using probe by blast
  obtain s1 where s1: "probe_events E (map (\<lambda>(a, c). Probed a) found @ ?es) (s\<lparr>world := w\<rparr>) = probe_events E ?es s1" "enters [] 0 (s\<lparr>world := w\<rparr>) s1"
    using probe_all by blast
  obtain s2 where s2: "probe_events E ?es s1 = Some (Go s2)" "enters ?nss (length found) s1 s2" using attach_all by blast
  have e: "enters ?nss (length found) (s\<lparr>world := w\<rparr>) s2" using enters_trans [OF s1(2) s2(2)] by simp
  let ?s3 = "emit [Out ''Initialization complete.''] s2"
  have s3: "idle ?s3" "g_controllers s2 \<noteq> []" "map ne_ns (g_namespaces s2) = ?nss" "count_hello ?s3 = 0" "ns_lines ?s3 = map (ns_line E) ?nss"
    using e assms pr(3) by (auto simp: enters_def idle_def count_hello_def ns_lines_def DATA_BUFFER_STRING_def)
  let ?is = "[0..<length (g_namespaces ?s3)]"
  obtain s4 where s4: "hello_loop E ?is ?s3 = Some (Go s4)" "count_hello s4 = length (g_namespaces s2)" "ns_lines s4 = ns_lines ?s3"
    "\<forall>i < length (g_namespaces s2). hello_at (lba0 (world s4) (ne_ns (g_namespaces s2 ! i)))"
    using hello_loop_prints [OF s3(1), of ?is] s3(4) by (auto simp: frame_def atLeast0LessThan)
  obtain s5 where s5: "nvme_finish E 0 s4 = Some (Go (0, s5))" "lba0 (world s5) = lba0 (world s4)" "count_hello s5 = count_hello s4" "ns_lines s5 = ns_lines s4"
    using nvme_finish_keeps by blast
  have len: "length (g_namespaces s2) = length ?nss" using s3(3) by (metis length_map)
  have "c_str (lba0 (world s4) ns) = DATA_BUFFER_STRING" if "ns \<in> set ?nss" for ns
  proof -
    from that obtain i where "i < length (g_namespaces s2)" "ns = ne_ns (g_namespaces s2 ! i)"
      unfolding s3(3) [symmetric] by (auto simp: in_set_conv_nth)
    with s4(4) hello_at_c_str show ?thesis by blast
  qed
  moreover have "nvme_run E s = Some (Go (0, s5))"
    using pr(1) s1(1) s2(1) s3(2) s4(1) s5(1) by (simp add: nvme_run_def nvme_hello_world_def)
  ultimately show ?thesis using s5(2-4) s4(2,3) s3(5) len by simp
qed

lemma nvme_main_prints:
  assumes "inflight w = None" "found \<noteq> []" "nvme_parse_args E argv ((hello_start w m)\<lparr>opts := sp_opts_init E\<rparr>) = Go (0, s0)"
    and "world s0 = w" "pending s0 = []" "g_namespaces s0 = []" "trace s0 = []"
  shows "\<exists>s1. nvme_main E argv w m = Some (Go (0, s1)) \<and> ns_lines s1 = map (ns_line E) (found_ns E ids found) \<and>
    count_hello s1 = length (found_ns E ids found) \<and> (\<forall>ns \<in> set (found_ns E ids found). c_str (lba0 (world s1) ns) = DATA_BUFFER_STRING)"
proof -
  let ?s1 = "s0\<lparr>opts := (opts s0)\<lparr>eo_name := ''hello_world''\<rparr>\<rparr>"
  obtain rc w1 where env: "sp_env_init E w (opts ?s1) = (rc, w1)" "0 \<le> rc" "inflight w1 = None" using env_init assms(1) by metis
  let ?s2 = "emit [EnvInit, Out ''Initializing NVMe Controllers''] (?s1\<lparr>world := w1\<rparr>)"
  obtain rc2 w2 where vmd: "sp_vmd_init E w1 = (rc2, w2)" by fastforce
  have w2: "inflight w2 = None" using vmd_init(2) [of w1] vmd env(3) by simp
  let ?s3 = "if rc2 \<noteq> 0 then emit [Err ''Failed to initialize VMD. Some NVMe devices can be unavailable.''] (?s2\<lparr>world := w2\<rparr>)
    else emit [VmdInit] (?s2\<lparr>world := w2\<rparr>)"
  have "nvme_main E argv w m = nvme_run E (if g_vmd s0 then ?s3 else ?s2)"
    using env vmd by (simp add: nvme_main_def assms(3,4) Let_def)
  moreover have "idle ?s2" "idle ?s3" using assms(5) env(3) w2 by (simp_all add: idle_def)
  moreover have "count_hello ?s2 = 0" "count_hello ?s3 = 0" "ns_lines ?s2 = []" "ns_lines ?s3 = []" "g_namespaces ?s2 = []" "g_namespaces ?s3 = []"
    using assms(6,7) by (simp_all add: count_hello_def ns_lines_def DATA_BUFFER_STRING_def)
  ultimately show ?thesis using nvme_run_prints [OF _ _ _ _ assms(2)] by presburger
qed

end

text \<open>Parsing the options touches neither the devices nor the lists.\<close>

definition untouched :: "'w hello \<Rightarrow> 'w hello \<Rightarrow> bool" where
  "untouched s0 s \<longleftrightarrow> world s = world s0 \<and> pending s = pending s0 \<and> g_namespaces s = g_namespaces s0 \<and> trace s = trace s0"

definition res_untouched :: "'w hello \<Rightarrow> (int \<times> 'w hello, 'w hello) hres \<Rightarrow> bool" where
  "res_untouched s0 r \<longleftrightarrow> (\<forall>s. r = Go (0, s) \<longrightarrow> untouched s0 s)"

lemma res_untouched_simps [simp]:
  "res_untouched s0 (Go (rc, s)) \<longleftrightarrow> (rc = 0 \<longrightarrow> untouched s0 s)" "res_untouched s0 (Exit n s)"
  by (auto simp: res_untouched_def)

lemma parse_opts_untouched: "untouched s0 s \<Longrightarrow> res_untouched s0 (parse_opts E prog os s)"
  by (induction E prog os s rule: parse_opts.induct) (auto simp: untouched_def Let_def split: prod.splits)

section \<open>A device\<close>

text \<open>
  One controller with a buffer of its own and two namespaces, the second of them zoned. A command completes at the third poll.
\<close>

record dev =
  dv_lba :: "nat \<Rightarrow> string"
  dv_cmd :: "(nat \<times> dev_cmd) option"
  dv_lag :: nat
  dv_next :: nat

definition dev_poll :: "dev \<Rightarrow> memory \<Rightarrow> nat \<Rightarrow> (nat \<times> cpl) option \<times> memory \<times> dev" where
  "dev_poll w m q =
     (case dv_cmd w of
        None \<Rightarrow> (None, m, w)
      | Some (p, cmd) \<Rightarrow>
          if p \<noteq> q then (None, m, w)
          else if 0 < dv_lag w then (None, m, w\<lparr>dv_lag := dv_lag w - 1\<rparr>)
          else let w1 = w\<lparr>dv_cmd := None, dv_lag := 2\<rparr>; done = Some (0, Cpl False []) in
            (case cmd of
               DReset n \<Rightarrow> (done, m, w1\<lparr>dv_lba := (dv_lba w)(n := [])\<rparr>)
             | DWrite n b \<Rightarrow> (done, m, w1\<lparr>dv_lba := (dv_lba w)(n := take 512 (m b))\<rparr>)
             | DRead n b \<Rightarrow> (done, m(b := dv_lba w n @ drop (length (dv_lba w n)) (m b)), w1)))"

definition dev_start :: "dev_cmd \<Rightarrow> dev \<Rightarrow> nat \<Rightarrow> int \<times> dev" where
  "dev_start cmd w q = (if dv_cmd w = None then (0, w\<lparr>dv_cmd := Some (q, cmd)\<rparr>) else (-12, w))"

definition dev_ids :: "nat \<Rightarrow> u32 list" where
  "dev_ids c = (if c = 1 then [1, 3] else [])"

definition dev_found :: "(string \<times> nat) list" where
  "dev_found = [(''0000:01:00.0'', 1)]"

definition dev_spdk :: "dev spdk" where
  "dev_spdk = \<lparr>
     sp_malloc = (\<lambda>w. (True, w)), sp_ns_active = (\<lambda>_. True), sp_ns_id = (\<lambda>ns. word_of_nat (ns mod 10)), sp_ns_size = (\<lambda>_. 4000787030016),
     sp_ns_zoned = (\<lambda>ns. ns = 13), sp_first_ns = (\<lambda>c. if c = 1 then 1 else 0), sp_next_ns = (\<lambda>c n. if c = 1 \<and> n = 1 then 3 else 0),
     sp_get_ns = (\<lambda>c n. Some (10 * c + unat n)), sp_mn = (\<lambda>_. ''model''), sp_sn = (\<lambda>_. ''serial''),
     sp_alloc_qpair = (\<lambda>w c. (Some (dv_next w), w\<lparr>dv_next := Suc (dv_next w)\<rparr>)), sp_free_qpair = (\<lambda>w q. w),
     sp_map_cmb = (\<lambda>w c. (Some (0, 0x2000), w)), sp_unmap_cmb = (\<lambda>w c. w),
     sp_zmalloc = (\<lambda>w. (Some (dv_next w), w\<lparr>dv_next := Suc (dv_next w)\<rparr>)), sp_free = (\<lambda>w b. w),
     sp_write = (\<lambda>w n q b. dev_start (DWrite n (the b)) w q), sp_read = (\<lambda>w n q b. dev_start (DRead n (the b)) w q),
     sp_reset_zone = (\<lambda>w n q. dev_start (DReset n) w q), sp_poll = dev_poll, sp_max = (\<lambda>w q. 127),
     sp_populate = (\<lambda>t. t\<lparr>td_transport := ''PCIE''\<rparr>), sp_discovery_nqn = ''nqn.2014-08.org.nvmexpress.discovery'', sp_nqn_size = 224,
     sp_trid_parse = (\<lambda>t a. (0, t\<lparr>td_traddr := a\<rparr>)), sp_strtol = (\<lambda>s. int (length s)), sp_log_set_flag = (\<lambda>_. -1), sp_debug = False,
     sp_opts_init = \<lparr>eo_name = [], eo_shm_id = -1, eo_mem_size = -1, eo_single_segments = False\<rparr>,
     sp_env_init = (\<lambda>w os. (0, w)), sp_vmd_init = (\<lambda>w. (-19, w)),
     sp_probe = (\<lambda>w t. (map (\<lambda>(a, c). Probed a) dev_found @ map (\<lambda>(a, c). Attached a c) dev_found, 0, w)),
     sp_detach = (\<lambda>w c ctx. (True, w))\<rparr>"

interpretation workdev: nvme_device dev_spdk dv_lba dv_cmd dv_lag 512 dev_ids dev_found
proof
  show "(\<exists>w'. sp_poll dev_spdk w m q = (None, m, w') \<and> dv_lba w' = dv_lba w \<and> dv_cmd w' = dv_cmd w \<and> dv_lag w' < dv_lag w) \<or>
      (\<exists>c m' w'. sp_poll dev_spdk w m q = (Some (0, c), m', w') \<and> \<not> cpl_error c \<and> dv_cmd w' = None \<and>
         (case cmd of
            DReset n \<Rightarrow> m' = m \<and> (\<forall>k. k \<noteq> n \<longrightarrow> dv_lba w' k = dv_lba w k)
          | DWrite n b \<Rightarrow> m' = m \<and> dv_lba w' = (dv_lba w)(n := take 512 (m b))
          | DRead n b \<Rightarrow> m' = m(b := dv_lba w n @ drop (length (dv_lba w n)) (m b)) \<and> dv_lba w' = dv_lba w))"
    if "dv_cmd w = Some (q, cmd)" for w q cmd m
    using that by (cases cmd) (auto simp: dev_spdk_def dev_poll_def Let_def)
  show "sp_next_ns dev_spdk c (dev_ids c ! i) = (dev_ids c @ [0]) ! Suc i" if "i < length (dev_ids c)" for i c
    using that by (auto simp: dev_spdk_def dev_ids_def less_Suc_eq numeral_2_eq_2 split: if_splits)
qed (auto simp: dev_spdk_def dev_start_def dev_poll_def dev_ids_def)

definition dev0 :: dev where
  "dev0 = \<lparr>dv_lba = (\<lambda>_. []), dv_cmd = None, dv_lag = 2, dv_next = 100\<rparr>"

lemma dev_found_ns: "found_ns dev_spdk dev_ids dev_found = [11, 13]"
  by (simp add: found_ns_def dev_found_def dev_ids_def ns_handle_def dev_spdk_def)

lemma dev_zmalloc: "fst (sp_zmalloc dev_spdk w) \<noteq> None"
  by (simp add: dev_spdk_def)

lemma parse_args_untouched:
  assumes "nvme_parse_args E argv ((hello_start w m)\<lparr>opts := sp_opts_init E\<rparr>) = Go (0, s0)"
  shows "world s0 = w" "pending s0 = []" "g_namespaces s0 = []" "trace s0 = []"
proof -
  have "res_untouched (hello_start w m) (nvme_parse_args E argv ((hello_start w m)\<lparr>opts := sp_opts_init E\<rparr>))"
    unfolding nvme_parse_args_def Let_def by (rule parse_opts_untouched) (simp add: untouched_def)
  then have "untouched (hello_start w m) s0" unfolding assms by simp
  then show "world s0 = w" "pending s0 = []" "g_namespaces s0 = []" "trace s0 = []" by (simp_all add: untouched_def hello_start_def)
qed

lemma dev_parse: "\<exists>s. nvme_parse_args dev_spdk [''hello_world''] s0 = Go (0, s)"
  by (simp add: nvme_parse_args_def Let_def)

lemma dev_start_idle: "dv_cmd dev0 = None" "dev_found \<noteq> []"
  by (simp_all add: dev0_def dev_found_def)

lemma dev_run: "\<exists>s. nvme_main dev_spdk [''hello_world''] dev0 (\<lambda>_. []) = Some (Go (0, s))"
proof -
  obtain s0 where s0: "nvme_parse_args dev_spdk [''hello_world''] ((hello_start dev0 (\<lambda>_. []))\<lparr>opts := sp_opts_init dev_spdk\<rparr>) = Go (0, s0)"
    using dev_parse by blast
  from workdev.nvme_main_prints [OF dev_start_idle s0 parse_args_untouched [OF s0]] show ?thesis by blast
qed

section \<open>Failures\<close>

text \<open>A failed allocation in \<^verbatim>\<open>write_complete\<close> is not noticed: the read is started with a null pointer, through which its callback then reads.\<close>

lemma read_into_null:
  assumes "\<not> cpl_error c" "\<not> cpl_error d" "sp_zmalloc E (world (release_buffer E s)) = (None, w)"
    and "sp_read E w (ne_ns (sq_ns_entry (sequence (release_buffer E s)))) q None = (0, w1)"
    and "ne_qpair (sq_ns_entry (sequence (release_buffer E s))) = Some q"
  shows "\<exists>s1 s2. write_complete E c s = Go s1 \<and> last (trace s1) = Submit q (CRead None) \<and> read_complete E d s1 = Segv s2"
  using assms by (simp add: write_complete_def nvme_zmalloc_def start_read_def read_complete_def Let_def)

text \<open>When no queue pair can be allocated, the process prints an error, skips all namespaces and returns 0.\<close>

lemma no_qpair_returns_0:
  assumes "sp_probe E (world s) (g_trid s) = (es, 0, w)" "probe_events E es (s\<lparr>world := w\<rparr>) = Some (Go s1)"
    and "g_controllers s1 \<noteq> []" "g_namespaces s1 \<noteq> []" "\<And>w c. fst (sp_alloc_qpair E w c) = None"
  shows "\<exists>s2. nvme_run E s = Some (Go (0, s2)) \<and>
    set (trace s1) \<union> {Out ''ERROR: spdk_nvme_ctrlr_alloc_io_qpair() failed''} \<subseteq> set (trace s2)"
proof -
  let ?s1 = "emit [Out ''Initialization complete.''] s1"
  obtain w1 where "sp_alloc_qpair E (world s1) (ne_ctrlr (g_namespaces s1 ! 0)) = (None, w1)" using assms(5) by (metis prod.collapse)
  then obtain s2 where s2: "nvme_hello_world E ?s1 = Some (Go s2)"
    "trace s2 = trace s1 @ [Out ''Initialization complete.'', Out ''ERROR: spdk_nvme_ctrlr_alloc_io_qpair() failed'']"
    using assms(4) by (simp add: nvme_hello_world_def upt_conv_Cons hello_ns_def)
  have keep: "set (trace s) \<subseteq> set (trace (snd (detach_all E cs ctx s)))" for cs ctx s
    by (induction E cs ctx s rule: detach_all.induct) (force split: prod.splits)+
  obtain ctx s4 where d: "detach_all E (g_controllers s2) False (emit [Flush] s2\<lparr>g_namespaces := []\<rparr>) = (ctx, s4)" by fastforce
  have "set (trace s2) \<subseteq> set (trace s4)" using keep [of "emit [Flush] s2\<lparr>g_namespaces := []\<rparr>" "g_controllers s2" False] by (simp add: d)
  then obtain s3 where "nvme_finish E 0 s2 = Some (Go (0, s3))" "set (trace s2) \<subseteq> set (trace s3)"
    by (cases ctx; cases "g_vmd s4") (auto simp: nvme_finish_def nvme_cleanup_def d Let_def)
  with s2 assms(1-3) show ?thesis by (auto simp: nvme_run_def)
qed

text \<open>A memory size of \<^verbatim>\<open>2^32\<close> megabytes passes the test for a valid size as 0.\<close>

lemma mem_size_wraps:
  assumes "sp_strtol E arg = 2 ^ 32"
  shows "parse_opts E prog [(CHR ''d'', arg)] s = Go (0, s\<lparr>opts := (opts s)\<lparr>eo_mem_size := 0\<rparr>\<rparr>)"
  using assms by (simp add: Let_def to_int_def)

section \<open>Properties\<close>

text \<open>
  C27: on working devices the sample does what it says: for every active namespace of every controller that was found it prints a line on the
  namespace and then once \<^verbatim>\<open>Hello world!\<close>, read back from the device; its polling loops end, it returns 0, and the first block of each of
  these namespaces then begins with the string.
\<close>

theorem nvme_hello_works:
  assumes "nvme_device E lba0 inflight lag sector ids found" "found \<noteq> []" "inflight w = None"
    and "nvme_parse_args E argv ((hello_start w m)\<lparr>opts := sp_opts_init E\<rparr>) = Go (0, s0)"
  shows "\<exists>s. nvme_main E argv w m = Some (Go (0, s)) \<and> ns_lines s = map (ns_line E) (found_ns E ids found) \<and>
    count_hello s = length (found_ns E ids found) \<and>
    (\<forall>ns \<in> set (found_ns E ids found). c_str (lba0 (world s) ns) = ''Hello world!'')"
  using nvme_device.nvme_main_prints [OF assms(1,3,2,4) parse_args_untouched [OF assms(4)]] by (simp add: DATA_BUFFER_STRING_def)

theorem nvme_hello_works_witness:
  "\<exists>s. nvme_main dev_spdk [''hello_world''] dev0 (\<lambda>_. []) = Some (Go (0, s)) \<and> count_hello s = 2 \<and> c_str (dv_lba (world s) 13) = ''Hello world!''"
proof -
  obtain s0 where "nvme_parse_args dev_spdk [''hello_world''] ((hello_start dev0 (\<lambda>_. []))\<lparr>opts := sp_opts_init dev_spdk\<rparr>) = Go (0, s0)"
    using dev_parse by blast
  from nvme_hello_works [OF workdev.nvme_device_axioms dev_start_idle(2,1) this] show ?thesis by (auto simp: dev_found_ns)
qed

text \<open>
  C28: whatever the devices and the driver do, as long as pinned memory can be allocated: the sample never reads through a null pointer, submits
  commands only on a queue pair and with a buffer that it holds, releases each of them only once and never while a pending command uses it;
  when it returns, nothing is pending, and every queue pair and every piece of pinned memory was released. Mappings of controller memory can be left.
\<close>

theorem nvme_resources_safe:
  assumes "\<And>w. fst (sp_zmalloc E w) \<noteq> None" "nvme_main E argv w m = Some r"
  shows "(\<forall>s. r \<noteq> Segv s) \<and> (\<forall>n s. r = Exit n s \<longrightarrow> ledger_run (trace s) \<noteq> None) \<and>
    (\<forall>rc s. r = Go (rc, s) \<longrightarrow>
       (\<exists>l. ledger_run (trace s) = Some l \<and> ld_pending l = [] \<and> (\<forall>x \<in># ld_live l. \<exists>c b. x = RCmb c b)))"
  using nvme_main_ok [OF assms(1), of argv w m] assms(2)
  by (auto simp: run_ok_def res_ok_def holds_def only_cmb_def split: hres.splits prod.splits)

theorem nvme_resources_safe_witness:
  "\<exists>s l. nvme_main dev_spdk [''hello_world''] dev0 (\<lambda>_. []) = Some (Go (0, s)) \<and> ledger_run (trace s) = Some l \<and> ld_pending l = []"
  using dev_run nvme_resources_safe [OF dev_zmalloc] by blast

end
