(* ===== verification/Samples.thy ===== *)
theory Samples
  imports Prelude "HOL-Library.Multiset"
begin

text \<open>
  Two small samples of third-party libraries. \<^verbatim>\<open>src/examples/dpdk_hello_world/main.cc\<close> runs a function on every core: the main thread and the
  workers are interleaved by a step relation, and what the environment layer answers is the argument \<open>eal\<close>.
  \<^verbatim>\<open>src/examples/nvmf_tgt/main.c\<close> starts the storage target of SPDK, whose event framework is the argument \<open>spdk_app\<close>.
\<close>

section \<open>The DPDK sample\<close>

record eal =
  ea_init :: "string list \<Rightarrow> int"
  ea_main_core :: u32
  ea_workers :: "u32 list"
  ea_launch :: "u32 \<Rightarrow> int"

definition lcore_hello :: "u32 \<Rightarrow> string" where
  "lcore_hello lcore_id = ''hello from core '' @ dec_str (unat lcore_id)"

text \<open>Where the main thread is: in the loop over the workers, before its own call, waiting for the workers, or at the end; or the process has panicked.\<close>

datatype dpdk_pc = Launching "u32 list" | Greeting | Waiting | Returned int | Panicked string

record dpdk =
  dp_pc :: dpdk_pc
  dp_running :: "u32 list"
  dp_out :: "string list"

definition dpdk_start :: "eal \<Rightarrow> string list \<Rightarrow> dpdk" where
  "dpdk_start E argv =
     \<lparr>dp_pc = (if ea_init E argv < 0 then Panicked ''Cannot init EAL'' else Launching (ea_workers E)), dp_running = [], dp_out = []\<rparr>"

text \<open>
  A step of the main thread, or of a worker that was launched. Whether a launch succeeded is not looked at;
  \<^verbatim>\<open>rte_eal_mp_wait_lcore\<close> returns when no worker runs.
\<close>

inductive dpdk_step :: "eal \<Rightarrow> dpdk \<Rightarrow> dpdk \<Rightarrow> bool" for E where
  launch: "dp_pc s = Launching (c # cs) \<Longrightarrow>
    dpdk_step E s (s\<lparr>dp_pc := Launching cs, dp_running := (if ea_launch E c = 0 then dp_running s @ [c] else dp_running s)\<rparr>)"
| launched: "dp_pc s = Launching [] \<Longrightarrow> dpdk_step E s (s\<lparr>dp_pc := Greeting\<rparr>)"
| greet: "dp_pc s = Greeting \<Longrightarrow> dpdk_step E s (s\<lparr>dp_pc := Waiting, dp_out := dp_out s @ [lcore_hello (ea_main_core E)]\<rparr>)"
| wait: "dp_pc s = Waiting \<Longrightarrow> dp_running s = [] \<Longrightarrow> dpdk_step E s (s\<lparr>dp_pc := Returned 0\<rparr>)"
| worker: "c \<in> set (dp_running s) \<Longrightarrow> (\<And>m. dp_pc s \<noteq> Panicked m) \<Longrightarrow>
    dpdk_step E s (s\<lparr>dp_running := remove1 c (dp_running s), dp_out := dp_out s @ [lcore_hello c]\<rparr>)"

inductive dpdk_reach :: "eal \<Rightarrow> string list \<Rightarrow> dpdk \<Rightarrow> bool" for E argv where
  start: "dpdk_reach E argv (dpdk_start E argv)"
| step: "dpdk_reach E argv s \<Longrightarrow> dpdk_step E s t \<Longrightarrow> dpdk_reach E argv t"

inductive_cases dpdk_stepE: "dpdk_step E s t"

text \<open>The cores whose greeting is still to come, the main core among them until it has greeted.\<close>

fun to_come :: "eal \<Rightarrow> dpdk_pc \<Rightarrow> u32 list" where
  "to_come E (Launching cs) = filter (\<lambda>c. ea_launch E c = 0) cs @ [ea_main_core E]"
| "to_come E Greeting = [ea_main_core E]"
| "to_come E _ = []"

definition greeters :: "eal \<Rightarrow> u32 list" where
  "greeters E = ea_main_core E # filter (\<lambda>c. ea_launch E c = 0) (ea_workers E)"

definition dpdk_inv :: "eal \<Rightarrow> dpdk \<Rightarrow> bool" where
  "dpdk_inv E s \<longleftrightarrow> (\<forall>m. dp_pc s \<noteq> Panicked m) \<longrightarrow>
     mset (dp_out s) + mset (map lcore_hello (dp_running s @ to_come E (dp_pc s))) = mset (map lcore_hello (greeters E)) \<and>
     (\<forall>rc. dp_pc s = Returned rc \<longrightarrow> rc = 0 \<and> dp_running s = [])"

lemma mset_map_remove1: "c \<in> set cs \<Longrightarrow> add_mset (f c) (mset (map f (remove1 c cs))) = mset (map f cs)"
  by (induction cs) auto

lemma dpdk_inv_step: "dpdk_inv E s \<Longrightarrow> dpdk_step E s t \<Longrightarrow> dpdk_inv E t"
proof (erule dpdk_stepE, goal_cases)
  case (5 c)
  from 5(3) have "mset (map lcore_hello (dp_running s)) = add_mset (lcore_hello c) (mset (map lcore_hello (remove1 c (dp_running s))))"
    by (rule mset_map_remove1 [symmetric])
  with 5 show ?case by (auto simp: dpdk_inv_def simp del: mset_map)
qed (auto simp: dpdk_inv_def)

lemma dpdk_inv_start: "dpdk_inv E (dpdk_start E argv)"
  by (simp add: dpdk_inv_def dpdk_start_def greeters_def)

lemma dpdk_inv_reach: "dpdk_reach E argv s \<Longrightarrow> dpdk_inv E s"
  by (induction rule: dpdk_reach.induct) (blast intro: dpdk_inv_start dpdk_inv_step)+

text \<open>Every step brings the process closer to its end, and only a process that has ended cannot make one.\<close>

fun pc_rank :: "dpdk_pc \<Rightarrow> nat" where
  "pc_rank (Launching cs) = 3 + 2 * length cs"
| "pc_rank Greeting = 2"
| "pc_rank Waiting = 1"
| "pc_rank _ = 0"

definition dpdk_rank :: "dpdk \<Rightarrow> nat" where
  "dpdk_rank s = pc_rank (dp_pc s) + length (dp_running s)"

lemma dpdk_rank_decreases: "dpdk_step E s t \<Longrightarrow> dpdk_rank t < dpdk_rank s"
  by (erule dpdk_stepE) (auto simp: dpdk_rank_def length_remove1 dest: length_pos_if_in_set)

lemma dpdk_can_step:
  assumes "\<And>t. \<not> dpdk_step E s t"
  shows "(\<exists>rc. dp_pc s = Returned rc) \<or> (\<exists>m. dp_pc s = Panicked m)"
proof (cases "dp_pc s")
  case (Launching cs)
  then show ?thesis using assms dpdk_step.launch [of s] dpdk_step.launched [of s] by (cases cs) blast+
next
  case Waiting
  then show ?thesis using assms dpdk_step.wait [of s] dpdk_step.worker [of "hd (dp_running s)" s] by (cases "dp_running s") auto
qed (use assms dpdk_step.greet in blast)+

section \<open>The NVMe over Fabrics target\<close>

datatype nvmf_ev = MemzoneDump | FlushStdout | AppFini

record spdk_app =
  ap_parse :: "string list \<Rightarrow> int"
  ap_success :: int
  ap_start :: "string \<Rightarrow> bool \<times> int"
  ap_getenv :: "string \<Rightarrow> string option"

definition nvmf_parse_arg :: "int \<Rightarrow> string \<Rightarrow> int" where
  "nvmf_parse_arg ch arg = 0"

definition nvmf_tgt_started :: "spdk_app \<Rightarrow> nvmf_ev list" where
  "nvmf_tgt_started P = (if ap_getenv P ''MEMZONE_DUMP'' \<noteq> None then [MemzoneDump, FlushStdout] else [])"

text \<open>The exit code and what happened; the framework tells whether the application came up, and calls \<^verbatim>\<open>nvmf_tgt_started\<close> then.\<close>

definition nvmf_main :: "spdk_app \<Rightarrow> string list \<Rightarrow> int \<times> nvmf_ev list" where
  "nvmf_main P argv =
     (if ap_parse P argv \<noteq> ap_success P then (ap_parse P argv, [])
      else case ap_start P ''nvmf'' of (started, rc) \<Rightarrow> (rc, (if started then nvmf_tgt_started P else []) @ [AppFini]))"

section \<open>Properties\<close>

text \<open>
  However the main thread and the workers of the DPDK sample are interleaved, it comes to an end, and in the end every worker whose launch
  succeeded and the main core have each printed their line exactly once; no output is lost, because the main thread waits for the workers.
\<close>

theorem dpdk_all_greet:
  assumes "0 \<le> ea_init E argv" "dpdk_reach E argv s"
  shows "(\<forall>t. dpdk_step E s t \<longrightarrow> dpdk_rank t < dpdk_rank s) \<and>
    ((\<forall>t. \<not> dpdk_step E s t) \<longrightarrow> dp_pc s = Returned 0 \<and> mset (dp_out s) = mset (map lcore_hello (greeters E)))"
proof -
  have "dp_pc s \<noteq> Panicked m" for m
    using assms(2,1) by (induction rule: dpdk_reach.induct) (auto simp: dpdk_start_def elim: dpdk_stepE)
  then show ?thesis
    using dpdk_rank_decreases dpdk_can_step [of E s] dpdk_inv_reach [OF assms(2)] by (force simp: dpdk_inv_def)
qed

definition ex_eal :: eal where
  "ex_eal = \<lparr>ea_init = (\<lambda>_. 0), ea_main_core = 0, ea_workers = [1, 2], ea_launch = (\<lambda>c. if c = 2 then -16 else 0)\<rparr>"

definition ex_dpdk :: "dpdk_pc \<Rightarrow> u32 list \<Rightarrow> string list \<Rightarrow> dpdk" where
  "ex_dpdk pc running out = \<lparr>dp_pc = pc, dp_running = running, dp_out = out\<rparr>"

lemma ex_dpdk_runs: "dpdk_reach ex_eal [] (ex_dpdk (Returned 0) [] [''hello from core 1'', ''hello from core 0''])"
proof -
  have hello: "lcore_hello 0 = ''hello from core 0''" "lcore_hello 1 = ''hello from core 1''" by code_simp+
  have "dpdk_reach ex_eal [] (ex_dpdk (Launching [1, 2]) [] [])"
    using dpdk_reach.start [of ex_eal "[]"] by (simp add: dpdk_start_def ex_eal_def ex_dpdk_def)
  from dpdk_reach.step [OF this dpdk_step.launch] have "dpdk_reach ex_eal [] (ex_dpdk (Launching [2]) [1] [])" by (simp add: ex_dpdk_def ex_eal_def)
  from dpdk_reach.step [OF this dpdk_step.launch] have "dpdk_reach ex_eal [] (ex_dpdk (Launching []) [1] [])" by (simp add: ex_dpdk_def ex_eal_def)
  from dpdk_reach.step [OF this dpdk_step.launched] have "dpdk_reach ex_eal [] (ex_dpdk Greeting [1] [])" by (simp add: ex_dpdk_def)
  from dpdk_reach.step [OF this dpdk_step.worker, of 1] have "dpdk_reach ex_eal [] (ex_dpdk Greeting [] [''hello from core 1''])"
    by (simp add: ex_dpdk_def hello)
  from dpdk_reach.step [OF this dpdk_step.greet] have "dpdk_reach ex_eal [] (ex_dpdk Waiting [] [''hello from core 1'', ''hello from core 0''])"
    by (simp add: ex_dpdk_def ex_eal_def hello)
  from dpdk_reach.step [OF this dpdk_step.wait] show ?thesis by (simp add: ex_dpdk_def)
qed

text \<open>Two workers, one of which is busy: the other one and the main core have greeted in the end.\<close>

theorem dpdk_all_greet_witness:
  "mset (dp_out (ex_dpdk (Returned 0) [] [''hello from core 1'', ''hello from core 0''])) = mset (map lcore_hello [0, 1])"
proof -
  have "0 \<le> ea_init ex_eal []" "greeters ex_eal = [0, 1]" by (simp_all add: ex_eal_def greeters_def)
  moreover have "\<not> dpdk_step ex_eal (ex_dpdk (Returned 0) [] out) t" for out t by (auto simp: ex_dpdk_def elim: dpdk_stepE)
  ultimately show ?thesis using dpdk_all_greet [OF _ ex_dpdk_runs] by simp
qed

end
