(* ===== verification/Spec2Isabelle.thy ===== *)
theory Spec2Isabelle
  imports Chunk_Order Lifetimes Intrusive Replication Processes Sad_Print Discovery Demo Plog Void_Futures Results Galois Nvme_Device Samples
begin

text \<open>
  \<^bold>\<open>The program.\<close> Pain is a distributed file system written in C++. It has three kinds of servers and two kinds of
  clients. A chunk server (\<^verbatim>\<open>src/manusya\<close>) keeps chunks: append-only files with a UUID, over a store that is either in
  memory or a local directory. A metadata server (\<^verbatim>\<open>src/deva\<close>) keeps the directory tree; several of them replicate one log
  through a raft library, and each applies the entries of the log to its own state machine. The topology server
  (\<^verbatim>\<open>src/asura\<close>) keeps the addresses of the other servers in a RocksDB database. A program uses the client library
  (\<^verbatim>\<open>src/pain\<close>), which asks the topology server where the metadata servers are and then calls the leader of these; an
  operator uses the command line client (\<^verbatim>\<open>src/sad\<close>). All of them communicate by RPC and share the base library
  (\<^verbatim>\<open>include/pain/base\<close>, \<^verbatim>\<open>src/base\<close>): futures, results, UUIDs and the propagation of tracing contexts.

  \<^bold>\<open>Conventions.\<close> A C++ object is a record or a datatype, and an operation is a function from the old to the new state. A
  64-bit length or offset is a \<^verbatim>\<open>64 word\<close>, so that sums wrap around as in the code. A buffer is a list of bytes, a string a
  list of characters, \<^verbatim>\<open>std::map\<close> an association list that the comparator keeps sorted. A \<^verbatim>\<open>Status\<close> is a record with a code
  and a message; a response is its header, its fields and the failure that the controller carries. The type \<^verbatim>\<open>outcome\<close> has
  the values \<^verbatim>\<open>Done\<close> and \<^verbatim>\<open>Abort\<close>: a failed assertion, a null dereference or an access out of range is an \<^verbatim>\<open>Abort\<close>. Code that
  is not in the repository is an argument of the definitions that use it (the UUID base class, the IOBuf of the RPC
  library, POSIX calls, protobuf serialisation, raft, RocksDB, the tracing library), and what the code relies on is a
  locale over that argument: \<^verbatim>\<open>uuid_library\<close>, \<^verbatim>\<open>iobuf_library\<close>, \<^verbatim>\<open>posix_dir\<close>, \<^verbatim>\<open>pb_library\<close>, \<^verbatim>\<open>codec_library\<close>, \<^verbatim>\<open>rocks_db\<close>, \<^verbatim>\<open>rocks_durable\<close>, \<^verbatim>\<open>rocks_dir\<close>,
  \<^verbatim>\<open>route_table\<close>, \<^verbatim>\<open>text_map\<close>, \<^verbatim>\<open>trace_propagator\<close>, \<^verbatim>\<open>tracer_library\<close>, \<^verbatim>\<open>log_library\<close>, \<^verbatim>\<open>json_library\<close>,
  \<^verbatim>\<open>isal_code\<close>, \<^verbatim>\<open>nvme_device\<close>. Each locale is interpreted on a concrete instance, which the witnesses use.

  \<^bold>\<open>Base library.\<close>
  \<^item> \<^verbatim>\<open>Prelude\<close>: bytes, status values, outcomes, decimal formatting, ordered maps with the laws of lookup after insertion
    and removal (locale \<^verbatim>\<open>comparator\<close>).
  \<^item> \<^verbatim>\<open>Uuid\<close> (\<^verbatim>\<open>uuid.h\<close>): construction from two halves, parsing, and which strings are valid.
  \<^item> \<^verbatim>\<open>Futures\<close>, \<^verbatim>\<open>Void_Futures\<close> (\<^verbatim>\<open>future.h\<close>): the shared state, promises and futures. A value is delivered once, a promise
    that is destroyed unfulfilled delivers a broken-promise error, and the second copy of the code that the header has for
    \<^verbatim>\<open>void\<close> behaves like the first at the unit type.
  \<^item> \<^verbatim>\<open>Results\<close> (\<^verbatim>\<open>result.h\<close>): the accessors and combinators of a value or an error.
  \<^item> \<^verbatim>\<open>Context_Stack\<close> (\<^verbatim>\<open>bthread_local_context_storage.cc\<close>, \<^verbatim>\<open>bthread_local.h\<close>): the stack of tracing contexts of each
    bthread with its growing array. It refines a list of contexts per bthread (locale \<^verbatim>\<open>context_storage\<close>).
  \<^item> \<^verbatim>\<open>Tracing\<close>, \<^verbatim>\<open>Spans\<close> (\<^verbatim>\<open>brpc_text_map_carrier.h\<close>, \<^verbatim>\<open>tracer.cc\<close>, \<^verbatim>\<open>tracer.h\<close>, \<^verbatim>\<open>macro.h\<close>, \<^verbatim>\<open>spdlog_sink.h\<close>): what a client injects,
    the server extracts; the span macros, trace ids and the set-up of tracing.
  \<^item> \<^verbatim>\<open>Plog\<close> (\<^verbatim>\<open>plog.h\<close>): the log macros and the set-up of the log. A line written below a handler begins with the trace id of
    the client that the handler serves, which composes the storage, the carrier, the spans and the macros.

  \<^bold>\<open>Chunk server.\<close>
  \<^item> \<^verbatim>\<open>Store\<close> (\<^verbatim>\<open>store.h\<close>, \<^verbatim>\<open>store.cc\<close>, \<^verbatim>\<open>file_handle.h\<close>): the virtual functions of a store as a record, the forwarding file
    handle, the factory, and the contract \<^verbatim>\<open>file_store\<close> that a chunk relies on.
  \<^item> \<^verbatim>\<open>Mem_Store\<close>, \<^verbatim>\<open>Local_Store\<close> (\<^verbatim>\<open>mem_store.cc\<close>, \<^verbatim>\<open>local_store.cc\<close>): the two stores. Both are proved to meet the contract,
    the first outright and the second over the laws of the POSIX calls, where a write may fail or be short: a short write ends the process, and every run that
    goes on is a run over calls that write all they are given (\<^verbatim>\<open>px_whole\<close>).
  \<^item> \<^verbatim>\<open>Chunk\<close> (\<^verbatim>\<open>chunk.cc\<close>): the operations of a chunk, with the queue of appends that wait for their offset and the
    callback of their timer; the relations \<^verbatim>\<open>chunk_step\<close> and \<^verbatim>\<open>chunk_run\<close> interleave them in any way. Its lemmas are proved
    once over \<^verbatim>\<open>file_store\<close>.
  \<^item> \<^verbatim>\<open>Mem_Chunk\<close>, \<^verbatim>\<open>Chunk_Order\<close>, \<^verbatim>\<open>Local_Chunk\<close>: the properties of chunks over the two stores. The size is the length of the
    file and the queue is sorted and pending (invariant); an acknowledged append stays readable; a waiting append is
    answered; a sealed chunk does not change; the pieces of a stream may arrive in any order.
  \<^item> \<^verbatim>\<open>Lifetimes\<close> (\<^verbatim>\<open>chunk.h\<close>, \<^verbatim>\<open>chunk.cc\<close>): the reference counts of a chunk and of its waiting appends, with the handlers, the waiting
    threads and the timers cut into the actions between which other threads may run; \<^verbatim>\<open>life_run\<close> interleaves them. No deleted
    request is used and the count of a chunk is exact; three defects of the code are shown, two of them leaks.
  \<^item> \<^verbatim>\<open>Bank\<close>, \<^verbatim>\<open>Rpc\<close>, \<^verbatim>\<open>Manusya\<close> (\<^verbatim>\<open>bank.cc\<close>, \<^verbatim>\<open>manusya_service_impl.cc\<close>): the table of chunks and the RPC handlers; \<^verbatim>\<open>server_run\<close>
    interleaves handlers, resumptions of suspended handlers and timers. Appended bytes are read back, a removed chunk is
    gone, lists are sorted pages.

  \<^bold>\<open>Metadata server.\<close>
  \<^item> \<^verbatim>\<open>Namespace\<close> (\<^verbatim>\<open>namespace.cc\<close>): the directory tree by inodes and the splitting of paths, with the contract
    \<^verbatim>\<open>directory_service\<close>: which paths resolve after a creation.
  \<^item> \<^verbatim>\<open>Deva\<close> (\<^verbatim>\<open>deva.cc\<close>): the state machine. A creation makes exactly its path visible, a refused one changes nothing, and
    after every log the paths and the file infos agree.
  \<^item> \<^verbatim>\<open>Op\<close> (\<^verbatim>\<open>op.cc\<close>, \<^verbatim>\<open>container_op.cc\<close> and their headers): the encoding of log entries and its round trip.
  \<^item> \<^verbatim>\<open>Rsm\<close> (\<^verbatim>\<open>rsm.cc\<close>, \<^verbatim>\<open>container_op.h\<close>, \<^verbatim>\<open>bridge.h\<close>): operations with the callers that wait for them, applying
    a batch as leader and as follower; both end in the same state when closures run in the order of the log, and a
    node that restarts from a snapshot loses what was logged before it.
  \<^item> \<^verbatim>\<open>Replication\<close> (\<^verbatim>\<open>rsm.cc\<close>, \<^verbatim>\<open>container_op.h\<close>): the nodes of a group over one committed log. The raft library is a parameter, as the log and the
    calls it makes on each incarnation of a node, and \<^verbatim>\<open>raft_hands\<close> is what it promises: the entries of the log come one after the other. Threads run
    closures in any order. Every node refines a single server that runs the same entries in the order in which the node ran them; two nodes never disagree on a
    path that is created once, and on any path as long as both run the log in its order; a node that begins with a snapshot has none of the inodes the snapshot covers.
  \<^item> \<^verbatim>\<open>Deva_Service\<close> (\<^verbatim>\<open>deva_service_impl.cc\<close>): the RPC handlers.

  \<^bold>\<open>Topology server.\<close>
  \<^item> \<^verbatim>\<open>Hash_Store\<close> (\<^verbatim>\<open>rocksdb_store.cc\<close>): hashes in one key space, iteration by prefix, checkpoints and recovery with
    the scope guards of \<^verbatim>\<open>scope_exit.h\<close>. A recovery leaves the contents of the checkpoint or the old ones. Every
    call of the database may fail. A write carries its options: what is written without the log, as the code does, is on disk once the database was closed
    (\<^verbatim>\<open>rocks_durable\<close>).
  \<^item> \<^verbatim>\<open>Asura\<close> (\<^verbatim>\<open>asura_service_impl.cc\<close>): the handlers, which implement a table in which the first registration of a UUID wins as long as reads succeed.

  \<^bold>\<open>Clients and processes.\<close>
  \<^item> \<^verbatim>\<open>Rpc_Client\<close> (\<^verbatim>\<open>rpc_client.h\<close>): the loop that follows redirects to the leader.
  \<^item> \<^verbatim>\<open>File_System\<close> (\<^verbatim>\<open>file_system.cc\<close>, \<^verbatim>\<open>file_stream.cc\<close>, \<^verbatim>\<open>controller.cc\<close>): the client library, and what a program observes
    when it opens a file on a metadata server.
  \<^item> \<^verbatim>\<open>Sad\<close> (\<^verbatim>\<open>src/sad\<close>): the commands, their dispatch and exit code, over the handlers of the servers.
  \<^item> \<^verbatim>\<open>Sad_Print\<close> (\<^verbatim>\<open>common.cc\<close>, \<^verbatim>\<open>manusya.cc\<close>, \<^verbatim>\<open>parse_args.cc\<close>): the JSON the client prints and the arguments its commands declare and
    read. Printed identifiers can be given back to the client, unless one of their halves is 0; every argument that is read is declared.
  \<^item> \<^verbatim>\<open>Servers\<close> (the three \<^verbatim>\<open>main.cc\<close>, \<^verbatim>\<open>src/deva/mock\<close>): starting, restarting, waiting for a leader. What the topology server
    registered survives a restart after a clean end and can be lost when it is killed; a chunk server forgets its chunks.
  \<^item> \<^verbatim>\<open>Processes\<close> (the four \<^verbatim>\<open>main.cc\<close>): logger, tracer, scope guards and static variables around the work of a process, and the order in which
    it ends; \<^verbatim>\<open>std::exit\<close> in the client bypasses the guards.
  \<^item> \<^verbatim>\<open>Discovery\<close>: registration by the command line client, then discovery by the client library.
  \<^item> \<^verbatim>\<open>Demo\<close> (\<^verbatim>\<open>src/examples/pain_demo\<close>): the example program of the client library, which reports success for data it loses.

  \<^bold>\<open>Erasure code.\<close>
  \<^item> \<^verbatim>\<open>Erasure_Decode\<close>, \<^verbatim>\<open>Erasure\<close> (\<^verbatim>\<open>src/examples/ec/ec_demo.c\<close>): the demonstration of the code that striped chunks are meant to use. All
    array accesses are checked, and every choice of at most as many lost fragments as there are parity fragments is recovered.
  \<^item> \<^verbatim>\<open>Galois\<close>: the multiplication of the field with 256 elements, and an instance of the library's contract over it.

  \<^bold>\<open>Samples.\<close>
  \<^item> \<^verbatim>\<open>Nvme_Hello\<close>, \<^verbatim>\<open>Nvme_Device\<close> (\<^verbatim>\<open>src/examples/spdk/main.c\<close>): the NVMe sample over SPDK. The trace of what it acquires, submits and
    releases is checked by \<^verbatim>\<open>ledger_run\<close>, whatever the devices do; on devices that work (locale \<^verbatim>\<open>nvme_device\<close>) it ends and prints what it
    should. Three ways in which it handles failures wrongly are lemmas of \<^verbatim>\<open>Nvme_Device\<close>.
  \<^item> \<^verbatim>\<open>Samples\<close> (\<^verbatim>\<open>src/examples/dpdk_hello_world\<close>, \<^verbatim>\<open>src/examples/nvmf_tgt\<close>): the DPDK sample with its workers interleaved, and the storage target.

  \<^bold>\<open>Loops and bounds.\<close> Loops over containers are structural recursions. Four loops of the code may run forever and are
  partial functions into options, in which \<^verbatim>\<open>None\<close> is not returning: \<^verbatim>\<open>poll_loop\<close> and \<^verbatim>\<open>attach_loop\<close> of the NVMe sample, which are proved to
  return on devices that work, the retry loop \<^verbatim>\<open>call_rpc\<close>, with a theorem that it does
  not return when its redirects are recorded for another group, and \<^verbatim>\<open>pop_until\<close>, which is proved to return whenever the
  stack holds the token. The loop \<^verbatim>\<open>skip_erased\<close> ends at the end of its array, with an \<^verbatim>\<open>Abort\<close> that is proved not to happen.
  \<^verbatim>\<open>wait_for_leader\<close> ends after a number of rounds that its timeout gives. No model uses fuel; the bound of \<^verbatim>\<open>process_completions\<close> is the one
  that the driver sets for one call. Where
  a theorem assumes that a length is below \<^verbatim>\<open>2^64\<close>, this is the condition under which the 64-bit counters of the code do
  not wrap; what happens otherwise is stated for \<^verbatim>\<open>Chunk::read\<close>.

  \<^bold>\<open>Concurrency.\<close> The sections that a mutex protects are single steps, and the step relations interleave them. \<^verbatim>\<open>MemStore::open\<close> takes no
  lock and is a single step as well: the data race between it and the other operations of the memory store is not modelled.
  Reference counts are the subject of \<^verbatim>\<open>Lifetimes\<close> for chunks and append requests and of \<^verbatim>\<open>Intrusive\<close> for the classes with an atomic
  counter, as integers without a bound, and left out elsewhere.

  \<^bold>\<open>Not modelled.\<close> \<^verbatim>\<open>types.h\<close>, \<^verbatim>\<open>path.h\<close> and \<^verbatim>\<open>pain.h\<close> hold aliases and wrappers of single library calls. Argument parsing belongs
  to a library: the models begin with the arguments it leaves behind. Log lines and spans are modelled in \<^verbatim>\<open>Plog\<close>, \<^verbatim>\<open>Spans\<close> and \<^verbatim>\<open>Processes\<close>, and left
  out of the operations of the other theories. The messages of \<^verbatim>\<open>src/protocols\<close> are generated code; the handlers' theories have records for the ones
  in use. What remains of the headers are declarations. The unit tests are not part of the program. The destructors of file handles, which close descriptors, are not run: a
  read through a handle of its own leaves the descriptor open in the model. The six requests of \<^verbatim>\<open>Deva\<close> other than the two creations, whose handlers are
  empty in the source, carry no data.

  \<^bold>\<open>Further work.\<close> A step relation for the memory store in which \<^verbatim>\<open>open\<close> is cut into its accesses of the map, and the closing of descriptors.
\<close>

end
